(* ===== verification/Prelude.thy ===== *)
theory Prelude
  imports Main "HOL-Library.List_Lexorder" "HOL-Library.Char_ord" "HOL-Library.Word"
begin

text \<open>
  Shared vocabulary of the development.  Go programs are translated into total functions:
  an operation that may return an \<open>error\<close> yields a value of the sum type \<open>'e + 'a\<close>
  (\<open>Inl\<close> the error), a loop with an early \<open>return err\<close> is \<open>foldE\<close>, and a
  Go string is a list of bytes.  String ordering (\<open>sort.Strings\<close>, \<open>ORDER BY\<close> on a
  text column) is the bytewise lexicographic order of \<^theory_text>\<open>List_Lexorder\<close>.

  The functions of package \<^verbatim>\<open>strings\<close> and \<^verbatim>\<open>strconv\<close> that the
  modelled code calls are defined here over ASCII: \<open>unicode.IsSpace\<close> and
  \<open>strings.ToLower\<close> are restricted to the ASCII range.
\<close>

named_theorems model_defs
  \<open>definitions of the model that proofs unfold together\<close>

named_theorems frame_simps
  \<open>equations that say which part of a state an operation leaves alone\<close>

section \<open>Errors as values\<close>

type_synonym ('e, 'a) result = "'e + 'a"

definition is_err :: "'e + 'a \<Rightarrow> bool" where
  "is_err r = (case r of Inl _ \<Rightarrow> True | Inr _ \<Rightarrow> False)"

definition is_ok :: "'e + 'a \<Rightarrow> bool" where
  "is_ok r = (case r of Inl _ \<Rightarrow> False | Inr _ \<Rightarrow> True)"

lemma is_err_simps [simp]: "is_err (Inl e)" "\<not> is_err (Inr x)"
  by (simp_all add: is_err_def)

lemma is_ok_simps [simp]: "\<not> is_ok (Inl e)" "is_ok (Inr x)"
  by (simp_all add: is_ok_def)

lemma is_ok_iff: "is_ok r \<longleftrightarrow> (\<exists>x. r = Inr x)"
  by (cases r) auto

definition bindE :: "'e + 'a \<Rightarrow> ('a \<Rightarrow> 'e + 'b) \<Rightarrow> 'e + 'b" where
  "bindE r f = (case r of Inl e \<Rightarrow> Inl e | Inr x \<Rightarrow> f x)"

lemma bindE_simps [simp]: "bindE (Inl e) f = Inl e" "bindE (Inr x) f = f x"
  by (simp_all add: bindE_def)

lemma bindE_Inr [simp]: "bindE r f = Inr y \<longleftrightarrow> (\<exists>x. r = Inr x \<and> f x = Inr y)"
  by (cases r) auto

text \<open>\<open>if cond { return err }\<close>.\<close>

definition guardE :: "bool \<Rightarrow> 'e \<Rightarrow> 'e + unit" where
  "guardE ok e = (if ok then Inr () else Inl e)"

lemma guardE_Inr [simp]: "guardE ok e = Inr u \<longleftrightarrow> ok"
  by (simp add: guardE_def)

lemma guardE_simps [simp]: "guardE True e = Inr ()" "guardE False e = Inl e"
  by (simp_all add: guardE_def)

text \<open>A loop over a slice whose body may return an error.\<close>

fun foldE :: "('a \<Rightarrow> 's \<Rightarrow> 'e + 's) \<Rightarrow> 'a list \<Rightarrow> 's \<Rightarrow> 'e + 's" where
  "foldE f [] s = Inr s"
| "foldE f (x # xs) s = (case f x s of Inl e \<Rightarrow> Inl e | Inr s' \<Rightarrow> foldE f xs s')"

lemma foldE_append:
  "foldE f (xs @ ys) s = (case foldE f xs s of Inl e \<Rightarrow> Inl e | Inr s' \<Rightarrow> foldE f ys s')"
  by (induction xs arbitrary: s) (auto split: sum.splits)

lemma foldE_Cons_Inr:
  "foldE f (x # xs) s = Inr t \<longleftrightarrow> (\<exists>u. f x s = Inr u \<and> foldE f xs u = Inr t)"
  by (auto split: sum.splits)

lemma foldE_invariant:
  assumes "foldE f xs s = Inr t" and "P s"
    and "\<And>x u v. x \<in> set xs \<Longrightarrow> P u \<Longrightarrow> f x u = Inr v \<Longrightarrow> P v"
  shows "P t"
  using assms
proof (induction xs arbitrary: s)
  case Nil
  then show ?case by simp
next
  case (Cons x xs)
  from Cons.prems(1) obtain u where u: "f x s = Inr u" and rest: "foldE f xs u = Inr t"
    by (auto split: sum.splits)
  have "P u" using Cons.prems(2,3) u by (meson list.set_intros(1))
  show ?case
    by (rule Cons.IH [OF rest \<open>P u\<close>]) (meson Cons.prems(3) list.set_intros(2))
qed

text \<open>What a loop checks of each element, under an invariant of the state it carries.\<close>

lemma foldE_each:
  assumes "foldE f xs s = Inr t" and "I s"
    and "\<And>x u v. x \<in> set xs \<Longrightarrow> I u \<Longrightarrow> f x u = Inr v \<Longrightarrow> I v \<and> P x"
  shows "\<forall>x \<in> set xs. P x"
  using assms
proof (induction xs arbitrary: s)
  case (Cons x xs)
  from Cons.prems(1) obtain u where u: "f x s = Inr u" and rest: "foldE f xs u = Inr t"
    unfolding foldE_Cons_Inr by blast
  have x: "I u \<and> P x" using Cons.prems(2,3) u by (meson list.set_intros(1))
  have "\<forall>y \<in> set xs. P y"
    by (rule Cons.IH [OF rest]) (use x Cons.prems(3) in \<open>auto intro: list.set_intros\<close>)
  with x show ?case by simp
qed simp

text \<open>A loop that refuses a key it has seen: the keys of the elements are distinct and new.\<close>

lemma foldE_fresh:
  assumes "foldE f xs s = Inr t" and "I s"
    and "\<And>x u v. x \<in> set xs \<Longrightarrow> I u \<Longrightarrow> f x u = Inr v \<Longrightarrow>
      I v \<and> key x \<notin> K u \<and> K v = insert (key x) (K u)"
  shows "distinct (map key xs) \<and> key ` set xs \<inter> K s = {} \<and> K t = K s \<union> key ` set xs"
  using assms
proof (induction xs arbitrary: s)
  case (Cons x xs)
  from Cons.prems(1) obtain u where u: "f x s = Inr u" and rest: "foldE f xs u = Inr t"
    unfolding foldE_Cons_Inr by blast
  have x: "I u \<and> key x \<notin> K s \<and> K u = insert (key x) (K s)"
    using Cons.prems(2,3) u by (meson list.set_intros(1))
  have "distinct (map key xs) \<and> key ` set xs \<inter> K u = {} \<and> K t = K u \<union> key ` set xs"
    by (rule Cons.IH [OF rest]) (use x Cons.prems(3) in \<open>auto intro: list.set_intros\<close>)
  with x show ?case by auto
qed simp

lemmas foldE_distinct = foldE_fresh [THEN conjunct1]

lemmas foldE_keys = foldE_fresh [THEN conjunct2, THEN conjunct2]

text \<open>A check over every element: the loop that carries no state.\<close>

definition allE :: "('a \<Rightarrow> 'e + unit) \<Rightarrow> 'a list \<Rightarrow> 'e + unit" where
  "allE f xs = foldE (\<lambda>x _. f x) xs ()"

lemma allE_simps [simp]:
  "allE f [] = Inr ()"
  "allE f (x # xs) = (case f x of Inl e \<Rightarrow> Inl e | Inr _ \<Rightarrow> allE f xs)"
  by (auto simp: allE_def split: sum.splits)

lemma allE_Inr: "allE f xs = Inr () \<longleftrightarrow> (\<forall>x \<in> set xs. f x = Inr ())"
  by (induction xs) (auto split: sum.splits)

text \<open>A loop that appends one result per element, and fails with the first error.\<close>

fun mapE :: "('a \<Rightarrow> 'e + 'b) \<Rightarrow> 'a list \<Rightarrow> 'e + 'b list" where
  "mapE f [] = Inr []"
| "mapE f (x # xs) =
     (case f x of
        Inl e \<Rightarrow> Inl e
      | Inr y \<Rightarrow> (case mapE f xs of Inl e \<Rightarrow> Inl e | Inr ys \<Rightarrow> Inr (y # ys)))"

lemma mapE_Cons_Inr:
  "mapE f (x # xs) = Inr ys \<longleftrightarrow> (\<exists>y zs. f x = Inr y \<and> mapE f xs = Inr zs \<and> ys = y # zs)"
  by (auto split: sum.split)

lemma mapE_Inr: "mapE f xs = Inr ys \<longleftrightarrow> list_all2 (\<lambda>x y. f x = Inr y) xs ys"
proof (induction xs arbitrary: ys)
  case (Cons x xs)
  show ?case unfolding mapE_Cons_Inr Cons.IH by (auto simp: list_all2_Cons1)
qed auto

lemma mapE_image: "mapE f xs = Inr ys \<Longrightarrow> y \<in> set ys \<longleftrightarrow> (\<exists>x \<in> set xs. f x = Inr y)"
  by (induction xs arbitrary: ys) (auto split: sum.split_asm)

lemma mapE_total: "(\<And>x. x \<in> set xs \<Longrightarrow> \<exists>y. f x = Inr y) \<Longrightarrow> \<exists>ys. mapE f xs = Inr ys"
  by (induction xs) (fastforce split: sum.split)+

lemma mapE_key:
  assumes "mapE f xs = Inr ys" and "\<And>x y. f x = Inr y \<Longrightarrow> g y = h x"
  shows "map g ys = map h xs"
proof -
  have "list_all2 (\<lambda>x y. h x = g y) xs ys"
    by (rule list_all2_mono [OF assms(1) [unfolded mapE_Inr]]) (simp add: assms(2))
  then show ?thesis by (induction rule: list_all2_induct) simp_all
qed

section \<open>Strings\<close>

definition is_space :: "char \<Rightarrow> bool" where
  "is_space c \<longleftrightarrow> c \<in> {CHR '' '', CHR 0x09, CHR 0x0A, CHR 0x0B, CHR 0x0C, CHR 0x0D}"

definition TrimSpace :: "string \<Rightarrow> string" where
  "TrimSpace s = rev (dropWhile is_space (rev (dropWhile is_space s)))"

definition joinWith :: "string \<Rightarrow> string list \<Rightarrow> string" where
  "joinWith sep xs = (case xs of [] \<Rightarrow> [] | y # ys \<Rightarrow> y @ concat (map (\<lambda>z. sep @ z) ys))"

fun nat_digits :: "nat \<Rightarrow> string" where
  "nat_digits n = (if n < 10 then [char_of (48 + n)]
     else nat_digits (n div 10) @ [char_of (48 + n mod 10)])"

declare nat_digits.simps [simp del]

definition itoa :: "int \<Rightarrow> string" where
  "itoa i = (if i < 0 then CHR ''-'' # nat_digits (nat (- i)) else nat_digits (nat i))"

section \<open>State machines\<close>

text \<open>The contract every stateful component discharges: its start states are safe and each of
  its operations keeps them so.  What follows for whole runs is proved once.\<close>

locale safe_system =
  fixes initial :: "'s \<Rightarrow> bool"
    and step :: "'s \<Rightarrow> 's \<Rightarrow> bool"
    and safe :: "'s \<Rightarrow> bool"
  assumes initial_safe: "initial s \<Longrightarrow> safe s"
    and step_safe: "step s t \<Longrightarrow> safe s \<Longrightarrow> safe t"
begin

lemma run_safe: "step\<^sup>*\<^sup>* s t \<Longrightarrow> safe s \<Longrightarrow> safe t"
  by (induction rule: rtranclp_induct) (auto intro: step_safe)

lemma reachable_safe: "initial s \<Longrightarrow> step\<^sup>*\<^sup>* s t \<Longrightarrow> safe t"
  using initial_safe run_safe by blast

end

section \<open>Loops that remember what they have seen\<close>

text \<open>Most validators of the program are one loop over a slice that fills maps of the keys seen
  so far and rejects an element that clashes with them.  The contract of the loop body: a
  successful turn extends the remembered items by those of the element (\<open>seen\<close> says that the
  state describes a list of items), and establishes \<open>ok\<close> of the element.\<close>

locale accumulating_loop =
  fixes step :: "'a \<Rightarrow> 's \<Rightarrow> 'e + 's"
    and seen :: "'b list \<Rightarrow> 's \<Rightarrow> bool"
    and items :: "'a \<Rightarrow> 'b list"
    and ok :: "'a \<Rightarrow> bool"
  assumes step_seen: "step x s = Inr t \<Longrightarrow> seen L s \<Longrightarrow> seen (L @ items x) t"
    and step_ok: "step x s = Inr t \<Longrightarrow> seen L s \<Longrightarrow> ok x"
begin

lemma loop_seen:
  "foldE step xs s = Inr t \<Longrightarrow> seen L s \<Longrightarrow> seen (L @ concat (map items xs)) t"
proof (induction xs arbitrary: s L)
  case (Cons x xs)
  then obtain u where u: "step x s = Inr u" and rest: "foldE step xs u = Inr t"
    by (auto simp only: foldE_Cons_Inr)
  show ?case
    using Cons.IH [OF rest step_seen [OF u Cons.prems(2)]] by simp
qed simp

lemma loop_ok: "foldE step xs s = Inr t \<Longrightarrow> seen L s \<Longrightarrow> x \<in> set xs \<Longrightarrow> ok x"
proof (induction xs arbitrary: s L)
  case (Cons y xs)
  then obtain u where u: "step y s = Inr u" and rest: "foldE step xs u = Inr t"
    by (auto simp only: foldE_Cons_Inr)
  show ?case
    using Cons.IH [OF rest step_seen [OF u Cons.prems(2)]] step_ok [OF u Cons.prems(2)] Cons.prems(3)
    by auto
qed simp

end

end
