(* ===== verification/Incidents.thy ===== *)
theory Incidents
  imports Prelude Complex_Main
begin

text \<open>
  The durable Holmes incident queue: \<^verbatim>\<open>internal/observability/incidents/store.go\<close>.

  The store is a record holding the three SQLite tables, the limits, and two streams that
  stand for what the process cannot control: \<open>s_now\<close>, the successive results of the
  \<open>now\<close> function the Go struct carries, and \<open>db_fault\<close>, which says of each SQL
  statement, in the order they are issued, whether the database driver reports a failure for
  it.  Every operation returns its Go result, an error being \<open>Inl\<close>, together with the
  store it leaves behind, because a failed operation may already have written.  The SQL
  statements are translated clause by clause, with the primary keys and the partial unique
  index of \<open>init\<close> enforced by the inserts.  Time is an \<open>int\<close> of nanoseconds.
\<close>

section \<open>Data\<close>

datatype State = Queued | Investigating | Completed | Failed | Unavailable | Recovery
  | OtherState string

record Limits =
  Retention :: int
  MaxIncidents :: int
  MaxRounds :: int
  MaxInvestigations :: int
  InvestigationBudget :: int
  InvestigationDeadline :: int
  DailyBudgetUSD :: rat
  InvestigationBudgetUSD :: rat

definition normalized :: "Limits \<Rightarrow> Limits" where
  "normalized l =
    (let l = (if Retention l \<le> 0 then l\<lparr>Retention := 30 * 24 * 3600000000000\<rparr> else l);
         l = (if MaxIncidents l \<le> 0 then l\<lparr>MaxIncidents := 1000\<rparr> else l);
         l = (if MaxRounds l \<le> 0 then l\<lparr>MaxRounds := 6\<rparr> else l);
         l = (if MaxInvestigations l \<le> 0 then l\<lparr>MaxInvestigations := 1\<rparr> else l);
         l = (if InvestigationBudget l \<le> 0 then l\<lparr>InvestigationBudget := 5 * 60000000000\<rparr> else l);
         l = (if InvestigationDeadline l \<le> 0 then l\<lparr>InvestigationDeadline := 30 * 1000000000\<rparr> else l)
     in l)"

text \<open>\<open>ObservedAt\<close> is \<open>None\<close> for Go's zero time; \<open>Labels\<close> is the label map as
  an association list with distinct keys.\<close>

record Alert =
  al_ID :: string
  al_Fingerprint :: string
  al_Source :: string
  al_Title :: string
  al_Body :: string
  al_Group :: string
  al_Labels :: "(string \<times> string) list"
  al_ObservedAt :: "int option"

definition maxAlertID :: nat where "maxAlertID = 128"
definition maxAlertText :: nat where "maxAlertText = 4096"
definition maxAlertLabels :: nat where "maxAlertLabels = 32"
definition maxAlertLabelText :: nat where "maxAlertLabelText = 128"

record Incident =
  in_ID :: string
  in_Fingerprint :: string
  in_Group :: string
  in_Source :: string
  in_Title :: string
  in_Body :: string
  in_Labels :: "(string \<times> string) list"
  in_State :: State
  in_Attempts :: int
  in_Rounds :: int
  in_CreatedAt :: int
  in_UpdatedAt :: int
  in_LastError :: string

record IncidentEvent =
  ev_id :: string
  ev_incident_id :: string
  ev_state :: State
  ev_created_at :: int
  ev_detail :: string

record Store =
  incidents :: "Incident list"
  incident_events :: "IncidentEvent list"
  incident_budget :: "int \<rightharpoonup> int"
  limits :: Limits
  s_now :: "nat \<Rightarrow> int"
  s_reads :: nat
  db_fault :: "nat \<Rightarrow> bool"
  db_calls :: nat

datatype IncidentError =
    NilDatabase
  | SourceAndTitleRequired
  | AlertExceedsSizeBound
  | TooManyLabels
  | LabelExceedsSizeBound
  | QueueFull
  | IdUsedByOtherFingerprint
  | InvalidTransition State State
  | StaleTransition
  | NilInvestigator
  | NoRows
  | NotReady string State
  | BudgetExhausted
  | ConstraintFailed
  | DatabaseError
  | InvestigatorError string

text \<open>One call of \<open>s.now()\<close>, and one SQL statement reaching the driver.\<close>

definition read_now :: "Store \<Rightarrow> int \<times> Store" where
  "read_now s = (s_now s (s_reads s), s\<lparr>s_reads := Suc (s_reads s)\<rparr>)"

definition db_stmt :: "Store \<Rightarrow> bool \<times> Store" where
  "db_stmt s = (db_fault s (db_calls s), s\<lparr>db_calls := Suc (db_calls s)\<rparr>)"

section \<open>Opening\<close>

text \<open>\<open>tables\<close> is the content of the database file: \<open>None\<close> for a nil handle.  The
  statements of \<open>init\<close> only create what is missing.\<close>

definition NewStore ::
  "(Incident list \<times> IncidentEvent list \<times> (int \<rightharpoonup> int)) option \<Rightarrow> Limits \<Rightarrow> (nat \<Rightarrow> int) \<Rightarrow>
   (nat \<Rightarrow> bool) \<Rightarrow> IncidentError + Store" where
  "NewStore tables l now fault =
    (case tables of
       None \<Rightarrow> Inl NilDatabase
     | Some (rows, evs, bud) \<Rightarrow>
         let s = \<lparr>incidents = rows, incident_events = evs, incident_budget = bud,
                  limits = normalized l, s_now = now, s_reads = 0,
                  db_fault = fault, db_calls = 0\<rparr>;
             (bad, s) = db_stmt s
         in if bad then Inl DatabaseError else Inr s)"

section \<open>Intake\<close>

definition active_state :: "State \<Rightarrow> bool" where
  "active_state st \<longleftrightarrow> st = Queued \<or> st = Investigating \<or> st = Unavailable \<or> st = Recovery"

definition terminal_state :: "State \<Rightarrow> bool" where
  "terminal_state st \<longleftrightarrow> st = Completed \<or> st = Failed"

text \<open>\<open>hash\<close> stands for \<open>hex.EncodeToString(sha256.Sum256(...))\<close>.\<close>

definition fingerprint :: "(string \<Rightarrow> string) \<Rightarrow> Alert \<Rightarrow> string" where
  "fingerprint hash a =
    (if TrimSpace (al_Fingerprint a) \<noteq> [] then TrimSpace (al_Fingerprint a)
     else let labels = sort (map (\<lambda>(k, v). k @ ''='' @ v) (al_Labels a))
          in hash (joinWith [CHR 0x00]
                [al_Source a, al_Title a, al_Group a, joinWith [CHR 0x00] labels]))"

definition getActiveByFingerprint ::
  "Store \<Rightarrow> string \<Rightarrow> (IncidentError + Incident) \<times> Store" where
  "getActiveByFingerprint s fp =
    (let (bad, s) = db_stmt s
     in if bad then (Inl DatabaseError, s)
        else case sort_key (\<lambda>r. - in_UpdatedAt r)
                (filter (\<lambda>r. in_Fingerprint r = fp \<and> active_state (in_State r)) (incidents s)) of
               [] \<Rightarrow> (Inl NoRows, s)
             | r # _ \<Rightarrow> (Inr r, s))"

definition Get ::
  "Store \<Rightarrow> string \<Rightarrow> bool \<Rightarrow> (IncidentError + Incident option \<times> bool) \<times> Store" where
  "Get s iid includeTerminal =
    (let (bad, s) = db_stmt s
     in if bad then (Inl DatabaseError, s)
        else case find (\<lambda>r. in_ID r = iid) (incidents s) of
               None \<Rightarrow> (Inr (None, False), s)
             | Some r \<Rightarrow>
                 if \<not> includeTerminal \<and> (in_State r = Completed \<or> in_State r = Failed)
                 then (Inr (Some r, False), s)
                 else (Inr (Some r, True), s))"

text \<open>The insert of \<open>Intake\<close>, refused by the primary key or by the unique index on the
  fingerprints of active incidents.\<close>

definition insertIncident :: "Store \<Rightarrow> Incident \<Rightarrow> (IncidentError + unit) \<times> Store" where
  "insertIncident s r =
    (let (bad, s) = db_stmt s
     in if bad then (Inl DatabaseError, s)
        else if (\<exists>q \<in> set (incidents s). in_ID q = in_ID r) then (Inl ConstraintFailed, s)
        else if active_state (in_State r) \<and>
                (\<exists>q \<in> set (incidents s). active_state (in_State q) \<and> in_Fingerprint q = in_Fingerprint r)
        then (Inl ConstraintFailed, s)
        else (Inr (), s\<lparr>incidents := incidents s @ [r]\<rparr>))"

text \<open>The two \<open>DELETE\<close> statements of \<open>prune\<close>: terminal incidents past the retention,
  and terminal incidents beyond the newest \<open>MaxIncidents\<close>.\<close>

definition prune_expired :: "int \<Rightarrow> Incident list \<Rightarrow> Incident list" where
  "prune_expired cutoff rows =
    filter (\<lambda>r. \<not> (in_UpdatedAt r < cutoff \<and> terminal_state (in_State r))) rows"

definition prune_excess :: "int \<Rightarrow> Incident list \<Rightarrow> Incident list" where
  "prune_excess offset rows =
    (let newest_first = sort_key (\<lambda>r. - in_UpdatedAt r) (filter (\<lambda>r. terminal_state (in_State r)) rows);
         doomed = map in_ID (drop (nat offset) newest_first)
     in filter (\<lambda>r. in_ID r \<notin> set doomed) rows)"

definition prune :: "Store \<Rightarrow> (IncidentError + unit) \<times> Store" where
  "prune s =
    (let (now, s) = read_now s;
         cutoff = now - Retention (limits s);
         (bad, s) = db_stmt s
     in if bad then (Inl DatabaseError, s)
        else
          let s = s\<lparr>incidents := prune_expired cutoff (incidents s)\<rparr>;
              (bad, s) = db_stmt s
          in if bad then (Inl DatabaseError, s)
             else (Inr (), s\<lparr>incidents := prune_excess (MaxIncidents (limits s)) (incidents s)\<rparr>))"

definition alert_error :: "Alert \<Rightarrow> IncidentError option" where
  "alert_error a =
    (if TrimSpace (al_Source a) = [] \<or> TrimSpace (al_Title a) = [] then Some SourceAndTitleRequired
     else if length (al_ID a) > maxAlertID \<or> length (al_Fingerprint a) > maxAlertID
        \<or> length (al_Source a) > maxAlertLabelText \<or> length (al_Title a) > maxAlertText
        \<or> length (al_Body a) > maxAlertText \<or> length (al_Group a) > maxAlertLabelText
     then Some AlertExceedsSizeBound
     else if length (al_Labels a) > maxAlertLabels then Some TooManyLabels
     else if (\<exists>(k, v) \<in> set (al_Labels a).
        length k = 0 \<or> length k > maxAlertLabelText \<or> length v > maxAlertLabelText)
     then Some LabelExceedsSizeBound
     else None)"

definition activeCount :: "Store \<Rightarrow> int" where
  "activeCount s = int (length (filter (\<lambda>r. active_state (in_State r)) (incidents s)))"

text \<open>The part of \<open>Intake\<close> after the alert has passed its checks and no active incident
  carries its fingerprint.\<close>

definition intake_insert ::
  "Store \<Rightarrow> Alert \<Rightarrow> int \<Rightarrow> string \<Rightarrow> (IncidentError + Incident option \<times> bool) \<times> Store" where
  "intake_insert s a observed fp =
    (let (now, s) = read_now s;
         iid = (let t = TrimSpace (al_ID a) in if t = [] then fp @ ''-'' @ itoa now else t);
         r = \<lparr>in_ID = iid, in_Fingerprint = fp, in_Group = al_Group a, in_Source = al_Source a,
              in_Title = al_Title a, in_Body = al_Body a, in_Labels = al_Labels a,
              in_State = Queued, in_Attempts = 0, in_Rounds = 0, in_CreatedAt = observed,
              in_UpdatedAt = now, in_LastError = []\<rparr>
     in case insertIncident s r of
          (Inr _, s) \<Rightarrow>
            (let (_, s) = prune s
             in case Get s iid False of
                  (Inl e, s) \<Rightarrow> (Inl e, s)
                | (Inr (i, _), s) \<Rightarrow> (Inr (i, False), s))
        | (Inl err, s) \<Rightarrow>
            if al_ID a \<noteq> [] then
              (case Get s (al_ID a) True of
                 (Inr (Some existing, True), s) \<Rightarrow>
                   if in_Fingerprint existing \<noteq> fp then (Inl IdUsedByOtherFingerprint, s)
                   else (Inr (Some existing, True), s)
               | (_, s) \<Rightarrow> (Inl err, s))
            else (Inl err, s))"

definition Intake ::
  "(string \<Rightarrow> string) \<Rightarrow> Store \<Rightarrow> Alert \<Rightarrow> (IncidentError + Incident option \<times> bool) \<times> Store" where
  "Intake hash s a =
    (case alert_error a of
       Some e \<Rightarrow> (Inl e, s)
     | None \<Rightarrow>
         let (observed, s) = (case al_ObservedAt a of Some t \<Rightarrow> (t, s) | None \<Rightarrow> read_now s);
             a = (if al_Group a = [] then a\<lparr>al_Group := al_Source a\<rparr> else a);
             fp = fingerprint hash a
         in case getActiveByFingerprint s fp of
              (Inr existing, s) \<Rightarrow> (Inr (Some existing, True), s)
            | (Inl e, s) \<Rightarrow>
                if e \<noteq> NoRows then (Inl e, s)
                else
                  let (bad, s) = db_stmt s
                  in if bad then (Inl DatabaseError, s)
                     else if activeCount s \<ge> MaxIncidents (limits s) then (Inl QueueFull, s)
                     else intake_insert s a observed fp)"

section \<open>State transitions\<close>

definition transitions :: "State \<Rightarrow> State \<Rightarrow> bool" where
  "transitions from to =
    (case from of
       Queued \<Rightarrow> to \<in> {Investigating, Unavailable, Recovery, Failed}
     | Investigating \<Rightarrow> to \<in> {Completed, Failed, Unavailable, Recovery, Queued}
     | Unavailable \<Rightarrow> to \<in> {Queued, Recovery, Failed}
     | Recovery \<Rightarrow> to \<in> {Queued, Investigating, Completed, Failed, Unavailable}
     | _ \<Rightarrow> False)"

text \<open>The \<open>WHERE\<close> clause of the update and the columns it sets.\<close>

definition transition_matches :: "Limits \<Rightarrow> string \<Rightarrow> State \<Rightarrow> State \<Rightarrow> Incident \<Rightarrow> bool" where
  "transition_matches l iid from to r \<longleftrightarrow> in_ID r = iid \<and> in_State r = from \<and>
     (to = Investigating \<longrightarrow> in_Attempts r < MaxInvestigations l \<and> in_Rounds r < MaxRounds l)"

definition transition_row :: "State \<Rightarrow> string \<Rightarrow> int \<Rightarrow> Incident \<Rightarrow> Incident" where
  "transition_row to detail now r =
    (if to = Investigating
     then r\<lparr>in_State := to, in_Attempts := in_Attempts r + 1, in_Rounds := in_Rounds r + 1,
            in_UpdatedAt := now\<rparr>
     else r\<lparr>in_State := to, in_LastError := detail, in_UpdatedAt := now\<rparr>)"

definition transition_rows :: "Limits \<Rightarrow> string \<Rightarrow> State \<Rightarrow> State \<Rightarrow> string \<Rightarrow> int \<Rightarrow> Incident list \<Rightarrow> Incident list" where
  "transition_rows l iid from to d now rows =
     map (\<lambda>r. if transition_matches l iid from to r then transition_row to d now r else r) rows"

definition insertEvent :: "Store \<Rightarrow> IncidentEvent \<Rightarrow> (IncidentError + unit) \<times> Store" where
  "insertEvent s e =
    (let (bad, s) = db_stmt s
     in if bad then (Inl DatabaseError, s)
        else if (\<exists>q \<in> set (incident_events s). ev_id q = ev_id e) then (Inl ConstraintFailed, s)
        else (Inr (), s\<lparr>incident_events := incident_events s @ [e]\<rparr>))"

definition Transition ::
  "Store \<Rightarrow> string \<Rightarrow> State \<Rightarrow> State \<Rightarrow> string \<Rightarrow> (IncidentError + unit) \<times> Store" where
  "Transition s iid from to detail =
    (if \<not> transitions from to then (Inl (InvalidTransition from to), s)
     else
       let (now, s) = read_now s;
           (bad, s) = db_stmt s
       in if bad then (Inl DatabaseError, s)
          else
            let hit = transition_matches (limits s) iid from to;
                changes = length (filter hit (incidents s));
                s = s\<lparr>incidents := transition_rows (limits s) iid from to detail now (incidents s)\<rparr>;
                (bad, s) = db_stmt s
            in if bad then (Inl DatabaseError, s)
               else if changes \<noteq> 1 then (Inl StaleTransition, s)
               else
                 let (t1, s) = read_now s;
                     (t2, s) = read_now s
                 in insertEvent s \<lparr>ev_id = iid @ ''-'' @ itoa t1, ev_incident_id = iid,
                      ev_state = to, ev_created_at = t2, ev_detail = detail\<rparr>)"

definition Recover :: "Store \<Rightarrow> (IncidentError + nat) \<times> Store" where
  "Recover s =
    (let (now, s) = read_now s;
         (bad, s) = db_stmt s
     in if bad then (Inl DatabaseError, s)
        else (Inr (length (filter (\<lambda>r. in_State r = Investigating) (incidents s))),
              s\<lparr>incidents := map (\<lambda>r. if in_State r = Investigating
                   then r\<lparr>in_State := Recovery, in_UpdatedAt := now\<rparr> else r) (incidents s)\<rparr>))"

definition ListIncidents :: "Store \<Rightarrow> State list \<Rightarrow> (IncidentError + Incident list) \<times> Store" where
  "ListIncidents s states =
    (let (bad, s) = db_stmt s
     in if bad then (Inl DatabaseError, s)
        else (Inr (sort_key in_UpdatedAt
               (if states = [] then incidents s
                else filter (\<lambda>r. in_State r \<in> set states) (incidents s))), s))"

section \<open>Investigation\<close>

record InvestigationRequest =
  rq_Incident :: "Incident option"
  rq_Round :: int
  rq_Budget :: int
  rq_Deadline :: int

record InvestigationResult =
  rs_State :: State
  rs_Detail :: string

text \<open>An investigator returns a result and, as \<open>Some\<close> message, an error.  \<open>None\<close> stands
  for a nil interface.\<close>

type_synonym Investigator = "InvestigationRequest \<Rightarrow> InvestigationResult \<times> string option"

definition utc_day :: "int \<Rightarrow> int" where
  "utc_day t = t div 86400000000000"

definition usd_cents :: "rat \<Rightarrow> int" where
  "usd_cents x = \<lfloor>x * 100\<rfloor>"

definition max_cents :: "Limits \<Rightarrow> int" where
  "max_cents l = usd_cents (DailyBudgetUSD l)"

definition reserve_cents :: "Limits \<Rightarrow> int" where
  "reserve_cents l = (let c = usd_cents (InvestigationBudgetUSD l) in if c < 1 then 1 else c)"

definition budget_enabled :: "Limits \<Rightarrow> bool" where
  "budget_enabled l \<longleftrightarrow> \<not> (DailyBudgetUSD l \<le> 0 \<or> InvestigationBudgetUSD l \<le> 0)"

text \<open>The retry loop of \<open>reserveBudget\<close>.  \<open>None\<close> says the loop is still running after
  \<open>fuel\<close> iterations: the failed insert \<open>continue\<close>s.\<close>

fun reserve_loop :: "nat \<Rightarrow> Store \<Rightarrow> int \<Rightarrow> int \<Rightarrow> int \<Rightarrow> ((IncidentError + unit) \<times> Store) option" where
  "reserve_loop 0 s day maxCents reserveCents = None"
| "reserve_loop (Suc fuel) s day maxCents reserveCents =
    (let (bad, s) = db_stmt s
     in if bad then Some (Inl DatabaseError, s)
        else case incident_budget s day of
          None \<Rightarrow>
            (let (bad, s) = db_stmt s
             in if \<not> bad
                then Some (Inr (), s\<lparr>incident_budget := (incident_budget s)(day \<mapsto> reserveCents)\<rparr>)
                else reserve_loop fuel s day maxCents reserveCents)
        | Some reserved \<Rightarrow>
            if reserved + reserveCents > maxCents then Some (Inl BudgetExhausted, s)
            else
              let (bad, s) = db_stmt s
              in if bad then Some (Inl DatabaseError, s)
                 else if incident_budget s day = Some reserved
                 then Some (Inr (), s\<lparr>incident_budget :=
                        (incident_budget s)(day \<mapsto> reserved + reserveCents)\<rparr>)
                 else reserve_loop fuel s day maxCents reserveCents)"

definition reserveBudget :: "nat \<Rightarrow> Store \<Rightarrow> ((IncidentError + unit) \<times> Store) option" where
  "reserveBudget fuel s =
    (if \<not> budget_enabled (limits s) then Some (Inr (), s)
     else let (now, s) = read_now s
          in reserve_loop fuel s (utc_day now) (max_cents (limits s)) (reserve_cents (limits s)))"

text \<open>\<open>Investigate\<close> up to the call of the investigator: the request it will be given.\<close>

definition begin_investigation ::
  "nat \<Rightarrow> Store \<Rightarrow> string \<Rightarrow> ((IncidentError + InvestigationRequest) \<times> Store) option" where
  "begin_investigation fuel s iid =
    (case Get s iid True of
       (Inl e, s) \<Rightarrow> Some (Inl e, s)
     | (Inr (None, _), s) \<Rightarrow> Some (Inl NoRows, s)
     | (Inr (Some i, _), s) \<Rightarrow>
         if in_State i \<noteq> Queued \<and> in_State i \<noteq> Recovery \<and> in_State i \<noteq> Unavailable
         then Some (Inl (NotReady iid (in_State i)), s)
         else case reserveBudget fuel s of
           None \<Rightarrow> None
         | Some (Inl e, s) \<Rightarrow> Some (Inl e, s)
         | Some (Inr _, s) \<Rightarrow>
             (case Transition s iid (in_State i) Investigating [] of
                (Inl e, s) \<Rightarrow> Some (Inl e, s)
              | (Inr _, s) \<Rightarrow>
                  (let (got, s) = Get s iid True;
                       i' = (case got of Inl _ \<Rightarrow> None | Inr (r, _) \<Rightarrow> r);
                       budget = InvestigationBudget (limits s);
                       deadline = InvestigationDeadline (limits s);
                       deadline = (if deadline > budget then budget else deadline);
                       budget = deadline
                   in Some (Inr \<lparr>rq_Incident = i',
                        rq_Round = (case i' of None \<Rightarrow> 0 | Some r \<Rightarrow> in_Rounds r),
                        rq_Budget = budget, rq_Deadline = deadline\<rparr>, s))))"

text \<open>\<open>Investigate\<close> after the investigator has returned.\<close>

definition result_state :: "State \<Rightarrow> State" where
  "result_state st =
    (let target = (if st = OtherState [] then Completed else st)
     in if target \<noteq> Completed \<and> target \<noteq> Unavailable \<and> target \<noteq> Failed \<and> target \<noteq> Recovery
        then Failed else target)"

definition finish_investigation ::
  "Store \<Rightarrow> string \<Rightarrow> InvestigationResult \<times> string option \<Rightarrow> (IncidentError + Incident option) \<times> Store" where
  "finish_investigation s iid outcome =
    (let (result, callErr) = outcome;
         (_, s) = (case callErr of
                Some e \<Rightarrow> Transition s iid Investigating Failed e
              | None \<Rightarrow> Transition s iid Investigating (result_state (rs_State result)) (rs_Detail result));
         (got, s) = Get s iid True;
         final = (case got of Inl _ \<Rightarrow> None | Inr (r, _) \<Rightarrow> r)
     in (case callErr of Some e \<Rightarrow> Inl (InvestigatorError e) | None \<Rightarrow> Inr final, s))"

definition Investigate ::
  "nat \<Rightarrow> Store \<Rightarrow> string \<Rightarrow> Investigator option \<Rightarrow> ((IncidentError + Incident option) \<times> Store) option" where
  "Investigate fuel s iid investigator =
    (case investigator of
       None \<Rightarrow> Some (Inl NilInvestigator, s)
     | Some investigate \<Rightarrow>
         (case begin_investigation fuel s iid of
            None \<Rightarrow> None
          | Some (Inl e, s) \<Rightarrow> Some (Inl e, s)
          | Some (Inr request, s) \<Rightarrow> Some (finish_investigation s iid (investigate request))))"

section \<open>The table invariant\<close>

text \<open>What a row may hold, and what the table as a whole promises: unique identifiers, at
  most one active incident per fingerprint, and never more active incidents than the queue
  admits.\<close>

definition row_ok :: "Limits \<Rightarrow> Incident \<Rightarrow> bool" where
  "row_ok l r \<longleftrightarrow> in_Attempts r = in_Rounds r \<and> 0 \<le> in_Attempts r \<and>
     in_Attempts r \<le> MaxInvestigations l \<and> in_Rounds r \<le> MaxRounds l"

definition rows_inv :: "Limits \<Rightarrow> Incident list \<Rightarrow> bool" where
  "rows_inv l rows \<longleftrightarrow> distinct (map in_ID rows) \<and>
     distinct (map in_Fingerprint (filter (\<lambda>r. active_state (in_State r)) rows)) \<and>
     int (length (filter (\<lambda>r. active_state (in_State r)) rows)) \<le> MaxIncidents l \<and>
     list_all (row_ok l) rows"

definition store_inv :: "Store \<Rightarrow> bool" where
  "store_inv s \<longleftrightarrow> rows_inv (limits s) (incidents s) \<and> distinct (map ev_id (incident_events s))"

text \<open>The three shapes of change a statement makes to the table: rewriting rows in place,
  deleting rows, appending one row.\<close>

lemma filter_map_shrink:
  assumes "\<And>r. r \<in> set rows \<Longrightarrow> P (f r) \<Longrightarrow> P r" and "\<And>r. g (f r) = g r"
    and "distinct (map g (filter P rows))"
  shows "distinct (map g (filter P (map f rows))) \<and>
    length (filter P (map f rows)) \<le> length (filter P rows) \<and>
    g ` set (filter P (map f rows)) \<subseteq> g ` set (filter P rows)"
  using assms(1,3)
proof (induction rows)
  case Nil
  then show ?case by simp
next
  case (Cons r rows)
  then have IH: "distinct (map g (filter P (map f rows)))"
    "length (filter P (map f rows)) \<le> length (filter P rows)"
    "g ` set (filter P (map f rows)) \<subseteq> g ` set (filter P rows)"
    by (auto split: if_splits)
  have "P (f r) \<Longrightarrow> P r" using Cons.prems(1) by simp
  then show ?case using IH Cons.prems(2) assms(2) by (auto split: if_splits)
qed

lemma rows_inv_map:
  assumes "rows_inv l rows"
    and "\<And>r. in_ID (f r) = in_ID r" and "\<And>r. in_Fingerprint (f r) = in_Fingerprint r"
    and "\<And>r. r \<in> set rows \<Longrightarrow> active_state (in_State (f r)) \<Longrightarrow> active_state (in_State r)"
    and "\<And>r. r \<in> set rows \<Longrightarrow> row_ok l r \<Longrightarrow> row_ok l (f r)"
  shows "rows_inv l (map f rows)"
proof -
  let ?P = "\<lambda>r. active_state (in_State r)"
  have "distinct (map in_Fingerprint (filter ?P (map f rows))) \<and>
    length (filter ?P (map f rows)) \<le> length (filter ?P rows) \<and>
    in_Fingerprint ` set (filter ?P (map f rows)) \<subseteq> in_Fingerprint ` set (filter ?P rows)"
    using assms by (intro filter_map_shrink) (auto simp: rows_inv_def)
  moreover have "map in_ID (map f rows) = map in_ID rows"
    using assms(2) by simp
  ultimately show ?thesis
    using assms by (auto simp: rows_inv_def list_all_iff simp del: map_map)
qed

lemma rows_inv_filter:
  assumes "rows_inv l rows"
  shows "rows_inv l (filter Q rows)"
proof -
  have "filter (\<lambda>r. active_state (in_State r)) (filter Q rows) =
      filter Q (filter (\<lambda>r. active_state (in_State r)) rows)"
    by (simp add: filter_filter conj_commute)
  moreover have "distinct (map g (filter Q xs))" if "distinct (map g xs)"
    for g :: "Incident \<Rightarrow> string" and xs
    using that by (induction xs) auto
  moreover have "length (filter Q xs) \<le> length xs" for xs :: "Incident list" by simp
  ultimately show ?thesis
    using assms unfolding rows_inv_def list_all_iff
    by (metis (no_types, lifting) filter_is_subset of_nat_mono order.trans subsetD)
qed

lemma rows_inv_snoc:
  assumes "rows_inv l rows" and "in_ID r \<notin> in_ID ` set rows"
    and "\<And>q. active_state (in_State r) \<Longrightarrow> q \<in> set rows \<Longrightarrow> active_state (in_State q) \<Longrightarrow>
      in_Fingerprint q \<noteq> in_Fingerprint r"
    and "int (length (filter (\<lambda>r. active_state (in_State r)) rows)) < MaxIncidents l"
    and "row_ok l r"
  shows "rows_inv l (rows @ [r])"
  using assms by (fastforce simp: rows_inv_def)

section \<open>Every operation keeps the invariant\<close>

text \<open>Clock reads and statement counters touch no table.\<close>

lemma read_now_frame [frame_simps, simp]:
  "incidents (snd (read_now s)) = incidents s"
  "incident_events (snd (read_now s)) = incident_events s"
  "incident_budget (snd (read_now s)) = incident_budget s"
  "limits (snd (read_now s)) = limits s"
  by (simp_all add: read_now_def)

lemma db_stmt_frame [frame_simps, simp]:
  "incidents (snd (db_stmt s)) = incidents s"
  "incident_events (snd (db_stmt s)) = incident_events s"
  "incident_budget (snd (db_stmt s)) = incident_budget s"
  "limits (snd (db_stmt s)) = limits s"
  by (simp_all add: db_stmt_def)

lemmas clock_defs = read_now_def db_stmt_def

lemma getActive_frame [frame_simps]:
  "getActiveByFingerprint s fp = (r, t) \<Longrightarrow> incidents t = incidents s \<and>
     incident_events t = incident_events s \<and> limits t = limits s \<and> incident_budget t = incident_budget s"
  by (auto simp: getActiveByFingerprint_def clock_defs split: if_splits list.splits)

lemma Get_frame [frame_simps]:
  "Get s iid b = (r, t) \<Longrightarrow> incidents t = incidents s \<and>
     incident_events t = incident_events s \<and> limits t = limits s \<and> incident_budget t = incident_budget s"
  by (auto simp: Get_def clock_defs split: if_splits option.splits)

lemma prune_cases:
  assumes "prune s = (r, t)"
  obtains "incidents t = incidents s"
  | c where "incidents t = prune_expired c (incidents s)"
  | c where "incidents t = prune_excess (MaxIncidents (limits s)) (prune_expired c (incidents s))"
  using assms by (auto simp: prune_def clock_defs Let_def split: if_splits)

lemma prune_frame:
  "prune s = (r, t) \<Longrightarrow>
     incident_events t = incident_events s \<and> limits t = limits s \<and> incident_budget t = incident_budget s"
  by (auto simp: prune_def clock_defs Let_def split: if_splits)

lemma prune_rows_inv:
  assumes "prune s = (r, t)" and "rows_inv l (incidents s)"
  shows "rows_inv l (incidents t)"
  using assms
  by (elim prune_cases) (auto simp: prune_expired_def prune_excess_def Let_def intro!: rows_inv_filter)

lemma prune_expired_active:
  "filter (\<lambda>r. active_state (in_State r)) (prune_expired c rows) = filter (\<lambda>r. active_state (in_State r)) rows"
  unfolding prune_expired_def filter_filter
  by (rule filter_cong) (auto simp: active_state_def terminal_state_def)

lemma prune_excess_active:
  assumes "distinct (map in_ID rows)"
  shows "filter (\<lambda>r. active_state (in_State r)) (prune_excess n rows) = filter (\<lambda>r. active_state (in_State r)) rows"
proof -
  have "in_ID q \<noteq> in_ID p" if "q \<in> set rows" "active_state (in_State q)"
    "p \<in> set (drop m (sort_key f (filter (\<lambda>r. terminal_state (in_State r)) rows)))"
    for p q m and f :: "Incident \<Rightarrow> int"
  proof -
    from in_set_dropD [OF that(3)] have "p \<in> set rows" "terminal_state (in_State p)" by auto
    then show ?thesis using assms that(1,2)
      by (auto simp: distinct_map inj_on_def active_state_def terminal_state_def)
  qed
  then show ?thesis
    unfolding prune_excess_def Let_def filter_filter by (intro filter_cong) auto
qed

lemma prune_active:
  assumes "prune s = (r, t)" and ids: "distinct (map in_ID (incidents s))"
  shows "filter (\<lambda>r. active_state (in_State r)) (incidents t) = filter (\<lambda>r. active_state (in_State r)) (incidents s)"
proof -
  have "distinct (map in_ID (prune_expired c (incidents s)))" for c
    using ids by (simp add: prune_expired_def distinct_map_filter)
  then show ?thesis
    using assms(1) by (elim prune_cases) (auto simp: prune_excess_active prune_expired_active)
qed

lemma prune_keeps_active:
  assumes "prune s = (r, t)" and "distinct (map in_ID (incidents s))"
    and "q \<in> set (incidents s)" and "active_state (in_State q)"
  shows "q \<in> set (incidents t)"
proof -
  have "q \<in> set (filter (\<lambda>r. active_state (in_State r)) (incidents t))"
    using assms(3,4) by (simp add: prune_active [OF assms(1,2)])
  then show ?thesis by simp
qed

lemma insertIncident_inv:
  assumes "insertIncident s r = (res, t)" and "rows_inv (limits s) (incidents s)"
    and "activeCount s < MaxIncidents (limits s)" and "row_ok (limits s) r"
  shows "rows_inv (limits t) (incidents t)"
  using assms
  by (auto simp: insertIncident_def clock_defs activeCount_def split: if_splits
        intro!: rows_inv_snoc) (auto simp: rows_inv_def)

lemma insertIncident_frame:
  "insertIncident s r = (res, t) \<Longrightarrow> incident_events t = incident_events s \<and> limits t = limits s \<and>
     incident_budget t = incident_budget s"
  by (auto simp: insertIncident_def clock_defs split: if_splits)

lemma store_inv_cong:
  "incidents t = incidents s \<Longrightarrow> incident_events t = incident_events s \<Longrightarrow> limits t = limits s \<Longrightarrow>
     store_inv s \<Longrightarrow> store_inv t"
  by (simp add: store_inv_def)

definition same_tables :: "Store \<Rightarrow> Store \<Rightarrow> bool" where
  "same_tables t s \<longleftrightarrow> incidents t = incidents s \<and> incident_events t = incident_events s \<and>
     limits t = limits s \<and> incident_budget t = incident_budget s"

text \<open>An insertion is the insert itself, then a prune when it succeeded, then reads.\<close>

lemma intake_insert_cases:
  assumes "intake_insert s a obs fp = (res, t)"
  obtains s1 r ins s2 pr s3 where "same_tables s1 s" "insertIncident s1 r = (ins, s2)" "prune s2 = (pr, s3)"
    "in_State r = Queued" "in_Attempts r = 0" "in_Rounds r = 0"
    "same_tables t s2 \<or> same_tables t s3"
proof -
  obtain now s1 where now: "read_now s = (now, s1)" by (cases "read_now s")
  define iid where "iid = (let t = TrimSpace (al_ID a) in if t = [] then fp @ ''-'' @ itoa now else t)"
  define r where "r = \<lparr>in_ID = iid, in_Fingerprint = fp, in_Group = al_Group a, in_Source = al_Source a,
              in_Title = al_Title a, in_Body = al_Body a, in_Labels = al_Labels a,
              in_State = Queued, in_Attempts = 0, in_Rounds = 0, in_CreatedAt = obs,
              in_UpdatedAt = now, in_LastError = []\<rparr>"
  obtain ins s2 where ins: "insertIncident s1 r = (ins, s2)" by (cases "insertIncident s1 r")
  obtain pr s3 where pr: "prune s2 = (pr, s3)" by (cases "prune s2")
  have "same_tables s1 s" using now by (auto simp: read_now_def same_tables_def)
  moreover have "same_tables t s2 \<or> same_tables t s3"
    using assms unfolding intake_insert_def now Let_def prod.case iid_def [symmetric, unfolded Let_def]
      r_def [symmetric] ins pr same_tables_def
    by (auto split: sum.splits prod.splits option.splits if_splits bool.splits dest!: Get_frame)
  ultimately show thesis using ins pr that by (simp add: r_def)
qed

lemma intake_insert_inv:
  assumes "intake_insert s a obs fp = (res, t)" and inv: "store_inv s"
    and room: "activeCount s < MaxIncidents (limits s)"
    and lim: "0 < MaxInvestigations (limits s)" "0 < MaxRounds (limits s)"
  shows "store_inv t \<and> limits t = limits s \<and> incident_budget t = incident_budget s"
  using assms(1)
proof (cases rule: intake_insert_cases)
  case (1 s1 r ins s2 pr s3)
  have s1: "incidents s1 = incidents s" "limits s1 = limits s" "incident_events s1 = incident_events s"
    "incident_budget s1 = incident_budget s"
    using 1(1) by (auto simp: same_tables_def)
  have "rows_inv (limits s2) (incidents s2)"
    using insertIncident_inv [OF 1(2)] inv room lim s1 1(4-6)
    by (simp add: store_inv_def activeCount_def row_ok_def)
  then have inv2: "store_inv s2" using inv insertIncident_frame [OF 1(2)] s1 by (simp add: store_inv_def)
  then have inv3: "store_inv s3"
    using prune_rows_inv [OF 1(3)] prune_frame [OF 1(3)] by (simp add: store_inv_def)
  then show ?thesis
    using 1(7) inv2 insertIncident_frame [OF 1(2)] prune_frame [OF 1(3)] s1
    by (auto simp: same_tables_def intro: store_inv_cong)
qed

lemma insertIncident_keeps: "insertIncident s r = (res, t) \<Longrightarrow> set (incidents s) \<subseteq> set (incidents t)"
  by (auto simp: insertIncident_def clock_defs split: if_splits)

lemma intake_insert_keeps_active:
  assumes "intake_insert s a obs fp = (res, t)" and "store_inv s" and "activeCount s < MaxIncidents (limits s)"
    and "0 < MaxInvestigations (limits s)" "0 < MaxRounds (limits s)"
    and "q \<in> set (incidents s)" and "active_state (in_State q)"
  shows "q \<in> set (incidents t)"
  using assms(1)
proof (cases rule: intake_insert_cases)
  case (1 s1 r ins s2 pr s3)
  have "rows_inv (limits s2) (incidents s2)"
    using insertIncident_inv [OF 1(2)] assms(2-5) 1(1,4-6)
    by (simp add: store_inv_def activeCount_def row_ok_def same_tables_def)
  then have "distinct (map in_ID (incidents s2))" by (simp add: rows_inv_def)
  moreover have "q \<in> set (incidents s2)"
    using assms(6) insertIncident_keeps [OF 1(2)] 1(1) by (auto simp: same_tables_def)
  ultimately have "q \<in> set (incidents s3)"
    using assms(7) by (intro prune_keeps_active [OF 1(3)])
  then show ?thesis using \<open>q \<in> set (incidents s2)\<close> 1(7) by (auto simp: same_tables_def)
qed

definition limits_ok :: "Limits \<Rightarrow> bool" where
  "limits_ok l \<longleftrightarrow> 0 < Retention l \<and> 0 < MaxIncidents l \<and> 0 < MaxRounds l \<and> 0 < MaxInvestigations l \<and>
     0 < InvestigationBudget l \<and> 0 < InvestigationDeadline l"

lemma limits_ok_normalized: "limits_ok (normalized l)"
  by (simp add: limits_ok_def normalized_def Let_def)

text \<open>An intake either only reads, or inserts after seeing room in the queue.\<close>

lemma Intake_cases:
  assumes "Intake hash s a = (res, t)"
  obtains "same_tables t s"
  | u a' obs fp where "same_tables u s" "activeCount u < MaxIncidents (limits u)" "intake_insert u a' obs fp = (res, t)"
proof -
  obtain obs s1 where obs: "(case al_ObservedAt a of Some t \<Rightarrow> (t, s) | None \<Rightarrow> read_now s) = (obs, s1)"
    by (cases "case al_ObservedAt a of Some t \<Rightarrow> (t, s) | None \<Rightarrow> read_now s")
  let ?a = "if al_Group a = [] then a\<lparr>al_Group := al_Source a\<rparr> else a"
  let ?fp = "fingerprint hash ?a"
  obtain got s2 where got: "getActiveByFingerprint s1 ?fp = (got, s2)"
    by (cases "getActiveByFingerprint s1 ?fp")
  obtain bad s3 where bad: "db_stmt s2 = (bad, s3)" by (cases "db_stmt s2")
  have same: "same_tables s2 s" "same_tables s3 s" "same_tables s s"
    using obs bad getActive_frame [OF got]
    by (auto simp: clock_defs same_tables_def split: option.splits)
  have "t = s \<or> t = s2 \<or> t = s3 \<or>
      activeCount s3 < MaxIncidents (limits s3) \<and> intake_insert s3 ?a obs ?fp = (res, t)"
    using assms by (auto simp: Intake_def obs got bad Let_def split: option.splits sum.splits if_splits)
  then show thesis using same that by metis
qed

lemma Intake_inv:
  assumes "store_inv s" and "limits_ok (limits s)" and "Intake hash s a = (res, t)"
  shows "store_inv t \<and> limits t = limits s \<and> incident_budget t = incident_budget s"
  using assms(3)
proof (cases rule: Intake_cases)
  case 1
  then show ?thesis using assms(1) by (auto simp: same_tables_def intro: store_inv_cong)
next
  case (2 u a' obs fp)
  then have "store_inv u" "limits u = limits s" "incident_budget u = incident_budget s"
    using assms(1) by (auto simp: same_tables_def intro: store_inv_cong)
  then show ?thesis
    using intake_insert_inv [OF 2(3) _ 2(2)] assms(2) by (simp add: limits_ok_def)
qed

lemma Intake_keeps_active:
  assumes "store_inv s" and "limits_ok (limits s)" and "Intake hash s a = (res, t)"
    and "q \<in> set (incidents s)" and "active_state (in_State q)"
  shows "q \<in> set (incidents t)"
  using assms(3)
proof (cases rule: Intake_cases)
  case 1
  then show ?thesis using assms(4) by (auto simp: same_tables_def)
next
  case (2 u a' obs fp)
  then have "store_inv u" "limits u = limits s" "incidents u = incidents s"
    using assms(1) by (auto simp: same_tables_def intro: store_inv_cong)
  then show ?thesis
    using intake_insert_keeps_active [OF 2(3) _ 2(2)] assms(2,4,5) by (simp add: limits_ok_def)
qed

text \<open>An active incident stays active, or becomes terminal, under every transition of the
  table \<open>transitions\<close>; no transition starts from a terminal state.\<close>

lemma transitions_from_active: "transitions from to \<Longrightarrow> active_state from"
  by (cases "from") (auto simp: transitions_def active_state_def)

lemma transition_row_ok:
  assumes "transition_matches l iid from to r" and "row_ok l r"
  shows "row_ok l (transition_row to d now r)"
  using assms by (auto simp: transition_matches_def transition_row_def row_ok_def)

lemma insertEvent_frame:
  "insertEvent s e = (res, t) \<Longrightarrow> incidents t = incidents s \<and> limits t = limits s \<and>
     incident_budget t = incident_budget s \<and>
     (distinct (map ev_id (incident_events s)) \<longrightarrow> distinct (map ev_id (incident_events t)))"
  by (fastforce simp: insertEvent_def clock_defs split: if_splits)

lemma transition_rows_inv:
  assumes "rows_inv l rows" and "transitions from to"
  shows "rows_inv l (transition_rows l iid from to d now rows)"
  unfolding transition_rows_def
proof (rule rows_inv_map [OF assms(1)])
  fix r
  show "in_ID (if transition_matches l iid from to r then transition_row to d now r else r) = in_ID r"
    "in_Fingerprint (if transition_matches l iid from to r then transition_row to d now r else r) =
      in_Fingerprint r"
    by (simp_all add: transition_row_def)
  show "active_state (in_State r)"
    if "active_state (in_State (if transition_matches l iid from to r then transition_row to d now r else r))"
    using that transitions_from_active [OF assms(2)]
    by (auto simp: transition_matches_def split: if_splits)
  show "row_ok l (if transition_matches l iid from to r then transition_row to d now r else r)"
    if "row_ok l r"
    using that by (auto intro: transition_row_ok)
qed

lemma Transition_rows:
  assumes "Transition s iid from to d = (res, t)"
  shows "(incidents t = incidents s \<or>
      transitions from to \<and> incidents t = transition_rows (limits s) iid from to d (s_now s (s_reads s)) (incidents s))
    \<and> limits t = limits s \<and> incident_budget t = incident_budget s
    \<and> (distinct (map ev_id (incident_events s)) \<longrightarrow> distinct (map ev_id (incident_events t)))"
  using assms unfolding Transition_def clock_defs Let_def prod.case
  by (auto split: if_splits dest!: insertEvent_frame)

lemma Transition_inv:
  assumes "store_inv s" and "Transition s iid from to d = (res, t)"
  shows "store_inv t \<and> limits t = limits s"
  using Transition_rows [OF assms(2)] assms(1) transition_rows_inv
  by (auto simp: store_inv_def)

lemma Recover_inv:
  assumes "store_inv s" and "Recover s = (res, t)"
  shows "store_inv t \<and> limits t = limits s"
  using assms
  by (auto simp: Recover_def clock_defs store_inv_def active_state_def row_ok_def split: if_splits
        intro!: rows_inv_map)

subsection \<open>Budget and investigation\<close>

text \<open>The reserve loop writes nothing but the budget row of its day, and the row it writes
  is either the first reservation of the day or one that fits the daily maximum.\<close>

lemma reserve_loop_frame:
  "reserve_loop n s day mx rc = Some (res, t) \<Longrightarrow> incidents t = incidents s \<and>
     incident_events t = incident_events s \<and> limits t = limits s"
  by (induction n s day mx rc rule: reserve_loop.induct)
    (auto simp: clock_defs Let_def split: if_splits option.splits)

definition budget_inv :: "Store \<Rightarrow> bool" where
  "budget_inv s \<longleftrightarrow> (\<forall>day c. incident_budget s day = Some c \<longrightarrow>
     0 < c \<and> c \<le> max (max_cents (limits s)) (reserve_cents (limits s)))"

lemma reserve_cents_pos: "0 < reserve_cents l"
  by (simp add: reserve_cents_def Let_def)

lemma reserve_loop_budget:
  assumes "reserve_loop n s day (max_cents (limits s)) (reserve_cents (limits s)) = Some (res, t)"
    and "budget_inv s"
  shows "budget_inv t"
  using assms
proof (induction n arbitrary: s)
  case 0
  then show ?case by simp
next
  case (Suc n)
  show ?case
  proof (cases "incident_budget s day")
    case None
    let ?s = "s\<lparr>db_calls := Suc (Suc (db_calls s))\<rparr>"
    have "budget_inv t" if "reserve_loop n ?s day (max_cents (limits ?s)) (reserve_cents (limits ?s)) = Some (res, t)"
      using Suc.IH [OF that] Suc.prems(2) by (simp add: budget_inv_def)
    moreover have "budget_inv u" if "u = ?s\<lparr>incident_budget := (incident_budget s)(day \<mapsto> reserve_cents (limits s))\<rparr>
        \<or> u = s\<lparr>db_calls := Suc (db_calls s)\<rparr>" for u
      using that Suc.prems(2) reserve_cents_pos [of "limits s"]
      by (auto simp: budget_inv_def split: if_splits)
    ultimately show ?thesis
      using Suc.prems(1) None by (auto simp: clock_defs Let_def split: if_splits)
  next
    case (Some c)
    then have "0 < c" using Suc.prems(2) by (auto simp: budget_inv_def)
    then have pos: "0 < c + reserve_cents (limits s)"
      using reserve_cents_pos [of "limits s"] by simp
    show ?thesis
      using Some Suc.prems pos by (auto simp: clock_defs Let_def budget_inv_def split: if_splits)
  qed
qed

lemma reserveBudget_inv:
  assumes "reserveBudget n s = Some (res, t)"
  shows "(store_inv s \<longrightarrow> store_inv t) \<and> (budget_inv s \<longrightarrow> budget_inv t) \<and> limits t = limits s \<and>
     incidents t = incidents s"
proof (cases "budget_enabled (limits s)")
  case True
  obtain now s1 where now: "read_now s = (now, s1)" by (cases "read_now s")
  then have s1: "incidents s1 = incidents s" "incident_events s1 = incident_events s" "limits s1 = limits s"
    "incident_budget s1 = incident_budget s"
    by (auto simp: read_now_def)
  have loop: "reserve_loop n s1 (utc_day now) (max_cents (limits s1)) (reserve_cents (limits s1)) = Some (res, t)"
    using assms True now by (simp add: reserveBudget_def)
  have "budget_inv s \<longrightarrow> budget_inv t"
    using reserve_loop_budget [OF loop] s1 by (simp add: budget_inv_def)
  then show ?thesis
    using reserve_loop_frame [OF loop] s1 by (auto intro: store_inv_cong)
next
  case False
  then show ?thesis using assms by (simp add: reserveBudget_def)
qed

lemma budget_inv_cong:
  "incident_budget t = incident_budget s \<Longrightarrow> limits t = limits s \<Longrightarrow> budget_inv s \<Longrightarrow> budget_inv t"
  by (simp add: budget_inv_def)

definition full_inv :: "Store \<Rightarrow> bool" where
  "full_inv s \<longleftrightarrow> store_inv s \<and> budget_inv s \<and> limits_ok (limits s)"

lemma full_inv_same:
  "incidents t = incidents s \<and> incident_events t = incident_events s \<and> limits t = limits s \<and>
     incident_budget t = incident_budget s \<Longrightarrow> full_inv s \<Longrightarrow> full_inv t"
  by (auto simp: full_inv_def intro: store_inv_cong budget_inv_cong)

lemma Get_full_inv: "Get s iid b = (r, t) \<Longrightarrow> full_inv s \<Longrightarrow> full_inv t"
  by (rule full_inv_same [OF Get_frame])

lemma ListIncidents_full_inv: "ListIncidents s sts = (r, t) \<Longrightarrow> full_inv s \<Longrightarrow> full_inv t"
  by (rule full_inv_same) (auto simp: ListIncidents_def clock_defs split: if_splits)

lemma Transition_full_inv: "Transition s iid from to d = (r, t) \<Longrightarrow> full_inv s \<Longrightarrow> full_inv t"
  using Transition_inv [of s iid "from" to d r t] Transition_rows [of s iid "from" to d r t]
  by (auto simp: full_inv_def intro: budget_inv_cong)

lemma Recover_full_inv: "Recover s = (r, t) \<Longrightarrow> full_inv s \<Longrightarrow> full_inv t"
  using Recover_inv [of s r t]
  by (auto simp: full_inv_def Recover_def clock_defs budget_inv_def split: if_splits)

lemma reserveBudget_full_inv: "reserveBudget n s = Some (r, t) \<Longrightarrow> full_inv s \<Longrightarrow> full_inv t"
  using reserveBudget_inv [of n s r t] by (auto simp: full_inv_def)

lemma Intake_full_inv: "Intake hash s a = (r, t) \<Longrightarrow> full_inv s \<Longrightarrow> full_inv t"
  using Intake_inv [of s hash a r t] by (auto simp: full_inv_def intro: budget_inv_cong)

lemma begin_full_inv:
  assumes "begin_investigation n s iid = Some (r, t)" and "full_inv s"
  shows "full_inv t"
proof -
  obtain got s1 where got: "Get s iid True = (got, s1)" by (cases "Get s iid True")
  have 1: "full_inv s1" using Get_full_inv [OF got] assms(2) .
  show ?thesis
    using assms(1) 1 unfolding begin_investigation_def got Let_def
    by (auto split: sum.splits prod.splits option.splits if_splits
          dest!: reserveBudget_full_inv Transition_full_inv Get_full_inv)
qed

lemma finish_full_inv:
  assumes "finish_investigation s iid out = (r, t)" and "full_inv s"
  shows "full_inv t"
  using assms unfolding finish_investigation_def Let_def
  by (auto split: prod.splits option.splits dest!: Transition_full_inv Get_full_inv)

section \<open>Runs of the store\<close>

text \<open>The operations the HTTP handler and the daemon issue, in any order and number; the two
  halves of \<open>Investigate\<close> are separate steps, since other requests are served while the
  investigator runs.\<close>

datatype Op =
    OpIntake Alert
  | OpGet string bool
  | OpList "State list"
  | OpTransition string State State string
  | OpRecover
  | OpBegin nat string
  | OpFinish string "InvestigationResult \<times> string option"

inductive istep :: "(string \<Rightarrow> string) \<Rightarrow> Op \<Rightarrow> Store \<Rightarrow> Store \<Rightarrow> bool" for hash where
  intake: "Intake hash s a = (r, t) \<Longrightarrow> istep hash (OpIntake a) s t"
| get: "Get s iid b = (r, t) \<Longrightarrow> istep hash (OpGet iid b) s t"
| list: "ListIncidents s sts = (r, t) \<Longrightarrow> istep hash (OpList sts) s t"
| transition: "Transition s iid from to d = (r, t) \<Longrightarrow> istep hash (OpTransition iid from to d) s t"
| recover: "Recover s = (r, t) \<Longrightarrow> istep hash OpRecover s t"
| begin_inv: "begin_investigation n s iid = Some (r, t) \<Longrightarrow> istep hash (OpBegin n iid) s t"
| finish_inv: "finish_investigation s iid out = (r, t) \<Longrightarrow> istep hash (OpFinish iid out) s t"

inductive_simps istep_simps:
  "istep hash (OpIntake a) s t"
  "istep hash (OpTransition iid from to d) s t"
  "istep hash OpRecover s t"

definition some_istep :: "(string \<Rightarrow> string) \<Rightarrow> Store \<Rightarrow> Store \<Rightarrow> bool" where
  "some_istep hash s t \<longleftrightarrow> (\<exists>op. istep hash op s t)"

definition fresh_store :: "Store \<Rightarrow> bool" where
  "fresh_store s \<longleftrightarrow> (\<exists>l now fault. NewStore (Some ([], [], Map.empty)) l now fault = Inr s)"

lemma istep_full_inv: "istep hash op s t \<Longrightarrow> full_inv s \<Longrightarrow> full_inv t"
  by (induction rule: istep.induct)
    (blast intro: Intake_full_inv Get_full_inv ListIncidents_full_inv Transition_full_inv
       Recover_full_inv begin_full_inv finish_full_inv)+

lemma fresh_store_full_inv: "fresh_store s \<Longrightarrow> full_inv s"
  using limits_ok_normalized
  by (auto simp: fresh_store_def NewStore_def clock_defs full_inv_def store_inv_def rows_inv_def
        budget_inv_def Let_def limits_ok_def less_imp_le split: if_splits)

interpretation incident_runs: safe_system fresh_store "some_istep hash" full_inv for hash
  by unfold_locales (auto simp: some_istep_def intro: fresh_store_full_inv istep_full_inv)

section \<open>What the operations do when the database answers\<close>

definition no_faults :: "Store \<Rightarrow> bool" where
  "no_faults s \<longleftrightarrow> (\<forall>n. \<not> db_fault s n)"

text \<open>No recorded event already carries an identifier this incident's next event may get.\<close>

definition event_ids_fresh :: "Store \<Rightarrow> string \<Rightarrow> bool" where
  "event_ids_fresh s iid \<longleftrightarrow> (\<forall>e \<in> set (incident_events s). \<forall>n. ev_id e \<noteq> iid @ ''-'' @ itoa (s_now s n))"

lemma filter_unique_id:
  assumes "distinct (map in_ID rows)" and "\<And>r. P r \<Longrightarrow> in_ID r = iid"
  shows "length (filter P rows) = (if \<exists>r \<in> set rows. P r then 1 else 0)"
  using assms(1)
proof (induction rows)
  case Nil
  then show ?case by simp
next
  case (Cons r rows)
  have "\<not> (\<exists>q \<in> set rows. P q)" if "P r"
    using Cons.prems that assms(2) by (metis distinct.simps(2) image_eqI list.simps(9) set_map)
  with Cons show ?case by auto
qed

lemma Transition_eval:
  assumes "no_faults s" and "event_ids_fresh s iid" and "distinct (map in_ID (incidents s))"
    and "transitions from to"
  shows "fst (Transition s iid from to d) =
      (if \<exists>r \<in> set (incidents s). transition_matches (limits s) iid from to r then Inr () else Inl StaleTransition)"
    and "incidents (snd (Transition s iid from to d)) =
      transition_rows (limits s) iid from to d (s_now s (s_reads s)) (incidents s)"
    and "incident_budget (snd (Transition s iid from to d)) = incident_budget s"
proof -
  have n: "length (filter (transition_matches (limits s) iid from to) (incidents s)) =
      (if \<exists>r \<in> set (incidents s). transition_matches (limits s) iid from to r then 1 else 0)"
    using assms(3) by (rule filter_unique_id) (simp add: transition_matches_def)
  show "fst (Transition s iid from to d) =
      (if \<exists>r \<in> set (incidents s). transition_matches (limits s) iid from to r then Inr () else Inl StaleTransition)"
    "incidents (snd (Transition s iid from to d)) =
      transition_rows (limits s) iid from to d (s_now s (s_reads s)) (incidents s)"
    "incident_budget (snd (Transition s iid from to d)) = incident_budget s"
    using assms n
    by (auto simp: Transition_def clock_defs no_faults_def event_ids_fresh_def insertEvent_def Let_def
          split: if_splits)
qed

lemma getActive_hit:
  assumes "no_faults s" and "q \<in> set (incidents s)" and "active_state (in_State q)"
    and "distinct (map in_Fingerprint (filter (\<lambda>r. active_state (in_State r)) (incidents s)))"
  shows "getActiveByFingerprint s (in_Fingerprint q) = (Inr q, snd (db_stmt s))"
proof -
  let ?hits = "filter (\<lambda>r. in_Fingerprint r = in_Fingerprint q \<and> active_state (in_State r)) (incidents s)"
  have "set ?hits \<subseteq> {q}"
    using assms(2-4) by (auto simp: distinct_map inj_on_def)
  moreover have "q \<in> set ?hits" using assms(2,3) by simp
  moreover obtain y ys where y: "sort_key (\<lambda>r. - in_UpdatedAt r) ?hits = y # ys"
    using calculation(2) by (metis empty_iff list.set(1) neq_Nil_conv set_sort)
  moreover have "y \<in> set ?hits" using y by (metis list.set_intros(1) set_sort)
  ultimately have "sort_key (\<lambda>r. - in_UpdatedAt r) ?hits = q # ys" by blast
  then show ?thesis
    using assms(1) by (auto simp: getActiveByFingerprint_def clock_defs no_faults_def)
qed

lemma getActive_miss:
  assumes "no_faults s" and "\<forall>r \<in> set (incidents s). active_state (in_State r) \<longrightarrow> in_Fingerprint r \<noteq> fp"
  shows "getActiveByFingerprint s fp = (Inl NoRows, snd (db_stmt s))"
proof -
  have "filter (\<lambda>r. in_Fingerprint r = fp \<and> active_state (in_State r)) (incidents s) = []"
    using assms(2) by (auto simp: filter_empty_conv)
  then show ?thesis
    using assms(1) by (simp add: getActiveByFingerprint_def clock_defs no_faults_def)
qed

lemma find_unique:
  assumes "distinct (map in_ID rows)" and "r \<in> set rows"
  shows "find (\<lambda>q. in_ID q = in_ID r) rows = Some r"
  using assms by (induction rows) (auto simp: image_iff)

lemma Get_hit:
  assumes "no_faults s" and "distinct (map in_ID (incidents s))" and "r \<in> set (incidents s)"
  shows "Get s (in_ID r) True = (Inr (Some r, True), snd (db_stmt s))"
  using assms(1) find_unique [OF assms(2,3)] by (simp add: Get_def clock_defs no_faults_def)

lemma env_Transition:
  "Transition s iid from to d = (r, t) \<Longrightarrow> db_fault t = db_fault s \<and> s_now t = s_now s"
  by (auto simp: Transition_def insertEvent_def clock_defs Let_def split: if_splits)

lemma env_reserve:
  "reserveBudget n s = Some (r, t) \<Longrightarrow> db_fault t = db_fault s \<and> s_now t = s_now s \<and> incident_events t = incident_events s"
proof -
  have "reserve_loop n s day mx rc = Some (r, t) \<Longrightarrow>
      db_fault t = db_fault s \<and> s_now t = s_now s \<and> incident_events t = incident_events s" for n s day mx rc
    by (induction n s day mx rc rule: reserve_loop.induct)
      (auto simp: clock_defs Let_def split: if_splits option.splits)
  then show "reserveBudget n s = Some (r, t) \<Longrightarrow> ?thesis"
    by (auto simp: reserveBudget_def read_now_def split: if_splits)
qed

text \<open>Without database failures the table is rewritten whatever becomes of the event row.\<close>

lemma Transition_rows_eval:
  "no_faults s \<Longrightarrow> transitions from to \<Longrightarrow> Transition s iid from to d = (r, t) \<Longrightarrow>
    incidents t = transition_rows (limits s) iid from to d (s_now s (s_reads s)) (incidents s)"
  by (auto simp: Transition_def insertEvent_def clock_defs no_faults_def Let_def split: if_splits)

lemma transition_rows_hit:
  "r \<in> set rows \<Longrightarrow> transition_matches l iid from to r \<Longrightarrow>
    transition_row to d now r \<in> set (transition_rows l iid from to d now rows)"
  by (auto simp: transition_rows_def image_iff intro!: bexI [of _ r])

lemma transition_row_id [simp]:
  "in_ID (transition_row to d now r) = in_ID r"
  "in_State (transition_row to d now r) = to"
  by (simp_all add: transition_row_def)

lemma result_state_transition:
  "transitions Investigating (result_state st)" "result_state st \<noteq> Investigating" "result_state st \<noteq> Queued"
  by (cases st; auto simp: result_state_def transitions_def Let_def)+

lemma begin_investigation_eval:
  assumes "no_faults s" and "store_inv s" and "event_ids_fresh s (in_ID q)"
    and "q \<in> set (incidents s)" and "in_State q = Queued \<or> in_State q = Recovery"
    and "in_Attempts q < MaxInvestigations (limits s)" and "in_Rounds q < MaxRounds (limits s)"
    and "reserveBudget n (snd (db_stmt s)) = Some (Inr (), s1)"
  shows "\<exists>rq t p. begin_investigation n s (in_ID q) = Some (Inr rq, t) \<and> p \<in> set (incidents t) \<and>
    in_ID p = in_ID q \<and> in_State p = Investigating \<and> in_Attempts p = in_Attempts q + 1 \<and>
    in_Rounds p = in_Rounds q + 1 \<and> rq_Incident rq = Some p \<and> rq_Round rq = in_Rounds p \<and>
    rq_Deadline rq = min (InvestigationDeadline (limits s)) (InvestigationBudget (limits s)) \<and>
    rq_Budget rq = rq_Deadline rq \<and> no_faults t \<and> store_inv t \<and> s_now t = s_now s"
proof -
  have ids: "distinct (map in_ID (incidents s))" using assms(2) by (simp add: store_inv_def rows_inv_def)
  let ?s0 = "snd (db_stmt s)"
  have s0: "incidents ?s0 = incidents s" "limits ?s0 = limits s" "store_inv ?s0"
    using assms(2) by (auto intro: store_inv_cong)
  have s1: "incidents s1 = incidents s" "limits s1 = limits s" "store_inv s1" "no_faults s1"
    "s_now s1 = s_now s" "event_ids_fresh s1 (in_ID q)"
    using reserveBudget_inv [OF assms(8)] env_reserve [OF assms(8)] s0 assms(1,3)
    by (auto simp: no_faults_def db_stmt_def event_ids_fresh_def)
  have tr: "transitions (in_State q) Investigating" using assms(5) by (auto simp: transitions_def)
  have hit: "transition_matches (limits s1) (in_ID q) (in_State q) Investigating q"
    using assms(6,7) s1 by (simp add: transition_matches_def)
  obtain res s2 where s2: "Transition s1 (in_ID q) (in_State q) Investigating [] = (res, s2)"
    by (cases "Transition s1 (in_ID q) (in_State q) Investigating []")
  have res: "res = Inr ()"
    using Transition_eval(1) [OF s1(4,6) _ tr, of "[]"] s1(1) ids hit assms(4) s2 by auto
  define p where "p = transition_row Investigating [] (s_now s1 (s_reads s1)) q"
  have p: "p \<in> set (incidents s2)"
    using Transition_rows_eval [OF s1(4) tr s2] transition_rows_hit [OF _ hit] assms(4) s1(1)
    by (simp add: p_def)
  have s2_inv: "store_inv s2" "limits s2 = limits s" "no_faults s2" "s_now s2 = s_now s"
    using Transition_inv [OF s1(3) s2] s1 env_Transition [OF s2] by (auto simp: no_faults_def)
  have get2: "Get s2 (in_ID q) True = (Inr (Some p, True), snd (db_stmt s2))"
    using Get_hit [OF s2_inv(3) _ p] s2_inv(1) by (simp add: store_inv_def rows_inv_def p_def)
  let ?t = "snd (db_stmt s2)"
  have t: "no_faults ?t" "store_inv ?t" "s_now ?t = s_now s" "p \<in> set (incidents ?t)"
    using s2_inv p by (auto simp: no_faults_def db_stmt_def intro: store_inv_cong [of _ s2])
  have pf: "in_ID p = in_ID q" "in_State p = Investigating" "in_Attempts p = in_Attempts q + 1"
    "in_Rounds p = in_Rounds q + 1"
    by (simp_all add: p_def transition_row_def)
  show ?thesis
    using assms(5,8) s2 res get2 t pf s2_inv(2) Get_hit [OF assms(1) ids assms(4)]
    by (auto simp: begin_investigation_def min_def Let_def)
qed

section \<open>How an operation may change a row\<close>

text \<open>Every operation rewrites a row at most through \<open>transition_row\<close> or \<open>Recover\<close>, both
  of which start from an active state and keep the identifier.\<close>

definition rows_evolve :: "Incident list \<Rightarrow> Incident list \<Rightarrow> bool" where
  "rows_evolve rows rows' \<longleftrightarrow> (\<forall>q \<in> set rows. (\<exists>p \<in> set rows'. in_ID p = in_ID q) \<and>
     (terminal_state (in_State q) \<longrightarrow> q \<in> set rows'))"

lemma rows_evolve_refl [simp]: "rows_evolve rows rows"
  by (auto simp: rows_evolve_def)

lemma rows_evolve_trans: "rows_evolve a b \<Longrightarrow> rows_evolve b c \<Longrightarrow> rows_evolve a c"
  by (fastforce simp: rows_evolve_def)

lemma rows_evolve_map:
  "(\<And>r. in_ID (f r) = in_ID r) \<Longrightarrow> (\<And>r. terminal_state (in_State r) \<Longrightarrow> f r = r) \<Longrightarrow>
    rows_evolve rows (map f rows)"
  unfolding rows_evolve_def by (metis image_eqI image_set)

lemma Transition_evolve: "Transition s iid from to d = (r, t) \<Longrightarrow> rows_evolve (incidents s) (incidents t)"
proof -
  assume "Transition s iid from to d = (r, t)"
  from Transition_rows [OF this]
  have "incidents t = incidents s \<or> transitions from to \<and>
    incidents t = transition_rows (limits s) iid from to d (s_now s (s_reads s)) (incidents s)" by blast
  moreover have "rows_evolve (incidents s) (transition_rows l iid from to d n (incidents s))"
    if "transitions from to" for l n
    using transitions_from_active [OF that] unfolding transition_rows_def
    by (intro rows_evolve_map) (auto simp: transition_matches_def active_state_def terminal_state_def)
  ultimately show ?thesis by auto
qed

lemma Recover_evolve: "Recover s = (r, t) \<Longrightarrow> rows_evolve (incidents s) (incidents t)"
  by (auto simp: Recover_def clock_defs terminal_state_def split: if_splits intro!: rows_evolve_map)

lemma begin_evolve: "begin_investigation n s iid = Some (r, t) \<Longrightarrow> rows_evolve (incidents s) (incidents t)"
  unfolding begin_investigation_def Let_def
  by (auto split: sum.splits prod.splits option.splits if_splits
        dest!: Get_frame reserveBudget_inv Transition_evolve)

lemma finish_evolve: "finish_investigation s iid out = (r, t) \<Longrightarrow> rows_evolve (incidents s) (incidents t)"
  unfolding finish_investigation_def Let_def
  by (auto split: prod.splits option.splits dest!: Get_frame Transition_evolve)

lemma istep_evolve:
  assumes "istep hash op s t" and "\<forall>a. op \<noteq> OpIntake a"
  shows "rows_evolve (incidents s) (incidents t)"
  using assms
  by (cases rule: istep.cases)
    (auto dest: Get_frame Transition_evolve Recover_evolve begin_evolve finish_evolve
       simp: ListIncidents_def clock_defs split: if_splits)

lemma insertIncident_eval:
  assumes "no_faults s" and "in_ID r \<notin> in_ID ` set (incidents s)"
    and "\<forall>q \<in> set (incidents s). active_state (in_State q) \<longrightarrow> in_Fingerprint q \<noteq> in_Fingerprint r"
  shows "insertIncident s r = (Inr (), s\<lparr>db_calls := Suc (db_calls s), incidents := incidents s @ [r]\<rparr>)"
  using assms by (auto simp: insertIncident_def clock_defs no_faults_def image_iff)

lemma intake_insert_eval:
  assumes "no_faults s" and "distinct (map in_ID (incidents s))" and "TrimSpace (al_ID a) \<noteq> []"
    and "\<forall>r \<in> set (incidents s). in_ID r \<noteq> TrimSpace (al_ID a)"
    and "\<forall>r \<in> set (incidents s). active_state (in_State r) \<longrightarrow> in_Fingerprint r \<noteq> fp"
    and "intake_insert s a obs fp = (res, t)"
  shows "\<exists>r. res = Inr (Some r, False) \<and> in_State r = Queued \<and> in_Attempts r = 0 \<and> in_Fingerprint r = fp \<and>
    in_ID r = TrimSpace (al_ID a) \<and> in_Title r = al_Title a \<and>
    filter (\<lambda>q. active_state (in_State q)) (incidents t) =
      filter (\<lambda>q. active_state (in_State q)) (incidents s) @ [r]"
proof -
  obtain now s1 where now: "read_now s = (now, s1)" by (cases "read_now s")
  then have s1: "incidents s1 = incidents s" "no_faults s1" using assms(1) by (auto simp: read_now_def no_faults_def)
  define r where "r = \<lparr>in_ID = TrimSpace (al_ID a), in_Fingerprint = fp, in_Group = al_Group a,
              in_Source = al_Source a, in_Title = al_Title a, in_Body = al_Body a, in_Labels = al_Labels a,
              in_State = Queued, in_Attempts = 0, in_Rounds = 0, in_CreatedAt = obs,
              in_UpdatedAt = now, in_LastError = []\<rparr>"
  define s2 where "s2 = s1\<lparr>db_calls := Suc (db_calls s1), incidents := incidents s1 @ [r]\<rparr>"
  have ins: "insertIncident s1 r = (Inr (), s2)"
    unfolding s2_def using s1 assms(4,5) by (intro insertIncident_eval) (auto simp: r_def)
  obtain pr s3 where pr: "prune s2 = (pr, s3)" by (cases "prune s2")
  have ids2: "distinct (map in_ID (incidents s2))"
    using assms(2,4) s1 by (auto simp: s2_def r_def)
  have act3: "filter (\<lambda>q. active_state (in_State q)) (incidents s3) =
      filter (\<lambda>q. active_state (in_State q)) (incidents s) @ [r]"
    using prune_active [OF pr ids2] s1 by (simp add: s2_def r_def active_state_def)
  have "r \<in> set (filter (\<lambda>q. active_state (in_State q)) (incidents s3))" unfolding act3 by simp
  then have "r \<in> set (incidents s3)" by simp
  moreover have "distinct (map in_ID (incidents s3))"
    using ids2 pr by (elim prune_cases) (auto simp: prune_expired_def prune_excess_def Let_def distinct_map_filter)
  ultimately have found: "find (\<lambda>q. in_ID q = in_ID r) (incidents s3) = Some r" by (intro find_unique)
  have "db_fault s3 = db_fault s2"
    using pr by (auto simp: prune_def clock_defs Let_def split: if_splits)
  then have "Get s3 (in_ID r) False = (Inr (Some r, True), snd (db_stmt s3))"
    using found s1 by (auto simp: Get_def clock_defs no_faults_def s2_def r_def)
  then have "res = Inr (Some r, False)" "t = snd (db_stmt s3)"
    using assms(3,6) now ins pr by (simp_all add: intake_insert_def Let_def r_def)
  then show ?thesis using act3 by (simp add: r_def)
qed

section \<open>A concrete store\<close>

text \<open>Data for the evaluated instances of the properties: a store with one unavailable, one
  queued and one completed incident, a clock that counts nanoseconds, a budget of two
  investigations a day, and a database that always answers.\<close>

definition demo_limits :: Limits where
  "demo_limits = normalized \<lparr>Retention = 0, MaxIncidents = 0, MaxRounds = 0, MaxInvestigations = 0,
     InvestigationBudget = 0, InvestigationDeadline = 0, DailyBudgetUSD = 1, InvestigationBudgetUSD = 1 / 2\<rparr>"

definition demo_row :: "string \<Rightarrow> string \<Rightarrow> State \<Rightarrow> Incident" where
  "demo_row iid fp st = \<lparr>in_ID = iid, in_Fingerprint = fp, in_Group = ''gatus'', in_Source = ''gatus'',
     in_Title = ''down'', in_Body = [], in_Labels = [], in_State = st, in_Attempts = 0, in_Rounds = 0,
     in_CreatedAt = 0, in_UpdatedAt = 0, in_LastError = []\<rparr>"

definition demo_store :: Store where
  "demo_store = \<lparr>incidents = [demo_row ''a'' ''fa'' Unavailable, demo_row ''b'' ''fb'' Queued, demo_row ''c'' ''fc'' Completed],
     incident_events = [], incident_budget = Map.empty, limits = demo_limits, s_now = int, s_reads = 0,
     db_fault = (\<lambda>_. False), db_calls = 0\<rparr>"

definition demo_alert :: "string \<Rightarrow> string \<Rightarrow> Alert" where
  "demo_alert iid fp = \<lparr>al_ID = iid, al_Fingerprint = fp, al_Source = ''gatus'', al_Title = ''down'', al_Body = [],
     al_Group = [], al_Labels = [], al_ObservedAt = None\<rparr>"

definition demo_opened :: Store where
  "demo_opened = (case NewStore (Some ([], [], Map.empty)) demo_limits int (\<lambda>_. False) of Inr s \<Rightarrow> s)"

definition demo_poor :: Store where
  "demo_poor = demo_store\<lparr>limits := demo_limits\<lparr>DailyBudgetUSD := 1 / 10\<rparr>\<rparr>"

lemma demo_limits_simps [simp]:
  "MaxIncidents demo_limits = 1000" "MaxRounds demo_limits = 6" "MaxInvestigations demo_limits = 1"
  "Retention demo_limits = 2592000000000000"
  "InvestigationBudget demo_limits = 300000000000" "InvestigationDeadline demo_limits = 30000000000"
  "DailyBudgetUSD demo_limits = 1" "InvestigationBudgetUSD demo_limits = 1 / 2"
  by (simp_all add: demo_limits_def normalized_def Let_def)

lemma demo_cents [simp]: "max_cents demo_limits = 100" "reserve_cents demo_limits = 50"
  by (simp_all add: max_cents_def reserve_cents_def usd_cents_def)

lemma demo_store_ok: "no_faults demo_store" "full_inv demo_store" "store_inv demo_store" "event_ids_fresh demo_store iid"
  by (auto simp: no_faults_def full_inv_def store_inv_def rows_inv_def row_ok_def budget_inv_def limits_ok_def
        event_ids_fresh_def demo_store_def demo_row_def active_state_def)

lemmas demo_defs = demo_store_def demo_row_def demo_alert_def

lemma demo_alert_ok: "alert_error (demo_alert ''n'' ''fb'') = None" "alert_error (demo_alert ''n'' ''fn'') = None"
  by (simp_all add: alert_error_def demo_alert_def TrimSpace_def is_space_def maxAlertID_def maxAlertLabelText_def
        maxAlertText_def maxAlertLabels_def)

section \<open>Properties\<close>



text \<open>No operation loses an active incident: it stays in the table under its identifier
  until it has reached a terminal state.\<close>

theorem active_incident_never_lost:
  assumes "istep hash op s t" and "full_inv s"
    and "q \<in> set (incidents s)" and "active_state (in_State q)"
  shows "\<exists>p \<in> set (incidents t). in_ID p = in_ID q"
proof (cases "\<exists>a. op = OpIntake a")
  case True
  then obtain a r where "Intake hash s a = (r, t)" using assms(1) by (auto simp: istep_simps)
  then show ?thesis using Intake_keeps_active assms(2-4) by (force simp: full_inv_def)
next
  case False
  then show ?thesis using istep_evolve [OF assms(1)] assms(3) by (auto simp: rows_evolve_def)
qed

theorem active_incident_never_lost_witness:
  "\<exists>p \<in> set (incidents (snd (Recover demo_store))). in_ID p = in_ID (demo_row ''b'' ''fb'' Queued)"
proof (rule active_incident_never_lost [where hash = "\<lambda>x. x" and op = OpRecover])
  show "istep (\<lambda>x. x) OpRecover demo_store (snd (Recover demo_store))"
    by (rule istep.recover) (rule prod.collapse [symmetric])
  show "full_inv demo_store" by (rule demo_store_ok)
qed (simp_all add: demo_defs active_state_def)



text \<open>An alert whose fingerprint belongs to an active incident is answered with that
  incident and marked as a duplicate, and nothing is written.\<close>

theorem intake_deduplicates:
  assumes "no_faults s" and "store_inv s" and "alert_error a = None"
    and "q \<in> set (incidents s)" and "active_state (in_State q)"
    and "in_Fingerprint q = fingerprint hash (if al_Group a = [] then a\<lparr>al_Group := al_Source a\<rparr> else a)"
  shows "fst (Intake hash s a) = Inr (Some q, True) \<and> same_tables (snd (Intake hash s a)) s"
proof -
  obtain obs s1 where obs: "(case al_ObservedAt a of Some t \<Rightarrow> (t, s) | None \<Rightarrow> read_now s) = (obs, s1)"
    by (cases "case al_ObservedAt a of Some t \<Rightarrow> (t, s) | None \<Rightarrow> read_now s")
  then have s1: "same_tables s1 s" "no_faults s1"
    using assms(1) by (auto simp: read_now_def same_tables_def no_faults_def split: option.splits)
  have "getActiveByFingerprint s1 (in_Fingerprint q) = (Inr q, snd (db_stmt s1))"
    using s1 assms(2,4,5) by (intro getActive_hit) (auto simp: same_tables_def store_inv_def rows_inv_def)
  then show ?thesis
    using assms(3,6) obs s1 by (simp add: Intake_def same_tables_def)
qed

theorem intake_deduplicates_witness:
  "fst (Intake (\<lambda>x. x) demo_store (demo_alert ''n'' ''fb'')) = Inr (Some (demo_row ''b'' ''fb'' Queued), True)"
  using intake_deduplicates [OF demo_store_ok(1,3) demo_alert_ok(1), of "demo_row ''b'' ''fb'' Queued" "\<lambda>x. x"]
  by (simp add: demo_defs active_state_def fingerprint_def TrimSpace_def is_space_def)

text \<open>An alert that passes its checks, whose fingerprint no active incident carries and
  whose identifier is unused, is queued while there is room: exactly one row, in state
  queued with no attempts, becomes an active incident, and it is the one returned.\<close>

theorem intake_queues_new_alert:
  assumes "no_faults s" and "store_inv s" and "alert_error a = None"
    and "activeCount s < MaxIncidents (limits s)" and "TrimSpace (al_ID a) \<noteq> []"
    and "\<forall>r \<in> set (incidents s). in_ID r \<noteq> TrimSpace (al_ID a)"
    and "\<forall>r \<in> set (incidents s). active_state (in_State r) \<longrightarrow> in_Fingerprint r \<noteq>
      fingerprint hash (if al_Group a = [] then a\<lparr>al_Group := al_Source a\<rparr> else a)"
  shows "\<exists>r. fst (Intake hash s a) = Inr (Some r, False) \<and> in_State r = Queued \<and> in_Attempts r = 0 \<and>
    in_ID r = TrimSpace (al_ID a) \<and> in_Title r = al_Title a \<and>
    filter (\<lambda>q. active_state (in_State q)) (incidents (snd (Intake hash s a))) =
      filter (\<lambda>q. active_state (in_State q)) (incidents s) @ [r]"
proof -
  obtain obs s1 where obs: "(case al_ObservedAt a of Some t \<Rightarrow> (t, s) | None \<Rightarrow> read_now s) = (obs, s1)"
    by (cases "case al_ObservedAt a of Some t \<Rightarrow> (t, s) | None \<Rightarrow> read_now s")
  then have s1: "same_tables s1 s" "no_faults s1"
    using assms(1) by (auto simp: read_now_def same_tables_def no_faults_def split: option.splits)
  let ?a = "if al_Group a = [] then a\<lparr>al_Group := al_Source a\<rparr> else a"
  let ?s3 = "snd (db_stmt (snd (db_stmt s1)))"
  have a: "al_ID ?a = al_ID a" "al_Title ?a = al_Title a" by simp_all
  have "getActiveByFingerprint s1 (fingerprint hash ?a) = (Inl NoRows, snd (db_stmt s1))"
    using s1 assms(7) by (intro getActive_miss) (auto simp: same_tables_def)
  then have run: "Intake hash s a = intake_insert ?s3 ?a obs (fingerprint hash ?a)"
    using assms(3,4) obs s1
    by (simp add: Intake_def Let_def clock_defs no_faults_def activeCount_def same_tables_def)
  have s3: "no_faults ?s3" "incidents ?s3 = incidents s"
    using s1 by (auto simp: no_faults_def db_stmt_def same_tables_def)
  obtain res t where "intake_insert ?s3 ?a obs (fingerprint hash ?a) = (res, t)"
    by (cases "intake_insert ?s3 ?a obs (fingerprint hash ?a)")
  then show ?thesis
    using intake_insert_eval [of ?s3 ?a "fingerprint hash ?a" obs res t] s3 assms(2,5-7) run a
    by (auto simp: store_inv_def rows_inv_def)
qed

theorem intake_queues_new_alert_witness:
  "\<exists>r. fst (Intake (\<lambda>x. x) demo_store (demo_alert ''n'' ''fn'')) = Inr (Some r, False) \<and> in_ID r = ''n''"
  using intake_queues_new_alert [OF demo_store_ok(1,3) demo_alert_ok(2), of "\<lambda>x. x"]
  by (auto simp: demo_defs active_state_def activeCount_def fingerprint_def TrimSpace_def is_space_def)





text \<open>C30: In every run from an empty database no day's reservations exceed the daily budget,
  as long as one investigation fits into it.\<close>

theorem daily_budget_never_exceeded:
  assumes "NewStore (Some ([], [], Map.empty)) l now fault = Inr s"
    and "(some_istep hash)\<^sup>*\<^sup>* s t"
    and "reserve_cents (limits t) \<le> max_cents (limits t)"
    and "incident_budget t day = Some c"
  shows "0 < c \<and> c \<le> max_cents (limits t)"
proof -
  have "fresh_store s" using assms(1) by (auto simp: fresh_store_def)
  then have "full_inv t" using assms(2) by (rule incident_runs.reachable_safe)
  then show ?thesis using assms(3,4) by (auto simp: full_inv_def budget_inv_def max_def split: if_splits)
qed

lemma demo_opened_queued:
  "snd (Intake (\<lambda>x. x) demo_opened (demo_alert ''n'' ''fn'')) =
    \<lparr>incidents = [(demo_row ''n'' ''fn'' Queued)\<lparr>in_UpdatedAt := 1\<rparr>],
     incident_events = [], incident_budget = Map.empty, limits = demo_limits, s_now = int, s_reads = 3,
     db_fault = (\<lambda>_. False), db_calls = 7\<rparr>"
  using demo_alert_ok(2) limits_ok_normalized
  by (simp add: demo_opened_def NewStore_def Intake_def getActiveByFingerprint_def intake_insert_def insertIncident_def
        prune_def prune_expired_def prune_excess_def Get_def clock_defs demo_alert_def demo_row_def Let_def
        TrimSpace_def is_space_def activeCount_def terminal_state_def fingerprint_def demo_limits_def normalized_def)

theorem daily_budget_never_exceeded_witness:
  "\<exists>t. (some_istep (\<lambda>x. x))\<^sup>*\<^sup>* demo_opened t \<and> incident_budget t 0 = Some 50 \<and> 50 \<le> max_cents (limits t)"
proof -
  let ?t1 = "snd (Intake (\<lambda>x. x) demo_opened (demo_alert ''n'' ''fn''))"
  have opened: "NewStore (Some ([], [], Map.empty)) demo_limits int (\<lambda>_. False) = Inr demo_opened"
    by (simp add: demo_opened_def NewStore_def clock_defs Let_def)
  have "\<exists>r t. begin_investigation 1 ?t1 ''n'' = Some (r, t) \<and> incident_budget t 0 = Some 50 \<and> limits t = demo_limits"
    unfolding demo_opened_queued
    by (simp add: begin_investigation_def Get_def reserveBudget_def budget_enabled_def Transition_def transitions_def
          transition_rows_def transition_matches_def insertEvent_def clock_defs demo_row_def Let_def utc_day_def)
  then obtain r t where t: "begin_investigation 1 ?t1 ''n'' = Some (r, t)" "incident_budget t 0 = Some 50"
    "limits t = demo_limits" by blast
  have "some_istep (\<lambda>x. x) demo_opened ?t1"
    by (auto simp: some_istep_def intro!: exI istep.intake prod.collapse [symmetric])
  moreover have "some_istep (\<lambda>x. x) ?t1 t" using t(1) by (auto simp: some_istep_def intro: istep.begin_inv)
  ultimately have run: "(some_istep (\<lambda>x. x))\<^sup>*\<^sup>* demo_opened t" by simp
  from daily_budget_never_exceeded [OF opened run _ t(2)] t run show ?thesis by auto
qed

text \<open>The first reservation of a day is not compared with the daily budget: a store whose
  investigations cost more than a whole day allows still admits one per day.\<close>

theorem first_reservation_unchecked:
  assumes "no_faults s" and "budget_enabled (limits s)"
    and "incident_budget s (utc_day (s_now s (s_reads s))) = None"
  shows "\<exists>t. reserveBudget (Suc n) s = Some (Inr (), t) \<and>
    incident_budget t (utc_day (s_now s (s_reads s))) = Some (reserve_cents (limits s))"
  using assms by (simp add: reserveBudget_def clock_defs no_faults_def Let_def)

theorem first_reservation_unchecked_witness:
  "\<exists>t. reserveBudget 1 demo_poor = Some (Inr (), t) \<and> incident_budget t 0 = Some 50 \<and> max_cents (limits demo_poor) = 10"
  using first_reservation_unchecked [of demo_poor 0]
  by (simp add: demo_poor_def demo_store_def no_faults_def budget_enabled_def utc_day_def reserve_cents_def
        max_cents_def usd_cents_def)

text \<open>An incident in state unavailable passes the readiness check of an investigation, but
  the transition table has no edge from unavailable to investigating: the call fails after
  the budget for it has been reserved.\<close>

theorem unavailable_investigation_wastes_budget:
  assumes "no_faults s" and "store_inv s" and "budget_enabled (limits s)"
    and "q \<in> set (incidents s)" and "in_State q = Unavailable"
    and "incident_budget s (utc_day (s_now s (s_reads s))) = None"
  shows "\<exists>t. Investigate (Suc n) s (in_ID q) (Some investigate) =
      Some (Inl (InvalidTransition Unavailable Investigating), t) \<and> incidents t = incidents s \<and>
    incident_budget t (utc_day (s_now s (s_reads s))) = Some (reserve_cents (limits s))"
proof -
  have "distinct (map in_ID (incidents s))" using assms(2) by (simp add: store_inv_def rows_inv_def)
  then have "Get s (in_ID q) True = (Inr (Some q, True), snd (db_stmt s))"
    using Get_hit assms(1,4) by blast
  then show ?thesis
    using assms
    by (simp add: Investigate_def begin_investigation_def reserveBudget_def Transition_def transitions_def
          clock_defs no_faults_def Let_def)
qed

theorem unavailable_investigation_wastes_budget_witness:
  "\<exists>t. Investigate 1 demo_store ''a'' (Some (\<lambda>_. (\<lparr>rs_State = Completed, rs_Detail = []\<rparr>, None))) =
      Some (Inl (InvalidTransition Unavailable Investigating), t) \<and> incident_budget t 0 = Some 50"
  using unavailable_investigation_wastes_budget [OF demo_store_ok(1,3), of "demo_row ''a'' ''fa'' Unavailable" 0
      "\<lambda>_. (\<lparr>rs_State = Completed, rs_Detail = []\<rparr>, None)"]
  by (auto simp: demo_defs budget_enabled_def utc_day_def)



end
