(* ===== verification/Go_Std.thy ===== *)
theory Go_Std
  imports Prelude
begin

unbundle bit_operations_syntax

text \<open>
  The parts of the Go standard library that the modelled code calls: \<^verbatim>\<open>strings\<close>,
  \<^verbatim>\<open>strconv.Atoi\<close>, \<^verbatim>\<open>sort\<close> and, from \<^verbatim>\<open>net\<close>, \<open>ParseIP\<close>,
  \<open>ParseCIDR\<close>, \<open>ParseMAC\<close>, \<open>IP.To4\<close>, \<open>IP.String\<close>,
  \<open>IPNet.Contains\<close> and \<open>IPNet.String\<close>.  An address is a list of 8-bit words, four or
  sixteen of them as in Go; a parser returns \<open>None\<close> where Go returns \<open>nil\<close> or an error.
  The regular expressions of the program are anchored and have one leading character class and
  one repeated class, so \<open>class_token\<close> expresses them.

  \<^verbatim>\<open>net/url.Parse\<close> is not rebuilt here: the definitions that call it take the parser as
  an argument, and everything proved about them holds for every parser.
\<close>

section \<open>Errors\<close>

text \<open>\<open>errors.New\<close> and \<open>fmt.Errorf\<close>: the format string and the arguments it is filled
  with; \<open>Wrapf\<close> is an \<open>Errorf\<close> whose last verb is \<open>%w\<close>.\<close>

datatype gerror = Errorf string "string list" | Wrapf string "string list" gerror

text \<open>A sequence of \<open>if bad { return err }\<close> statements: the first one that fires decides.\<close>

definition fails :: "bool \<Rightarrow> gerror \<Rightarrow> gerror + unit" where
  "fails bad e = (if bad then Inl e else Inr ())"

definition checks :: "(gerror + unit) list \<Rightarrow> gerror + unit" where
  "checks cs = allE (\<lambda>c. c) cs"

lemma fails_Inr [simp]: "fails bad e = Inr () \<longleftrightarrow> \<not> bad"
  by (simp add: fails_def)

lemma checks_Inr: "checks cs = Inr () \<longleftrightarrow> (\<forall>c \<in> set cs. c = Inr ())"
  by (simp add: checks_def allE_Inr)

lemma checks_simps [simp]:
  "checks [] = Inr ()"
  "checks (c # cs) = (case c of Inl e \<Rightarrow> Inl e | Inr _ \<Rightarrow> checks cs)"
  by (simp_all add: checks_def split: sum.split)

section \<open>Package strings and strconv\<close>

definition is_lower :: "char \<Rightarrow> bool" where
  "is_lower c \<longleftrightarrow> CHR ''a'' \<le> c \<and> c \<le> CHR ''z''"

definition is_upper :: "char \<Rightarrow> bool" where
  "is_upper c \<longleftrightarrow> CHR ''A'' \<le> c \<and> c \<le> CHR ''Z''"

definition is_digit :: "char \<Rightarrow> bool" where
  "is_digit c \<longleftrightarrow> CHR ''0'' \<le> c \<and> c \<le> CHR ''9''"

definition is_alnum :: "char \<Rightarrow> bool" where
  "is_alnum c \<longleftrightarrow> is_lower c \<or> is_upper c \<or> is_digit c"

definition lower_char :: "char \<Rightarrow> char" where
  "lower_char c = (if is_upper c then char_of (of_char c + 32 :: nat) else c)"

definition upper_char :: "char \<Rightarrow> char" where
  "upper_char c = (if is_lower c then char_of (of_char c - 32 :: nat) else c)"

definition ToLower :: "string \<Rightarrow> string" where
  "ToLower s = map lower_char s"

definition ToUpper :: "string \<Rightarrow> string" where
  "ToUpper s = map upper_char s"

definition HasPrefix :: "string \<Rightarrow> string \<Rightarrow> bool" where
  "HasPrefix s p \<longleftrightarrow> take (length p) s = p"

definition HasSuffix :: "string \<Rightarrow> string \<Rightarrow> bool" where
  "HasSuffix s p \<longleftrightarrow> HasPrefix (rev s) (rev p)"

definition TrimPrefix :: "string \<Rightarrow> string \<Rightarrow> string" where
  "TrimPrefix s p = (if HasPrefix s p then drop (length p) s else s)"

definition TrimSuffix :: "string \<Rightarrow> string \<Rightarrow> string" where
  "TrimSuffix s p = (if HasSuffix s p then take (length s - length p) s else s)"

definition ContainsAny :: "string \<Rightarrow> string \<Rightarrow> bool" where
  "ContainsAny s cs \<longleftrightarrow> list_ex (\<lambda>c. c \<in> set cs) s"

definition EqualFold :: "string \<Rightarrow> string \<Rightarrow> bool" where
  "EqualFold s t \<longleftrightarrow> ToLower s = ToLower t"

text \<open>\<open>strings.Split\<close> with a separator of one character; the result is never empty.\<close>

fun SplitChar :: "char \<Rightarrow> string \<Rightarrow> string list" where
  "SplitChar c [] = [[]]"
| "SplitChar c (x # xs) =
     (if x = c then [] # SplitChar c xs
      else case SplitChar c xs of [] \<Rightarrow> [[x]] | w # ws \<Rightarrow> (x # w) # ws)"

definition IsControl :: "char \<Rightarrow> bool" where
  "IsControl c \<longleftrightarrow> of_char c < (32::nat) \<or> of_char c = (127::nat)"

definition digit_val :: "char \<Rightarrow> nat" where
  "digit_val c = of_char c - 48"

fun dec_val :: "string \<Rightarrow> int \<Rightarrow> int option" where
  "dec_val [] n = Some n"
| "dec_val (c # cs) n = (if is_digit c then dec_val cs (10 * n + int (digit_val c)) else None)"

text \<open>\<open>strconv.Atoi\<close>: an optional sign, at least one digit, and a value that fits in the
  64-bit \<open>int\<close>.\<close>

definition Atoi :: "string \<Rightarrow> int option" where
  "Atoi s =
     (let neg = HasPrefix s ''-'';
          body = (if neg \<or> HasPrefix s ''+'' then drop 1 s else s)
      in if body = [] then None
         else case dec_val body 0 of
           None \<Rightarrow> None
         | Some n \<Rightarrow>
             (let i = (if neg then - n else n)
              in if - (2 ^ 63) \<le> i \<and> i < 2 ^ 63 then Some i else None))"

section \<open>Maps as association lists\<close>

text \<open>\<open>m[k] = v\<close>.  The order of the entries stands for the order a \<open>range\<close> happens to take.\<close>

fun assoc_set :: "'k \<Rightarrow> 'v \<Rightarrow> ('k \<times> 'v) list \<Rightarrow> ('k \<times> 'v) list" where
  "assoc_set k v [] = [(k, v)]"
| "assoc_set k v ((k', v') # r) = (if k' = k then (k, v) # r else (k', v') # assoc_set k v r)"

lemma map_of_assoc_set [simp]: "map_of (assoc_set k v m) = (map_of m)(k \<mapsto> v)"
  by (induction m) auto

lemma keys_assoc_set: "set (map fst (assoc_set k v m)) = insert k (set (map fst m))"
  by (induction k v m rule: assoc_set.induct) (auto simp del: set_map)

lemma distinct_assoc_set: "distinct (map fst m) \<Longrightarrow> distinct (map fst (assoc_set k v m))"
  by (induction k v m rule: assoc_set.induct) (auto simp: keys_assoc_set simp del: set_map)

section \<open>Anchored character-class patterns\<close>

definition class_token :: "(char \<Rightarrow> bool) \<Rightarrow> (char \<Rightarrow> bool) \<Rightarrow> nat \<Rightarrow> string \<Rightarrow> bool" where
  "class_token first rest n s \<longleftrightarrow>
     (case s of [] \<Rightarrow> False | c # cs \<Rightarrow> first c \<and> list_all rest cs \<and> length cs \<le> n)"

section \<open>Addresses\<close>

type_synonym IP = "8 word list"

fun ipv4_loop :: "string \<Rightarrow> nat \<Rightarrow> nat \<Rightarrow> IP \<Rightarrow> IP option" where
  "ipv4_loop [] val digLen fields =
     (if length fields < 3 then None else Some (fields @ [of_nat val]))"
| "ipv4_loop (c # cs) val digLen fields =
     (if is_digit c then
        (if digLen = 1 \<and> val = 0 then None
         else let v = 10 * val + digit_val c
              in if v > 255 then None else ipv4_loop cs v (digLen + 1) fields)
      else if c = CHR ''.'' then
        (if digLen = 0 \<or> cs = [] then None
         else if length fields = 3 then None
         else ipv4_loop cs 0 0 (fields @ [of_nat val]))
      else None)"

definition parseIPv4Fields :: "string \<Rightarrow> IP option" where
  "parseIPv4Fields s = ipv4_loop s 0 0 []"

definition v4InV6Prefix :: IP where
  "v4InV6Prefix = [0, 0, 0, 0, 0, 0, 0, 0, 0, 0, 0xff, 0xff]"

definition hex_val :: "char \<Rightarrow> nat option" where
  "hex_val c =
     (if is_digit c then Some (of_char c - 48)
      else if CHR ''a'' \<le> c \<and> c \<le> CHR ''f'' then Some (of_char c - 87)
      else if CHR ''A'' \<le> c \<and> c \<le> CHR ''F'' then Some (of_char c - 55)
      else None)"

text \<open>The hexadecimal digits a group starts with: the value, how many there are, the rest.\<close>

fun hex_run :: "string \<Rightarrow> nat \<Rightarrow> nat \<Rightarrow> nat \<times> nat \<times> string" where
  "hex_run [] acc off = (acc, off, [])"
| "hex_run (c # cs) acc off =
     (case hex_val c of None \<Rightarrow> (acc, off, c # cs)
      | Some v \<Rightarrow> hex_run cs (16 * acc + v) (off + 1))"

fun ipv6_loop :: "nat \<Rightarrow> string \<Rightarrow> IP \<Rightarrow> nat option \<Rightarrow> (IP \<times> nat option \<times> string) option" where
  "ipv6_loop 0 s ip ellipsis = Some (ip, ellipsis, s)"
| "ipv6_loop (Suc k) s ip ellipsis =
     (case hex_run s 0 0 of (acc, off, rest) \<Rightarrow>
        if off > 4 \<or> off = 0 then None
        else if HasPrefix rest ''.'' then
          (if ellipsis = None \<and> length ip \<noteq> 12 then None
           else if length ip + 4 > 16 then None
           else case parseIPv4Fields s of None \<Rightarrow> None | Some q \<Rightarrow> Some (ip @ q, ellipsis, []))
        else
          (let ip' = ip @ [of_nat (acc div 256), of_nat (acc mod 256)]
           in case rest of
                [] \<Rightarrow> Some (ip', ellipsis, [])
              | c # cs \<Rightarrow>
                  if c \<noteq> CHR '':'' \<or> cs = [] then None
                  else if hd cs = CHR '':'' then
                    (if ellipsis \<noteq> None then None
                     else if tl cs = [] then Some (ip', Some (length ip'), [])
                     else ipv6_loop k (tl cs) ip' (Some (length ip')))
                  else ipv6_loop k cs ip' ellipsis))"

text \<open>\<open>netip.ParseAddr\<close> of an IPv6 literal without a zone; \<open>net.ParseIP\<close> rejects zones.\<close>

definition parseIPv6 :: "string \<Rightarrow> IP option" where
  "parseIPv6 s0 =
     (if CHR ''%'' \<in> set s0 then None
      else let lead = HasPrefix s0 ''::''; s = (if lead then drop 2 s0 else s0)
      in if lead \<and> s = [] then Some (replicate 16 0)
      else case ipv6_loop 8 s [] (if lead then Some 0 else None) of
        None \<Rightarrow> None
      | Some (ip, ellipsis, rest) \<Rightarrow>
          if rest \<noteq> [] then None
          else if length ip < 16 then
            (case ellipsis of None \<Rightarrow> None
             | Some e \<Rightarrow> Some (take e ip @ replicate (16 - length ip) 0 @ drop e ip))
          else if ellipsis \<noteq> None then None
          else Some ip)"

text \<open>\<open>net.ParseIP\<close>: always sixteen bytes; the first of \<open>.\<close>, \<open>:\<close> and \<open>%\<close>
  decides which parser runs.\<close>

definition ParseIP :: "string \<Rightarrow> IP option" where
  "ParseIP s =
     (case dropWhile (\<lambda>c. c \<notin> {CHR ''.'', CHR '':'', CHR ''%''}) s of
        [] \<Rightarrow> None
      | c # _ \<Rightarrow>
          if c = CHR ''.'' then map_option (\<lambda>q. v4InV6Prefix @ q) (parseIPv4Fields s)
          else if c = CHR '':'' then parseIPv6 s
          else None)"

definition To4 :: "IP \<Rightarrow> IP option" where
  "To4 ip =
     (if length ip = 4 then Some ip
      else if length ip = 16 \<and> take 12 ip = v4InV6Prefix then Some (drop 12 ip)
      else None)"

definition hex_digit :: "nat \<Rightarrow> char" where
  "hex_digit n = (if n < 10 then char_of (48 + n) else char_of (87 + n))"

definition hex_byte :: "8 word \<Rightarrow> string" where
  "hex_byte b = [hex_digit (unat b div 16), hex_digit (unat b mod 16)]"

definition hex_group :: "nat \<Rightarrow> string" where
  "hex_group n = (case dropWhile (\<lambda>c. c = CHR ''0'')
       [hex_digit (n div 4096), hex_digit (n div 256 mod 16), hex_digit (n div 16 mod 16),
        hex_digit (n mod 16)] of [] \<Rightarrow> ''0'' | ds \<Rightarrow> ds)"

definition ip4_string :: "IP \<Rightarrow> string" where
  "ip4_string q = joinWith ''.'' (map (\<lambda>b. nat_digits (unat b)) q)"

fun groups16 :: "IP \<Rightarrow> nat list" where
  "groups16 (a # b # r) = (256 * unat a + unat b) # groups16 r"
| "groups16 _ = []"

definition zero_run :: "nat list \<Rightarrow> nat \<Rightarrow> nat" where
  "zero_run gs i = length (takeWhile (\<lambda>g. g = 0) (drop i gs))"

text \<open>The first longest run of at least two zero groups is written \<open>::\<close>.\<close>

definition best_run :: "nat list \<Rightarrow> (nat \<times> nat) option" where
  "best_run gs =
     foldl (\<lambda>b i. let l = zero_run gs i; cur = (case b of None \<Rightarrow> 0 | Some (_, n) \<Rightarrow> n)
                   in if 2 \<le> l \<and> l > cur then Some (i, l) else b) None [0..<8]"

definition ip6_string :: "IP \<Rightarrow> string" where
  "ip6_string ip =
     (let gs = groups16 ip in
      case best_run gs of
        None \<Rightarrow> joinWith '':'' (map hex_group gs)
      | Some (i, l) \<Rightarrow>
          joinWith '':'' (map hex_group (take i gs)) @ ''::'' @
          joinWith '':'' (map hex_group (drop (i + l) gs)))"

definition IPString :: "IP \<Rightarrow> string" where
  "IPString ip = (case To4 ip of Some q \<Rightarrow> ip4_string q | None \<Rightarrow> ip6_string ip)"

definition IPEqual :: "IP \<Rightarrow> IP \<Rightarrow> bool" where
  "IPEqual a b \<longleftrightarrow> a = b \<or> (To4 a \<noteq> None \<and> To4 a = To4 b)"

section \<open>Prefixes\<close>

record IPNet =
  net_IP :: IP
  net_Mask :: IP

definition mask_byte :: "nat \<Rightarrow> 8 word" where
  "mask_byte n = (if n \<ge> 8 then 0xff else of_nat (256 - 2 ^ (8 - n)))"

definition CIDRMask :: "nat \<Rightarrow> nat \<Rightarrow> IP" where
  "CIDRMask ones len = map (\<lambda>i. mask_byte (ones - 8 * i)) [0..<len]"

definition and_bytes :: "IP \<Rightarrow> IP \<Rightarrow> IP" where
  "and_bytes a b = map2 (\<lambda>x y. x AND y) a b"

text \<open>\<open>dtoi\<close>: leading digits below \<open>0xFFFFFF\<close>; \<open>ParseCIDR\<close> wants the whole string.\<close>

definition parse_prefix_len :: "string \<Rightarrow> nat option" where
  "parse_prefix_len s = (if s = [] then None else
     case dec_val s 0 of None \<Rightarrow> None | Some n \<Rightarrow> if n \<ge> 16777215 then None else Some (nat n))"

definition ParseCIDR :: "string \<Rightarrow> (IP \<times> IPNet) option" where
  "ParseCIDR s =
     (if CHR ''/'' \<notin> set s then None
      else let addr = takeWhile (\<lambda>c. c \<noteq> CHR ''/'') s;
               mask = tl (dropWhile (\<lambda>c. c \<noteq> CHR ''/'') s);
               is4 = (hd (dropWhile (\<lambda>c. c \<notin> {CHR ''.'', CHR '':''}) addr @ '' '') = CHR ''.'')
      in case ParseIP addr of None \<Rightarrow> None
      | Some ip \<Rightarrow>
        (case parse_prefix_len mask of None \<Rightarrow> None
         | Some n \<Rightarrow>
            if n > (if is4 then 32 else 128) then None
            else if is4 then
              Some (ip, \<lparr>net_IP = and_bytes (drop 12 ip) (CIDRMask n 4), net_Mask = CIDRMask n 4\<rparr>)
            else
              Some (ip, \<lparr>net_IP = and_bytes ip (CIDRMask n 16), net_Mask = CIDRMask n 16\<rparr>)))"

definition networkNumberAndMask :: "IPNet \<Rightarrow> IP \<times> IP" where
  "networkNumberAndMask n =
     (let ip = (case To4 (net_IP n) of Some q \<Rightarrow> q | None \<Rightarrow> net_IP n)
      in (ip, if length (net_Mask n) = 16 \<and> length ip = 4 then drop 12 (net_Mask n) else net_Mask n))"

definition Contains :: "IPNet \<Rightarrow> IP \<Rightarrow> bool" where
  "Contains n ip0 =
     (case networkNumberAndMask n of (nn, m) \<Rightarrow>
        let ip = (case To4 ip0 of Some q \<Rightarrow> q | None \<Rightarrow> ip0)
        in length ip = length nn \<and> and_bytes nn m = and_bytes ip m)"

definition mask_ones :: "IP \<Rightarrow> nat" where
  "mask_ones m = sum_list (map (\<lambda>b. length (filter (bit b) [0..<8])) m)"

text \<open>\<open>IPNet.String\<close>.  Every mask built by \<open>CIDRMask\<close> is a run of ones.\<close>

definition IPNetString :: "IPNet \<Rightarrow> string" where
  "IPNetString n =
     (case networkNumberAndMask n of (nn, m) \<Rightarrow> IPString nn @ ''/'' @ nat_digits (mask_ones m))"

section \<open>Hardware addresses\<close>

definition xtoi2 :: "string \<Rightarrow> char option \<Rightarrow> 8 word option" where
  "xtoi2 s e =
     (case s of
        a # b # r \<Rightarrow>
          (if r \<noteq> [] \<and> Some (hd r) \<noteq> e then None
           else case (hex_val a, hex_val b) of
             (Some x, Some y) \<Rightarrow> Some (of_nat (16 * x + y))
           | _ \<Rightarrow> None)
      | _ \<Rightarrow> None)"

fun seqO :: "'a option list \<Rightarrow> 'a list option" where
  "seqO [] = Some []"
| "seqO (None # xs) = None"
| "seqO (Some x # xs) = map_option (Cons x) (seqO xs)"

definition ParseMAC :: "string \<Rightarrow> 8 word list option" where
  "ParseMAC s =
     (if length s < 14 then None
      else if s ! 2 = CHR '':'' \<or> s ! 2 = CHR ''-'' then
        (if (length s + 1) mod 3 \<noteq> 0 then None
         else let n = (length s + 1) div 3
         in if n \<notin> {6, 8, 20} then None
            else seqO (map (\<lambda>i. xtoi2 (drop (3 * i) s) (Some (s ! 2))) [0..<n]))
      else if s ! 4 = CHR ''.'' then
        (if (length s + 1) mod 5 \<noteq> 0 then None
         else let n = 2 * (length s + 1) div 5
         in if n \<notin> {6, 8, 20} then None
            else seqO (concat (map (\<lambda>i.
                   [xtoi2 (take 2 (drop (5 * i) s)) None,
                    xtoi2 (drop (5 * i + 2) s) (Some (s ! 4))]) [0..<n div 2])))
      else None)"

definition MACString :: "8 word list \<Rightarrow> string" where
  "MACString bs = joinWith '':'' (map hex_byte bs)"

end
