(* ===== verification/Go_Text.thy ===== *)
theory Go_Text
  imports Go_Std
begin

text \<open>
  Laws of the text functions of \<^verbatim>\<open>Go_Std\<close> that several components share: case mapping,
  prefixes and suffixes, splitting, and codes that write each character of a name by one word.
\<close>

section \<open>Case\<close>

lemma is_lower_code: "is_lower c \<longleftrightarrow> 97 \<le> (of_char c :: nat) \<and> (of_char c :: nat) \<le> 122"
  by (simp add: is_lower_def less_eq_char_def)

lemma is_upper_code: "is_upper c \<longleftrightarrow> 65 \<le> (of_char c :: nat) \<and> (of_char c :: nat) \<le> 90"
  by (simp add: is_upper_def less_eq_char_def)

lemma is_digit_code: "is_digit c \<longleftrightarrow> 48 \<le> (of_char c :: nat) \<and> (of_char c :: nat) \<le> 57"
  by (simp add: is_digit_def less_eq_char_def)

lemma lower_upper_char: "lower_char (upper_char c) = lower_char c"
proof (cases "is_lower c")
  case True
  define n where "n = (of_char c :: nat)"
  have n: "97 \<le> n" "n \<le> 122" using True by (simp_all add: is_lower_code n_def)
  then have m: "65 \<le> n - 32" "n - 32 \<le> 90" by linarith+
  have c: "c = char_of n" by (simp add: n_def)
  have up: "of_char (char_of (n - 32) :: char) = n - 32" using n by (simp add: of_char_of)
  have "lower_char c = c" using n by (simp add: lower_char_def is_upper_code flip: n_def)
  moreover have "lower_char (upper_char c) = char_of (n - 32 + 32)"
    using m up True by (simp add: lower_char_def upper_char_def is_upper_code flip: n_def)
  ultimately show ?thesis using n c by simp
qed (simp add: upper_char_def)

lemma lower_lower_char: "lower_char (lower_char c) = lower_char c"
proof (cases "is_upper c")
  case True
  define n where "n = (of_char c :: nat)"
  have n: "65 \<le> n" "n \<le> 90" using True by (simp_all add: is_upper_code n_def)
  have "of_char (char_of (n + 32) :: char) = n + 32" using n by (simp add: of_char_of)
  then show ?thesis using n True by (simp add: lower_char_def is_upper_code flip: n_def)
qed (simp add: lower_char_def)

lemma ToLower_ToUpper: "ToLower (ToUpper s) = ToLower s"
  by (simp add: ToLower_def ToUpper_def lower_upper_char)

lemma ToLower_ToLower [simp]: "ToLower (ToLower s) = ToLower s"
  by (simp add: ToLower_def lower_lower_char)

lemma ToLower_append: "ToLower (s @ t) = ToLower s @ ToLower t"
  by (simp add: ToLower_def)

lemma ToLower_Nil [simp]: "ToLower s = [] \<longleftrightarrow> s = []"
  by (simp add: ToLower_def)

section \<open>Prefixes and suffixes\<close>

lemma HasPrefix_append [simp]: "HasPrefix (p @ s) p"
  by (simp add: HasPrefix_def)

lemma HasPrefix_iff: "HasPrefix s p \<longleftrightarrow> (\<exists>t. s = p @ t)"
  by (metis HasPrefix_append HasPrefix_def append_take_drop_id)

lemma HasSuffix_iff: "HasSuffix s p \<longleftrightarrow> (\<exists>t. s = t @ p)"
  by (metis HasPrefix_iff HasSuffix_def rev_append rev_rev_ident)

lemma TrimPrefix_append [simp]: "TrimPrefix (p @ s) p = s"
  by (simp add: TrimPrefix_def)

lemma TrimSuffix_not: "\<not> HasSuffix s p \<Longrightarrow> TrimSuffix s p = s"
  by (simp add: TrimSuffix_def)

lemma HasSuffix_last: "HasSuffix s [c] \<longleftrightarrow> s \<noteq> [] \<and> last s = c"
  by (auto simp: HasSuffix_iff) (metis append_butlast_last_id)

section \<open>Character codes\<close>

text \<open>A code that writes each character by a word is injective on a set of characters when the
  words of two of them are never prefixes of one another.\<close>

lemma concat_code_inj:
  assumes code: "\<And>x y. x \<in> A \<Longrightarrow> y \<in> A \<Longrightarrow> x \<noteq> y \<Longrightarrow> \<not> (\<exists>t. f x = f y @ t) \<and> \<not> (\<exists>t. f y = f x @ t)"
    and nonempty: "\<And>x. x \<in> A \<Longrightarrow> f x \<noteq> []"
    and "set s \<subseteq> A" "set t \<subseteq> A" "concat (map f s) = concat (map f t)"
  shows "s = t"
  using assms(3-5)
proof (induction s arbitrary: t)
  case Nil
  then show ?case using nonempty by (cases t) auto
next
  case (Cons x s)
  then obtain y t' where t: "t = y # t'" using nonempty by (cases t) auto
  from Cons.prems(3) have eq: "f x @ concat (map f s) = f y @ concat (map f t')" by (simp add: t)
  have "x = y"
  proof (rule ccontr)
    assume "x \<noteq> y"
    with code Cons.prems t have "\<not> (\<exists>u. f x = f y @ u) \<and> \<not> (\<exists>u. f y = f x @ u)" by simp
    then show False using eq unfolding append_eq_append_conv2 by metis
  qed
  with Cons eq t show ?case by auto
qed

section \<open>Code equations\<close>

text \<open>Natural numbers evaluate in unary; these equations let decimal text, octets and masks
  evaluate with binary integers.\<close>

function int_digits :: "int \<Rightarrow> string" where
  "int_digits n = (if n < 10 then [char_of (48 + n)] else int_digits (n div 10) @ [char_of (48 + n mod 10)])"
  by pat_completeness auto
termination by (relation "measure nat") auto

declare int_digits.simps [simp del]

lemma char_of_int: "(char_of (int n) :: char) = char_of n"
  by (simp add: char_of_def bit_simps of_nat_mod flip: of_nat_mod)

lemma lower_char_code [code]: "lower_char c = (if is_upper c then char_of (of_char c + 32 :: int) else c)"
  using char_of_int [of "of_char c + 32"] by (simp add: lower_char_def of_nat_of_char)

lemma upper_char_code [code]: "upper_char c = (if is_lower c then char_of (of_char c - 32 :: int) else c)"
proof (cases "is_lower c")
  case True
  then have "32 \<le> (of_char c :: nat)" by (simp add: is_lower_code)
  then have "int (of_char c - 32) = of_char c - 32" by (simp add: of_nat_diff of_nat_of_char)
  then show ?thesis using char_of_int [of "of_char c - 32"] True by (simp add: upper_char_def)
qed (simp add: upper_char_def)

lemma nat_digits_int [code]: "nat_digits n = int_digits (int n)"
proof (induction n rule: nat_digits.induct)
  case (1 n)
  have "char_of (48 + int k) = (char_of (48 + k) :: char)" for k
    using char_of_int [of "48 + k"] by simp
  moreover have "int n mod 10 = int (n mod 10)" "int n div 10 = int (n div 10)"
    by (simp_all add: zmod_int zdiv_int)
  ultimately show ?case
    using 1 by (subst nat_digits.simps, subst int_digits.simps) (auto simp: of_nat_less_iff [of _ 10, symmetric])
qed

lemma itoa_code [code]: "itoa i = (if i < 0 then CHR ''-'' # int_digits (- i) else int_digits i)"
  by (simp add: itoa_def nat_digits_int)

lemma ip4_string_code [code]: "ip4_string q = joinWith ''.'' (map (\<lambda>b. int_digits (uint b)) q)"
  by (simp add: ip4_string_def nat_digits_int)

lemma mask_byte_code [code]:
  "mask_byte n = (if 8 \<le> n then 255 else [0, 128, 192, 224, 240, 248, 252, 254] ! n)"
proof (cases "8 \<le> n")
  case False
  then have "n = 0 \<or> n = 1 \<or> n = 2 \<or> n = 3 \<or> n = 4 \<or> n = 5 \<or> n = 6 \<or> n = 7" by linarith
  then show ?thesis by (elim disjE) (simp_all add: mask_byte_def)
qed (simp add: mask_byte_def)

fun ipv4_int :: "string \<Rightarrow> int \<Rightarrow> nat \<Rightarrow> IP \<Rightarrow> IP option" where
  "ipv4_int [] v digLen fs = (if length fs < 3 then None else Some (fs @ [of_int v]))"
| "ipv4_int (c # cs) v digLen fs =
     (if is_digit c then
        (if digLen = 1 \<and> v = 0 then None
         else let w = 10 * v + (of_char c - 48) in if w > 255 then None else ipv4_int cs w (digLen + 1) fs)
      else if c = CHR ''.'' then
        (if digLen = 0 \<or> cs = [] then None
         else if length fs = 3 then None
         else ipv4_int cs 0 0 (fs @ [of_int v]))
      else None)"

lemma digit_val_int: "is_digit c \<Longrightarrow> int (digit_val c) = of_char c - 48"
  by (simp add: digit_val_def is_digit_code of_nat_diff of_nat_of_char)

lemma ipv4_loop_code [code]: "ipv4_loop s v n fs = ipv4_int s (int v) n fs"
proof (induction s v n fs rule: ipv4_loop.induct)
  case (2 c cs v n fs)
  have "10 * int v + (of_char c - 48) = int (10 * v + digit_val c)" if "is_digit c"
    using digit_val_int [OF that] by simp
  with 2 show ?case by (auto simp: Let_def simp del: of_nat_add of_nat_mult)
qed simp

section \<open>Dotted addresses\<close>

lemma ipv4_loop_length: "ipv4_loop s v d f = Some q \<Longrightarrow> length f \<le> 3 \<Longrightarrow> length q = 4"
  by (induction s v d f rule: ipv4_loop.induct) (auto simp: Let_def split: if_split_asm)

end
