(* ===== verification/Site_Model.thy ===== *)
theory Site_Model
  imports Go_Text
begin

text \<open>
  The typed site model of \<^verbatim>\<open>internal/model\<close>: the structs of \<^verbatim>\<open>model.go\<close> and
  \<^verbatim>\<open>config.go\<close> as records (a field keeps its Go name after a short prefix for its
  struct, because Isabelle selectors share one name space), the named string types as strings
  with their constants as abbreviations, \<open>*bool\<close> and other nilable pointers as options, and a
  \<open>map[string]T\<close> as an association list whose order stands for the order in which Go happens to
  iterate it.  Integers are \<open>int\<close>: no arithmetic of this package can leave the 64-bit range.
\<close>

section \<open>Constants of model.go\<close>

abbreviation "APIVersion \<equiv> ''boetticher/v3''"
abbreviation "PlatformVersion \<equiv> ''0.1.0''"
abbreviation "SchemaVersion \<equiv> (3::int)"
abbreviation "QualifiedGatewayImage \<equiv> ''debian-13-genericcloud-amd64-20260327-2429''"
abbreviation "DefaultDomain \<equiv> ''lab.home.arpa''"
abbreviation "DefaultAdminSSHUser \<equiv> ''labadmin''"
abbreviation "LogicalProxmoxIdentity \<equiv> ''lab-proxmox-01''"
abbreviation "ProxmoxVMID \<equiv> (100::int)"
abbreviation "DNS01VMID \<equiv> (110::int)"
abbreviation "MonitorVMID \<equiv> (120::int)"
abbreviation "DefaultGatewayUpstreamMAC \<equiv> ''02:00:00:00:01:01''"
abbreviation "GatewayManagementAddress \<equiv> ''192.168.4.28''"
abbreviation "GatewayManagementNetwork \<equiv> ''192.168.4.0/22''"
abbreviation "GatewayManagementGateway \<equiv> ''192.168.4.1''"
abbreviation "GatewayControllerAddress \<equiv> ''192.168.4.6''"
abbreviation "CompanionZone \<equiv> ''SERVERS''"
abbreviation "CompanionHostname \<equiv> ''lab-display-01''"
abbreviation "CompanionAddress \<equiv> ''10.10.20.50''"
abbreviation "ProxmoxManagementAddress \<equiv> ''10.10.99.5''"
abbreviation "PlatformGuestIDMin \<equiv> (100::int)"
abbreviation "PlatformGuestIDMax \<equiv> (199::int)"
abbreviation "ModuleGuestIDMin \<equiv> (200::int)"
abbreviation "ModuleGuestIDMax \<equiv> (499::int)"
abbreviation "UserGuestIDMin \<equiv> (500::int)"
abbreviation "UserGuestIDMax \<equiv> (899::int)"
abbreviation "ModeVirtualOnly \<equiv> ''virtual-only''"
abbreviation "ModePhysicalTrunk \<equiv> ''physical-trunk''"
abbreviation "GatewayModeManaged \<equiv> ''managed''"
abbreviation "GatewayModeExternal \<equiv> ''external''"
abbreviation "TagBoetticher \<equiv> ''boetticher''"
abbreviation "TagManaged \<equiv> ''managed''"
abbreviation "TagModule \<equiv> ''module''"
abbreviation "TagPlatform \<equiv> ''platform''"
abbreviation "TagInfra \<equiv> ''infra''"
abbreviation "TagBackup \<equiv> ''backup''"
abbreviation "TagNetwork \<equiv> ''network''"
abbreviation "TagMonitoringAgent \<equiv> ''monitoring-agent''"

type_synonym ZoneType = string

abbreviation "ZoneTypeTransit \<equiv> ''transit''"
abbreviation "ZoneTypeInfrastructure \<equiv> ''infrastructure''"
abbreviation "ZoneTypeServers \<equiv> ''servers''"
abbreviation "ZoneTypeTrusted \<equiv> ''trusted''"
abbreviation "ZoneTypeSandbox \<equiv> ''sandbox''"
abbreviation "ZoneTypeManagement \<equiv> ''management''"

type_synonym ModuleNetworkMode = string

abbreviation "ModuleNetworkDirect \<equiv> ''direct''"

type_synonym ModuleConfigFieldType = string

abbreviation "ModuleConfigBool \<equiv> ''bool''"
abbreviation "ModuleConfigString \<equiv> ''string''"
abbreviation "ModuleConfigEnum \<equiv> ''enum''"
abbreviation "ModuleConfigModelAlias \<equiv> ''model-alias''"
abbreviation "ModuleConfigObjectList \<equiv> ''object-list''"

type_synonym StoragePlacement = string

abbreviation "StorageDefault \<equiv> ''default''"
abbreviation "StoragePreferDataDisk \<equiv> ''prefer-data-disk''"
abbreviation "StorageRequireDataDisk \<equiv> ''require-data-disk''"

abbreviation "SecretLifecycleRuntime \<equiv> ''runtime''"
abbreviation "SecretLifecycleBootstrap \<equiv> ''bootstrap''"

section \<open>Structs\<close>

record GatewayUpstream =
  up_Mode :: string
  up_MAC :: string

record GatewayPublication =
  pub_Service :: string

record Gateway =
  gw_Mode :: string
  gw_Upstream :: GatewayUpstream
  gw_ManagementAddress :: string
  gw_ManagementNetwork :: string
  gw_ManagementGateway :: string
  gw_ControllerAddress :: string
  gw_Publish :: "GatewayPublication list"

record Zone =
  z_Name :: string
  z_Type :: ZoneType
  z_VLAN :: int
  z_Network :: string
  z_Gateway :: string
  z_AddressMode :: string
  z_DNSAddresses :: "string list"
  z_NTPAddresses :: "string list"

record Network =
  nw_Domain :: string
  nw_Zones :: "Zone list"

record PhysicalNIC =
  nic_Name :: string
  nic_PermanentMAC :: string
  nic_PCIAddress :: string

record PhysicalNetwork =
  pn_Upstream :: PhysicalNIC
  pn_Trunk :: PhysicalNIC
  pn_Mode :: string

record SecretMetadata =
  sm_InstallationID :: string
  sm_AgeRecipient :: string
  sm_RootAgeRecipient :: string

record OwnershipPolicy =
  own_PlatformGuestIDMin :: int
  own_PlatformGuestIDMax :: int
  own_ModuleGuestIDMin :: int
  own_ModuleGuestIDMax :: int
  own_UserGuestIDMin :: int
  own_UserGuestIDMax :: int
  own_UserWorkloadsManaged :: bool

record PKIMetadata =
  pki_RootCommonName :: string
  pki_RootFingerprint :: string
  pki_RootExpiry :: string
  pki_IssuingCommonName :: string
  pki_IssuingFingerprint :: string
  pki_IssuingExpiry :: string

record Component =
  c_Name :: string
  c_VMID :: int
  c_Hostname :: string
  c_Zone :: string
  c_Address :: string
  c_Role :: string
  c_DNSAliases :: "string list"
  c_URL :: string
  c_SSHUser :: string
  c_SSHPort :: int
  c_Monitoring :: bool
  c_Backup :: bool
  c_Tags :: "string list"
  c_MTLS :: bool
  c_SSHManaged :: bool
  c_JumpAllowed :: bool
  c_ProductOwned :: bool
  c_Module :: string
  c_Logging :: bool
  c_MAC :: string

record BifrostUpstreamConfig =
  bu_Name :: string
  bu_BaseURL :: string
  bu_APIKeySecret :: string

record BifrostModelConfig =
  bm_Alias :: string
  bm_Upstream :: string
  bm_Model :: string

record ModuleConfig =
  mc_QBittorrentPort :: int
  mc_TailnetTrustedClients :: "string list"
  mc_Enabled :: "bool option"
  mc_Network :: ModuleNetworkMode
  mc_Servers :: string
  mc_ModelAlias :: string
  mc_Upstreams :: "BifrostUpstreamConfig list"
  mc_Models :: "BifrostModelConfig list"

record USBExportBinding =
  ub_Module :: string
  ub_Requirement :: string
  ub_Port :: string
  ub_VendorID :: string
  ub_ProductID :: string
  ub_Serial :: string

record USBIdentity =
  ui_VendorID :: string
  ui_ProductID :: string

record USBRequirement =
  ur_Name :: string
  ur_Guest :: string
  ur_DeviceType :: string
  ur_Access :: string
  ur_Required :: bool
  ur_AllowedIdentities :: "USBIdentity list"

text \<open>\<open>model.ResolvedModule\<close>; the registry has a struct of the same name.\<close>

record SiteModule =
  sm_Name :: string
  sm_Version :: string
  sm_Policy :: string
  sm_Enabled :: bool
  sm_Reason :: string
  sm_State :: string
  sm_DependsOn :: "string list"
  sm_Requires :: "string list"
  sm_Provides :: "string list"

record Artifact =
  art_Name :: string
  art_Version :: string
  art_Architecture :: string
  art_Kind :: string
  art_DefinitionSHA256 :: string
  art_ContentSHA256 :: string

record PersistentVolumeDeclaration =
  vol_Name :: string
  vol_Module :: string
  vol_Guest :: string
  vol_SizeGiB :: int
  vol_MountPath :: string
  vol_Placement :: StoragePlacement
  vol_Backup :: bool
  vol_Storage :: string

record PersistentState =
  ps_Name :: string
  ps_Guest :: string
  ps_Path :: string
  ps_Kind :: string
  ps_Backup :: bool
  ps_Sensitive :: bool
  ps_Replacement :: string

record SecretDeclaration =
  sec_Name :: string
  sec_Purpose :: string
  sec_Consumer :: string
  sec_Generation :: string
  sec_Rotation :: string
  sec_Delivery :: string
  sec_Lifecycle :: string
  sec_Persistent :: bool

record DeviceRequirement =
  dev_Name :: string
  dev_Path :: string
  dev_Type :: string
  dev_Major :: int
  dev_Minor :: int
  dev_Access :: string

record GuestSecurityDeclaration =
  gs_Unprivileged :: bool
  gs_Devices :: "DeviceRequirement list"
  gs_Capabilities :: "string list"

record NetworkIntent =
  ni_Source :: string
  ni_Destination :: string
  ni_Endpoint :: string
  ni_Protocol :: string
  ni_Ports :: "string list"
  ni_Direction :: string
  ni_Purpose :: string

record DNSRecord =
  dr_Name :: string
  dr_Type :: string
  dr_Address :: string
  dr_Owner :: string

record DHCPReservation =
  res_DNSOverride :: string
  res_NTPOverride :: string
  res_Zone :: string
  res_Hostname :: string
  res_Address :: string
  res_MAC :: string
  res_VMID :: int

record UserDNSRecord =
  udr_Name :: string
  udr_Type :: string
  udr_Value :: string

record UserFirewallRule =
  ufr_ID :: string
  ufr_Source :: string
  ufr_Destination :: string
  ufr_Protocol :: string
  ufr_Ports :: "string list"

record DNSDeletion =
  dd_Name :: string
  dd_Type :: string

record CertificateRequest =
  cert_Identity :: string
  cert_SANs :: "string list"
  cert_Consumer :: string

record MonitoringDeclaration =
  mon_Name :: string
  mon_Kind :: string
  mon_Target :: string
  mon_Checks :: "string list"
  mon_Description :: string

record BackupDeclaration =
  bk_Guest :: string
  bk_Policy :: string

record ModuleDeclaration =
  md_Module :: string
  md_Artifact :: Artifact
  md_Guests :: "Component list"
  md_Persistent :: "PersistentState list"
  md_Volumes :: "PersistentVolumeDeclaration list"
  md_Secrets :: "SecretDeclaration list"
  md_NetworkIntents :: "NetworkIntent list"
  md_DNSRecords :: "DNSRecord list"
  md_DHCPReservations :: "DHCPReservation list"
  md_Certificates :: "CertificateRequest list"
  md_Monitoring :: "MonitoringDeclaration list"
  md_Backups :: "BackupDeclaration list"
  md_Security :: GuestSecurityDeclaration
  md_USBRequirements :: "USBRequirement list"
  md_AdvertisedRoutes :: "string list"
  md_ReturnRouting :: "string list"

record RetainedModule =
  rm_Module :: string
  rm_Disposition :: string
  rm_Active :: bool
  rm_Guests :: "Component list"
  rm_Persistent :: "PersistentState list"

record CompanionConfig =
  cc_Enabled :: "bool option"
  cc_EthernetMAC :: string
  cc_Display :: "bool option option"
  cc_StreamDeck :: "bool option option"
  cc_StreamDeckSerial :: string

record CompanionCapabilities =
  cap_Enabled :: bool
  cap_Display :: bool
  cap_StreamDeck :: bool

record TailnetRouterConfig =
  tr_Enabled :: "bool option"
  tr_TrustedClients :: "string list"

record BifrostModuleConfig =
  bf_Enabled :: "bool option"
  bf_Network :: ModuleNetworkMode
  bf_Upstreams :: "BifrostUpstreamConfig list"
  bf_Models :: "BifrostModelConfig list"

text \<open>\<open>DNSModuleConfig\<close> is the empty struct and \<open>ToggleModuleConfig\<close> has one field.\<close>

record ModulesConfig =
  mods_DNS :: "unit option"
  mods_Monitoring :: "bool option option"
  mods_Firewall :: "bool option option"
  mods_TailnetRouter :: "TailnetRouterConfig option"
  mods_Bifrost :: "BifrostModuleConfig option"

record SiteConfig =
  sc_APIVersion :: string
  sc_PlatformVersion :: string
  sc_SchemaVersion :: int
  sc_StorageProfile :: string
  sc_StorageDevice :: string
  sc_Gateway :: Gateway
  sc_BootstrapAddress :: string
  sc_SSHIdentityFile :: string
  sc_PhysicalNetwork :: PhysicalNetwork
  sc_TestedGateway :: string
  sc_Network :: Network
  sc_PKI :: PKIMetadata
  sc_SecretMetadata :: SecretMetadata
  sc_Ownership :: OwnershipPolicy
  sc_Modules :: ModulesConfig
  sc_Companion :: "CompanionConfig option"
  sc_USBExports :: "USBExportBinding list"
  sc_DHCPReservations :: "DHCPReservation list"
  sc_DNSRecords :: "UserDNSRecord list"
  sc_UserFirewallRules :: "UserFirewallRule list"

record Site =
  s_APIVersion :: string
  s_PlatformVersion :: string
  s_SchemaVersion :: int
  s_StorageProfile :: string
  s_StorageDevice :: string
  s_Gateway :: Gateway
  s_LogicalProxmoxIdentity :: string
  s_BootstrapAddress :: string
  s_SSHIdentityFile :: string
  s_PhysicalNetwork :: PhysicalNetwork
  s_TestedGateway :: string
  s_Network :: Network
  s_PKI :: PKIMetadata
  s_SecretMetadata :: SecretMetadata
  s_Ownership :: OwnershipPolicy
  s_Components :: "Component list"
  s_Modules :: "SiteModule list"
  s_ModuleConfig :: "(string \<times> ModuleConfig) list"
  s_Companion :: "CompanionConfig option"
  s_Declarations :: "ModuleDeclaration list"
  s_USBExports :: "USBExportBinding list"
  s_RetainedModules :: "RetainedModule list"
  s_DHCPReservations :: "DHCPReservation list"
  s_DNSRecords :: "UserDNSRecord list"
  s_UserFirewallRules :: "UserFirewallRule list"
  s_PendingDNSDeletions :: "DNSDeletion list"

end
