(* ===== verification/Site_Config.thy ===== *)
theory Site_Config
  imports Site_Model
begin

text \<open>
  \<^verbatim>\<open>internal/model/config.go\<close> and the constructors and small validators at the top of
  \<^verbatim>\<open>model.go\<close>: the typed module settings and their lookup projection, the Bifrost
  contract, the companion device, and the two translations between the operator's
  \<open>SiteConfig\<close> and the canonical \<open>Site\<close>.
\<close>

section \<open>Identity patterns and stable devices\<close>

text \<open>The subset of a parsed URL the package looks at.\<close>

record URL =
  u_Scheme :: string
  u_Host :: string
  u_HasUser :: bool
  u_RawQuery :: string
  u_Fragment :: string
  u_Hostname :: string

type_synonym url_parser = "string \<Rightarrow> URL option"

definition modelTokenPattern :: "string \<Rightarrow> bool" where
  "modelTokenPattern = class_token is_alnum (\<lambda>c. is_alnum c \<or> c \<in> set ''_.-'') 253"

definition providerModelPattern :: "string \<Rightarrow> bool" where
  "providerModelPattern = class_token is_alnum (\<lambda>c. is_alnum c \<or> c \<in> set ''._:/-'') 255"

definition usbIDPattern :: "string \<Rightarrow> bool" where
  "usbIDPattern s \<longleftrightarrow> length s = 4 \<and> list_all (\<lambda>c. is_digit c \<or> (CHR ''a'' \<le> c \<and> c \<le> CHR ''f'')) s"

definition all_digits1 :: "string \<Rightarrow> bool" where
  "all_digits1 s \<longleftrightarrow> s \<noteq> [] \<and> list_all is_digit s"

text \<open>\<open>^[0-9]{1,5}(?:-[0-9]{1,5})?$\<close>\<close>

definition networkPortPattern :: "string \<Rightarrow> bool" where
  "networkPortPattern s =
     (let parts = SplitChar CHR ''-'' s
      in length parts \<le> 2 \<and> list_all (\<lambda>p. all_digits1 p \<and> length p \<le> 5) parts)"

text \<open>\<open>^[0-9]+-[0-9]+(?:\.[0-9]+)*$\<close>\<close>

definition usbPortPattern :: "string \<Rightarrow> bool" where
  "usbPortPattern s =
     (case SplitChar CHR ''-'' s of
        [bus, path] \<Rightarrow> all_digits1 bus \<and> list_all all_digits1 (SplitChar CHR ''.'' path)
      | _ \<Rightarrow> False)"

definition bifrostSecretReferencePattern :: "string \<Rightarrow> bool" where
  "bifrostSecretReferencePattern =
     class_token (\<lambda>c. is_lower c \<or> is_digit c) (\<lambda>c. is_lower c \<or> is_digit c \<or> c \<in> set ''_-'') 62"

text \<open>\<open>^[a-z0-9](?:[a-z0-9-]{0,61}[a-z0-9])?$\<close>\<close>

definition dnsLabelPattern :: "string \<Rightarrow> bool" where
  "dnsLabelPattern s \<longleftrightarrow>
     s \<noteq> [] \<and> length s \<le> 63 \<and> list_all (\<lambda>c. is_lower c \<or> is_digit c \<or> c = CHR ''-'') s \<and>
     hd s \<noteq> CHR ''-'' \<and> last s \<noteq> CHR ''-''"

definition ValidateStableDevice :: "string \<Rightarrow> gerror + unit" where
  "ValidateStableDevice device =
     (let prefix = ''/dev/disk/by-id/''; suffix = TrimPrefix device prefix
      in if \<not> HasPrefix device prefix then
           Inl (Errorf ''dedicated storage requires a stable /dev/disk/by-id device identity'' [])
         else if suffix = [] \<or> ContainsAny suffix (''/'' @ [CHR 0x5C, CHR 0x0D, CHR 0x0A, CHR 0x27, CHR 0x22, CHR 0x20, CHR 0x09])
             \<or> suffix = ''.'' \<or> suffix = ''..'' then
           Inl (Errorf ''dedicated storage requires a direct stable /dev/disk/by-id device identity'' [])
         else Inr ())"

definition IsDNSLabel :: "string \<Rightarrow> bool" where
  "IsDNSLabel value = dnsLabelPattern (ToLower value)"

definition BifrostSecretReferenceID :: "string \<Rightarrow> string" where
  "BifrostSecretReferenceID reference =
     map (\<lambda>c. if is_lower c \<or> is_digit c then c else CHR ''-'') (ToLower reference)"

definition ModuleOwnershipTag :: "string \<Rightarrow> string" where
  "ModuleOwnershipTag module =
     (if \<not> modelTokenPattern module then [] else ''boetticher-module-'' @ module)"

section \<open>Gateway NIC identities\<close>

definition GatewayInterfaceMAC :: "int \<Rightarrow> string" where
  "GatewayInterfaceMAC position =
     (if position < 1 \<or> position > 7 then []
      else if position = 1 then DefaultGatewayUpstreamMAC
      else ''02:00:00:00:01:'' @ hex_byte (word_of_int position))"

definition GatewayUpstreamMACConflicts :: "string \<Rightarrow> bool" where
  "GatewayUpstreamMACConflicts value =
     (case ParseMAC value of
        None \<Rightarrow> True
      | Some parsed \<Rightarrow> length parsed \<noteq> 6 \<or>
          list_ex (\<lambda>position. ToLower (MACString parsed) = GatewayInterfaceMAC position)
            [2, 3, 4, 5, 6, 7])"

definition ValidateGatewayUpstreamMAC :: "string \<Rightarrow> gerror + unit" where
  "ValidateGatewayUpstreamMAC value =
     (case ParseMAC value of
        None \<Rightarrow> Inl (Errorf ''gateway.upstream.mac must be an Ethernet MAC'' [])
      | Some parsed \<Rightarrow>
          if length parsed \<noteq> 6 then Inl (Errorf ''gateway.upstream.mac must be an Ethernet MAC'' [])
          else if parsed ! 0 AND 1 \<noteq> 0 then Inl (Errorf ''gateway.upstream.mac must be unicast'' [])
          else if parsed ! 0 AND 2 = 0 then
            Inl (Errorf ''gateway.upstream.mac must be locally administered'' [])
          else if GatewayUpstreamMACConflicts value then
            Inl (Errorf ''gateway.upstream.mac collides with another boetticher-managed NIC'' [])
          else Inr ())"

text \<open>The generator draws six random bytes up to sixteen times; \<open>rnd\<close> is the sequence of
  draws, \<open>None\<close> where \<open>rand.Read\<close> fails.\<close>

fun generate_mac_loop :: "(8 word list) option list \<Rightarrow> gerror + string" where
  "generate_mac_loop [] =
     Inl (Errorf ''generate gateway upstream MAC: repeated collision with a managed NIC identity'' [])"
| "generate_mac_loop (None # _) = Inl (Errorf ''generate gateway upstream MAC: %w'' [])"
| "generate_mac_loop (Some value # rest) =
     (let value' = ((value ! 0 AND 0xfe) OR 0x02) # tl value;
          mac = MACString value'
      in if \<not> GatewayUpstreamMACConflicts mac then Inr mac else generate_mac_loop rest)"

definition GenerateGatewayUpstreamMAC :: "(nat \<Rightarrow> (8 word list) option) \<Rightarrow> gerror + string" where
  "GenerateGatewayUpstreamMAC rnd = generate_mac_loop (map rnd [0..<16])"

section \<open>Companion device\<close>

definition capabilityEnabled :: "bool option option \<Rightarrow> bool" where
  "capabilityEnabled c = (case c of None \<Rightarrow> False | Some None \<Rightarrow> True | Some (Some b) \<Rightarrow> b)"

definition Capabilities :: "CompanionConfig option \<Rightarrow> CompanionCapabilities" where
  "Capabilities c =
     (case c of
        None \<Rightarrow> \<lparr>cap_Enabled = False, cap_Display = False, cap_StreamDeck = False\<rparr>
      | Some cc \<Rightarrow>
          (let enabled = (cc_Enabled cc = None \<or> cc_Enabled cc = Some True)
           in \<lparr>cap_Enabled = enabled,
               cap_Display = enabled \<and> capabilityEnabled (cc_Display cc),
               cap_StreamDeck = enabled \<and> capabilityEnabled (cc_StreamDeck cc)\<rparr>))"

definition CompanionReservation :: "CompanionConfig option \<Rightarrow> DHCPReservation option" where
  "CompanionReservation companion =
     (case companion of
        None \<Rightarrow> None
      | Some cc \<Rightarrow>
          if \<not> cap_Enabled (Capabilities companion) \<or> cc_EthernetMAC cc = [] then None
          else case ParseMAC (cc_EthernetMAC cc) of
            None \<Rightarrow> None
          | Some parsed \<Rightarrow>
              if length parsed \<noteq> 6 then None
              else Some \<lparr>res_DNSOverride = [], res_NTPOverride = [], res_Zone = CompanionZone,
                         res_Hostname = CompanionHostname, res_Address = CompanionAddress,
                         res_MAC = ToLower (MACString parsed), res_VMID = 0\<rparr>)"

section \<open>Module settings\<close>

definition zero_ModuleConfig :: ModuleConfig where
  "zero_ModuleConfig = \<lparr>mc_QBittorrentPort = 0, mc_TailnetTrustedClients = [], mc_Enabled = None,
     mc_Network = [], mc_Servers = [], mc_ModelAlias = [], mc_Upstreams = [], mc_Models = []\<rparr>"

definition ValidQBittorrentPort :: "int \<Rightarrow> bool" where
  "ValidQBittorrentPort port =
     (if port = 0 then True
      else if port < 2049 \<or> port > 65535 then False
      else if port = 7878 \<or> port = 8080 \<or> port = 8686 \<or> port = 8989 \<or> port = 9696 then False
      else True)"

definition ModulesMap :: "ModulesConfig \<Rightarrow> (string \<times> ModuleConfig) list" where
  "ModulesMap m =
     (case mods_DNS m of None \<Rightarrow> [] | Some _ \<Rightarrow> [(''dns'', zero_ModuleConfig)]) @
     (case mods_Monitoring m of None \<Rightarrow> []
      | Some e \<Rightarrow> [(''monitoring'', zero_ModuleConfig\<lparr>mc_Enabled := e\<rparr>)]) @
     (case mods_Firewall m of None \<Rightarrow> []
      | Some e \<Rightarrow> [(''firewall'', zero_ModuleConfig\<lparr>mc_Enabled := e\<rparr>)]) @
     (case mods_TailnetRouter m of None \<Rightarrow> []
      | Some t \<Rightarrow> [(''tailnet-router'', zero_ModuleConfig\<lparr>mc_Enabled := tr_Enabled t\<rparr>)]) @
     (case mods_Bifrost m of None \<Rightarrow> []
      | Some b \<Rightarrow> [(''bifrost'', zero_ModuleConfig\<lparr>mc_Enabled := bf_Enabled b,
          mc_Network := bf_Network b, mc_Upstreams := bf_Upstreams b, mc_Models := bf_Models b\<rparr>)])"

definition ModulesConfigFromMap :: "(string \<times> ModuleConfig) list \<Rightarrow> ModulesConfig" where
  "ModulesConfigFromMap input =
     \<lparr>mods_DNS = map_option (\<lambda>_. ()) (map_of input ''dns''),
      mods_Monitoring = map_option mc_Enabled (map_of input ''monitoring''),
      mods_Firewall = map_option mc_Enabled (map_of input ''firewall''),
      mods_TailnetRouter = map_option
        (\<lambda>c. \<lparr>tr_Enabled = mc_Enabled c, tr_TrustedClients = mc_TailnetTrustedClients c\<rparr>)
        (map_of input ''tailnet-router''),
      mods_Bifrost = map_option
        (\<lambda>c. \<lparr>bf_Enabled = mc_Enabled c, bf_Network = mc_Network c, bf_Upstreams = mc_Upstreams c,
              bf_Models = mc_Models c\<rparr>)
        (map_of input ''bifrost'')\<rparr>"

definition ModulesSet :: "ModulesConfig \<Rightarrow> string \<Rightarrow> ModuleConfig \<Rightarrow> gerror + ModulesConfig" where
  "ModulesSet m name config =
     (if name = ''dns'' then
        if mc_Enabled config \<noteq> None then
          Inl (Errorf ''modules.dns.enabled: mandatory module cannot be disabled'' [])
        else Inr (m\<lparr>mods_DNS := Some ()\<rparr>)
      else if name = ''monitoring'' then
        if mc_Network config \<noteq> [] then
          Inl (Errorf ''modules.monitoring.network: module is not network-capable'' [])
        else Inr (m\<lparr>mods_Monitoring := Some (mc_Enabled config)\<rparr>)
      else if name = ''firewall'' then
        if mc_Network config \<noteq> [] then
          Inl (Errorf ''modules.firewall.network: module is not network-capable'' [])
        else Inr (m\<lparr>mods_Firewall := Some (mc_Enabled config)\<rparr>)
      else if name = ''tailnet-router'' then
        if mc_Network config \<noteq> [] then
          Inl (Errorf ''modules.tailnet-router.network: module is not network-capable'' [])
        else Inr (m\<lparr>mods_TailnetRouter := Some \<lparr>tr_Enabled = mc_Enabled config,
                    tr_TrustedClients = mc_TailnetTrustedClients config\<rparr>\<rparr>)
      else if name = ''bifrost'' then
        (let keep = (mc_Upstreams config = [] \<and> mc_Models config = []);
             (upstreams, models) =
               (case mods_Bifrost m of
                  Some b \<Rightarrow> if keep then (bf_Upstreams b, bf_Models b)
                            else (mc_Upstreams config, mc_Models config)
                | None \<Rightarrow> (mc_Upstreams config, mc_Models config))
         in Inr (m\<lparr>mods_Bifrost := Some \<lparr>bf_Enabled = mc_Enabled config,
                   bf_Network = mc_Network config, bf_Upstreams = upstreams,
                   bf_Models = models\<rparr>\<rparr>))
      else Inl (Errorf ''modules.%s: unknown first-party module'' [name]))"

section \<open>Bifrost contract\<close>

definition https_base_url :: "url_parser \<Rightarrow> string \<Rightarrow> bool" where
  "https_base_url urlParse s =
     (case urlParse s of
        None \<Rightarrow> False
      | Some u \<Rightarrow> u_Scheme u = ''https'' \<and> u_Host u \<noteq> [] \<and> \<not> u_HasUser u \<and>
                  u_RawQuery u = [] \<and> u_Fragment u = [])"

text \<open>One turn of the upstream loop: the names seen so far and the secret identities with the
  reference that claimed each.\<close>

definition bifrost_upstream_step ::
  "url_parser \<Rightarrow> BifrostUpstreamConfig \<Rightarrow> string list \<times> (string \<times> string) list
   \<Rightarrow> gerror + string list \<times> (string \<times> string) list" where
  "bifrost_upstream_step urlParse upstream st =
     (case st of (upstreams, secretReferences) \<Rightarrow>
        if \<not> modelTokenPattern (bu_Name upstream) then
          Inl (Errorf ''modules.bifrost.upstreams.name %q is not a safe token'' [bu_Name upstream])
        else if bu_Name upstream \<in> set upstreams then
          Inl (Errorf ''modules.bifrost has duplicate upstream %q'' [bu_Name upstream])
        else if \<not> https_base_url urlParse (bu_BaseURL upstream) then
          Inl (Errorf ''modules.bifrost upstream %s requires a valid HTTPS base_url'' [bu_Name upstream])
        else if \<not> bifrostSecretReferencePattern (bu_APIKeySecret upstream) then
          Inl (Errorf ''modules.bifrost upstream %s has an invalid api_key_secret reference'' [bu_Name upstream])
        else
          (let secretID = BifrostSecretReferenceID (bu_APIKeySecret upstream)
           in case map_of secretReferences secretID of
                Some previous \<Rightarrow>
                  if previous \<noteq> bu_APIKeySecret upstream then
                    Inl (Errorf ''modules.bifrost upstreams %q and %q have colliding api_key_secret references''
                          [previous, bu_APIKeySecret upstream])
                  else Inr (bu_Name upstream # upstreams,
                            (secretID, bu_APIKeySecret upstream) # secretReferences)
              | None \<Rightarrow> Inr (bu_Name upstream # upstreams,
                             (secretID, bu_APIKeySecret upstream) # secretReferences)))"

definition bifrost_model_step ::
  "string list \<Rightarrow> BifrostModelConfig \<Rightarrow> string list \<Rightarrow> gerror + string list" where
  "bifrost_model_step upstreams model aliases =
     (if \<not> modelTokenPattern (bm_Alias model) then
        Inl (Errorf ''modules.bifrost model alias %q is not a safe token'' [bm_Alias model])
      else if bm_Alias model \<in> set aliases then
        Inl (Errorf ''modules.bifrost has duplicate model alias %q'' [bm_Alias model])
      else if bm_Upstream model \<notin> set upstreams then
        Inl (Errorf ''modules.bifrost model alias %s references unknown upstream %q''
              [bm_Alias model, bm_Upstream model])
      else if \<not> providerModelPattern (bm_Model model) then
        Inl (Errorf ''modules.bifrost model %s has an invalid provider model identifier'' [bm_Alias model])
      else Inr (bm_Alias model # aliases))"

definition ValidateBifrostConfig :: "url_parser \<Rightarrow> ModuleConfig \<Rightarrow> gerror + unit" where
  "ValidateBifrostConfig urlParse config =
     (if mc_Upstreams config = [] then
        Inl (Errorf ''modules.bifrost.upstreams must contain at least one upstream'' [])
      else if length (mc_Upstreams config) > 16 then
        Inl (Errorf ''modules.bifrost.upstreams must contain at most 16 upstreams'' [])
      else if mc_Models config = [] then
        Inl (Errorf ''modules.bifrost.models must contain at least one explicit model alias'' [])
      else if length (mc_Models config) > 32 then
        Inl (Errorf ''modules.bifrost.models must contain at most 32 model aliases'' [])
      else bindE (foldE (bifrost_upstream_step urlParse) (mc_Upstreams config) ([], []))
        (\<lambda>(upstreams, _). bindE (foldE (bifrost_model_step upstreams) (mc_Models config) [])
        (\<lambda>_. Inr ())))"

definition ResolveBifrostAlias ::
  "url_parser \<Rightarrow> ModuleConfig \<Rightarrow> string \<Rightarrow> gerror + BifrostModelConfig" where
  "ResolveBifrostAlias urlParse config alias =
     bindE (ValidateBifrostConfig urlParse config) (\<lambda>_.
       case find (\<lambda>m. bm_Alias m = alias) (mc_Models config) of
         Some m \<Rightarrow> Inr m
       | None \<Rightarrow> Inl (Errorf ''undeclared Bifrost model alias %q'' [alias]))"

section \<open>The canonical seed\<close>

definition zero_Component :: Component where
  "zero_Component = \<lparr>c_Name = [], c_VMID = 0, c_Hostname = [], c_Zone = [], c_Address = [],
     c_Role = [], c_DNSAliases = [], c_URL = [], c_SSHUser = [], c_SSHPort = 0,
     c_Monitoring = False, c_Backup = False, c_Tags = [], c_MTLS = False, c_SSHManaged = False,
     c_JumpAllowed = False, c_ProductOwned = False, c_Module = [], c_Logging = False, c_MAC = []\<rparr>"

definition zero_NIC :: PhysicalNIC where
  "zero_NIC = \<lparr>nic_Name = [], nic_PermanentMAC = [], nic_PCIAddress = []\<rparr>"

definition mk_zone ::
  "string \<Rightarrow> ZoneType \<Rightarrow> int \<Rightarrow> string \<Rightarrow> string \<Rightarrow> string \<Rightarrow> string list \<Rightarrow> string list \<Rightarrow> Zone" where
  "mk_zone n t v nw gw am dns ntp = \<lparr>z_Name = n, z_Type = t, z_VLAN = v, z_Network = nw,
     z_Gateway = gw, z_AddressMode = am, z_DNSAddresses = dns, z_NTPAddresses = ntp\<rparr>"

definition fixed_zones :: "Zone list" where
  "fixed_zones =
     [mk_zone ''TRANSIT'' ZoneTypeTransit 5 ''10.10.5.0/24'' ''10.10.5.1'' ''none'' [] [],
      mk_zone ''INFRA'' ZoneTypeInfrastructure 10 ''10.10.10.0/24'' ''10.10.10.1'' ''static''
        [''10.10.10.10''] [''10.10.10.10''],
      mk_zone ''SERVERS'' ZoneTypeServers 20 ''10.10.20.0/24'' ''10.10.20.1'' ''reservations-only''
        [''10.10.10.10''] [''10.10.10.10''],
      mk_zone ''TRUSTED'' ZoneTypeTrusted 30 ''10.10.30.0/24'' ''10.10.30.1'' ''dynamic-reservations''
        [''10.10.10.10''] [''10.10.10.10''],
      mk_zone ''SANDBOX'' ZoneTypeSandbox 40 ''10.10.40.0/24'' ''10.10.40.1'' ''dynamic''
        [''10.10.40.1''] [''10.10.40.1''],
      mk_zone ''MGMT'' ZoneTypeManagement 99 ''10.10.99.0/24'' ''10.10.99.1'' ''static''
        [''10.10.10.10''] [''10.10.10.10'']]"

definition fixed_ownership :: OwnershipPolicy where
  "fixed_ownership = \<lparr>own_PlatformGuestIDMin = PlatformGuestIDMin,
     own_PlatformGuestIDMax = PlatformGuestIDMax, own_ModuleGuestIDMin = ModuleGuestIDMin,
     own_ModuleGuestIDMax = ModuleGuestIDMax, own_UserGuestIDMin = UserGuestIDMin,
     own_UserGuestIDMax = UserGuestIDMax, own_UserWorkloadsManaged = False\<rparr>"

definition proxmox_component :: Component where
  "proxmox_component = zero_Component\<lparr>c_Name := ''lab-proxmox-01'', c_Hostname := ''lab-proxmox-01'',
     c_Zone := ''MGMT'', c_Address := ProxmoxManagementAddress, c_Role := ''Proxmox host'',
     c_Tags := [TagBoetticher, TagManaged, TagPlatform, TagInfra, TagNetwork, TagMonitoringAgent],
     c_URL := ''https://proxmox.lab.home.arpa:8006'', c_Monitoring := True, c_Backup := True,
     c_SSHManaged := True, c_JumpAllowed := False, c_ProductOwned := True,
     c_SSHUser := DefaultAdminSSHUser, c_SSHPort := 22, c_Logging := False\<rparr>"

definition NewSite :: "string \<Rightarrow> string \<Rightarrow> string \<Rightarrow> Site" where
  "NewSite installationID ageRecipient gatewayMode =
     \<lparr>s_APIVersion = APIVersion, s_PlatformVersion = PlatformVersion, s_SchemaVersion = SchemaVersion,
      s_StorageProfile = ''single-disk'', s_StorageDevice = [],
      s_Gateway = \<lparr>gw_Mode = gatewayMode,
        gw_Upstream = \<lparr>up_Mode = ''dhcp'', up_MAC = DefaultGatewayUpstreamMAC\<rparr>,
        gw_ManagementAddress = GatewayManagementAddress,
        gw_ManagementNetwork = GatewayManagementNetwork,
        gw_ManagementGateway = GatewayManagementGateway,
        gw_ControllerAddress = GatewayControllerAddress, gw_Publish = []\<rparr>,
      s_LogicalProxmoxIdentity = LogicalProxmoxIdentity,
      s_BootstrapAddress = [], s_SSHIdentityFile = [],
      s_PhysicalNetwork = \<lparr>pn_Upstream = zero_NIC, pn_Trunk = zero_NIC, pn_Mode = ModeVirtualOnly\<rparr>,
      s_TestedGateway = QualifiedGatewayImage,
      s_Network = \<lparr>nw_Domain = DefaultDomain, nw_Zones = fixed_zones\<rparr>,
      s_PKI = \<lparr>pki_RootCommonName = [], pki_RootFingerprint = [], pki_RootExpiry = [],
        pki_IssuingCommonName = [], pki_IssuingFingerprint = [], pki_IssuingExpiry = []\<rparr>,
      s_SecretMetadata = \<lparr>sm_InstallationID = installationID, sm_AgeRecipient = ageRecipient,
        sm_RootAgeRecipient = ageRecipient @ ''-root''\<rparr>,
      s_Ownership = fixed_ownership,
      s_Components = [proxmox_component],
      s_Modules = [], s_ModuleConfig = [], s_Companion = None, s_Declarations = [],
      s_USBExports = [], s_RetainedModules = [], s_DHCPReservations = [], s_DNSRecords = [],
      s_UserFirewallRules = [], s_PendingDNSDeletions = []\<rparr>"

definition default_guest ::
  "string \<Rightarrow> int \<Rightarrow> string \<Rightarrow> string \<Rightarrow> string \<Rightarrow> string list \<Rightarrow> string \<Rightarrow> bool \<Rightarrow> string \<Rightarrow> Component" where
  "default_guest n vmid zone address role aliases url mtls module =
     zero_Component\<lparr>c_Name := n, c_VMID := vmid, c_Hostname := n, c_Zone := zone,
       c_Address := address, c_Role := role, c_DNSAliases := aliases, c_URL := url,
       c_Monitoring := True, c_Backup := True, c_MTLS := mtls, c_SSHManaged := True,
       c_JumpAllowed := True, c_ProductOwned := True, c_Module := module,
       c_Tags := [TagBoetticher, TagManaged, TagModule, ''module-'' @ module,
                  ModuleOwnershipTag module, TagBackup],
       c_SSHUser := DefaultAdminSSHUser, c_SSHPort := 22, c_Logging := True\<rparr>"

definition NewDefaultSite :: "string \<Rightarrow> string \<Rightarrow> Site" where
  "NewDefaultSite installationID ageRecipient =
     (let site = NewSite installationID ageRecipient GatewayModeManaged
      in site\<lparr>s_Components := s_Components site @
           [default_guest ''lab-fw-01'' ProxmoxVMID ''MGMT'' ''10.10.99.1'' ''Debian firewall'' [] []
              False ''firewall'',
            default_guest ''lab-dns-01'' DNS01VMID ''INFRA'' ''10.10.10.10'' ''DNS/NTP''
              [''dns01'', ''dns''] [] False ''dns'',
            default_guest ''lab-monitor-01'' MonitorVMID ''INFRA'' ''10.10.10.20''
              ''Unified observability'' [''monitor''] ''https://monitor.lab.home.arpa'' True
              ''monitoring'']\<rparr>)"

section \<open>From the site file to the canonical site and back\<close>

definition zoneTypeForName :: "string \<Rightarrow> ZoneType" where
  "zoneTypeForName name =
     (if name = ''INFRA'' then ZoneTypeInfrastructure
      else if name = ''TRUSTED'' then ZoneTypeTrusted
      else if name = ''SERVERS'' then ZoneTypeServers
      else if name = ''SANDBOX'' then ZoneTypeSandbox
      else if name = ''MGMT'' then ZoneTypeManagement
      else if name = ''TRANSIT'' then ZoneTypeTransit
      else [])"

text \<open>\<open>if c.X != "" { s.X = c.X }\<close> for strings, slices and integers.\<close>

definition override :: "'a list \<Rightarrow> 'a list \<Rightarrow> 'a list" where
  "override c s = (if c \<noteq> [] then c else s)"

definition override_int :: "int \<Rightarrow> int \<Rightarrow> int" where
  "override_int c s = (if c \<noteq> 0 then c else s)"

definition infer_zone_type :: "Zone \<Rightarrow> Zone" where
  "infer_zone_type z = (if z_Type z = [] then z\<lparr>z_Type := zoneTypeForName (z_Name z)\<rparr> else z)"

definition base_gateway :: "Gateway \<Rightarrow> Gateway \<Rightarrow> Gateway" where
  "base_gateway c s =
     \<lparr>gw_Mode = gw_Mode s,
      gw_Upstream = \<lparr>up_Mode = override (up_Mode (gw_Upstream c)) (up_Mode (gw_Upstream s)),
        up_MAC = override (up_MAC (gw_Upstream c)) (up_MAC (gw_Upstream s))\<rparr>,
      gw_ManagementAddress = override (gw_ManagementAddress c) (gw_ManagementAddress s),
      gw_ManagementNetwork = override (gw_ManagementNetwork c) (gw_ManagementNetwork s),
      gw_ManagementGateway = override (gw_ManagementGateway c) (gw_ManagementGateway s),
      gw_ControllerAddress = override (gw_ControllerAddress c) (gw_ControllerAddress s),
      gw_Publish = override (gw_Publish c) (gw_Publish s)\<rparr>"

definition base_pki :: "PKIMetadata \<Rightarrow> PKIMetadata \<Rightarrow> PKIMetadata" where
  "base_pki c s =
     \<lparr>pki_RootCommonName = override (pki_RootCommonName c) (pki_RootCommonName s),
      pki_RootFingerprint = override (pki_RootFingerprint c) (pki_RootFingerprint s),
      pki_RootExpiry = override (pki_RootExpiry c) (pki_RootExpiry s),
      pki_IssuingCommonName = override (pki_IssuingCommonName c) (pki_IssuingCommonName s),
      pki_IssuingFingerprint = override (pki_IssuingFingerprint c) (pki_IssuingFingerprint s),
      pki_IssuingExpiry = override (pki_IssuingExpiry c) (pki_IssuingExpiry s)\<rparr>"

definition base_ownership :: "OwnershipPolicy \<Rightarrow> OwnershipPolicy \<Rightarrow> OwnershipPolicy" where
  "base_ownership c s =
     \<lparr>own_PlatformGuestIDMin = override_int (own_PlatformGuestIDMin c) (own_PlatformGuestIDMin s),
      own_PlatformGuestIDMax = override_int (own_PlatformGuestIDMax c) (own_PlatformGuestIDMax s),
      own_ModuleGuestIDMin = override_int (own_ModuleGuestIDMin c) (own_ModuleGuestIDMin s),
      own_ModuleGuestIDMax = override_int (own_ModuleGuestIDMax c) (own_ModuleGuestIDMax s),
      own_UserGuestIDMin = override_int (own_UserGuestIDMin c) (own_UserGuestIDMin s),
      own_UserGuestIDMax = override_int (own_UserGuestIDMax c) (own_UserGuestIDMax s),
      own_UserWorkloadsManaged = own_UserWorkloadsManaged c\<rparr>"

definition BaseSite :: "SiteConfig \<Rightarrow> Site" where
  "BaseSite c =
     (let mode = override (gw_Mode (sc_Gateway c)) GatewayModeManaged;
          s = NewSite (sm_InstallationID (sc_SecretMetadata c)) (sm_AgeRecipient (sc_SecretMetadata c)) mode
      in s\<lparr>s_Gateway := base_gateway (sc_Gateway c) (s_Gateway s),
           s_APIVersion := override (sc_APIVersion c) (s_APIVersion s),
           s_PlatformVersion := override (sc_PlatformVersion c) (s_PlatformVersion s),
           s_SchemaVersion := override_int (sc_SchemaVersion c) (s_SchemaVersion s),
           s_StorageProfile := override (sc_StorageProfile c) (s_StorageProfile s),
           s_StorageDevice := override (sc_StorageDevice c) (s_StorageDevice s),
           s_BootstrapAddress := override (sc_BootstrapAddress c) (s_BootstrapAddress s),
           s_SSHIdentityFile := override (sc_SSHIdentityFile c) (s_SSHIdentityFile s),
           s_PhysicalNetwork := (if pn_Mode (sc_PhysicalNetwork c) \<noteq> [] then sc_PhysicalNetwork c
                                 else s_PhysicalNetwork s),
           s_TestedGateway := override (sc_TestedGateway c) (s_TestedGateway s),
           s_Network := \<lparr>nw_Domain = override (nw_Domain (sc_Network c)) (nw_Domain (s_Network s)),
             nw_Zones = (if nw_Zones (sc_Network c) \<noteq> []
                         then map infer_zone_type (nw_Zones (sc_Network c))
                         else nw_Zones (s_Network s))\<rparr>,
           s_PKI := base_pki (sc_PKI c) (s_PKI s),
           s_SecretMetadata :=
             \<lparr>sm_InstallationID = override (sm_InstallationID (sc_SecretMetadata c))
                (sm_InstallationID (s_SecretMetadata s)),
              sm_AgeRecipient = override (sm_AgeRecipient (sc_SecretMetadata c))
                (sm_AgeRecipient (s_SecretMetadata s)),
              sm_RootAgeRecipient = sm_RootAgeRecipient (sc_SecretMetadata c)\<rparr>,
           s_Ownership := base_ownership (sc_Ownership c) (s_Ownership s),
           s_DHCPReservations := sc_DHCPReservations c @
             (case CompanionReservation (sc_Companion c) of None \<Rightarrow> [] | Some r \<Rightarrow> [r]),
           s_DNSRecords := sc_DNSRecords c,
           s_UserFirewallRules := sc_UserFirewallRules c,
           s_USBExports := sc_USBExports c,
           s_Companion := sc_Companion c,
           s_ModuleConfig := ModulesMap (sc_Modules c)\<rparr>)"

definition derivedReservations :: "Site \<Rightarrow> DHCPReservation list" where
  "derivedReservations s =
     concat (map md_DHCPReservations (s_Declarations s)) @
     (case CompanionReservation (s_Companion s) of None \<Rightarrow> [] | Some r \<Rightarrow> [r])"

definition configuredDHCPReservations :: "Site \<Rightarrow> DHCPReservation list" where
  "configuredDHCPReservations s =
     filter (\<lambda>r. r \<notin> set (derivedReservations s)) (s_DHCPReservations s)"

definition ConfigFromSite :: "Site \<Rightarrow> SiteConfig" where
  "ConfigFromSite s =
     \<lparr>sc_APIVersion = s_APIVersion s, sc_PlatformVersion = s_PlatformVersion s,
      sc_SchemaVersion = s_SchemaVersion s, sc_StorageProfile = s_StorageProfile s,
      sc_StorageDevice = s_StorageDevice s, sc_Gateway = s_Gateway s,
      sc_BootstrapAddress = s_BootstrapAddress s, sc_SSHIdentityFile = s_SSHIdentityFile s,
      sc_PhysicalNetwork = s_PhysicalNetwork s, sc_TestedGateway = s_TestedGateway s,
      sc_Network = s_Network s, sc_PKI = s_PKI s, sc_SecretMetadata = s_SecretMetadata s,
      sc_Ownership = s_Ownership s, sc_Modules = ModulesConfigFromMap (s_ModuleConfig s),
      sc_Companion = s_Companion s, sc_USBExports = s_USBExports s,
      sc_DHCPReservations = configuredDHCPReservations s, sc_DNSRecords = s_DNSRecords s,
      sc_UserFirewallRules = s_UserFirewallRules s\<rparr>"

section \<open>What the settings promise\<close>

text \<open>What the lookup map forgets: the Tailnet allow-set.\<close>

definition forget_trusted :: "ModulesConfig \<Rightarrow> ModulesConfig" where
  "forget_trusted m =
     m\<lparr>mods_TailnetRouter := map_option (\<lambda>t. t\<lparr>tr_TrustedClients := []\<rparr>) (mods_TailnetRouter m)\<rparr>"

text \<open>The operator's file does not itself carry the reservation the companion implies.\<close>

definition reservation_not_configured :: "SiteConfig \<Rightarrow> bool" where
  "reservation_not_configured c =
     (case CompanionReservation (sc_Companion c) of None \<Rightarrow> True
      | Some r \<Rightarrow> r \<notin> set (sc_DHCPReservations c))"

text \<open>A Bifrost configuration the validator should accept.\<close>

definition bifrost_ok :: "url_parser \<Rightarrow> ModuleConfig \<Rightarrow> bool" where
  "bifrost_ok urlParse c \<longleftrightarrow>
     mc_Upstreams c \<noteq> [] \<and> length (mc_Upstreams c) \<le> 16 \<and>
     mc_Models c \<noteq> [] \<and> length (mc_Models c) \<le> 32 \<and>
     distinct (map bu_Name (mc_Upstreams c)) \<and>
     (\<forall>u \<in> set (mc_Upstreams c). modelTokenPattern (bu_Name u) \<and>
        https_base_url urlParse (bu_BaseURL u) \<and> bifrostSecretReferencePattern (bu_APIKeySecret u)) \<and>
     inj_on BifrostSecretReferenceID (bu_APIKeySecret ` set (mc_Upstreams c)) \<and>
     distinct (map bm_Alias (mc_Models c)) \<and>
     (\<forall>m \<in> set (mc_Models c). modelTokenPattern (bm_Alias m) \<and>
        bm_Upstream m \<in> bu_Name ` set (mc_Upstreams c) \<and> providerModelPattern (bm_Model m))"

text \<open>The table of claimed secret identities agrees with the references already passed.\<close>

definition claims :: "(string \<times> string) list \<Rightarrow> string set \<Rightarrow> bool" where
  "claims rs S \<longleftrightarrow> (\<forall>i r. map_of rs i = Some r \<longleftrightarrow> r \<in> S \<and> BifrostSecretReferenceID r = i)"

text \<open>A small site for the concrete instances.\<close>

definition demo_modules :: ModulesConfig where
  "demo_modules = \<lparr>mods_DNS = Some (), mods_Monitoring = None, mods_Firewall = Some (Some False),
     mods_TailnetRouter = Some \<lparr>tr_Enabled = Some True, tr_TrustedClients = [''100.64.0.7'']\<rparr>,
     mods_Bifrost = None\<rparr>"

definition demo_companion :: CompanionConfig where
  "demo_companion = \<lparr>cc_Enabled = None, cc_EthernetMAC = ''DC-A6-32-01-02-03'', cc_Display = Some None,
     cc_StreamDeck = None, cc_StreamDeckSerial = []\<rparr>"

definition demo_config :: SiteConfig where
  "demo_config = (ConfigFromSite (NewSite ''lab-1'' ''age1op'' GatewayModeManaged))
     \<lparr>sc_Modules := demo_modules, sc_Companion := Some demo_companion\<rparr>"

section \<open>Round trips\<close>

lemma map_of_ModulesMap [simp]:
  "map_of (ModulesMap m) ''dns'' = map_option (\<lambda>_. zero_ModuleConfig) (mods_DNS m)"
  "map_of (ModulesMap m) ''monitoring'' =
     map_option (\<lambda>e. zero_ModuleConfig\<lparr>mc_Enabled := e\<rparr>) (mods_Monitoring m)"
  "map_of (ModulesMap m) ''firewall'' =
     map_option (\<lambda>e. zero_ModuleConfig\<lparr>mc_Enabled := e\<rparr>) (mods_Firewall m)"
  "map_of (ModulesMap m) ''tailnet-router'' =
     map_option (\<lambda>t. zero_ModuleConfig\<lparr>mc_Enabled := tr_Enabled t\<rparr>) (mods_TailnetRouter m)"
  "map_of (ModulesMap m) ''bifrost'' =
     map_option (\<lambda>b. zero_ModuleConfig\<lparr>mc_Enabled := bf_Enabled b, mc_Network := bf_Network b,
       mc_Upstreams := bf_Upstreams b, mc_Models := bf_Models b\<rparr>) (mods_Bifrost m)"
  by (simp_all add: ModulesMap_def split: option.split)

lemma bifrost_eta [simp]:
  "\<lparr>bf_Enabled = bf_Enabled b, bf_Network = bf_Network b, bf_Upstreams = bf_Upstreams b,
    bf_Models = bf_Models b\<rparr> = b"
  by (cases b) simp

lemma tailnet_clear_id [simp]: "t\<lparr>tr_TrustedClients := []\<rparr> = t \<longleftrightarrow> tr_TrustedClients t = []"
  by (cases t) auto

lemma map_option_unit [simp]: "map_option (\<lambda>_. ()) x = x"
  by (cases x) simp_all

lemma FromMap_ModulesMap: "ModulesConfigFromMap (ModulesMap m) = forget_trusted m"
  by (cases m) (auto simp: ModulesConfigFromMap_def forget_trusted_def zero_ModuleConfig_def
      option.map_comp comp_def option.map_ident intro!: option.map_cong)

lemma forget_trusted_id:
  "forget_trusted m = m \<longleftrightarrow> map_option tr_TrustedClients (mods_TailnetRouter m) \<in> {None, Some []}"
  by (cases m; cases "mods_TailnetRouter m") (auto simp: forget_trusted_def)

text \<open>Reading the typed module settings back from the lookup map the deployment code uses gives the settings with the Tailnet allow-set emptied; it gives the settings themselves exactly when no allow-set was recorded.\<close>

theorem module_map_roundtrip:
  "ModulesConfigFromMap (ModulesMap m) = forget_trusted m \<and>
   (ModulesConfigFromMap (ModulesMap m) = m \<longleftrightarrow>
      map_option tr_TrustedClients (mods_TailnetRouter m) \<in> {None, Some []})"
  by (simp only: FromMap_ModulesMap forget_trusted_id)

text \<open>Whatever Tailnet clients the operator trusts, the canonical site built from the configuration trusts none: the allow-set never reaches validation or the firewall.\<close>

theorem trusted_clients_never_reach_site:
  assumes "map_of (s_ModuleConfig (BaseSite c)) ''tailnet-router'' = Some mc"
  shows "mc_TailnetTrustedClients mc = []"
  using assms by (auto simp: BaseSite_def Let_def zero_ModuleConfig_def)

lemma override_idem [simp]: "override (override c s) s = override c s"
  by (simp add: override_def)

lemma override_int_idem [simp]: "override_int (override_int c s) s = override_int c s"
  by (simp add: override_int_def)

lemma infer_zone_type_idem [simp]: "infer_zone_type (infer_zone_type z) = infer_zone_type z"
  by (simp add: infer_zone_type_def)

lemma ModulesMap_forget [simp]: "ModulesMap (forget_trusted m) = ModulesMap m"
  by (simp add: ModulesMap_def forget_trusted_def split: option.split)

lemma ModulesMap_FromMap_ModulesMap [simp]:
  "ModulesMap (ModulesConfigFromMap (ModulesMap m)) = ModulesMap m"
  by (simp add: FromMap_ModulesMap)

lemma base_gateway_idem [simp]: "base_gateway (base_gateway c s) s = base_gateway c s"
  by (simp add: base_gateway_def)

lemma base_pki_idem [simp]: "base_pki (base_pki c s) s = base_pki c s"
  by (simp add: base_pki_def)

lemma base_ownership_idem [simp]: "base_ownership (base_ownership c s) s = base_ownership c s"
  by (simp add: base_ownership_def)

lemma infer_all_idem [simp]: "map infer_zone_type (map infer_zone_type zs) = map infer_zone_type zs"
  by simp

lemma BaseSite_sel [simp]:
  "s_APIVersion (BaseSite c) = override (sc_APIVersion c) APIVersion"
  "s_PlatformVersion (BaseSite c) = override (sc_PlatformVersion c) PlatformVersion"
  "s_SchemaVersion (BaseSite c) = override_int (sc_SchemaVersion c) SchemaVersion"
  "s_StorageProfile (BaseSite c) = override (sc_StorageProfile c) ''single-disk''"
  "s_StorageDevice (BaseSite c) = override (sc_StorageDevice c) []"
  "s_Gateway (BaseSite c) = base_gateway (sc_Gateway c)
     (s_Gateway (NewSite [] [] (override (gw_Mode (sc_Gateway c)) GatewayModeManaged)))"
  "s_LogicalProxmoxIdentity (BaseSite c) = LogicalProxmoxIdentity"
  "s_BootstrapAddress (BaseSite c) = override (sc_BootstrapAddress c) []"
  "s_SSHIdentityFile (BaseSite c) = override (sc_SSHIdentityFile c) []"
  "s_PhysicalNetwork (BaseSite c) = (if pn_Mode (sc_PhysicalNetwork c) \<noteq> [] then sc_PhysicalNetwork c
     else \<lparr>pn_Upstream = zero_NIC, pn_Trunk = zero_NIC, pn_Mode = ModeVirtualOnly\<rparr>)"
  "s_TestedGateway (BaseSite c) = override (sc_TestedGateway c) QualifiedGatewayImage"
  "s_Network (BaseSite c) = \<lparr>nw_Domain = override (nw_Domain (sc_Network c)) DefaultDomain,
     nw_Zones = (if nw_Zones (sc_Network c) \<noteq> [] then map infer_zone_type (nw_Zones (sc_Network c))
                 else fixed_zones)\<rparr>"
  "s_PKI (BaseSite c) = base_pki (sc_PKI c) (s_PKI (NewSite [] [] []))"
  "s_SecretMetadata (BaseSite c) = sc_SecretMetadata c"
  "s_Ownership (BaseSite c) = base_ownership (sc_Ownership c) fixed_ownership"
  "s_Components (BaseSite c) = [proxmox_component]"
  "s_Modules (BaseSite c) = []"
  "s_ModuleConfig (BaseSite c) = ModulesMap (sc_Modules c)"
  "s_Companion (BaseSite c) = sc_Companion c"
  "s_Declarations (BaseSite c) = []"
  "s_USBExports (BaseSite c) = sc_USBExports c"
  "s_RetainedModules (BaseSite c) = []"
  "s_DHCPReservations (BaseSite c) = sc_DHCPReservations c @
     (case CompanionReservation (sc_Companion c) of None \<Rightarrow> [] | Some r \<Rightarrow> [r])"
  "s_DNSRecords (BaseSite c) = sc_DNSRecords c"
  "s_UserFirewallRules (BaseSite c) = sc_UserFirewallRules c"
  "s_PendingDNSDeletions (BaseSite c) = []"
  by (simp_all add: BaseSite_def Let_def NewSite_def override_def)

lemma configured_of_base [simp]:
  "reservation_not_configured c \<Longrightarrow>
   configuredDHCPReservations (BaseSite c) = sc_DHCPReservations c"
  by (auto simp: configuredDHCPReservations_def derivedReservations_def
      reservation_not_configured_def split: option.splits intro!: filter_True)

lemma new_gateway_base [simp]:
  "gw_Mode (base_gateway c (s_Gateway (NewSite a b m))) = m"
  by (simp add: base_gateway_def NewSite_def)

lemma override_managed [simp]:
  "override (override m GatewayModeManaged) GatewayModeManaged = override m GatewayModeManaged"
  by (simp add: override_def)

lemma fixed_zones_typed [simp]: "fixed_zones \<noteq> []" "map infer_zone_type fixed_zones = fixed_zones"
  by (simp_all add: fixed_zones_def infer_zone_type_def mk_zone_def)

text \<open>C23: Writing the canonical site back as a site file and reading that file again gives the same canonical site, as long as the operator did not also write out the companion's own reservation.\<close>

theorem site_config_stable:
  assumes "reservation_not_configured c"
  shows "BaseSite (ConfigFromSite (BaseSite c)) = BaseSite c"
proof (rule Site.equality)
  let ?c = "ConfigFromSite (BaseSite c)"
  show "s_Network (BaseSite ?c) = s_Network (BaseSite c)"
    by (simp add: ConfigFromSite_def del: map_map)
  show "s_DHCPReservations (BaseSite ?c) = s_DHCPReservations (BaseSite c)"
    using assms by (simp add: ConfigFromSite_def)
qed (simp_all add: ConfigFromSite_def)

section \<open>Setting one module\<close>

text \<open>The lookup map by name, and the five ways an update succeeds.\<close>

lemma map_of_ModulesMap_other:
  "n \<notin> {''dns'', ''monitoring'', ''firewall'', ''tailnet-router'', ''bifrost''} \<Longrightarrow>
   map_of (ModulesMap m) n = None"
  by (simp add: ModulesMap_def split: option.split)

lemma map_of_ModulesMap_if:
  "map_of (ModulesMap m) n =
     (if n = ''dns'' then map_of (ModulesMap m) ''dns''
      else if n = ''monitoring'' then map_of (ModulesMap m) ''monitoring''
      else if n = ''firewall'' then map_of (ModulesMap m) ''firewall''
      else if n = ''tailnet-router'' then map_of (ModulesMap m) ''tailnet-router''
      else if n = ''bifrost'' then map_of (ModulesMap m) ''bifrost'' else None)"
  by (simp del: map_of_ModulesMap add: map_of_ModulesMap_other)

lemma ModulesMap_frame:
  "n \<noteq> ''dns'' \<Longrightarrow> map_of (ModulesMap (m\<lparr>mods_DNS := d\<rparr>)) n = map_of (ModulesMap m) n"
  "n \<noteq> ''monitoring'' \<Longrightarrow> map_of (ModulesMap (m\<lparr>mods_Monitoring := e\<rparr>)) n = map_of (ModulesMap m) n"
  "n \<noteq> ''firewall'' \<Longrightarrow> map_of (ModulesMap (m\<lparr>mods_Firewall := e\<rparr>)) n = map_of (ModulesMap m) n"
  "n \<noteq> ''tailnet-router'' \<Longrightarrow>
     map_of (ModulesMap (m\<lparr>mods_TailnetRouter := t\<rparr>)) n = map_of (ModulesMap m) n"
  "n \<noteq> ''bifrost'' \<Longrightarrow> map_of (ModulesMap (m\<lparr>mods_Bifrost := b\<rparr>)) n = map_of (ModulesMap m) n"
  by (simp_all add: map_of_ModulesMap_if [where n = n])

lemma ModulesSet_cases:
  assumes "ModulesSet m name config = Inr m'"
  obtains "name = ''dns''" "mc_Enabled config = None" "m' = m\<lparr>mods_DNS := Some ()\<rparr>"
  | "name = ''monitoring''" "m' = m\<lparr>mods_Monitoring := Some (mc_Enabled config)\<rparr>"
  | "name = ''firewall''" "m' = m\<lparr>mods_Firewall := Some (mc_Enabled config)\<rparr>"
  | "name = ''tailnet-router''" "m' = m\<lparr>mods_TailnetRouter := Some \<lparr>tr_Enabled = mc_Enabled config,
        tr_TrustedClients = mc_TailnetTrustedClients config\<rparr>\<rparr>"
  | us ms where "name = ''bifrost''" "m' = m\<lparr>mods_Bifrost := Some \<lparr>bf_Enabled = mc_Enabled config,
        bf_Network = mc_Network config, bf_Upstreams = us, bf_Models = ms\<rparr>\<rparr>"
  using assms unfolding ModulesSet_def Let_def
  by (simp split: if_split_asm prod.split_asm) blast+

text \<open>A successful update of one module's settings records the requested enablement for that module and leaves what every other module is configured to do unchanged.\<close>

lemma module_set_local:
  assumes "ModulesSet m name config = Inr m'"
  shows "map_option mc_Enabled (map_of (ModulesMap m') name) = Some (mc_Enabled config) \<and>
    (\<forall>n. n \<noteq> name \<longrightarrow> map_of (ModulesMap m') n = map_of (ModulesMap m) n)"
  using assms
  by (cases rule: ModulesSet_cases) (simp_all add: zero_ModuleConfig_def ModulesMap_frame)

section \<open>Bifrost validation\<close>

text \<open>The upstream loop keeps the names it has seen and one reference per secret identity.\<close>

lemma upstream_step_Inr:
  "bifrost_upstream_step p u (ns, rs) = Inr st \<longleftrightarrow>
     modelTokenPattern (bu_Name u) \<and> bu_Name u \<notin> set ns \<and> https_base_url p (bu_BaseURL u) \<and>
     bifrostSecretReferencePattern (bu_APIKeySecret u) \<and>
     map_of rs (BifrostSecretReferenceID (bu_APIKeySecret u)) \<in> {None, Some (bu_APIKeySecret u)} \<and>
     st = (bu_Name u # ns, (BifrostSecretReferenceID (bu_APIKeySecret u), bu_APIKeySecret u) # rs)"
  by (auto simp: bifrost_upstream_step_def Let_def split: option.splits)

lemma model_step_Inr:
  "bifrost_model_step ns m as = Inr as' \<longleftrightarrow>
     modelTokenPattern (bm_Alias m) \<and> bm_Alias m \<notin> set as \<and> bm_Upstream m \<in> set ns \<and>
     providerModelPattern (bm_Model m) \<and> as' = bm_Alias m # as"
  by (auto simp: bifrost_model_step_def)

lemma model_loop_Inr:
  "(\<exists>as'. foldE (bifrost_model_step ns) ms as = Inr as') \<longleftrightarrow>
     distinct (map bm_Alias ms) \<and> set (map bm_Alias ms) \<inter> set as = {} \<and>
     (\<forall>m \<in> set ms. modelTokenPattern (bm_Alias m) \<and> bm_Upstream m \<in> set ns \<and>
        providerModelPattern (bm_Model m))"
  by (induction ms arbitrary: as) (auto simp: foldE_Cons_Inr model_step_Inr simp del: foldE.simps(2))

lemma claims_in: "claims rs S \<Longrightarrow> x \<in> S \<Longrightarrow> map_of rs (BifrostSecretReferenceID x) = Some x"
  by (simp add: claims_def)

lemma claims_insert:
  assumes "claims rs S" and "map_of rs (BifrostSecretReferenceID r) \<in> {None, Some r}"
  shows "claims ((BifrostSecretReferenceID r, r) # rs) (insert r S)"
  unfolding claims_def
proof (intro allI)
  fix i r'
  have "map_of rs i = Some r' \<longleftrightarrow> r' \<in> S \<and> BifrostSecretReferenceID r' = i"
    using assms(1) by (simp add: claims_def)
  then show "map_of ((BifrostSecretReferenceID r, r) # rs) i = Some r' \<longleftrightarrow>
      r' \<in> insert r S \<and> BifrostSecretReferenceID r' = i"
    using assms(2) by (cases "BifrostSecretReferenceID r = i") auto
qed

lemma claims_fresh_iff:
  assumes "claims rs S"
  shows "map_of rs (BifrostSecretReferenceID r) \<in> {None, Some r} \<longleftrightarrow>
    inj_on BifrostSecretReferenceID (insert r S)"
proof
  assume fresh: "map_of rs (BifrostSecretReferenceID r) \<in> {None, Some r}"
  show "inj_on BifrostSecretReferenceID (insert r S)"
    by (rule inj_onI) (metis claims_in claims_insert [OF assms fresh] option.inject)
next
  assume inj: "inj_on BifrostSecretReferenceID (insert r S)"
  show "map_of rs (BifrostSecretReferenceID r) \<in> {None, Some r}"
  proof (cases "map_of rs (BifrostSecretReferenceID r)")
    case (Some x)
    then have "x \<in> S" and "BifrostSecretReferenceID x = BifrostSecretReferenceID r"
      using assms by (auto simp: claims_def)
    then have "x = r" using inj by (meson inj_onD insertCI)
    then show ?thesis using Some by simp
  qed simp
qed

lemma upstream_loop_names:
  "foldE (bifrost_upstream_step p) us (ns, rs) = Inr (ns', rs') \<Longrightarrow> ns' = rev (map bu_Name us) @ ns"
  by (induction us arbitrary: ns rs)
    (auto simp: foldE_Cons_Inr upstream_step_Inr simp del: foldE.simps(2))

lemma upstream_loop_ok:
  assumes "claims rs S"
  shows "(\<exists>st. foldE (bifrost_upstream_step p) us (ns, rs) = Inr st) \<longleftrightarrow>
     distinct (map bu_Name us) \<and> set (map bu_Name us) \<inter> set ns = {} \<and>
     (\<forall>u \<in> set us. modelTokenPattern (bu_Name u) \<and> https_base_url p (bu_BaseURL u) \<and>
        bifrostSecretReferencePattern (bu_APIKeySecret u)) \<and>
     inj_on BifrostSecretReferenceID (S \<union> bu_APIKeySecret ` set us)"
  using assms
proof (induction us arbitrary: ns rs S)
  case Nil
  then show ?case
    by (auto simp: inj_on_def claims_def) (metis option.inject)
next
  case (Cons u us)
  let ?r = "bu_APIKeySecret u" and ?id = BifrostSecretReferenceID
  have un: "S \<union> bu_APIKeySecret ` set (u # us) = insert ?r S \<union> bu_APIKeySecret ` set us"
    by auto
  have sub: "inj_on ?id (insert ?r S \<union> bu_APIKeySecret ` set us) \<Longrightarrow> inj_on ?id (insert ?r S)"
    by (erule inj_on_subset) auto
  show ?case
    unfolding un foldE_Cons_Inr upstream_step_Inr claims_fresh_iff [OF Cons.prems]
  proof (cases "inj_on ?id (insert ?r S)")
    case True
    then have "claims ((?id ?r, ?r) # rs) (insert ?r S)"
      using claims_insert [OF Cons.prems] claims_fresh_iff [OF Cons.prems] by simp
    from Cons.IH [OF this, of "bu_Name u # ns"] True
    show "(\<exists>st ua. (modelTokenPattern (bu_Name u) \<and> bu_Name u \<notin> set ns \<and>
        https_base_url p (bu_BaseURL u) \<and> bifrostSecretReferencePattern ?r \<and>
        inj_on ?id (insert ?r S) \<and> ua = (bu_Name u # ns, (?id ?r, ?r) # rs)) \<and>
        foldE (bifrost_upstream_step p) us ua = Inr st) \<longleftrightarrow>
      distinct (map bu_Name (u # us)) \<and> set (map bu_Name (u # us)) \<inter> set ns = {} \<and>
      (\<forall>u \<in> set (u # us). modelTokenPattern (bu_Name u) \<and> https_base_url p (bu_BaseURL u) \<and>
        bifrostSecretReferencePattern (bu_APIKeySecret u)) \<and>
      inj_on ?id (insert ?r S \<union> bu_APIKeySecret ` set us)"
      by (auto 0 3)
  qed (use sub in auto)
qed

lemma ValidateBifrostConfig_iff: "ValidateBifrostConfig p c = Inr () \<longleftrightarrow> bifrost_ok p c"
proof -
  let ?ul = "foldE (bifrost_upstream_step p) (mc_Upstreams c) ([], [])"
  let ?ml = "\<lambda>ns. foldE (bifrost_model_step ns) (mc_Models c) []"
  let ?names = "rev (map bu_Name (mc_Upstreams c))"
  have "ValidateBifrostConfig p c = Inr () \<longleftrightarrow>
      mc_Upstreams c \<noteq> [] \<and> length (mc_Upstreams c) \<le> 16 \<and>
      mc_Models c \<noteq> [] \<and> length (mc_Models c) \<le> 32 \<and>
      (\<exists>ns rs. ?ul = Inr (ns, rs) \<and> (\<exists>as. ?ml ns = Inr as))"
    by (auto simp: ValidateBifrostConfig_def split: prod.splits)
  also have "(\<exists>ns rs. ?ul = Inr (ns, rs) \<and> (\<exists>as. ?ml ns = Inr as)) \<longleftrightarrow>
      (\<exists>st. ?ul = Inr st) \<and> (\<exists>as. ?ml ?names = Inr as)"
    using upstream_loop_names [of p "mc_Upstreams c" "[]" "[]"] by fastforce
  also have "(\<exists>st. ?ul = Inr st) \<longleftrightarrow> distinct (map bu_Name (mc_Upstreams c)) \<and>
     (\<forall>u \<in> set (mc_Upstreams c). modelTokenPattern (bu_Name u) \<and>
        https_base_url p (bu_BaseURL u) \<and> bifrostSecretReferencePattern (bu_APIKeySecret u)) \<and>
     inj_on BifrostSecretReferenceID (bu_APIKeySecret ` set (mc_Upstreams c))"
    by (subst upstream_loop_ok [of "[]" "{}"]) (simp_all add: claims_def)
  finally show ?thesis
    unfolding model_loop_Inr bifrost_ok_def by auto
qed

text \<open>C24: The Bifrost validator accepts a configuration exactly when it has one to sixteen uniquely and safely named HTTPS upstreams whose secret references do not collide after normalisation, and one to thirty-two unique aliases, each with a declared upstream and a well-formed provider model.\<close>

theorem bifrost_validation_exact: "ValidateBifrostConfig urlParse c = Inr () \<longleftrightarrow> bifrost_ok urlParse c"
  by (rule ValidateBifrostConfig_iff)

text \<open>Resolving an alias succeeds exactly on a valid configuration that declares the alias, returns the one declaration of it, and never serves a provider model that has no alias.\<close>

lemma bifrost_alias_resolution:
  "ResolveBifrostAlias urlParse c alias = Inr m \<longleftrightarrow>
     bifrost_ok urlParse c \<and> m \<in> set (mc_Models c) \<and> bm_Alias m = alias"
proof -
  have found: "find (\<lambda>m. bm_Alias m = alias) ms = Some m \<longleftrightarrow> m \<in> set ms \<and> bm_Alias m = alias"
    if "distinct (map bm_Alias ms)" for ms
    using that by (induction ms) force+
  have "ResolveBifrostAlias urlParse c alias = Inr m \<longleftrightarrow>
      ValidateBifrostConfig urlParse c = Inr () \<and>
      find (\<lambda>m. bm_Alias m = alias) (mc_Models c) = Some m"
    by (auto simp: ResolveBifrostAlias_def split: option.splits)
  then show ?thesis
    unfolding ValidateBifrostConfig_iff using found [of "mc_Models c"] by (auto simp: bifrost_ok_def)
qed

section \<open>Generated gateway MAC\<close>

lemma hex_val_hex_digit [simp]: "n < 16 \<Longrightarrow> hex_val (hex_digit n) = Some n"
proof -
  have "list_all (\<lambda>n. hex_val (hex_digit n) = Some n) [0..<16]" by code_simp
  then show "n < 16 \<Longrightarrow> ?thesis" by (simp add: list_all_iff)
qed

lemma xtoi2_hex_byte [simp]:
  "xtoi2 (hex_digit (unat b div 16) # hex_digit (unat b mod 16) # r) e =
     (if r \<noteq> [] \<and> Some (hd r) \<noteq> e then None else Some b)" for b :: "8 word"
proof -
  have "unat b < 256" using unsigned_less [of b] by simp
  then show ?thesis by (simp add: xtoi2_def)
qed

lemma ParseMAC_MACString:
  assumes "length bs = 6"
  shows "ParseMAC (MACString bs) = Some bs"
proof -
  obtain a b c d e f where bs: "bs = [a, b, c, d, e, f]"
    using assms by (auto simp: length_Suc_conv eval_nat_numeral)
  have upt: "[0..<6] = [0, 1, 2, 3, 4, 5 :: nat]" by (simp add: upt_rec)
  show ?thesis
    by (simp add: bs MACString_def joinWith_def hex_byte_def ParseMAC_def upt)
qed

lemma laa_unicast:
  "((b AND 0xfe) OR 0x02) AND 1 = 0" "((b AND 0xfe) OR 0x02) AND 2 \<noteq> 0" for b :: "8 word"
proof -
  show "((b AND 0xfe) OR 0x02) AND 1 = 0"
    by (simp add: and_one_eq even_or_iff even_and_iff flip: even_iff_mod_2_eq_zero)
  have "bit ((b AND 0xfe) OR 0x02) 1" by (simp add: bit_simps)
  then show "((b AND 0xfe) OR 0x02) AND 2 \<noteq> 0"
    using and_exp_eq_0_iff_not_bit [of "(b AND 0xfe) OR 0x02" 1] by simp
qed

lemma mac_of_bytes_valid:
  "length w = 6 \<Longrightarrow> w ! 0 AND 1 = 0 \<Longrightarrow> w ! 0 AND 2 \<noteq> 0 \<Longrightarrow>
   \<not> GatewayUpstreamMACConflicts (MACString w) \<Longrightarrow>
   ValidateGatewayUpstreamMAC (MACString w) = Inr ()"
  by (simp add: ValidateGatewayUpstreamMAC_def ParseMAC_MACString)

lemma generate_mac_valid:
  assumes "generate_mac_loop draws = Inr mac" and "\<forall>v. Some v \<in> set draws \<longrightarrow> length v = 6"
  shows "ValidateGatewayUpstreamMAC mac = Inr ()"
  using assms
proof (induction draws)
  case (Cons d rest)
  then obtain v where d: "d = Some v" and v: "length v = 6" by (cases d) auto
  let ?w = "((v ! 0 AND 0xfe) OR 0x02) # tl v"
  show ?case
  proof (cases "GatewayUpstreamMACConflicts (MACString ?w)")
    case True
    then show ?thesis using Cons d by (simp add: Let_def)
  next
    case False
    then have "mac = MACString ?w" using Cons.prems(1) d by (simp add: Let_def)
    then show ?thesis
      using mac_of_bytes_valid [of ?w] False laa_unicast [of "v ! 0"] v by simp
  qed
qed simp

text \<open>Every upstream MAC the generator returns, whatever the random source yields, passes the site validator: it is a unicast, locally administered Ethernet address that no other gateway NIC uses.\<close>

theorem generated_mac_accepted:
  assumes "GenerateGatewayUpstreamMAC rnd = Inr mac" and "\<forall>i v. rnd i = Some v \<longrightarrow> length v = 6"
  shows "ValidateGatewayUpstreamMAC mac = Inr ()"
  by (rule generate_mac_valid [OF assms(1) [unfolded GenerateGatewayUpstreamMAC_def]])
    (use assms(2) in auto)

theorem generated_mac_accepted_witness:
  "ValidateGatewayUpstreamMAC ''fe:ff:ff:ff:ff:ff'' = Inr ()"
proof (rule generated_mac_accepted)
  show "GenerateGatewayUpstreamMAC (\<lambda>_. Some (replicate 6 (- 1))) = Inr ''fe:ff:ff:ff:ff:ff''"
    by code_simp
qed simp

section \<open>Witnesses\<close>

theorem trusted_clients_never_reach_site_witness:
  "map_option mc_TailnetTrustedClients
     (map_of (s_ModuleConfig (BaseSite demo_config)) ''tailnet-router'') = Some [] \<and>
   map_option tr_TrustedClients (mods_TailnetRouter (sc_Modules demo_config)) = Some [''100.64.0.7'']"
  using trusted_clients_never_reach_site
    [of demo_config "zero_ModuleConfig\<lparr>mc_Enabled := Some True\<rparr>"]
  by (simp add: demo_config_def demo_modules_def)

theorem site_config_stable_witness:
  "BaseSite (ConfigFromSite (BaseSite demo_config)) = BaseSite demo_config \<and>
   length (s_DHCPReservations (BaseSite demo_config)) = 1"
proof -
  have r: "reservation_not_configured demo_config" by code_simp
  have "length (s_DHCPReservations (BaseSite demo_config)) = 1" by code_simp
  then show ?thesis using site_config_stable [OF r] by simp
qed

end
