(* ===== verification/Site_Validate.thy ===== *)
theory Site_Validate
  imports Site_Config
begin

text \<open>
  \<^verbatim>\<open>Site.Validate\<close> of \<^verbatim>\<open>internal/model/model.go\<close> with everything it calls: gateway
  addressing, USB bindings, the companion, the fixed zones, components and retained guests, DHCP
  reservations, user DNS records, user firewall rules and module declarations.  Each loop of the
  Go function is a fold over the same slice with the maps it fills as its state; a Go map used as
  a set is the list of its keys.  \<open>PlatformComponents\<close> sorts with a stable sort; where two
  components share a name Go leaves their order open.
\<close>

section \<open>Lookups\<close>

definition PlatformComponents :: "Site \<Rightarrow> Component list" where
  "PlatformComponents s =
     sort_key c_Name
       (filter (\<lambda>c. c_ProductOwned c \<and> (s_Declarations s = [] \<or> c_Module c = [])) (s_Components s) @
        concat (map md_Guests (s_Declarations s)))"

definition zoneByName :: "Site \<Rightarrow> string \<Rightarrow> Zone option" where
  "zoneByName s name = find (\<lambda>z. z_Name z = name) (nw_Zones (s_Network s))"

definition validZoneType :: "ZoneType \<Rightarrow> bool" where
  "validZoneType t \<longleftrightarrow> t \<in> {ZoneTypeTransit, ZoneTypeInfrastructure, ZoneTypeServers,
     ZoneTypeTrusted, ZoneTypeSandbox, ZoneTypeManagement}"

definition ZoneForType :: "Site \<Rightarrow> ZoneType \<Rightarrow> gerror + Zone" where
  "ZoneForType s zoneType =
     (if \<not> validZoneType zoneType then Inl (Errorf ''unknown zone type %q'' [zoneType])
      else case find (\<lambda>z. z_Type z = zoneType) (nw_Zones (s_Network s)) of
        Some z \<Rightarrow> Inr z
      | None \<Rightarrow> Inl (Errorf ''zone type %q is not configured'' [zoneType]))"

definition resolvedModuleEnabled :: "SiteModule list \<Rightarrow> string \<Rightarrow> bool \<Rightarrow> bool" where
  "resolvedModuleEnabled modules name defaultValue =
     (if modules = [] then defaultValue
      else case find (\<lambda>m. sm_Name m = name) modules of
        Some m \<Rightarrow> sm_Enabled m | None \<Rightarrow> defaultValue)"

definition safeInterfaceName :: "string \<Rightarrow> bool" where
  "safeInterfaceName v \<longleftrightarrow> v \<noteq> [] \<and> list_all (\<lambda>c. c \<in> set ''.-_'' \<or> is_alnum c) v"

definition ipInZone :: "IP \<Rightarrow> Zone \<Rightarrow> bool" where
  "ipInZone ip zone =
     (case ParseCIDR (z_Network zone) of None \<Rightarrow> False
      | Some (_, network) \<Rightarrow> (case To4 ip of None \<Rightarrow> False | Some q \<Rightarrow> Contains network q))"

definition ipInAnyZone :: "IP \<Rightarrow> Zone list \<Rightarrow> bool" where
  "ipInAnyZone ip zones = list_ex (ipInZone ip) zones"

definition usableIPInZone :: "IP \<Rightarrow> Zone \<Rightarrow> bool" where
  "usableIPInZone ip zone =
     (case ParseCIDR (z_Network zone) of None \<Rightarrow> False
      | Some (_, network) \<Rightarrow>
         (case (To4 ip, To4 (net_IP network)) of
            (Some candidate, Some networkAddress) \<Rightarrow>
              Contains network candidate \<and>
              candidate \<noteq> networkAddress \<and>
              candidate \<noteq> map2 (\<lambda>a m. a OR NOT m) networkAddress (net_Mask network)
          | _ \<Rightarrow> False))"

text \<open>The owner a map records for a key, the zero value when it records none.\<close>

definition owner_of :: "('k \<times> string) list \<Rightarrow> 'k \<Rightarrow> string" where
  "owner_of m k = (case map_of m k of None \<Rightarrow> [] | Some previous \<Rightarrow> previous)"

section \<open>Gateway configuration\<close>

text \<open>A canonical dotted quad inside a network.\<close>

definition canonical_ip4 :: "string \<Rightarrow> IP option" where
  "canonical_ip4 v =
     (case ParseIP v of None \<Rightarrow> None
      | Some ip \<Rightarrow> (case To4 ip of None \<Rightarrow> None
          | Some q \<Rightarrow> if IPString q \<noteq> v then None else Some ip))"

definition ip_equal_opt :: "IP \<Rightarrow> IP option \<Rightarrow> bool" where
  "ip_equal_opt ip other = (case other of None \<Rightarrow> False | Some x \<Rightarrow> IPEqual ip x)"

fun publish_loop :: "string list \<Rightarrow> GatewayPublication list \<Rightarrow> gerror + unit" where
  "publish_loop seen [] = Inr ()"
| "publish_loop seen (p # ps) =
     (if pub_Service p \<noteq> ''dns'' then
        Inl (Errorf ''gateway.publish.service %q is not supported; only dns is available'' [pub_Service p])
      else if pub_Service p \<in> set seen then
        Inl (Errorf ''gateway.publish contains duplicate service %q'' [pub_Service p])
      else publish_loop (pub_Service p # seen) ps)"

definition validateGatewayConfiguration :: "Site \<Rightarrow> gerror + unit" where
  "validateGatewayConfiguration s =
     (let g = s_Gateway s;
          managementAddress = override (gw_ManagementAddress g) GatewayManagementAddress;
          managementNetwork = override (gw_ManagementNetwork g) GatewayManagementNetwork;
          managementGateway = override (gw_ManagementGateway g) GatewayManagementGateway;
          controllerAddress = override (gw_ControllerAddress g) GatewayControllerAddress
      in if up_Mode (gw_Upstream g) \<noteq> ''dhcp'' then
           Inl (Errorf ''gateway.upstream.mode must be dhcp'' [])
         else case ParseCIDR managementNetwork of
           None \<Rightarrow> Inl (Errorf ''gateway.management_network must be a canonical IPv4 CIDR'' [])
         | Some (_, network) \<Rightarrow>
           if To4 (net_IP network) = None \<or> IPNetString network \<noteq> managementNetwork then
             Inl (Errorf ''gateway.management_network must be a canonical IPv4 CIDR'' [])
           else case canonical_ip4 managementAddress of
             None \<Rightarrow> Inl (Errorf ''gateway.management_address must be a canonical IPv4 address'' [])
           | Some address \<Rightarrow>
             checks
              [fails (\<not> Contains network address)
                 (Errorf ''gateway.management_address must be a canonical IPv4 address'' []),
               fails (IPEqual address (net_IP network) \<or> IPEqual address [192, 168, 7, 255] \<or>
                      ip_equal_opt address (ParseIP managementGateway) \<or>
                      ip_equal_opt address (ParseIP controllerAddress) \<or>
                      ip_equal_opt address (ParseIP ''192.168.4.5''))
                 (Errorf ''gateway.management_address must be a usable HOME address without reserved bindings'' []),
               fails (case canonical_ip4 managementGateway of None \<Rightarrow> True
                      | Some gateway \<Rightarrow> \<not> Contains network gateway \<or> IPEqual gateway address)
                 (Errorf ''gateway.management_gateway must be a distinct canonical IPv4 address in management_network'' []),
               fails (case canonical_ip4 controllerAddress of None \<Rightarrow> True
                      | Some controller \<Rightarrow> \<not> Contains network controller)
                 (Errorf ''gateway.controller_address must be a canonical IPv4 address in management_network'' []),
               ValidateGatewayUpstreamMAC (up_MAC (gw_Upstream g)),
               fails (gw_Mode g = GatewayModeExternal \<and> gw_Publish g \<noteq> [])
                 (Errorf ''gateway.publish requires managed gateway mode'' []),
               publish_loop [] (gw_Publish g)])"

section \<open>USB bindings\<close>

type_synonym usb_key = "string \<times> string"

fun usb_requirement_loop ::
  "(string \<times> USBRequirement) list \<Rightarrow> (usb_key \<times> USBRequirement) list
   \<Rightarrow> gerror + (usb_key \<times> USBRequirement) list" where
  "usb_requirement_loop [] reqs = Inr reqs"
| "usb_requirement_loop ((m, r) # rest) reqs =
     (if ur_Name r = [] \<or> ur_Guest r = [] \<or>
         (ur_DeviceType r \<noteq> ''raw-usb'' \<and> ur_DeviceType r \<noteq> ''serial'') \<or>
         ur_Access r \<noteq> ''rw'' \<or> ur_AllowedIdentities r = [] then
        Inl (Errorf ''module %s has invalid USB requirement %q'' [m, ur_Name r])
      else if map_of reqs (m, ur_Name r) \<noteq> None then
        Inl (Errorf ''module %s has duplicate USB requirement %q'' [m, ur_Name r])
      else usb_requirement_loop rest (((m, ur_Name r), r) # reqs))"

definition usb_identity_allowed :: "USBRequirement \<Rightarrow> USBExportBinding \<Rightarrow> bool" where
  "usb_identity_allowed r b =
     list_ex (\<lambda>i. ui_VendorID i = ub_VendorID b \<and> ui_ProductID i = ub_ProductID b)
       (ur_AllowedIdentities r)"

definition usb_serial_identity :: "USBExportBinding \<Rightarrow> string" where
  "usb_serial_identity b = ub_VendorID b @ '':'' @ ub_ProductID b @ '':'' @ ub_Serial b"

text \<open>State of the binding loop: ports, bound keys and serial identities seen so far.\<close>

definition usb_binding_step ::
  "(usb_key \<times> USBRequirement) list \<Rightarrow> USBExportBinding
   \<Rightarrow> string list \<times> usb_key list \<times> string list
   \<Rightarrow> gerror + string list \<times> usb_key list \<times> string list" where
  "usb_binding_step reqs b st =
     (case st of (ports, bindings, serials) \<Rightarrow>
        let k = (ub_Module b, ub_Requirement b); args = [ub_Module b, ub_Requirement b]
        in if \<not> usbPortPattern (ub_Port b) then
             Inl (Errorf ''usb_exports binding %s/%s has invalid physical port %q'' (args @ [ub_Port b]))
           else if ub_VendorID b \<noteq> ToLower (ub_VendorID b) \<or> ub_ProductID b \<noteq> ToLower (ub_ProductID b) \<or>
               \<not> usbIDPattern (ub_VendorID b) \<or> \<not> usbIDPattern (ub_ProductID b) then
             Inl (Errorf ''usb_exports binding %s/%s requires four-digit lowercase vendor_id and product_id'' args)
           else if (case map_of reqs k of None \<Rightarrow> False | Some r \<Rightarrow> \<not> usb_identity_allowed r b) then
             Inl (Errorf ''usb_exports identity %s:%s is not allowed for %s/%s''
                   ([ub_VendorID b, ub_ProductID b] @ args))
           else if ContainsAny (ub_Serial b) [CHR 0x0D, CHR 0x0A, CHR 0x00] then
             Inl (Errorf ''usb_exports binding %s/%s has invalid serial'' args)
           else if ub_Serial b \<noteq> [] \<and> usb_serial_identity b \<in> set serials then
             Inl (Errorf ''usb_exports contains duplicate physical identity %s'' [usb_serial_identity b])
           else if ub_Port b \<in> set ports then
             Inl (Errorf ''usb_exports contains duplicate physical port %q'' [ub_Port b])
           else if k \<in> set bindings then
             Inl (Errorf ''usb_exports contains duplicate binding %s/%s'' args)
           else Inr (ub_Port b # ports, k # bindings,
                     if ub_Serial b \<noteq> [] then usb_serial_identity b # serials else serials))"

definition module_enabled_last :: "SiteModule list \<Rightarrow> string \<Rightarrow> bool" where
  "module_enabled_last ms name =
     (case find (\<lambda>m. sm_Name m = name) (rev ms) of None \<Rightarrow> False | Some m \<Rightarrow> sm_Enabled m)"

definition validateUSBExports :: "Site \<Rightarrow> gerror + unit" where
  "validateUSBExports s =
     bindE (usb_requirement_loop
              (concat (map (\<lambda>d. map (\<lambda>r. (md_Module d, r)) (md_USBRequirements d)) (s_Declarations s))) [])
       (\<lambda>reqs. bindE (foldE (usb_binding_step reqs) (s_USBExports s) ([], [], []))
         (\<lambda>(_, bindings, _). allE (\<lambda>(k, r).
            fails (module_enabled_last (s_Modules s) (fst k) \<and> ur_Required r \<and> k \<notin> set bindings)
              (Errorf ''modules.%s requires usb_exports binding %s/%s'' [fst k, fst k, snd k])) reqs))"

section \<open>Companion and components\<close>

definition validateCompanion :: "CompanionConfig option \<Rightarrow> gerror + unit" where
  "validateCompanion companion =
     (case companion of None \<Rightarrow> Inr ()
      | Some cc \<Rightarrow>
          if length (cc_StreamDeckSerial cc) > 128 then
            Inl (Errorf ''companion.streamdeck_serial is too long'' [])
          else if \<not> list_all (\<lambda>c. is_alnum c \<or> c \<in> set ''_.-'') (cc_StreamDeckSerial cc) then
            Inl (Errorf ''companion.streamdeck_serial contains unsupported characters'' [])
          else if cc_EthernetMAC cc = [] then
            (if cap_Enabled (Capabilities companion) then
               Inl (Errorf ''companion.ethernet_mac is required when the companion is enabled'' [])
             else Inr ())
          else case ParseMAC (cc_EthernetMAC cc) of
            None \<Rightarrow> Inl (Errorf ''companion.ethernet_mac must be an Ethernet MAC'' [])
          | Some parsed \<Rightarrow>
              if length parsed \<noteq> 6 then Inl (Errorf ''companion.ethernet_mac must be an Ethernet MAC'' [])
              else if parsed ! 0 AND 1 \<noteq> 0 then Inl (Errorf ''companion.ethernet_mac must be unicast'' [])
              else Inr ())"

fun tags_loop :: "string \<Rightarrow> string list \<Rightarrow> string list \<Rightarrow> gerror + string list" where
  "tags_loop name [] seen = Inr seen"
| "tags_loop name (tag # tags) seen =
     (if \<not> modelTokenPattern tag \<or> tag \<noteq> ToLower tag then
        Inl (Errorf ''component %s has unsafe tag %q'' [name, tag])
      else if tag \<in> set seen then Inl (Errorf ''component %s has duplicate tag %q'' [name, tag])
      else tags_loop name tags (tag # seen))"

definition ValidateComponent :: "Component \<Rightarrow> gerror + unit" where
  "ValidateComponent m =
     bindE (checks
       [fails (c_Name m = [] \<or> c_Hostname m = [] \<or> c_Address m = [] \<or> c_Zone m = [])
          (Errorf ''component %q is missing name, hostname, zone, or address'' [c_Name m]),
        allE (\<lambda>(field, v). fails (v \<noteq> [] \<and> \<not> modelTokenPattern v)
              (Errorf ''component %s has unsafe %s'' [c_Name m, field]))
          [(''name'', c_Name m), (''hostname'', c_Hostname m), (''zone'', c_Zone m),
           (''ssh_user'', c_SSHUser m)],
        allE (\<lambda>alias. fails (\<not> modelTokenPattern alias)
              (Errorf ''component %s has unsafe DNS alias %q'' [c_Name m, alias])) (c_DNSAliases m)])
     (\<lambda>_. bindE (tags_loop (c_Name m) (c_Tags m) []) (\<lambda>seenTags. checks
       [fails (c_ProductOwned m \<and> TagBoetticher \<notin> set seenTags)
          (Errorf ''platform component %s is missing required tag %q'' [c_Name m, TagBoetticher]),
        fails (c_ProductOwned m \<and> TagManaged \<notin> set seenTags)
          (Errorf ''platform component %s is missing required tag %q'' [c_Name m, TagManaged]),
        fails (c_ProductOwned m \<and> c_VMID m \<noteq> 0 \<and> c_Backup m \<and> TagBackup \<notin> set seenTags)
          (Errorf ''platform guest %s is marked for backup but is missing required tag %q'' [c_Name m, TagBackup]),
        fails (ContainsAny (c_Role m @ c_URL m) [CHR 0x0D, CHR 0x0A])
          (Errorf ''component %s contains a newline in generated metadata'' [c_Name m])]))"

section \<open>Zones\<close>

record expectedZone =
  ez_typ :: ZoneType
  ez_vlan :: int
  ez_network :: string
  ez_gateway :: string

definition expectedZones :: "(string \<times> expectedZone) list" where
  "expectedZones =
     [(''TRANSIT'', \<lparr>ez_typ = ZoneTypeTransit, ez_vlan = 5, ez_network = ''10.10.5.0/24'', ez_gateway = ''10.10.5.1''\<rparr>),
      (''INFRA'', \<lparr>ez_typ = ZoneTypeInfrastructure, ez_vlan = 10, ez_network = ''10.10.10.0/24'', ez_gateway = ''10.10.10.1''\<rparr>),
      (''SERVERS'', \<lparr>ez_typ = ZoneTypeServers, ez_vlan = 20, ez_network = ''10.10.20.0/24'', ez_gateway = ''10.10.20.1''\<rparr>),
      (''TRUSTED'', \<lparr>ez_typ = ZoneTypeTrusted, ez_vlan = 30, ez_network = ''10.10.30.0/24'', ez_gateway = ''10.10.30.1''\<rparr>),
      (''SANDBOX'', \<lparr>ez_typ = ZoneTypeSandbox, ez_vlan = 40, ez_network = ''10.10.40.0/24'', ez_gateway = ''10.10.40.1''\<rparr>),
      (''MGMT'', \<lparr>ez_typ = ZoneTypeManagement, ez_vlan = 99, ez_network = ''10.10.99.0/24'', ez_gateway = ''10.10.99.1''\<rparr>)]"

definition zone_services_check :: "Zone \<Rightarrow> gerror + unit" where
  "zone_services_check z =
     (if z_Type z = ZoneTypeTransit then
        fails (z_AddressMode z \<noteq> ''none'' \<or> z_DNSAddresses z \<noteq> [] \<or> z_NTPAddresses z \<noteq> [])
          (Errorf ''TRANSIT must not provide DHCP, DNS, or NTP services'' [])
      else if z_Type z = ZoneTypeTrusted then
        fails (z_AddressMode z \<noteq> ''dynamic-reservations'') (Errorf ''TRUSTED must provide DHCP reservations'' [])
      else if z_Type z = ZoneTypeSandbox then
        checks [fails (z_DNSAddresses z \<noteq> [z_Gateway z] \<or> z_NTPAddresses z \<noteq> [z_Gateway z])
                  (Errorf ''SANDBOX DNS and NTP must use only its dedicated gateway address'' []),
                fails (z_AddressMode z \<noteq> ''dynamic'') (Errorf ''SANDBOX must provide dynamic DHCP'' [])]
      else if z_Type z = ZoneTypeServers then
        fails (z_AddressMode z \<noteq> ''reservations-only'') (Errorf ''SERVERS must provide reservation-only DHCP'' [])
      else if z_Type z = ZoneTypeInfrastructure \<or> z_Type z = ZoneTypeManagement then
        fails (z_AddressMode z \<noteq> ''static'') (Errorf ''%s must use static assignments only'' [z_Name z])
      else Inr ())"

text \<open>State of the zone loop: the names seen, and the VLANs with the zone that took each.\<close>

definition zone_step ::
  "Zone \<Rightarrow> string list \<times> (int \<times> string) list \<Rightarrow> gerror + string list \<times> (int \<times> string) list" where
  "zone_step z st =
     (case st of (seenZones, seenVLANs) \<Rightarrow>
        if z_Name z \<in> set seenZones then Inl (Errorf ''duplicate zone %q'' [z_Name z])
        else case map_of seenVLANs (z_VLAN z) of
          Some previous \<Rightarrow> Inl (Errorf ''zones %s and %s share VLAN %d'' [previous, z_Name z, itoa (z_VLAN z)])
        | None \<Rightarrow>
          (case map_of expectedZones (z_Name z) of
             None \<Rightarrow> Inl (Errorf ''zone %s does not match the fixed network contract'' [z_Name z])
           | Some expected \<Rightarrow>
             if \<not> validZoneType (z_Type z) then
               Inl (Errorf ''zone %s has unknown semantic type %q'' [z_Name z, z_Type z])
             else if z_Type z \<noteq> ez_typ expected \<or> z_VLAN z \<noteq> ez_vlan expected \<or>
                 z_Network z \<noteq> ez_network expected \<or> z_Gateway z \<noteq> ez_gateway expected then
               Inl (Errorf ''zone %s does not match the fixed network contract'' [z_Name z])
             else if ParseCIDR (z_Network z) = None then
               Inl (Errorf ''zone %s has invalid network: %w'' [z_Name z])
             else bindE (zone_services_check z) (\<lambda>_.
               Inr (z_Name z # seenZones, (z_VLAN z, z_Name z) # seenVLANs))))"

section \<open>Components and retained guests\<close>

definition component_step ::
  "string list \<Rightarrow> Component \<Rightarrow> string list \<times> (int \<times> string) list
   \<Rightarrow> gerror + string list \<times> (int \<times> string) list" where
  "component_step seenZones m st =
     (case st of (seenComponents, seenVMIDs) \<Rightarrow>
        bindE (ValidateComponent m) (\<lambda>_.
        bindE (checks
          [fails (c_Name m \<in> set seenComponents) (Errorf ''duplicate component %q'' [c_Name m]),
           fails (c_VMID m \<noteq> 0 \<and> map_of seenVMIDs (c_VMID m) \<noteq> None)
             (Errorf ''components %s and %s share VMID %d''
               [owner_of seenVMIDs (c_VMID m), c_Name m, itoa (c_VMID m)]),
           fails (c_VMID m \<noteq> 0 \<and> c_ProductOwned m \<and>
                  (c_VMID m < PlatformGuestIDMin \<or> c_VMID m > ModuleGuestIDMax))
             (Errorf ''platform component %s uses VMID %d outside boetticher-owned ranges'' [c_Name m, itoa (c_VMID m)]),
           fails (c_VMID m \<noteq> 0 \<and> \<not> c_ProductOwned m \<and>
                  (c_VMID m < UserGuestIDMin \<or> c_VMID m > UserGuestIDMax))
             (Errorf ''user-managed component %s uses VMID %d outside the reserved user-workload range''
               [c_Name m, itoa (c_VMID m)]),
           fails (Option.bind (ParseIP (c_Address m)) To4 = None)
             (Errorf ''component %s has invalid IPv4 address %q'' [c_Name m, c_Address m]),
           fails (c_Zone m \<notin> set seenZones)
             (Errorf ''component %s references unknown zone %q'' [c_Name m, c_Zone m])]) (\<lambda>_.
        Inr (c_Name m # seenComponents,
             if c_VMID m \<noteq> 0 then (c_VMID m, c_Name m) # seenVMIDs else seenVMIDs))))"

definition retained_guest_step ::
  "RetainedModule \<Rightarrow> Component \<Rightarrow> string list \<times> (int \<times> string) list
   \<Rightarrow> gerror + string list \<times> (int \<times> string) list" where
  "retained_guest_step retained guest st =
     (case st of (seenComponents, seenVMIDs) \<Rightarrow>
        let ownerTag = ModuleOwnershipTag (rm_Module retained) in
        case ValidateComponent guest of
          Inl e \<Rightarrow> Inl (Wrapf ''retained module %s contains invalid guest: %w'' [rm_Module retained] e)
        | Inr _ \<Rightarrow>
          bindE (checks
            [fails (\<not> c_ProductOwned guest \<or> \<not> c_SSHManaged guest \<or> c_Module guest \<noteq> rm_Module retained)
               (Errorf ''retained guest %s must remain a product-owned SSH-managed %s guest''
                 [c_Name guest, rm_Module retained]),
             fails (c_VMID guest < PlatformGuestIDMin \<or> c_VMID guest > ModuleGuestIDMax)
               (Errorf ''retained guest %s uses VMID %d outside the boetticher-owned range''
                 [c_Name guest, itoa (c_VMID guest)]),
             fails (ownerTag \<notin> set (c_Tags guest))
               (Errorf ''retained guest %s is missing canonical ownership tag %q'' [c_Name guest, ownerTag]),
             fails (c_Name guest \<in> set seenComponents)
               (Errorf ''retained guest %q duplicates a platform component'' [c_Name guest]),
             fails (map_of seenVMIDs (c_VMID guest) \<noteq> None)
               (Errorf ''retained guest %s and %s share VMID %d''
                 [owner_of seenVMIDs (c_VMID guest), c_Name guest, itoa (c_VMID guest)])]) (\<lambda>_.
          Inr (c_Name guest # seenComponents, (c_VMID guest, c_Name guest) # seenVMIDs)))"

definition retained_step ::
  "RetainedModule \<Rightarrow> string list \<times> (int \<times> string) list
   \<Rightarrow> gerror + string list \<times> (int \<times> string) list" where
  "retained_step retained st =
     bindE (checks
       [fails (rm_Module retained = [] \<or> ModuleOwnershipTag (rm_Module retained) = [])
          (Errorf ''retained module has invalid name %q'' [rm_Module retained]),
        fails (rm_Disposition retained \<noteq> ''retained'' \<or> rm_Active retained)
          (Errorf ''retained module %s has invalid inactive disposition'' [rm_Module retained])]) (\<lambda>_.
     foldE (retained_guest_step retained) (rm_Guests retained) st)"

section \<open>DHCP reservations\<close>

definition platformAddresses :: "Site \<Rightarrow> string list" where
  "platformAddresses s =
     concat (map (\<lambda>c. case Option.bind (ParseIP (c_Address c)) To4 of None \<Rightarrow> []
                   | Some q \<Rightarrow> [IPString q]) (PlatformComponents s))"

definition owned_by_platform :: "Site \<Rightarrow> string \<Rightarrow> DHCPReservation \<Rightarrow> bool" where
  "owned_by_platform s canonicalAddress r =
     list_ex (\<lambda>c. c_ProductOwned c \<and> c_Module c \<noteq> [] \<and> c_Address c = canonicalAddress \<and>
                  c_Hostname c = res_Hostname r \<and> EqualFold (c_MAC c) (res_MAC r)) (PlatformComponents s)"

text \<open>State of the reservation loop: hostnames, addresses and MACs taken, all canonical.\<close>

definition reservation_step ::
  "Site \<Rightarrow> Zone \<Rightarrow> DHCPReservation \<Rightarrow> string list \<times> string list \<times> string list
   \<Rightarrow> gerror + string list \<times> string list \<times> string list" where
  "reservation_step s servers r st =
     (case st of (seenHostnames, seenAddresses, seenMACs) \<Rightarrow>
        bindE (checks
          [fails (res_Zone r \<noteq> ''SERVERS'')
             (Errorf ''DHCP reservation %q must use the fixed SERVERS zone'' [res_Hostname r]),
           fails (res_DNSOverride r \<noteq> [] \<or> res_NTPOverride r \<noteq> [])
             (Errorf ''DHCP service overrides are no longer part of the current reservation contract: %s'' [res_Hostname r]),
           fails (\<not> IsDNSLabel (res_Hostname r))
             (Errorf ''DHCP reservation hostname %q must be one DNS label'' [res_Hostname r])]) (\<lambda>_.
        case ParseIP (res_Address r) of
          None \<Rightarrow> Inl (Errorf ''DHCP reservation %s address %q is outside usable SERVERS addresses''
                    [res_Hostname r, res_Address r])
        | Some address \<Rightarrow>
          (case To4 address of
             None \<Rightarrow> Inl (Errorf ''DHCP reservation %s address %q is outside usable SERVERS addresses''
                       [res_Hostname r, res_Address r])
           | Some q \<Rightarrow>
             let canonicalAddress = IPString q in
             if \<not> usableIPInZone address servers \<or> canonicalAddress = z_Gateway servers then
               Inl (Errorf ''DHCP reservation %s address %q is outside usable SERVERS addresses''
                 [res_Hostname r, res_Address r])
             else if canonicalAddress \<in> set (platformAddresses s) \<and>
                 \<not> owned_by_platform s canonicalAddress r then
               Inl (Errorf ''DHCP reservation %s address %s collides with an existing platform address''
                 [res_Hostname r, canonicalAddress])
             else if canonicalAddress \<in> set seenAddresses then
               Inl (Errorf ''duplicate DHCP reservation address %s'' [canonicalAddress])
             else case ParseMAC (res_MAC r) of
               None \<Rightarrow> Inl (Errorf ''DHCP reservation %s has invalid Ethernet MAC %q'' [res_Hostname r, res_MAC r])
             | Some parsedMAC \<Rightarrow>
               (let canonicalMAC = ToLower (MACString parsedMAC) in
                bindE (checks
                  [fails (length parsedMAC \<noteq> 6)
                     (Errorf ''DHCP reservation %s has invalid Ethernet MAC %q'' [res_Hostname r, res_MAC r]),
                   fails (ToLower (res_Hostname r) \<in> set seenHostnames)
                     (Errorf ''duplicate DHCP reservation hostname %q'' [res_Hostname r]),
                   fails (canonicalMAC \<in> set seenMACs)
                     (Errorf ''duplicate DHCP reservation MAC %q'' [res_MAC r]),
                   fails (res_VMID r \<noteq> 0 \<and> (res_VMID r < UserGuestIDMin \<or> res_VMID r > UserGuestIDMax) \<and>
                       \<not> list_ex (\<lambda>c. c_ProductOwned c \<and> c_Module c \<noteq> [] \<and> c_VMID c = res_VMID r \<and>
                           c_Hostname c = res_Hostname r \<and> c_Address c = canonicalAddress \<and>
                           EqualFold (c_MAC c) (res_MAC r)) (PlatformComponents s))
                     (Errorf ''DHCP reservation %s uses VMID %d outside the user-workload range''
                       [res_Hostname r, itoa (res_VMID r)])]) (\<lambda>_.
                Inr (ToLower (res_Hostname r) # seenHostnames, canonicalAddress # seenAddresses,
                     canonicalMAC # seenMACs))))))"

definition validateDHCPReservations :: "Site \<Rightarrow> gerror + unit" where
  "validateDHCPReservations s =
     (case zoneByName s ''SERVERS'' of
        None \<Rightarrow> Inl (Errorf ''SERVERS zone is required before validating DHCP reservations'' [])
      | Some servers \<Rightarrow>
          bindE (foldE (reservation_step s servers) (s_DHCPReservations s) ([], [], [])) (\<lambda>_. Inr ()))"

section \<open>User DNS records\<close>

definition privateDNSName :: "string \<Rightarrow> string \<Rightarrow> gerror + string" where
  "privateDNSName raw domain =
     (let name = ToLower (TrimSuffix (TrimSpace raw) ''.'') in
      if name = [] \<or> name = domain \<or> \<not> HasSuffix name (''.'' @ domain) then
        Inl (Errorf ''name must be inside %s'' [domain])
      else if \<not> list_all IsDNSLabel (SplitChar CHR ''.'' name) then
        Inl (Errorf ''name %q contains an unsafe label'' [raw])
      else Inr name)"

definition owned_names :: "url_parser \<Rightarrow> Site \<Rightarrow> string \<Rightarrow> string list" where
  "owned_names urlParse s domain =
     concat (map (\<lambda>c.
       [ToLower (c_Hostname c @ ''.'' @ domain)] @
       map (\<lambda>alias. ToLower (TrimSuffix alias ''.'' @ ''.'' @ domain)) (c_DNSAliases c) @
       (if c_URL c = [] then [] else
          case urlParse (c_URL c) of None \<Rightarrow> []
          | Some u \<Rightarrow> if HasSuffix (ToLower (u_Hostname u)) (''.'' @ domain)
                      then [ToLower (u_Hostname u)] else []))
       (PlatformComponents s)) @
     concat (map (\<lambda>d. map (\<lambda>r. ToLower (TrimSuffix (dr_Name r) ''.'')) (md_DNSRecords d)) (s_Declarations s))"

definition managed_zones :: "Site \<Rightarrow> string \<Rightarrow> string list" where
  "managed_zones s domain =
     map (\<lambda>z. ToLower (z_Name z) @ ''.'' @ domain)
       (filter (\<lambda>z. z_Type z \<in> {ZoneTypeServers, ZoneTypeTrusted, ZoneTypeSandbox})
         (nw_Zones (s_Network s)))"

text \<open>State of the record loop: the names seen and the alias targets collected.\<close>

definition dns_record_step ::
  "string \<Rightarrow> string list \<Rightarrow> string list \<Rightarrow> Zone list \<Rightarrow> UserDNSRecord
   \<Rightarrow> string list \<times> (string \<times> string) list \<Rightarrow> gerror + string list \<times> (string \<times> string) list" where
  "dns_record_step domain owned managedZones zones r st =
     (case st of (seen, cnameTargets) \<Rightarrow>
        case privateDNSName (udr_Name r) domain of
          Inl e \<Rightarrow> Inl (Wrapf ''user DNS record %q: %w'' [udr_Name r] e)
        | Inr name \<Rightarrow>
          if name \<in> set owned then
            Inl (Errorf ''user DNS record %s collides with a Core or module-owned name'' [name])
          else case find (\<lambda>zone. name = zone \<or> HasSuffix name (''.'' @ zone)) managedZones of
            Some zone \<Rightarrow>
              Inl (Errorf ''user DNS record %s is inside the DHCP/DDNS-owned namespace %s'' [name, zone])
          | None \<Rightarrow>
            if name \<in> set seen then Inl (Errorf ''duplicate user DNS record %q'' [name])
            else if udr_Type r = ''A'' then
              (case ParseIP (udr_Value r) of
                 None \<Rightarrow> Inl (Errorf ''user A record %s must contain an address from a fixed internal network'' [name])
               | Some ip \<Rightarrow>
                   if To4 ip = None \<or> \<not> ipInAnyZone ip zones then
                     Inl (Errorf ''user A record %s must contain an address from a fixed internal network'' [name])
                   else Inr (name # seen, cnameTargets))
            else if udr_Type r = ''CNAME'' then
              (case privateDNSName (udr_Value r) domain of
                 Inl e \<Rightarrow> Inl (Wrapf ''user CNAME record %s: %w'' [name] e)
               | Inr target \<Rightarrow>
                   if target = name then Inl (Errorf ''user CNAME record %s cannot target itself'' [name])
                   else Inr (name # seen, (name, target) # cnameTargets))
            else Inl (Errorf ''user DNS record %s has unsupported type %q'' [name, udr_Type r]))"

text \<open>Following one chain of aliases: the names on the path only grow, and a name that is
  followed is an alias, so the walk ends.\<close>

function cname_walk :: "(string \<times> string) list \<Rightarrow> string list \<Rightarrow> string \<Rightarrow> gerror + unit" where
  "cname_walk targets seenPath current =
     (if current \<in> set seenPath then
        Inl (Errorf ''user DNS CNAME records contain a cycle at %s'' [current])
      else case map_of targets current of
        None \<Rightarrow> Inr ()
      | Some next \<Rightarrow> cname_walk targets (current # seenPath) next)"
  by pat_completeness auto
termination
proof (relation "measure (\<lambda>(targets, seenPath, _). card (fst ` set targets - set seenPath))", goal_cases)
  case (2 targets seenPath current target)
  then have "current \<in> fst ` set targets - set seenPath"
    by (auto dest: map_of_SomeD intro: rev_image_eqI)
  then have "fst ` set targets - set (current # seenPath) \<subset> fst ` set targets - set seenPath"
    by auto
  then show ?case
    by (simp only: in_measure prod.case) (rule psubset_card_mono, simp_all)
qed simp

declare cname_walk.simps [simp del]

definition validateUserDNSRecords :: "url_parser \<Rightarrow> Site \<Rightarrow> gerror + unit" where
  "validateUserDNSRecords urlParse s =
     (let domain = ToLower (TrimSuffix (nw_Domain (s_Network s)) ''.'') in
      bindE (foldE (dns_record_step domain (owned_names urlParse s domain) (managed_zones s domain)
               (nw_Zones (s_Network s))) (s_DNSRecords s) ([], []))
        (\<lambda>(_, cnameTargets). allE (\<lambda>(name, _). cname_walk cnameTargets [] name) cnameTargets))"

section \<open>User firewall rules\<close>

definition validateFirewallSelector :: "string \<Rightarrow> gerror + string" where
  "validateFirewallSelector v0 =
     (let v = ToUpper (TrimSpace v0);
          bad = Errorf ''%q is not a supported zone or canonical IPv4/CIDR selector'' [v]
      in if v \<in> {''SERVERS'', ''TRUSTED'', ''SANDBOX''} then Inr v
         else case ParseCIDR v of
           None \<Rightarrow> Inl bad
         | Some (ip, network) \<Rightarrow>
             if To4 ip = None \<or> To4 (net_IP network) = None \<or>
                IPString ip \<noteq> hd (SplitChar CHR ''/'' v) then Inl bad
             else Inr (IPNetString network))"

definition port_step :: "string \<Rightarrow> string \<Rightarrow> string list \<Rightarrow> gerror + string list" where
  "port_step protocol raw result =
     (let parts = SplitChar CHR ''-'' (TrimSpace raw) in
      if length parts > 2 \<or> length parts = 0 then Inl (Errorf ''invalid port range %q'' [raw])
      else case Atoi (parts ! 0) of
        None \<Rightarrow> Inl (Errorf ''invalid port %q'' [raw])
      | Some start \<Rightarrow>
        if start < 1 \<or> start > 65535 then Inl (Errorf ''invalid port %q'' [raw])
        else case (if length parts = 2 then Atoi (parts ! 1) else Some start) of
          None \<Rightarrow> Inl (Errorf ''invalid port range %q'' [raw])
        | Some end \<Rightarrow>
          if length parts = 2 \<and> (end < start \<or> end > 65535) then Inl (Errorf ''invalid port range %q'' [raw])
          else if end - start + 1 > 1024 then Inl (Errorf ''port range %q exceeds 1024 ports'' [raw])
          else if protocol = ''icmp'' then Inl (Errorf ''ICMP does not accept ports'' [])
          else
            (let canonical = itoa start @ (if end \<noteq> start then ''-'' @ itoa end else []) in
             if canonical \<in> set result then Inl (Errorf ''duplicate port or range %q'' [raw])
             else Inr (result @ [canonical])))"

definition validateFirewallPorts :: "string list \<Rightarrow> string \<Rightarrow> gerror + string list" where
  "validateFirewallPorts ports protocol =
     (if length ports > 16 then Inl (Errorf ''firewall rule may contain at most 16 ports or ranges'' [])
      else bindE (foldE (port_step protocol) ports []) (\<lambda>result. Inr (sort result)))"

definition component_ip4 :: "Component \<Rightarrow> IP option" where
  "component_ip4 c = Option.bind (ParseIP (c_Address c)) To4"

definition network_has_component :: "Component list \<Rightarrow> IPNet \<Rightarrow> bool" where
  "network_has_component cs network =
     list_ex (\<lambda>c. case component_ip4 c of None \<Rightarrow> False | Some ip \<Rightarrow> Contains network ip) cs"

definition overlaps_zone :: "IPNet \<Rightarrow> Zone \<Rightarrow> bool" where
  "overlaps_zone network z =
     (case ParseCIDR (z_Network z) of None \<Rightarrow> False
      | Some (_, protected) \<Rightarrow>
          Contains network (net_IP protected) \<or> Contains protected (net_IP network))"

definition firewallSelectorProtected :: "Site \<Rightarrow> string \<Rightarrow> bool" where
  "firewallSelectorProtected s selector0 =
     (let selector = ToUpper (TrimSpace selector0); zones = nw_Zones (s_Network s) in
      case find (\<lambda>z. selector = z_Name z) zones of
        Some z \<Rightarrow>
          if z_Type z \<noteq> ZoneTypeServers \<and> z_Type z \<noteq> ZoneTypeTrusted \<and> z_Type z \<noteq> ZoneTypeSandbox
          then True
          else (case ParseCIDR (z_Network z) of
                  None \<Rightarrow> True
                | Some (_, network) \<Rightarrow>
                    network_has_component (filter c_ProductOwned (PlatformComponents s)) network)
      | None \<Rightarrow>
          (case ParseCIDR selector of
             None \<Rightarrow> False
           | Some (_, network) \<Rightarrow>
               network_has_component (PlatformComponents s) network \<or>
               list_ex (overlaps_zone network)
                 (filter (\<lambda>z. z_Type z \<in> {ZoneTypeInfrastructure, ZoneTypeManagement, ZoneTypeTransit}) zones)))"

text \<open>The loop returns on the first reservation that matches and has a monitoring component to
  compare with; a matching reservation without one lets the loop go on.\<close>

definition IsReservedServersObservabilityRule ::
  "Site \<Rightarrow> string \<Rightarrow> string \<Rightarrow> string \<Rightarrow> string list \<Rightarrow> bool" where
  "IsReservedServersObservabilityRule s source destination protocol ports =
     (if protocol \<noteq> ''tcp'' \<or> ports \<noteq> [''443''] then False
      else case ParseCIDR source of
        None \<Rightarrow> False
      | Some (sourceIP, sourceNetwork) \<Rightarrow>
        (case To4 sourceIP of
           None \<Rightarrow> False
         | Some source4 \<Rightarrow>
           if length (net_Mask sourceNetwork) \<noteq> 4 \<or> mask_ones (net_Mask sourceNetwork) \<noteq> 32 then False
           else case zoneByName s ''SERVERS'' of
             None \<Rightarrow> False
           | Some servers \<Rightarrow>
             (case ParseCIDR (z_Network servers) of
                None \<Rightarrow> False
              | Some (_, serversNetwork) \<Rightarrow>
                Contains serversNetwork sourceIP \<and>
                list_ex (\<lambda>r. res_Zone r = ''SERVERS'' \<and>
                    map_option IPString (Option.bind (ParseIP (res_Address r)) To4) =
                      Some (IPString source4)) (s_DHCPReservations s) \<and>
                (case find (\<lambda>c. c_Name c = ''lab-monitor-01'' \<and> c_Module c = ''monitoring'' \<and>
                                 c_Zone c = ''INFRA'') (PlatformComponents s) of
                   None \<Rightarrow> False
                 | Some c \<Rightarrow> destination = c_Address c @ ''/32''))))"

definition firewall_rule_step ::
  "Site \<Rightarrow> UserFirewallRule \<Rightarrow> string list \<times> string list \<Rightarrow> gerror + string list \<times> string list" where
  "firewall_rule_step s rule st =
     (case st of (ids, semantics) \<Rightarrow>
        if \<not> HasPrefix (ufr_ID rule) ''ufr-'' \<or> \<not> modelTokenPattern (ufr_ID rule) then
          Inl (Errorf ''firewall rule ID %q is not a stable ufr- identifier'' [ufr_ID rule])
        else if ufr_ID rule \<in> set ids then Inl (Errorf ''duplicate firewall rule ID %q'' [ufr_ID rule])
        else case validateFirewallSelector (ufr_Source rule) of
          Inl e \<Rightarrow> Inl (Wrapf ''firewall rule %s source: %w'' [ufr_ID rule] e)
        | Inr source \<Rightarrow>
          (case validateFirewallSelector (ufr_Destination rule) of
             Inl e \<Rightarrow> Inl (Wrapf ''firewall rule %s destination: %w'' [ufr_ID rule] e)
           | Inr destination \<Rightarrow>
             let protocol = ToLower (TrimSpace (ufr_Protocol rule)) in
             if protocol \<noteq> ''tcp'' \<and> protocol \<noteq> ''udp'' \<and> protocol \<noteq> ''icmp'' then
               Inl (Errorf ''firewall rule %s protocol %q is not tcp, udp, or icmp'' [ufr_ID rule, ufr_Protocol rule])
             else case validateFirewallPorts (ufr_Ports rule) protocol of
               Inl e \<Rightarrow> Inl (Wrapf ''firewall rule %s: %w'' [ufr_ID rule] e)
             | Inr ports \<Rightarrow>
               if (firewallSelectorProtected s source \<or> firewallSelectorProtected s destination) \<and>
                   \<not> IsReservedServersObservabilityRule s source destination protocol ports then
                 Inl (Errorf ''firewall rule %s crosses a protected Core boundary'' [ufr_ID rule])
               else
                 (let key = source @ ''|'' @ destination @ ''|'' @ protocol @ ''|'' @ joinWith '','' ports in
                  if key \<in> set semantics then
                    Inl (Errorf ''firewall rule %s duplicates an equivalent rule'' [ufr_ID rule])
                  else Inr (ufr_ID rule # ids, key # semantics))))"

definition validateUserFirewallRules :: "Site \<Rightarrow> gerror + unit" where
  "validateUserFirewallRules s =
     (if length (s_UserFirewallRules s) > 64 then
        Inl (Errorf ''firewall_rules must contain at most %d rules'' [''64''])
      else bindE (foldE (firewall_rule_step s) (s_UserFirewallRules s) ([], [])) (\<lambda>_. Inr ()))"

section \<open>Module declarations\<close>

definition validateNetworkIntent :: "url_parser \<Rightarrow> NetworkIntent \<Rightarrow> gerror + unit" where
  "validateNetworkIntent urlParse intent =
     checks
      [fails (\<not> modelTokenPattern (ni_Source intent) \<or> \<not> modelTokenPattern (ni_Destination intent))
         (Errorf ''source and destination must be safe references'' []),
       fails (ni_Protocol intent \<notin> {''tcp'', ''udp'', ''tcp/udp'', ''icmp'', ''any''})
         (Errorf ''unsupported protocol %q'' [ni_Protocol intent]),
       fails (ni_Direction intent \<notin> {''egress'', ''ingress'', ''bidirectional''})
         (Errorf ''unsupported direction %q'' [ni_Direction intent]),
       fails (ni_Purpose intent = [] \<or> ContainsAny (ni_Purpose intent) [CHR 0x0D, CHR 0x0A])
         (Errorf ''purpose is required and must not contain newlines'' []),
       fails (ni_Endpoint intent \<noteq> [] \<and> \<not> https_base_url urlParse (ni_Endpoint intent))
         (Errorf ''endpoint must be a valid HTTPS URL'' []),
       allE (\<lambda>port. fails (\<not> networkPortPattern port) (Errorf ''unsafe port %q'' [port])) (ni_Ports intent)]"

type_synonym decl_state = "(int \<times> string) list \<times> (string \<times> string) list \<times> (string \<times> string) list"

definition taken_by_other :: "('k \<times> string) list \<Rightarrow> 'k \<Rightarrow> string \<Rightarrow> bool" where
  "taken_by_other m k owner = (case map_of m k of None \<Rightarrow> False | Some previous \<Rightarrow> previous \<noteq> owner)"

definition declared_guest_step :: "ModuleDeclaration \<Rightarrow> Component \<Rightarrow> decl_state \<Rightarrow> gerror + decl_state" where
  "declared_guest_step d guest st =
     (case st of (seenVMIDs, seenNames, seenAddresses) \<Rightarrow>
        bindE (checks
          [fails (c_Module guest \<noteq> md_Module d)
             (Errorf ''guest %s has owner %q but is declared by module %q'' [c_Name guest, c_Module guest, md_Module d]),
           fails (map_of seenVMIDs (c_VMID guest) \<noteq> None \<and> c_VMID guest \<noteq> 0)
             (Errorf ''module guest VMID %d is declared by both %s and %s''
               [itoa (c_VMID guest), owner_of seenVMIDs (c_VMID guest), md_Module d]),
           fails (taken_by_other seenNames (c_Hostname guest) (md_Module d))
             (Errorf ''module hostname %q collides between %s and %s''
               [c_Hostname guest, owner_of seenNames (c_Hostname guest), md_Module d]),
           fails (c_Address guest \<noteq> [] \<and> taken_by_other seenAddresses (c_Address guest) (md_Module d))
             (Errorf ''module address %q collides between %s and %s''
               [c_Address guest, owner_of seenAddresses (c_Address guest), md_Module d])]) (\<lambda>_.
        Inr (if c_VMID guest \<noteq> 0 then (c_VMID guest, md_Module d) # seenVMIDs else seenVMIDs,
             (c_Hostname guest, md_Module d) # seenNames,
             if c_Address guest \<noteq> [] then (c_Address guest, md_Module d) # seenAddresses else seenAddresses)))"

definition device_step :: "string \<Rightarrow> DeviceRequirement \<Rightarrow> string list \<Rightarrow> gerror + string list" where
  "device_step module dev deviceNames =
     bindE (checks
       [fails (dev_Path dev = [] \<or> dev_Type dev = [] \<or> dev_Major dev < 0 \<or> dev_Minor dev < 0 \<or> dev_Access dev = [])
          (Errorf ''module %s has an incomplete device requirement'' [module]),
        fails (ContainsAny (dev_Path dev) [CHR 0x0D, CHR 0x0A, CHR 0x20, CHR 0x27] \<or>
               dev_Type dev \<noteq> ''c'' \<or> dev_Access dev \<noteq> ''rwm'')
          (Errorf ''module %s has an unsafe device requirement for %s'' [module, dev_Path dev]),
        fails (dev_Name dev \<noteq> [] \<and> (\<not> modelTokenPattern (dev_Name dev) \<or> dev_Name dev \<in> set deviceNames))
          (Errorf ''module %s has invalid or duplicate device slot name %q'' [module, dev_Name dev])]) (\<lambda>_.
     Inr (if dev_Name dev \<noteq> [] then dev_Name dev # deviceNames else deviceNames))"

definition secret_check :: "string \<Rightarrow> SecretDeclaration \<Rightarrow> gerror + unit" where
  "secret_check module secret = checks
     [fails (\<not> modelTokenPattern (sec_Name secret) \<or> sec_Purpose secret = [] \<or> sec_Consumer secret = [] \<or>
             sec_Delivery secret = [] \<or>
             ContainsAny (sec_Purpose secret @ sec_Consumer secret @ sec_Delivery secret) [CHR 0x0D, CHR 0x0A])
        (Errorf ''module %s has invalid secret declaration %q'' [module, sec_Name secret]),
      fails (sec_Lifecycle secret \<notin> {[], SecretLifecycleRuntime, SecretLifecycleBootstrap})
        (Errorf ''module %s secret %s has unsupported lifecycle %q'' [module, sec_Name secret, sec_Lifecycle secret])]"

definition volume_check :: "string \<Rightarrow> PersistentVolumeDeclaration \<Rightarrow> gerror + unit" where
  "volume_check module v = checks
     [fails (vol_Module v \<noteq> module \<or> vol_Guest v = [] \<or> vol_Name v = [] \<or> vol_SizeGiB v \<le> 0 \<or> vol_MountPath v = [])
        (Errorf ''module %s has invalid persistent volume %q'' [module, vol_Name v]),
      fails (vol_Placement v \<notin> {StorageDefault, StoragePreferDataDisk, StorageRequireDataDisk})
        (Errorf ''module %s volume %s has unsupported storage placement %q'' [module, vol_Name v, vol_Placement v])]"

definition declaration_step :: "url_parser \<Rightarrow> ModuleDeclaration \<Rightarrow> decl_state \<Rightarrow> gerror + decl_state" where
  "declaration_step urlParse d st =
     (let module = md_Module d; sec = md_Security d in
      bindE (checks
        [fails (module = []) (Errorf ''module declaration is missing its owner'' []),
         fails (length (art_DefinitionSHA256 (md_Artifact d)) \<noteq> 64)
           (Errorf ''module %s has incomplete artifact definition digest metadata'' [module])]) (\<lambda>_.
      bindE (foldE (declared_guest_step d) (md_Guests d) st) (\<lambda>st'.
      bindE (checks
        [allE (\<lambda>state. fails (ps_Replacement state = [])
            (Errorf ''module %s persistent state %q is missing a replacement policy'' [module, ps_Name state]))
            (md_Persistent d),
         allE (\<lambda>intent. case validateNetworkIntent urlParse intent of
              Inl e \<Rightarrow> Inl (Wrapf ''module %s network intent: %w'' [module] e) | Inr _ \<Rightarrow> Inr ())
            (md_NetworkIntents d),
         allE (\<lambda>route. fails (case ParseCIDR route of None \<Rightarrow> True
                               | Some (_, network) \<Rightarrow> IPNetString network \<noteq> route)
            (Errorf ''module %s has invalid advertised route %q'' [module, route])) (md_AdvertisedRoutes d),
         allE (secret_check module) (md_Secrets d),
         fails (\<not> gs_Unprivileged sec \<and> gs_Devices sec \<noteq> [])
           (Errorf ''module %s declares devices without an unprivileged security contract'' [module]),
         fails (gs_Capabilities sec \<noteq> [])
           (Errorf ''module %s requests unrelated Linux capabilities'' [module]),
         (if gs_Unprivileged sec then bindE (foldE (device_step module) (gs_Devices sec) []) (\<lambda>_. Inr ())
          else Inr ()),
         allE (volume_check module) (md_Volumes d)]) (\<lambda>_.
      Inr st'))))"

definition validateDeclarations :: "url_parser \<Rightarrow> Site \<Rightarrow> gerror + unit" where
  "validateDeclarations urlParse s =
     bindE (foldE (declaration_step urlParse) (s_Declarations s) ([], [], [])) (\<lambda>_. Inr ())"

section \<open>Site.Validate\<close>

definition identity_checks :: "Site \<Rightarrow> gerror + unit" where
  "identity_checks s =
     checks
      [fails (s_APIVersion s \<noteq> APIVersion \<or> s_SchemaVersion s \<noteq> SchemaVersion)
         (Errorf ''site schema %q/%d is not supported by boetticher %s; recreate the site with boetticher init''
           [s_APIVersion s, itoa (s_SchemaVersion s), PlatformVersion]),
       fails (s_PlatformVersion s = []) (Errorf ''platform_version is required'' []),
       fails (list_ex IsControl (s_SSHIdentityFile s)) (Errorf ''ssh_identity_file contains control characters'' []),
       fails (s_BootstrapAddress s \<noteq> [] \<and> TrimSpace (s_BootstrapAddress s) \<noteq> s_BootstrapAddress s)
         (Errorf ''bootstrap_address must not contain surrounding whitespace'' []),
       fails (s_BootstrapAddress s \<noteq> [] \<and> canonical_ip4 (s_BootstrapAddress s) = None)
         (Errorf ''bootstrap_address must be a canonical IPv4 address'' []),
       fails (s_StorageProfile s \<noteq> ''single-disk'' \<and> s_StorageProfile s \<noteq> ''dedicated-data-disk'')
         (Errorf ''unsupported storage_profile %q'' [s_StorageProfile s]),
       (if s_StorageProfile s = ''dedicated-data-disk'' then ValidateStableDevice (s_StorageDevice s)
        else fails (s_StorageDevice s \<noteq> []) (Errorf ''storage_device is only valid for dedicated-data-disk'' [])),
       fails (gw_Mode (s_Gateway s) \<noteq> GatewayModeManaged \<and> gw_Mode (s_Gateway s) \<noteq> GatewayModeExternal)
         (Errorf ''gateway.mode must be managed or external'' [])]"

definition nic_check :: "string \<times> PhysicalNIC \<Rightarrow> gerror + unit" where
  "nic_check ln =
     (case ln of (label, nic) \<Rightarrow> checks
       [fails (nic_Name nic \<noteq> [] \<and> \<not> safeInterfaceName (nic_Name nic))
          (Errorf ''physical_network.%s.name is not a safe interface name'' [label]),
        fails (nic_PermanentMAC nic \<noteq> [] \<and>
               (case ParseMAC (nic_PermanentMAC nic) of None \<Rightarrow> True | Some p \<Rightarrow> length p \<noteq> 6))
          (Errorf ''physical_network.%s.permanent_mac is not an Ethernet MAC'' [label]),
        fails (ContainsAny (nic_PCIAddress nic) [CHR 0x0D, CHR 0x0A])
          (Errorf ''physical_network.%s.pci_address contains a newline'' [label]),
        fails (nic_Name nic \<noteq> [] \<and> nic_PermanentMAC nic = [] \<and> nic_PCIAddress nic = [])
          (Errorf ''physical_network.%s requires a stable MAC or PCI identity'' [label])])"

definition physical_checks :: "Site \<Rightarrow> gerror + unit" where
  "physical_checks s =
     (let pn = s_PhysicalNetwork s in checks
      [fails (nw_Domain (s_Network s) \<noteq> DefaultDomain) (Errorf ''network.domain must be %s'' [DefaultDomain]),
       fails (s_TestedGateway s \<noteq> QualifiedGatewayImage)
         (Errorf ''tested_versions.gateway must equal the qualified image %q'' [QualifiedGatewayImage]),
       fails (pn_Mode pn \<noteq> ModeVirtualOnly \<and> pn_Mode pn \<noteq> ModePhysicalTrunk)
         (Errorf ''physical_network.mode must be virtual-only or physical-trunk'' []),
       fails (pn_Mode pn = ModeVirtualOnly \<and> nic_Name (pn_Trunk pn) \<noteq> [])
         (Errorf ''virtual-only physical network mode cannot retain a trunk binding'' []),
       fails (pn_Mode pn = ModePhysicalTrunk \<and> nic_Name (pn_Upstream pn) = [])
         (Errorf ''physical-trunk mode requires an upstream interface identity'' []),
       allE nic_check [(''upstream'', pn_Upstream pn), (''trunk'', pn_Trunk pn)],
       fails (pn_Mode pn = ModePhysicalTrunk \<and> nic_Name (pn_Trunk pn) = [])
         (Errorf ''physical-trunk mode requires a persisted trunk interface identity'' []),
       fails (s_Ownership s \<noteq> fixed_ownership)
         (Errorf ''ownership policy must reserve 100-199 for platform, 200-499 for official modules, and 500-899 for user workloads; user workloads are not managed'' []),
       fails (\<not> modelTokenPattern (sm_InstallationID (s_SecretMetadata s)) \<or>
              sm_AgeRecipient (s_SecretMetadata s) = [] \<or> sm_RootAgeRecipient (s_SecretMetadata s) = [] \<or>
              sm_RootAgeRecipient (s_SecretMetadata s) = sm_AgeRecipient (s_SecretMetadata s))
         (Errorf ''secret_metadata must contain a safe installation_id and distinct public age recipients'' [])])"

definition tailnet_client_step :: "string \<Rightarrow> string list \<Rightarrow> gerror + string list" where
  "tailnet_client_step v seen =
     (case ParseIP v of
        None \<Rightarrow> Inl (Errorf ''modules.tailnet-router.trusted_clients must contain unique canonical Tailnet IPv4 addresses'' [])
      | Some ip \<Rightarrow>
        if (case To4 ip of None \<Rightarrow> True | Some q \<Rightarrow>
              IPString ip \<noteq> v \<or> q ! 0 \<noteq> 100 \<or> q ! 1 < 64 \<or> q ! 1 > 127 \<or> v \<in> set seen) then
          Inl (Errorf ''modules.tailnet-router.trusted_clients must contain unique canonical Tailnet IPv4 addresses'' [])
        else Inr (v # seen))"

definition module_config_checks :: "url_parser \<Rightarrow> Site \<Rightarrow> gerror + unit" where
  "module_config_checks urlParse s = checks
     [(case map_of (s_ModuleConfig s) ''tailnet-router'' of
         None \<Rightarrow> Inr ()
       | Some t \<Rightarrow> bindE (foldE tailnet_client_step (mc_TailnetTrustedClients t) []) (\<lambda>_. Inr ())),
      (case map_of (s_ModuleConfig s) ''bifrost'' of
         None \<Rightarrow> Inr ()
       | Some b \<Rightarrow>
           if mc_Enabled b = Some True \<or> mc_Upstreams b \<noteq> [] \<or> mc_Models b \<noteq> []
           then ValidateBifrostConfig urlParse b else Inr ())]"

definition composed :: "Site \<Rightarrow> bool" where
  "composed s \<longleftrightarrow> s_Declarations s \<noteq> [] \<or> list_ex (\<lambda>c. c_Module c \<noteq> []) (s_Components s)"

definition gateway_deployed :: "Site \<Rightarrow> bool" where
  "gateway_deployed s \<longleftrightarrow> composed s \<and> gw_Mode (s_Gateway s) = GatewayModeManaged \<and>
     resolvedModuleEnabled (s_Modules s) ''firewall'' True"

definition requiredComponents :: "Site \<Rightarrow> (string \<times> string \<times> int) list" where
  "requiredComponents s =
     [(''lab-proxmox-01'', ProxmoxManagementAddress, 0)] @
     (if composed s then [(''lab-dns-01'', ''10.10.10.10'', DNS01VMID)] else []) @
     (if composed s \<and> resolvedModuleEnabled (s_Modules s) ''monitoring'' True
      then [(''lab-monitor-01'', ''10.10.10.20'', MonitorVMID)] else []) @
     (if gateway_deployed s then [(''lab-fw-01'', ''10.10.99.1'', ProxmoxVMID)] else [])"

definition required_check :: "Site \<Rightarrow> string list \<Rightarrow> string \<times> string \<times> int \<Rightarrow> gerror + unit" where
  "required_check s seenComponents req =
     (case req of (required, address, vmid) \<Rightarrow> checks
       [fails (required \<notin> set seenComponents)
          (Errorf ''required foundation component %q is missing'' [required]),
        allE (\<lambda>m. fails (c_Name m = required \<and>
                (c_Address m \<noteq> address \<or> c_VMID m \<noteq> vmid \<or> \<not> c_ProductOwned m))
              (Errorf ''foundation component %s must use address %s, VMID %d, and platform ownership''
                [required, address, itoa vmid])) (s_Components s)])"

definition module_name_step :: "SiteModule \<Rightarrow> string list \<Rightarrow> gerror + string list" where
  "module_name_step m seen =
     (if sm_Name m = [] \<or> \<not> modelTokenPattern (sm_Name m) then
        Inl (Errorf ''official module has unsafe name %q'' [sm_Name m])
      else if sm_Name m \<in> set seen then Inl (Errorf ''duplicate official module %q'' [sm_Name m])
      else Inr (sm_Name m # seen))"

definition ValidateSite :: "url_parser \<Rightarrow> Site \<Rightarrow> gerror + unit" where
  "ValidateSite urlParse s =
     bindE (checks [identity_checks s, validateGatewayConfiguration s, physical_checks s,
                    module_config_checks urlParse s, validateUSBExports s,
                    validateCompanion (s_Companion s)]) (\<lambda>_.
     bindE (foldE zone_step (nw_Zones (s_Network s)) ([], [])) (\<lambda>(seenZones, _).
     bindE (foldE (component_step seenZones) (s_Components s) ([], [])) (\<lambda>st.
     bindE (foldE retained_step (s_RetainedModules s) st) (\<lambda>(seenComponents, _).
     bindE (checks
       [fails (length seenZones \<noteq> length expectedZones)
          (Errorf ''the fixed platform contract requires exactly TRANSIT, INFRA, SERVERS, TRUSTED, SANDBOX, and MGMT zones'' []),
        validateDHCPReservations s, validateUserDNSRecords urlParse s, validateUserFirewallRules s,
        fails (composed s \<and> \<not> gateway_deployed s \<and> list_ex (\<lambda>c. c_Name c = ''lab-fw-01'') (s_Components s))
          (Errorf ''external gateway mode must not declare lab-fw-01'' []),
        allE (required_check s seenComponents) (requiredComponents s)]) (\<lambda>_.
     bindE (foldE module_name_step (s_Modules s) []) (\<lambda>_.
     validateDeclarations urlParse s))))))"

end
