(* ===== verification/Registry.thy ===== *)
theory Registry
  imports Site_Config
begin

text \<open>
  \<^verbatim>\<open>internal/modules/registry.go\<close>: the compiled-in module definitions, the checks on the
  registry itself, the resolution of which modules are enabled, and the deployment order.

  Go leaves the order of a \<open>range\<close> over a map open, and a key added during the iteration may
  or may not be visited.  The two loops over \<open>active\<close> that add keys while they run take that
  choice as an argument: \<open>sched n keys\<close> is the sequence of names visited by the \<open>n\<close>-th such
  loop when the map has those keys as it starts.  \<open>fair_sched\<close> says that no key present at the
  start is left out.  The recursion of \<open>visit\<close> carries fuel; \<open>Inl None\<close> is running out of it.
\<close>

section \<open>Definitions\<close>

type_synonym EnablementPolicy = string

abbreviation "Mandatory \<equiv> ''mandatory''"
abbreviation "DefaultOn \<equiv> ''default-on''"
abbreviation "DefaultOff \<equiv> ''default-off''"

type_synonym Capability = string

abbreviation "CapabilityGateway \<equiv> ''gateway''"
abbreviation "CapabilityDNS \<equiv> ''dns''"
abbreviation "CapabilityNTP \<equiv> ''ntp''"
abbreviation "CapabilityMonitoring \<equiv> ''monitoring''"
abbreviation "CapabilityTailnetAccess \<equiv> ''tailnet-access''"
abbreviation "CapabilityAIAPI \<equiv> ''ai-api''"

datatype ModuleConfigField = ModuleConfigField
  (f_Key: string) (f_Type: ModuleConfigFieldType) (f_Prompt: string) (f_Description: string)
  (f_Required: bool) (f_Default: string) (f_Sensitive: bool) (f_AllowedValues: "string list")
  (f_Resolver: string) (f_MinItems: int) (f_MaxItems: int) (f_ItemFields: "ModuleConfigField list")

record ModuleDefinition =
  d_Name :: string
  d_Description :: string
  d_Version :: string
  d_Policy :: EnablementPolicy
  d_DependsOn :: "string list"
  d_Requires :: "Capability list"
  d_Provides :: "Capability list"
  d_ReservedVMIDStart :: int
  d_ReservedVMIDEnd :: int
  d_PlacementZoneType :: ZoneType
  d_Guests :: "Component list"
  d_USBRequirements :: "USBRequirement list"
  d_Configuration :: "ModuleConfigField list"
  d_StaticDeviceSlots :: int
  d_NetworkCapable :: bool
  d_AllowedNetworkModes :: "ModuleNetworkMode list"
  d_DefaultNetworkMode :: ModuleNetworkMode

record Registry =
  reg_definitions :: "(string \<times> ModuleDefinition) list"
  reg_duplicateNames :: "string list"

record ResolvedModule =
  rs_Definition :: ModuleDefinition
  rs_Enabled :: bool
  rs_Reason :: string
  rs_State :: string

definition zero_ModuleDefinition :: ModuleDefinition where
  "zero_ModuleDefinition = \<lparr>d_Name = [], d_Description = [], d_Version = [], d_Policy = [],
     d_DependsOn = [], d_Requires = [], d_Provides = [], d_ReservedVMIDStart = 0,
     d_ReservedVMIDEnd = 0, d_PlacementZoneType = [], d_Guests = [], d_USBRequirements = [],
     d_Configuration = [], d_StaticDeviceSlots = 0, d_NetworkCapable = False,
     d_AllowedNetworkModes = [], d_DefaultNetworkMode = []\<rparr>"

fun new_registry_step :: "ModuleDefinition \<Rightarrow> Registry \<Rightarrow> Registry" where
  "new_registry_step d r =
     \<lparr>reg_definitions = assoc_set (d_Name d) d (reg_definitions r),
      reg_duplicateNames =
        (if map_of (reg_definitions r) (d_Name d) \<noteq> None then reg_duplicateNames r @ [d_Name d]
         else reg_duplicateNames r)\<rparr>"

definition NewRegistry :: "ModuleDefinition list \<Rightarrow> Registry" where
  "NewRegistry ds = fold new_registry_step ds \<lparr>reg_definitions = [], reg_duplicateNames = []\<rparr>"

definition first_party_guest ::
  "string \<Rightarrow> int \<Rightarrow> string \<Rightarrow> string \<Rightarrow> string \<Rightarrow> string list \<Rightarrow> string \<Rightarrow> bool \<Rightarrow> Component" where
  "first_party_guest n vmid zone address role aliases url mtls =
     zero_Component\<lparr>c_Name := n, c_VMID := vmid, c_Hostname := n, c_Zone := zone, c_Address := address,
       c_Role := role, c_DNSAliases := aliases, c_URL := url, c_Monitoring := True, c_Backup := True,
       c_MTLS := mtls, c_SSHManaged := True, c_JumpAllowed := True, c_ProductOwned := True\<rparr>"

definition text_field :: "string \<Rightarrow> string \<Rightarrow> string \<Rightarrow> bool \<Rightarrow> ModuleConfigField" where
  "text_field key prompt description sensitive =
     ModuleConfigField key ModuleConfigString prompt description True [] sensitive [] [] 0 0 []"

definition bifrost_fields :: "ModuleConfigField list" where
  "bifrost_fields =
     [ModuleConfigField ''upstreams'' ModuleConfigObjectList ''AI Router upstreams''
        ''HTTPS provider endpoints and their SOPS secret references'' True [] False [] [] 1 16
        [text_field ''name'' ''Upstream name'' [] False,
         text_field ''base_url'' ''HTTPS base URL'' [] False,
         text_field ''api_key_secret'' ''SOPS secret name''
           ''Name of the existing SOPS-managed provider credential; the credential value is collected separately'' True],
      ModuleConfigField ''models'' ModuleConfigObjectList ''AI Router model aliases''
        ''Provider-neutral aliases exposed to dependent modules'' True [] False [] [] 1 32
        [text_field ''alias'' ''Public alias'' [] False,
         ModuleConfigField ''upstream'' ModuleConfigEnum ''Upstream'' [] True [] False []
           ''bifrost-upstream-name'' 0 0 [],
         text_field ''model'' ''Provider model identifier'' [] False]]"

definition first_party_definitions :: "ModuleDefinition list" where
  "first_party_definitions =
     [zero_ModuleDefinition\<lparr>d_Name := ''dns'', d_Description := ''Mandatory DNS and NTP platform capability'',
        d_Version := ''1.0.0'', d_Policy := Mandatory, d_Requires := [CapabilityGateway],
        d_Provides := [CapabilityDNS, CapabilityNTP], d_PlacementZoneType := ZoneTypeInfrastructure,
        d_Guests := [first_party_guest ''lab-dns-01'' DNS01VMID ''INFRA'' ''10.10.10.10'' ''DNS/NTP''
          [''dns01'', ''dns''] [] False]\<rparr>,
      zero_ModuleDefinition\<lparr>d_Name := ''firewall'',
        d_Description := ''Managed Debian gateway, nftables, and Kea capability'',
        d_Version := ''1.0.0'', d_Policy := DefaultOn, d_Provides := [CapabilityGateway],
        d_PlacementZoneType := ZoneTypeManagement,
        d_Guests := [first_party_guest ''lab-fw-01'' ProxmoxVMID [] ''10.10.99.1'' ''Debian firewall'' [] [] False]\<rparr>,
      zero_ModuleDefinition\<lparr>d_Name := ''monitoring'',
        d_Description := ''Unified VictoriaMetrics/VictoriaLogs, Grafana, Gatus, and nested Holmes observability runtime'',
        d_Version := ''1.0.0'', d_Policy := DefaultOn, d_Requires := [CapabilityDNS],
        d_Provides := [CapabilityMonitoring], d_PlacementZoneType := ZoneTypeInfrastructure,
        d_Guests := [first_party_guest ''lab-monitor-01'' MonitorVMID [] ''10.10.10.20'' ''Unified observability''
          [''monitor''] ''https://monitor.lab.home.arpa'' True]\<rparr>,
      zero_ModuleDefinition\<lparr>d_Name := ''tailnet-router'',
        d_Description := ''Tailscale subnet router for the TRANSIT security edge'',
        d_Version := ''1.0.0'', d_Policy := DefaultOff, d_Requires := [CapabilityGateway, CapabilityDNS],
        d_Provides := [CapabilityTailnetAccess], d_ReservedVMIDStart := 200, d_ReservedVMIDEnd := 209,
        d_StaticDeviceSlots := 1, d_PlacementZoneType := ZoneTypeTransit,
        d_Guests := [first_party_guest ''lab-tailnet-01'' 200 [] ''10.10.5.10'' ''Tailnet subnet router''
          [''tailnet-router'', ''tailnet''] [] False]\<rparr>,
      zero_ModuleDefinition\<lparr>d_Name := ''bifrost'', d_Description := ''mTLS-protected Bifrost AI API router'',
        d_Version := ''1.0.0'', d_Policy := DefaultOff, d_NetworkCapable := True,
        d_Configuration := bifrost_fields, d_Requires := [CapabilityDNS], d_Provides := [CapabilityAIAPI],
        d_ReservedVMIDStart := 210, d_ReservedVMIDEnd := 219, d_PlacementZoneType := ZoneTypeServers,
        d_Guests := [first_party_guest ''lab-bifrost-01'' 210 [] ''10.10.20.60'' ''Bifrost AI API router''
          [''bifrost'', ''ai''] ''https://bifrost.lab.home.arpa'' True]\<rparr>]"

definition FirstPartyRegistry :: Registry where
  "FirstPartyRegistry =
     \<lparr>reg_definitions = map (\<lambda>d. (d_Name d, d)) first_party_definitions, reg_duplicateNames = []\<rparr>"

definition Definitions :: "Registry \<Rightarrow> ModuleDefinition list" where
  "Definitions r = sort_key d_Name (map snd (reg_definitions r))"

definition Definition :: "Registry \<Rightarrow> string \<Rightarrow> ModuleDefinition option" where
  "Definition r name = map_of (reg_definitions r) name"

text \<open>\<open>r.definitions[name]\<close> read as a value: the zero definition when there is none.\<close>

definition definition_or_zero :: "Registry \<Rightarrow> string \<Rightarrow> ModuleDefinition" where
  "definition_or_zero r name =
     (case map_of (reg_definitions r) name of None \<Rightarrow> zero_ModuleDefinition | Some d \<Rightarrow> d)"

definition allowed_modes :: "ModuleDefinition \<Rightarrow> ModuleNetworkMode list" where
  "allowed_modes d = (if d_AllowedNetworkModes d = [] then [ModuleNetworkDirect] else d_AllowedNetworkModes d)"

section \<open>Operator schema\<close>

fun resolve_field :: "string list \<Rightarrow> string list \<Rightarrow> ModuleConfigField \<Rightarrow> ModuleConfigField" where
  "resolve_field aliases upstreams (ModuleConfigField k t p de re df se av rv mn mx fs) =
     ModuleConfigField k t p de re df se
       (if rv = ''bifrost-model-alias'' then av @ aliases
        else if rv = ''bifrost-upstream-name'' then av @ upstreams else av)
       rv mn mx (map (resolve_field aliases upstreams) fs)"

definition ConfigurationFields ::
  "Registry \<Rightarrow> string \<Rightarrow> SiteConfig \<Rightarrow> gerror + ModuleConfigField list" where
  "ConfigurationFields r name config =
     (case Definition r name of
        None \<Rightarrow> Inl (Errorf ''unknown first-party module %q'' [name])
      | Some d \<Rightarrow>
        (let defaultMode = (if d_DefaultNetworkMode d = [] then ModuleNetworkDirect else d_DefaultNetworkMode d);
             network = ModuleConfigField ''network'' ModuleConfigEnum ''Network egress mode''
               ''Route declared external application egress through the selected network path''
               False defaultMode False (allowed_modes d) [] 0 0 [];
             fields = (if d_NetworkCapable d then [network] else []) @ d_Configuration d;
             bifrost = (case map_of (ModulesMap (sc_Modules config)) ''bifrost'' of
                          None \<Rightarrow> zero_ModuleConfig | Some c \<Rightarrow> c)
         in Inr (map (resolve_field (map bm_Alias (mc_Models bifrost)) (map bu_Name (mc_Upstreams bifrost))) fields)))"

section \<open>Checks on the registry\<close>

definition modelConfigurationToken :: "string \<Rightarrow> bool" where
  "modelConfigurationToken v \<longleftrightarrow> length v \<le> 64 \<and> list_all (\<lambda>c. is_alnum c \<or> c \<in> set ''_-'') v"

fun field_checks :: "string \<Rightarrow> string list \<Rightarrow> ModuleConfigField \<Rightarrow> gerror + unit"
  and validateConfigurationFields :: "string \<Rightarrow> string list \<Rightarrow> ModuleConfigField list \<Rightarrow> gerror + unit" where
  "field_checks module seen (ModuleConfigField k t p de re df se av rv mn mx fs) =
     (if k = [] \<or> \<not> modelConfigurationToken k \<or> k \<in> set seen then
        Inl (Errorf ''module %s has invalid or duplicate configuration field %q'' [module, k])
      else if p = [] then Inl (Errorf ''module %s configuration field %s has no prompt'' [module, k])
      else if t \<notin> {ModuleConfigBool, ModuleConfigString, ModuleConfigEnum, ModuleConfigModelAlias, ModuleConfigObjectList} then
        Inl (Errorf ''module %s configuration field %s has unsupported type %q'' [module, k, t])
      else if rv \<noteq> [] \<and> t \<noteq> ModuleConfigEnum \<and> t \<noteq> ModuleConfigModelAlias then
        Inl (Errorf ''module %s configuration field %s has a resolver for a non-choice type'' [module, k])
      else if rv \<noteq> [] \<and> rv \<noteq> ''bifrost-model-alias'' \<and> rv \<noteq> ''bifrost-upstream-name'' then
        Inl (Errorf ''module %s configuration field %s has unknown resolver %q'' [module, k, rv])
      else if t = ModuleConfigEnum \<and> av = [] \<and> rv = [] then
        Inl (Errorf ''module %s configuration field %s enum has no allowed values'' [module, k])
      else if t = ModuleConfigObjectList \<and> (mn < 0 \<or> mx < mn \<or> mx = 0 \<or> fs = []) then
        Inl (Errorf ''module %s configuration field %s has invalid object-list bounds'' [module, k])
      else case (if t = ModuleConfigObjectList then validateConfigurationFields (module @ ''.'' @ k) [] fs else Inr ()) of
        Inl e \<Rightarrow> Inl e
      | Inr _ \<Rightarrow>
          if df \<noteq> [] \<and> t = ModuleConfigEnum \<and> df \<notin> set av then
            Inl (Errorf ''module %s configuration field %s default is not allowed'' [module, k])
          else Inr ())"
| "validateConfigurationFields module seen [] = Inr ()"
| "validateConfigurationFields module seen (f # fs) =
     (case field_checks module seen f of
        Inl e \<Rightarrow> Inl e
      | Inr _ \<Rightarrow> validateConfigurationFields module (f_Key f # seen) fs)"

definition supportedPlacementZoneType :: "ZoneType \<Rightarrow> bool" where
  "supportedPlacementZoneType v \<longleftrightarrow> v \<in> {ZoneTypeInfrastructure, ZoneTypeTrusted, ZoneTypeServers,
     ZoneTypeSandbox, ZoneTypeManagement, ZoneTypeTransit}"

definition usb_requirement_check :: "ModuleDefinition \<Rightarrow> USBRequirement \<Rightarrow> gerror + unit" where
  "usb_requirement_check d u = checks
     [fails (ur_Name u = [] \<or> ur_Guest u \<notin> set (map c_Name (d_Guests d)) \<or> ur_Access u \<noteq> ''rw'' \<or>
             ur_AllowedIdentities u = [])
        (Errorf ''module %s has invalid USB requirement %q'' [d_Name d, ur_Name u]),
      fails (ur_DeviceType u \<noteq> ''raw-usb'' \<and> ur_DeviceType u \<noteq> ''serial'')
        (Errorf ''module %s USB device type %q is unsupported'' [d_Name d, ur_DeviceType u])]"

text \<open>The three ownership maps: reserved VMIDs, guest VMIDs, guest addresses.\<close>

type_synonym claims_state = "(int \<times> string) list \<times> (int \<times> string) list \<times> (string \<times> string) list"

definition claimed_by_other :: "('k \<times> string) list \<Rightarrow> 'k \<Rightarrow> string \<Rightarrow> bool" where
  "claimed_by_other m k name = (case map_of m k of None \<Rightarrow> False | Some previous \<Rightarrow> previous \<noteq> name)"

definition claimant :: "('k \<times> string) list \<Rightarrow> 'k \<Rightarrow> string" where
  "claimant m k = (case map_of m k of None \<Rightarrow> [] | Some previous \<Rightarrow> previous)"

definition reserve_step :: "string \<Rightarrow> int \<Rightarrow> (int \<times> string) list \<Rightarrow> gerror + (int \<times> string) list" where
  "reserve_step name vmid reserved =
     (if claimed_by_other reserved vmid name then
        Inl (Errorf ''reserved VMID %d collides between modules %s and %s'' [itoa vmid, claimant reserved vmid, name])
      else Inr ((vmid, name) # reserved))"

definition reserve_block :: "ModuleDefinition \<Rightarrow> (int \<times> string) list \<Rightarrow> gerror + (int \<times> string) list" where
  "reserve_block d reserved =
     (if d_ReservedVMIDStart d \<noteq> 0 \<or> d_ReservedVMIDEnd d \<noteq> 0 then
        if d_ReservedVMIDStart d < ModuleGuestIDMin \<or> d_ReservedVMIDEnd d > ModuleGuestIDMax \<or>
           d_ReservedVMIDStart d > d_ReservedVMIDEnd d then
          Inl (Errorf ''module %s has invalid reserved VMID block %d-%d''
            [d_Name d, itoa (d_ReservedVMIDStart d), itoa (d_ReservedVMIDEnd d)])
        else foldE (reserve_step (d_Name d)) [d_ReservedVMIDStart d..d_ReservedVMIDEnd d] reserved
      else Inr reserved)"

definition guest_step ::
  "ModuleDefinition \<Rightarrow> Component \<Rightarrow> (int \<times> string) list \<times> (string \<times> string) list
   \<Rightarrow> gerror + (int \<times> string) list \<times> (string \<times> string) list" where
  "guest_step d g st =
     (case st of (vmids, addrs) \<Rightarrow>
        bindE (checks
          [fails (c_VMID g \<noteq> 0 \<and> claimed_by_other vmids (c_VMID g) (d_Name d))
             (Errorf ''guest VMID %d collides between modules %s and %s''
               [itoa (c_VMID g), claimant vmids (c_VMID g), d_Name d]),
           fails (c_Address g \<noteq> [] \<and> claimed_by_other addrs (c_Address g) (d_Name d))
             (Errorf ''guest address %s collides between modules %s and %s''
               [c_Address g, claimant addrs (c_Address g), d_Name d]),
           fails (d_ReservedVMIDStart d \<noteq> 0 \<and>
                  (c_VMID g < d_ReservedVMIDStart d \<or> c_VMID g > d_ReservedVMIDEnd d))
             (Errorf ''module %s guest VMID %d is outside its reserved block'' [d_Name d, itoa (c_VMID g)])])
        (\<lambda>_. Inr (if c_VMID g \<noteq> 0 then (c_VMID g, d_Name d) # vmids else vmids,
                  if c_Address g \<noteq> [] then (c_Address g, d_Name d) # addrs else addrs)))"

definition definition_step :: "ModuleDefinition \<Rightarrow> claims_state \<Rightarrow> gerror + claims_state" where
  "definition_step d st =
     (case st of (reserved, vmids, addrs) \<Rightarrow>
        if d_Name d = [] \<or> d_Version d = [] then Inl (Errorf ''module definition has incomplete identity'' [])
        else bindE (reserve_block d reserved) (\<lambda>reserved'.
        bindE (checks
          [fails (d_PlacementZoneType d \<noteq> [] \<and> \<not> supportedPlacementZoneType (d_PlacementZoneType d))
             (Errorf ''module %s has unknown placement zone type %q'' [d_Name d, d_PlacementZoneType d]),
           fails (\<not> d_NetworkCapable d \<and> d_AllowedNetworkModes d \<noteq> [])
             (Errorf ''module %s declares network modes but is not network-capable'' [d_Name d]),
           fails (d_NetworkCapable d \<and> d_DefaultNetworkMode d \<noteq> [] \<and>
                  d_DefaultNetworkMode d \<notin> set (allowed_modes d))
             (Errorf ''module %s has a default network mode that is not allowed'' [d_Name d]),
           validateConfigurationFields (d_Name d) [] (d_Configuration d),
           allE (usb_requirement_check d) (d_USBRequirements d)]) (\<lambda>_.
        bindE (foldE (guest_step d) (d_Guests d) (vmids, addrs)) (\<lambda>(vmids', addrs').
        Inr (reserved', vmids', addrs')))))"

definition ValidateRegistry :: "Registry \<Rightarrow> gerror + unit" where
  "ValidateRegistry r =
     (if reg_duplicateNames r \<noteq> [] then
        Inl (Errorf ''duplicate module definition %q'' [hd (sort (reg_duplicateNames r))])
      else bindE (foldE definition_step (Definitions r) ([], [], [])) (\<lambda>(reserved, vmids, _).
        allE (\<lambda>(vmid, owner). fails (claimed_by_other vmids vmid owner)
          (Errorf ''reserved VMID %d for module %s collides with guest owned by %s''
            [itoa vmid, owner, claimant vmids vmid])) reserved))"

section \<open>Which modules are active\<close>

definition defaultEnabled :: "EnablementPolicy \<Rightarrow> bool" where
  "defaultEnabled policy \<longleftrightarrow> policy = Mandatory \<or> policy = DefaultOn"

type_synonym module_configs = "(string \<times> ModuleConfig) list"

definition validateModuleConfigNames :: "Registry \<Rightarrow> module_configs \<Rightarrow> gerror + unit" where
  "validateModuleConfigNames r configs =
     allE (\<lambda>(name, _). fails (map_of (reg_definitions r) name = None)
       (Errorf ''modules.%s: unknown first-party module'' [name])) configs"

definition network_mode_check :: "Registry \<Rightarrow> string \<times> ModuleConfig \<Rightarrow> gerror + unit" where
  "network_mode_check r nc =
     (case nc of (name, config) \<Rightarrow>
        if mc_Network config = [] then Inr ()
        else case Definition r name of
          None \<Rightarrow> Inr ()
        | Some d \<Rightarrow> checks
            [fails (\<not> d_NetworkCapable d) (Errorf ''modules.%s.network: module is not network-capable'' [name]),
             fails (mc_Network config \<notin> set (allowed_modes d))
               (Errorf ''modules.%s.network: unsupported mode %q'' [name, mc_Network config])])"

definition validateModuleNetworkModes :: "Registry \<Rightarrow> module_configs \<Rightarrow> gerror + unit" where
  "validateModuleNetworkModes r configs = allE (network_mode_check r) configs"

definition bifrost_config_check :: "url_parser \<Rightarrow> string \<times> ModuleConfig \<Rightarrow> gerror + unit" where
  "bifrost_config_check urlParse nc =
     (case nc of (name, config) \<Rightarrow>
        if name = ''bifrost'' \<and> (mc_Enabled config = Some True \<or> mc_Upstreams config \<noteq> [] \<or> mc_Models config \<noteq> [])
        then ValidateBifrostConfig urlParse config else Inr ())"

definition explicitly_disabled :: "module_configs \<Rightarrow> string \<Rightarrow> bool" where
  "explicitly_disabled configs name =
     (case map_of configs name of None \<Rightarrow> False | Some c \<Rightarrow> mc_Enabled c = Some False)"

text \<open>The state of the resolution: \<open>active\<close> and \<open>reasons\<close>.\<close>

type_synonym activation = "(string \<times> bool) list \<times> (string \<times> string) list"

definition is_active :: "(string \<times> bool) list \<Rightarrow> string \<Rightarrow> bool" where
  "is_active active name \<longleftrightarrow> map_of active name = Some True"

definition policy_step :: "module_configs \<Rightarrow> ModuleDefinition \<Rightarrow> activation \<Rightarrow> gerror + activation" where
  "policy_step configs d st =
     (case st of (active, reasons) \<Rightarrow>
        let requested = (case map_of configs (d_Name d) of None \<Rightarrow> None | Some c \<Rightarrow> mc_Enabled c) in
        if d_Policy d = Mandatory \<and> requested = Some False then
          Inl (Errorf ''modules.%s.enabled: %s is mandatory and cannot be disabled'' [d_Name d, d_Name d])
        else
          (let (enabled, reason) =
             (if d_Policy d = Mandatory then (True, ''mandatory'')
              else case requested of
                Some e \<Rightarrow> (e, ''explicit'')
              | None \<Rightarrow> (defaultEnabled (d_Policy d), ''default''))
           in Inr (if enabled
                   then (assoc_set (d_Name d) True active, assoc_set (d_Name d) reason reasons)
                   else (active, reasons))))"

definition external_gateway_step :: "Registry \<Rightarrow> SiteConfig \<Rightarrow> module_configs \<Rightarrow> activation \<Rightarrow> gerror + activation" where
  "external_gateway_step r config configs st =
     (case st of (active, reasons) \<Rightarrow>
        if gw_Mode (sc_Gateway config) = GatewayModeExternal then
          (if map_of (reg_definitions r) ''firewall'' \<noteq> None \<and> \<not> explicitly_disabled configs ''firewall'' then
             Inl (Errorf ''modules.firewall.enabled: external gateway mode requires the managed firewall module to be explicitly disabled'' [])
           else Inr (assoc_set ''firewall'' False active, reasons))
        else Inr (active, reasons))"

definition dependency_step ::
  "Registry \<Rightarrow> module_configs \<Rightarrow> string \<Rightarrow> string \<Rightarrow> activation \<Rightarrow> gerror + activation" where
  "dependency_step r configs name dependency st =
     (case st of (active, reasons) \<Rightarrow>
        if map_of (reg_definitions r) dependency = None then
          Inl (Errorf ''modules.%s: dependency %q is not registered'' [name, dependency])
        else if explicitly_disabled configs dependency then
          Inl (Errorf ''modules.%s: required dependency %q is explicitly disabled'' [name, dependency])
        else if \<not> is_active active dependency then
          Inr (assoc_set dependency True active, assoc_set dependency ''dependency'' reasons)
        else Inr (active, reasons))"

text \<open>One visit of the first loop over \<open>active\<close>.\<close>

definition first_visit :: "Registry \<Rightarrow> module_configs \<Rightarrow> string \<Rightarrow> activation \<Rightarrow> gerror + activation" where
  "first_visit r configs name st =
     (if \<not> is_active (fst st) name then Inr st
      else foldE (dependency_step r configs name) (d_DependsOn (definition_or_zero r name)) st)"

text \<open>The second loop: \<open>changed\<close> is the third component.\<close>

fun activate :: "string \<Rightarrow> activation \<times> bool \<Rightarrow> activation \<times> bool" where
  "activate dependency ((active, reasons), changed) =
     (if \<not> is_active active dependency
      then ((assoc_set dependency True active, assoc_set dependency ''dependency'' reasons), True)
      else ((active, reasons), changed))"

definition closure_visit :: "Registry \<Rightarrow> string \<Rightarrow> activation \<times> bool \<Rightarrow> activation \<times> bool" where
  "closure_visit r name st =
     (if \<not> is_active (fst (fst st)) name then st
      else fold activate (d_DependsOn (definition_or_zero r name)) st)"

type_synonym schedule = "nat \<Rightarrow> string list \<Rightarrow> string list"

definition fair_sched :: "schedule \<Rightarrow> bool" where
  "fair_sched sched \<longleftrightarrow> (\<forall>n keys. set keys \<subseteq> set (sched n keys))"

definition closure_pass :: "Registry \<Rightarrow> schedule \<Rightarrow> nat \<Rightarrow> activation \<Rightarrow> activation \<times> bool" where
  "closure_pass r sched n st = fold (closure_visit r) (sched n (map fst (fst st))) (st, False)"

definition dependency_names :: "Registry \<Rightarrow> string set" where
  "dependency_names r = (\<Union>d \<in> set (map snd (reg_definitions r)). set (d_DependsOn d))"

definition active_names :: "(string \<times> bool) list \<Rightarrow> string set" where
  "active_names active = {n. is_active active n}"

lemma is_active_set [simp]:
  "is_active (assoc_set k v a) n \<longleftrightarrow> (if n = k then v else is_active a n)"
  by (simp add: is_active_def)

lemma activate_grows:
  assumes "activate dep ((a, rs), ch) = ((a', rs'), ch')"
  shows "active_names a' = insert dep (active_names a)" and "ch' \<longleftrightarrow> ch \<or> dep \<notin> active_names a"
    and "dep \<in> active_names a \<Longrightarrow> a' = a \<and> rs' = rs"
  using assms by (auto simp: active_names_def split: if_split_asm)

lemma fold_activate_grows:
  "fold activate deps ((a, rs), ch) = ((a', rs'), ch') \<Longrightarrow>
   active_names a' = active_names a \<union> set deps \<and> (ch' \<longleftrightarrow> ch \<or> \<not> set deps \<subseteq> active_names a)"
proof (induction deps arbitrary: a rs ch)
  case (Cons d ds)
  obtain a1 rs1 ch1 where s: "activate d ((a, rs), ch) = ((a1, rs1), ch1)" by (metis surj_pair)
  have "fold activate ds ((a1, rs1), ch1) = ((a', rs'), ch')"
    using Cons.prems by (simp only: fold_simps s)
  then show ?case using Cons.IH [of a1 rs1 ch1] activate_grows [OF s] by auto
qed simp

lemma depends_in_names: "set (d_DependsOn (definition_or_zero r name)) \<subseteq> dependency_names r"
  by (auto simp: definition_or_zero_def dependency_names_def zero_ModuleDefinition_def
      split: option.splits dest!: map_of_SomeD intro!: bexI)

text \<open>A pass adds names, only names of dependencies, and says truthfully whether it added any.\<close>

lemma fold_visit_grows:
  "fold (closure_visit r) names ((a, rs), ch) = ((a', rs'), ch') \<Longrightarrow>
   active_names a \<subseteq> active_names a' \<and> active_names a' \<subseteq> active_names a \<union> dependency_names r \<and>
   (ch' \<longleftrightarrow> ch \<or> active_names a' \<noteq> active_names a)"
proof (induction names arbitrary: a rs ch)
  case (Cons n ns)
  obtain a1 rs1 ch1 where s: "closure_visit r n ((a, rs), ch) = ((a1, rs1), ch1)" by (metis surj_pair)
  have g: "active_names a \<subseteq> active_names a1 \<and> active_names a1 \<subseteq> active_names a \<union> dependency_names r \<and>
    (ch1 \<longleftrightarrow> ch \<or> active_names a1 \<noteq> active_names a)"
    using s fold_activate_grows [of "d_DependsOn (definition_or_zero r n)" a rs ch a1 rs1 ch1]
      depends_in_names [of r n]
    by (auto simp: closure_visit_def split: if_split_asm)
  have "fold (closure_visit r) ns ((a1, rs1), ch1) = ((a', rs'), ch')"
    using Cons.prems by (simp only: fold_simps s)
  then show ?case using Cons.IH [of a1 rs1 ch1] g by blast
qed simp

lemma finite_dependency_names [simp]: "finite (dependency_names r)"
  by (simp add: dependency_names_def)

function closure_loop :: "Registry \<Rightarrow> schedule \<Rightarrow> nat \<Rightarrow> activation \<Rightarrow> activation" where
  "closure_loop r sched n st =
     (case closure_pass r sched n st of
        (st', changed) \<Rightarrow> if changed then closure_loop r sched (Suc n) st' else st')"
  by pat_completeness auto
termination
proof (relation "measure (\<lambda>(r, sched, n, st). card (dependency_names r - active_names (fst st)))", goal_cases)
  case (2 r sched n st st' changed)
  obtain a rs where st: "st = (a, rs)" by (cases st)
  obtain a' rs' where st': "st' = (a', rs')" by (cases st')
  have "fold (closure_visit r) (sched n (map fst (fst st))) ((a, rs), False) = ((a', rs'), True)"
    using 2 st st' by (simp add: closure_pass_def)
  note g = fold_visit_grows [OF this]
  then have "dependency_names r - active_names a' \<subset> dependency_names r - active_names a" by auto
  then show ?case using st st' by (simp add: psubset_card_mono)
qed simp

declare closure_loop.simps [simp del]

section \<open>Capabilities and deployment order\<close>

definition provide_step ::
  "ModuleDefinition \<Rightarrow> Capability \<Rightarrow> (Capability \<times> string) list \<Rightarrow> gerror + (Capability \<times> string) list" where
  "provide_step d capability providers =
     (case map_of providers capability of
        Some existing \<Rightarrow>
          if existing \<noteq> d_Name d then
            Inl (Errorf ''capability %s has incompatible providers %q and %q'' [capability, existing, d_Name d])
          else Inr (assoc_set capability (d_Name d) providers)
      | None \<Rightarrow> Inr (assoc_set capability (d_Name d) providers))"

definition providers_step ::
  "(string \<times> bool) list \<Rightarrow> ModuleDefinition \<Rightarrow> (Capability \<times> string) list
   \<Rightarrow> gerror + (Capability \<times> string) list" where
  "providers_step active d providers =
     (if \<not> is_active active (d_Name d) then Inr providers
      else foldE (provide_step d) (d_Provides d) providers)"

definition requires_check ::
  "(string \<times> bool) list \<Rightarrow> (Capability \<times> string) list \<Rightarrow> ModuleDefinition \<Rightarrow> gerror + unit" where
  "requires_check active providers d =
     (if \<not> is_active active (d_Name d) then Inr ()
      else allE (\<lambda>capability. fails (map_of providers capability = None)
        (Errorf ''modules.%s: required capability %s is unavailable'' [d_Name d, capability])) (d_Requires d))"

fun provider_found ::
  "string \<Rightarrow> Capability \<Rightarrow> Capability \<Rightarrow> string list \<times> string list \<Rightarrow> string list \<times> string list" where
  "provider_found candidate capability provided (dependencies, seen) =
     (if provided = capability \<and> candidate \<notin> set seen
      then (dependencies @ [candidate], candidate # seen) else (dependencies, seen))"

definition candidate_step ::
  "(string \<times> bool) list \<Rightarrow> ModuleDefinition \<Rightarrow> Capability \<Rightarrow> ModuleDefinition
   \<Rightarrow> string list \<times> string list \<Rightarrow> string list \<times> string list" where
  "candidate_step active d capability candidate st =
     (if \<not> is_active active (d_Name candidate) \<or> d_Name candidate = d_Name d then st
      else fold (provider_found (d_Name candidate) capability) (d_Provides candidate) st)"

definition effectiveDependencies ::
  "Registry \<Rightarrow> ModuleDefinition \<Rightarrow> (string \<times> bool) list \<Rightarrow> string list" where
  "effectiveDependencies r d active =
     fst (fold (\<lambda>capability. fold (candidate_step active d capability) (Definitions r)) (d_Requires d)
            (d_DependsOn d, d_DependsOn d))"

type_synonym marks = "(string \<times> nat) list"

definition dependency_guard :: "Registry \<Rightarrow> (string \<times> bool) list \<Rightarrow> string \<Rightarrow> string \<Rightarrow> gerror option + unit" where
  "dependency_guard r active name dependency =
     (if \<not> is_active active dependency then
        Inl (Some (Errorf ''module %s depends on disabled module %s'' [name, dependency]))
      else if map_of (reg_definitions r) dependency = None then
        Inl (Some (Errorf ''module %s depends on unknown module %s'' [name, dependency]))
      else Inr ())"

fun visit ::
  "Registry \<Rightarrow> (string \<times> bool) list \<Rightarrow> nat \<Rightarrow> string \<Rightarrow> marks \<times> string list
   \<Rightarrow> gerror option + marks \<times> string list" where
  "visit r active 0 name st = Inl None"
| "visit r active (Suc fuel) name (state, result) =
     (if map_of state name = Some 1 then
        Inl (Some (Errorf ''module dependency cycle includes %q'' [name]))
      else if map_of state name = Some 2 then Inr (state, result)
      else
        (let dependencies = sort (effectiveDependencies r (definition_or_zero r name) active) in
         case foldE (\<lambda>dependency st. bindE (dependency_guard r active name dependency)
                (\<lambda>_. visit r active fuel dependency st)) dependencies (assoc_set name 1 state, result) of
           Inl e \<Rightarrow> Inl e
         | Inr (state', result') \<Rightarrow> Inr (assoc_set name 2 state', result' @ [name])))"

text \<open>Every call that descends marks one more active name, so one more than their number is
  enough fuel.\<close>

definition topologicalOrder :: "Registry \<Rightarrow> (string \<times> bool) list \<Rightarrow> gerror option + string list" where
  "topologicalOrder r active =
     (let names = sort (map fst (filter snd active)) in
      bindE (foldE (visit r active (Suc (length names))) names ([], [])) (\<lambda>(_, result). Inr result))"

section \<open>Resolution\<close>

definition enabled_entry :: "Registry \<Rightarrow> (string \<times> string) list \<Rightarrow> string \<Rightarrow> ResolvedModule" where
  "enabled_entry r reasons name =
     \<lparr>rs_Definition = definition_or_zero r name, rs_Enabled = True,
      rs_Reason = (case map_of reasons name of None \<Rightarrow> [] | Some x \<Rightarrow> x), rs_State = ''Enabled''\<rparr>"

definition disabled_entry :: "module_configs \<Rightarrow> ModuleDefinition \<Rightarrow> ResolvedModule" where
  "disabled_entry configs d =
     \<lparr>rs_Definition = d, rs_Enabled = False,
      rs_Reason = (case map_of configs (d_Name d) of None \<Rightarrow> ''default''
                   | Some c \<Rightarrow> if mc_Enabled c \<noteq> None then ''explicit'' else ''default''),
      rs_State = ''Disabled''\<rparr>"

definition lift_error :: "gerror + 'a \<Rightarrow> gerror option + 'a" where
  "lift_error x = (case x of Inl e \<Rightarrow> Inl (Some e) | Inr y \<Rightarrow> Inr y)"

text \<open>The activation phase: policies, the external gateway, direct dependencies, their closure.\<close>

definition activation_phase ::
  "Registry \<Rightarrow> schedule \<Rightarrow> SiteConfig \<Rightarrow> module_configs \<Rightarrow> gerror + activation" where
  "activation_phase r sched config configs =
     bindE (foldE (policy_step configs) (Definitions r) ([], [])) (\<lambda>st0.
     bindE (external_gateway_step r config configs st0) (\<lambda>st1.
     bindE (foldE (first_visit r configs) (sched 0 (map fst (fst st1))) st1) (\<lambda>st2.
     Inr (closure_loop r sched 1 st2))))"

definition initial_providers :: "SiteConfig \<Rightarrow> (Capability \<times> string) list" where
  "initial_providers config =
     (if gw_Mode (sc_Gateway config) = GatewayModeExternal then [(CapabilityGateway, ''external gateway'')] else [])"

definition resolve ::
  "url_parser \<Rightarrow> schedule \<Rightarrow> Registry \<Rightarrow> SiteConfig \<Rightarrow> module_configs
   \<Rightarrow> gerror option + ResolvedModule list" where
  "resolve urlParse sched r config configs =
     bindE (lift_error (checks
       [validateModuleConfigNames r configs, validateModuleNetworkModes r configs,
        allE (bifrost_config_check urlParse) configs])) (\<lambda>_.
     bindE (lift_error (activation_phase r sched config configs)) (\<lambda>(active, reasons).
     bindE (lift_error (foldE (providers_step active) (Definitions r) (initial_providers config))) (\<lambda>providers.
     bindE (lift_error (allE (requires_check active providers) (Definitions r))) (\<lambda>_.
     bindE (topologicalOrder r active) (\<lambda>ordered.
     Inr (map (enabled_entry r reasons) ordered @
          map (disabled_entry configs) (filter (\<lambda>d. \<not> is_active active (d_Name d)) (Definitions r))))))))"

definition reg_usb_requirements :: "Registry \<Rightarrow> ((string \<times> string) \<times> USBRequirement) list" where
  "reg_usb_requirements r =
     fold (\<lambda>(k, u) m. assoc_set k u m)
       (concat (map (\<lambda>d. map (\<lambda>u. ((d_Name d, ur_Name u), u)) (d_USBRequirements d)) (Definitions r))) []"

definition reg_usb_step ::
  "((string \<times> string) \<times> USBRequirement) list \<Rightarrow> USBExportBinding
   \<Rightarrow> (string \<times> string) list \<times> string list \<times> string list
   \<Rightarrow> gerror + (string \<times> string) list \<times> string list \<times> string list" where
  "reg_usb_step reqs b st =
     (case st of (bound, ports, serials) \<Rightarrow>
        let k = (ub_Module b, ub_Requirement b); args = [ub_Module b, ub_Requirement b];
            identity = ub_VendorID b @ '':'' @ ub_ProductID b @ '':'' @ ub_Serial b
        in case map_of reqs k of
             None \<Rightarrow> Inl (Errorf ''usb_exports binding %s/%s does not name a compiled-in module requirement'' args)
           | Some requirement \<Rightarrow>
             if \<not> list_ex (\<lambda>i. ui_VendorID i = ub_VendorID b \<and> ui_ProductID i = ub_ProductID b)
                   (ur_AllowedIdentities requirement) then
               Inl (Errorf ''usb_exports identity %s:%s is not allowed for %s/%s'' ([ub_VendorID b, ub_ProductID b] @ args))
             else if k \<in> set bound then Inl (Errorf ''duplicate USB binding %s/%s'' args)
             else if ub_Port b \<in> set ports then Inl (Errorf ''duplicate USB physical port %s'' [ub_Port b])
             else if ub_Serial b \<noteq> [] \<and> identity \<in> set serials then
               Inl (Errorf ''duplicate USB physical identity %s'' [identity])
             else Inr (k # bound, ub_Port b # ports, if ub_Serial b \<noteq> [] then identity # serials else serials))"

definition resolved_enabled :: "ResolvedModule list \<Rightarrow> string \<Rightarrow> bool" where
  "resolved_enabled resolved name =
     (case find (\<lambda>m. d_Name (rs_Definition m) = name) (rev resolved) of None \<Rightarrow> False | Some m \<Rightarrow> rs_Enabled m)"

definition validateUSBBindings :: "Registry \<Rightarrow> SiteConfig \<Rightarrow> ResolvedModule list \<Rightarrow> gerror + unit" where
  "validateUSBBindings r config resolved =
     bindE (foldE (reg_usb_step (reg_usb_requirements r)) (sc_USBExports config) ([], [], []))
       (\<lambda>(bound, _, _). allE (\<lambda>(k, u).
          fails (resolved_enabled resolved (fst k) \<and> ur_Required u \<and> k \<notin> set bound)
            (Errorf ''modules.%s requires usb_exports binding %s/%s'' [fst k, fst k, snd k]))
          (reg_usb_requirements r))"

definition Resolve ::
  "url_parser \<Rightarrow> schedule \<Rightarrow> Registry \<Rightarrow> SiteConfig \<Rightarrow> gerror option + ResolvedModule list" where
  "Resolve urlParse sched r config =
     bindE (lift_error (ValidateRegistry r)) (\<lambda>_.
     bindE (resolve urlParse sched r config (ModulesMap (sc_Modules config))) (\<lambda>resolved.
     bindE (lift_error (validateUSBBindings r config resolved)) (\<lambda>_.
     Inr resolved)))"

end
