(* ===== verification/Resolution.thy ===== *)
theory Resolution
  imports Registry
begin

text \<open>
  Correctness of the module registry: what a validated registry excludes, that the recursion of
  the deployment order always has enough fuel and yields dependencies first, and what a successful
  resolution promises about enabled modules, whatever order Go iterates its maps in.
\<close>

section \<open>Specifications\<close>

text \<open>The definitions map is keyed by the module's own name.\<close>

definition wf_registry :: "Registry \<Rightarrow> bool" where
  "wf_registry r \<longleftrightarrow> distinct (map fst (reg_definitions r)) \<and>
     (\<forall>(k, d) \<in> set (reg_definitions r). d_Name d = k)"

definition needs :: "Registry \<Rightarrow> (string \<times> bool) list \<Rightarrow> string \<Rightarrow> string set" where
  "needs r active n = set (effectiveDependencies r (definition_or_zero r n) active)"

definition deps_before :: "(string \<Rightarrow> string set) \<Rightarrow> string list \<Rightarrow> bool" where
  "deps_before E result \<longleftrightarrow> (\<forall>xs n ys. result = xs @ n # ys \<longrightarrow> E n \<subseteq> set xs)"

text \<open>The marks and the result agree, and what has been emitted so far is in order.\<close>

definition dfs_inv :: "Registry \<Rightarrow> (string \<times> bool) list \<Rightarrow> marks \<times> string list \<Rightarrow> bool" where
  "dfs_inv r active st \<longleftrightarrow>
     distinct (snd st) \<and> set (snd st) = {n. map_of (fst st) n = Some 2} \<and>
     deps_before (needs r active) (snd st) \<and> set (snd st) \<subseteq> active_names active \<and>
     (\<forall>n \<in> set (snd st). \<forall>d \<in> needs r active n. map_of (reg_definitions r) d \<noteq> None) \<and>
     (\<forall>n m. map_of (fst st) n = Some m \<longrightarrow> m = 1 \<or> m = 2)"

definition grey :: "marks \<Rightarrow> string set" where
  "grey state = {n. map_of state n = Some 1}"

text \<open>What one visit does to the state: the stack is as before, the result only grows.\<close>

definition dfs_post :: "marks \<times> string list \<Rightarrow> marks \<times> string list \<Rightarrow> bool" where
  "dfs_post st st' \<longleftrightarrow> grey (fst st') = grey (fst st) \<and> dom (map_of (fst st)) \<subseteq> dom (map_of (fst st')) \<and>
     (\<exists>zs. snd st' = snd st @ zs)"

definition policy_enabled :: "module_configs \<Rightarrow> ModuleDefinition \<Rightarrow> bool" where
  "policy_enabled configs d \<longleftrightarrow> d_Policy d = Mandatory \<or>
     (case map_of configs (d_Name d) of
        Some c \<Rightarrow> (case mc_Enabled c of Some e \<Rightarrow> e | None \<Rightarrow> defaultEnabled (d_Policy d))
      | None \<Rightarrow> defaultEnabled (d_Policy d))"

text \<open>From one state of \<open>active\<close> to a later one only dependencies of active modules are added.\<close>

definition grows_by :: "Registry \<Rightarrow> (string \<times> bool) list \<Rightarrow> (string \<times> bool) list \<Rightarrow> bool" where
  "grows_by r a a' \<longleftrightarrow> (distinct (map fst a) \<longrightarrow> distinct (map fst a')) \<and> active_names a \<subseteq> active_names a' \<and>
     (\<forall>n \<in> active_names a' - active_names a.
        \<exists>m \<in> active_names a'. n \<in> set (d_DependsOn (definition_or_zero r m)))"

definition providers_seen ::
  "(Capability \<times> string) list \<Rightarrow> (Capability \<times> string) list \<Rightarrow> (Capability \<times> string) list \<Rightarrow> bool" where
  "providers_seen init L ps \<longleftrightarrow> (\<forall>(c, n) \<in> set L. map_of ps c = Some n) \<and>
     (\<forall>c n. map_of ps c = Some n \<longrightarrow> (c, n) \<in> set L \<or> map_of init c = Some n)"

definition offers :: "(string \<times> bool) list \<Rightarrow> ModuleDefinition \<Rightarrow> (Capability \<times> string) list" where
  "offers active d = (if is_active active (d_Name d) then map (\<lambda>c. (c, d_Name d)) (d_Provides d) else [])"

definition resolved_name :: "ResolvedModule \<Rightarrow> string" where
  "resolved_name m = d_Name (rs_Definition m)"

definition enabled_in :: "ResolvedModule list \<Rightarrow> string set" where
  "enabled_in ms = resolved_name ` {m \<in> set ms. rs_Enabled m}"

definition capability_met :: "SiteConfig \<Rightarrow> ResolvedModule \<Rightarrow> ResolvedModule list \<Rightarrow> Capability \<Rightarrow> bool" where
  "capability_met config m earlier c \<longleftrightarrow>
     c = CapabilityGateway \<and> gw_Mode (sc_Gateway config) = GatewayModeExternal \<or>
     c \<in> set (d_Provides (rs_Definition m)) \<or>
     (\<exists>m' \<in> set earlier. rs_Enabled m' \<and> c \<in> set (d_Provides (rs_Definition m')))"

section \<open>The recursion\<close>

lemma deps_before_snoc:
  "deps_before E xs \<Longrightarrow> E n \<subseteq> set xs \<Longrightarrow> deps_before E (xs @ [n])"
  unfolding deps_before_def
  by (auto simp: append_eq_append_conv2 Cons_eq_append_conv append_eq_Cons_conv)

lemma dfs_post_refl [simp]: "dfs_post st st"
  by (simp add: dfs_post_def)

lemma dfs_post_trans: "dfs_post a b \<Longrightarrow> dfs_post b c \<Longrightarrow> dfs_post a c"
  unfolding dfs_post_def by (elim conjE exE, intro conjI) (simp, rule subset_trans, simp_all)

lemma guard_Inr [simp]:
  "dependency_guard r active n d = Inr u \<longleftrightarrow> is_active active d \<and> map_of (reg_definitions r) d \<noteq> None"
  by (auto simp: dependency_guard_def)

text \<open>One visit keeps the invariant, ends with its module emitted, and restores the stack.\<close>

lemma visit_correct:
  assumes "visit r active fuel name st = Inr st'" and "dfs_inv r active st" and "is_active active name"
  shows "dfs_inv r active st' \<and> dfs_post st st' \<and> name \<in> set (snd st')"
  using assms
proof (induction fuel arbitrary: name st st')
  case (Suc fuel)
  obtain state result where st: "st = (state, result)" by (cases st)
  let ?deps = "sort (effectiveDependencies r (definition_or_zero r name) active)"
  let ?body = "\<lambda>dependency st. bindE (dependency_guard r active name dependency)
      (\<lambda>_. visit r active fuel dependency st)"
  have not1: "map_of state name \<noteq> Some 1" using Suc.prems(1) st by auto
  show ?case
  proof (cases "map_of state name = Some 2")
    case True
    then have "st' = st" using Suc.prems(1) not1 st by simp
    moreover have "name \<in> set (snd st)" using True Suc.prems(2) st by (simp add: dfs_inv_def)
    ultimately show ?thesis using Suc.prems(2) by simp
  next
    case False
    then have fresh: "map_of state name = None"
      using not1 Suc.prems(2) st by (cases "map_of state name") (auto simp: dfs_inv_def)
    let ?st1 = "(assoc_set name (1::nat) state, result)"
    obtain state2 result2 where loop: "foldE ?body ?deps ?st1 = Inr (state2, result2)"
      and st': "st' = (assoc_set name 2 state2, result2 @ [name])"
      using Suc.prems(1) st fresh by (auto simp: Let_def split: sum.split_asm)
    have inv1: "dfs_inv r active ?st1"
      using Suc.prems(2) st fresh by (auto simp: dfs_inv_def)
    have fold: "dfs_inv r active t \<and> dfs_post s t \<and> set ds \<subseteq> set (snd t) \<and>
        (\<forall>d \<in> set ds. map_of (reg_definitions r) d \<noteq> None)"
      if "foldE ?body ds s = Inr t" "dfs_inv r active s" for ds s t
      using that
    proof (induction ds arbitrary: s)
      case (Cons d ds)
      then obtain u where guard: "is_active active d" "map_of (reg_definitions r) d \<noteq> None"
        and v: "visit r active fuel d s = Inr u" and rest: "foldE ?body ds u = Inr t"
        by (auto simp: foldE_Cons_Inr simp del: foldE.simps(2))
      have one: "dfs_inv r active u \<and> dfs_post s u \<and> d \<in> set (snd u)"
        by (rule Suc.IH [OF v Cons.prems(2) guard(1)])
      have two: "dfs_inv r active t \<and> dfs_post u t \<and> set ds \<subseteq> set (snd t) \<and>
          (\<forall>d \<in> set ds. map_of (reg_definitions r) d \<noteq> None)"
        using Cons.IH [OF rest] one by blast
      then have "d \<in> set (snd t)" using one by (auto simp: dfs_post_def)
      moreover have "dfs_post s t" using one two by (blast intro: dfs_post_trans)
      ultimately show ?case using two guard(2) by simp
    qed simp
    note sub = fold [OF loop inv1]
    have name1: "map_of state2 name = Some 1"
      using sub by (auto simp: dfs_post_def grey_def)
    have deps: "needs r active name \<subseteq> set result2"
      "\<forall>d \<in> needs r active name. map_of (reg_definitions r) d \<noteq> None"
      using sub by (auto simp: needs_def)
    have "dfs_inv r active st'"
      using sub st' name1 deps Suc.prems(3) deps_before_snoc
      by (auto simp: dfs_inv_def active_names_def)
    moreover have "grey state2 = insert name (grey state)"
      using sub fresh by (auto simp: dfs_post_def grey_def)
    then have "grey (assoc_set name 2 state2) = grey state"
      using fresh by (auto simp: grey_def)
    then have "dfs_post st st'"
      using sub st' st by (auto simp: dfs_post_def)
    ultimately show ?thesis using st' by simp
  qed
qed simp

text \<open>The number of active names still unmarked bounds the depth of the recursion.\<close>

lemma visit_fuel:
  assumes "card (active_names active - dom (map_of (fst st))) < fuel" and "is_active active name"
    and "dfs_inv r active st" and fin: "finite (active_names active)"
  shows "visit r active fuel name st \<noteq> Inl None"
  using assms(1-3)
proof (induction fuel arbitrary: name st)
  case (Suc fuel)
  obtain state result where st: "st = (state, result)" by (cases st)
  let ?body = "\<lambda>dependency st. bindE (dependency_guard r active name dependency)
      (\<lambda>_. visit r active fuel dependency st)"
  have fold: "foldE ?body ds s \<noteq> Inl None"
    if "card (active_names active - dom (map_of (fst s))) < fuel" "dfs_inv r active s" for ds s
    using that
  proof (induction ds arbitrary: s)
    case (Cons d ds)
    show ?case
    proof (cases "?body d s")
      case (Inl e)
      have "e \<noteq> None"
        using Inl Suc.IH [OF Cons.prems(1) _ Cons.prems(2), of d]
        by (cases "is_active active d") (auto simp: dependency_guard_def bindE_def split: if_split_asm sum.split_asm)
      then show ?thesis using Inl by simp
    next
      case (Inr t)
      then have "visit r active fuel d s = Inr t" and "is_active active d"
        by (auto simp: bindE_def split: sum.split_asm)
      then have t: "dfs_inv r active t" "dfs_post s t" using visit_correct Cons.prems(2) by blast+
      then have "card (active_names active - dom (map_of (fst t))) \<le> card (active_names active - dom (map_of (fst s)))"
        using fin by (intro card_mono) (auto simp: dfs_post_def)
      then have "foldE ?body ds t \<noteq> Inl None" using Cons.IH [OF _ t(1)] Cons.prems(1) by simp
      moreover have "foldE ?body (d # ds) s = foldE ?body ds t" by (subst foldE.simps(2)) (simp only: Inr sum.case)
      ultimately show ?thesis by metis
    qed
  qed simp
  show ?case
  proof (cases "map_of state name")
    case None
    let ?st1 = "(assoc_set name (1::nat) state, result)"
    have "name \<in> active_names active - dom (map_of state)"
      using Suc.prems(2) None by (auto simp: active_names_def)
    then have "active_names active - dom (map_of (fst ?st1)) \<subset> active_names active - dom (map_of state)"
      by auto
    then have "card (active_names active - dom (map_of (fst ?st1))) < card (active_names active - dom (map_of state))"
      using fin by (intro psubset_card_mono) auto
    then have less: "card (active_names active - dom (map_of (fst ?st1))) < fuel"
      using Suc.prems(1) st by simp
    have "dfs_inv r active ?st1" using Suc.prems(3) None st by (auto simp: dfs_inv_def)
    then have "foldE ?body (sort (effectiveDependencies r (definition_or_zero r name) active)) ?st1 \<noteq> Inl None"
      by (rule fold [OF less])
    then show ?thesis using None st by (auto simp: Let_def split: sum.split)
  next
    case (Some m)
    then have "m = 1 \<or> m = 2" using Suc.prems(3) st by (auto simp: dfs_inv_def)
    then show ?thesis using Some st by auto
  qed
qed simp

section \<open>Deployment order\<close>

lemma finite_active [simp]: "finite (active_names active)"
  by (rule finite_subset [of _ "fst ` set active"])
    (auto simp: active_names_def is_active_def dest!: map_of_SomeD intro: rev_image_eqI)

lemma active_names_list:
  assumes "distinct (map fst active)"
  shows "set (map fst (filter snd active)) = active_names active"
  using assms by (force simp: active_names_def is_active_def map_of_eq_Some_iff)

lemma empty_inv [simp]: "dfs_inv r active ([], [])"
  by (simp add: dfs_inv_def deps_before_def)

lemma visit_all:
  assumes "foldE (visit r active fuel) ns st = Inr st'" and "dfs_inv r active st"
    and "set ns \<subseteq> active_names active"
  shows "dfs_inv r active st' \<and> dfs_post st st' \<and> set ns \<subseteq> set (snd st')"
  using assms
proof (induction ns arbitrary: st)
  case (Cons n ns)
  then obtain u where v: "visit r active fuel n st = Inr u" and rest: "foldE (visit r active fuel) ns u = Inr st'"
    by (auto simp: foldE_Cons_Inr simp del: foldE.simps(2))
  have act: "is_active active n" using Cons.prems(3) by (simp add: active_names_def)
  note one = visit_correct [OF v Cons.prems(2) act]
  have two: "dfs_inv r active st' \<and> dfs_post u st' \<and> set ns \<subseteq> set (snd st')"
    using Cons.IH [OF rest] one Cons.prems(3) by simp
  then have "n \<in> set (snd st')" using one by (auto simp: dfs_post_def)
  moreover have "dfs_post st st'" using one two by (blast intro: dfs_post_trans)
  ultimately show ?case using two by simp
qed simp

lemma topologicalOrder_fuel:
  assumes "distinct (map fst active)"
  shows "topologicalOrder r active \<noteq> Inl None"
proof -
  let ?names = "sort (map fst (filter snd active))"
  have names: "set ?names = active_names active" using active_names_list [OF assms] by simp
  have "distinct ?names" using assms by (simp add: distinct_map_filter)
  then have card: "card (active_names active) = length ?names" using names distinct_card by metis
  have "foldE (visit r active (Suc (length ?names))) ns st \<noteq> Inl None"
    if "set ns \<subseteq> active_names active" "dfs_inv r active st" for ns st
    using that
  proof (induction ns arbitrary: st)
    case (Cons n ns)
    have "card (active_names active - dom (map_of (fst st))) \<le> card (active_names active)"
      by (intro card_mono) auto
    moreover have "is_active active n" using Cons.prems(1) by (simp add: active_names_def)
    ultimately have "visit r active (Suc (length ?names)) n st \<noteq> Inl None"
      using Cons.prems(2) card by (intro visit_fuel) simp_all
    moreover have "dfs_inv r active u" if "visit r active (Suc (length ?names)) n st = Inr u" for u
      using visit_correct [OF that Cons.prems(2)] Cons.prems(1) by (simp add: active_names_def)
    ultimately show ?case using Cons.IH Cons.prems(1)
      by (cases "visit r active (Suc (length ?names)) n st") auto
  qed simp
  from this [of ?names "([], [])"] names show ?thesis
    unfolding topologicalOrder_def Let_def by (auto simp: bindE_def split: sum.split)
qed

lemma topologicalOrder_correct:
  assumes "topologicalOrder r active = Inr result" and "distinct (map fst active)"
  shows "distinct result" and "set result = active_names active"
    and "deps_before (needs r active) result"
    and "\<forall>n \<in> active_names active. \<forall>d \<in> needs r active n. map_of (reg_definitions r) d \<noteq> None"
proof -
  let ?names = "sort (map fst (filter snd active))"
  have names: "set ?names = active_names active" using active_names_list [OF assms(2)] by simp
  obtain state where loop: "foldE (visit r active (Suc (length ?names))) ?names ([], []) = Inr (state, result)"
    using assms(1) by (auto simp: topologicalOrder_def Let_def)
  note v = visit_all [OF loop empty_inv] names
  then show "distinct result" "set result = active_names active"
    "deps_before (needs r active) result"
    "\<forall>n \<in> active_names active. \<forall>d \<in> needs r active n. map_of (reg_definitions r) d \<noteq> None"
    by (auto simp: dfs_inv_def)
qed

text \<open>C17: The deployment order never runs out of the recursion the model allows it: for any active set the search returns an order or one of the errors of the source.\<close>

theorem deployment_order_terminates:
  assumes "distinct (map fst active)"
  shows "(\<exists>order. topologicalOrder r active = Inr order) \<or> (\<exists>e. topologicalOrder r active = Inl (Some e))"
  using topologicalOrder_fuel [OF assms, of r]
  by (cases "topologicalOrder r active") auto

text \<open>When the deployment order is found it lists every active module exactly once, and each module after all of its dependencies, those it names and those that provide what it requires.\<close>

theorem deployment_order_correct:
  assumes "topologicalOrder r active = Inr order" and "distinct (map fst active)"
  shows "distinct order \<and> set order = active_names active \<and>
    (\<forall>xs n ys. order = xs @ n # ys \<longrightarrow> needs r active n \<subseteq> set xs)"
  using topologicalOrder_correct [OF assms] by (simp add: deps_before_def)

section \<open>What the activation phase activates\<close>

lemma grows_by_refl [simp]: "grows_by r a a"
  by (simp add: grows_by_def)

lemma grows_by_trans:
  assumes "grows_by r a b" and "grows_by r b c"
  shows "grows_by r a c"
  unfolding grows_by_def
proof (intro conjI ballI)
  fix n assume n: "n \<in> active_names c - active_names a"
  show "\<exists>m \<in> active_names c. n \<in> set (d_DependsOn (definition_or_zero r m))"
  proof (cases "n \<in> active_names b")
    case True
    then obtain m where "m \<in> active_names b" "n \<in> set (d_DependsOn (definition_or_zero r m))"
      using assms(1) n unfolding grows_by_def by blast
    then show ?thesis using assms(2) unfolding grows_by_def by blast
  qed (use assms(2) n in \<open>auto simp: grows_by_def\<close>)
qed (use assms in \<open>auto simp: grows_by_def\<close>)

lemma grows_by_add:
  assumes "is_active a m" and "n \<in> set (d_DependsOn (definition_or_zero r m))"
  shows "grows_by r a (assoc_set n True a)"
proof -
  have "active_names (assoc_set n True a) = insert n (active_names a)" by (auto simp: active_names_def)
  then show ?thesis
    using assms by (auto simp: grows_by_def distinct_assoc_set active_names_def)
qed

lemma dependency_step_grows:
  assumes "dependency_step r cs m d st = Inr st'" and "is_active (fst st) m"
    and "d \<in> set (d_DependsOn (definition_or_zero r m))"
  shows "grows_by r (fst st) (fst st')"
  using assms by (cases st) (auto simp: dependency_step_def grows_by_add split: if_split_asm)

lemma first_visit_grows:
  assumes "first_visit r cs m st = Inr st'"
  shows "grows_by r (fst st) (fst st')"
proof (cases "is_active (fst st) m")
  case True
  have "grows_by r (fst st) (fst st')"
    if "foldE (dependency_step r cs m) ds st = Inr st'" "is_active (fst st) m"
      "set ds \<subseteq> set (d_DependsOn (definition_or_zero r m))" for ds st
    using that
  proof (induction ds arbitrary: st)
    case (Cons d ds)
    then obtain u where u: "dependency_step r cs m d st = Inr u" and rest: "foldE (dependency_step r cs m) ds u = Inr st'"
      by (auto simp: foldE_Cons_Inr simp del: foldE.simps(2))
    have g: "grows_by r (fst st) (fst u)" using dependency_step_grows [OF u Cons.prems(2)] Cons.prems(3) by simp
    then have "is_active (fst u) m" using Cons.prems(2) by (auto simp: grows_by_def active_names_def)
    then show ?case using Cons.IH [OF rest] Cons.prems(3) grows_by_trans [OF g] by simp
  qed simp
  from this [of "d_DependsOn (definition_or_zero r m)" st] True assms show ?thesis
    by (simp add: first_visit_def)
qed (use assms in \<open>simp add: first_visit_def\<close>)

lemma first_loop_grows:
  assumes "foldE (first_visit r cs) ns st = Inr st'"
  shows "grows_by r (fst st) (fst st')"
  using assms
proof (induction ns arbitrary: st)
  case (Cons n ns)
  then show ?case
    by (auto simp: foldE_Cons_Inr simp del: foldE.simps(2) intro: grows_by_trans first_visit_grows)
qed simp

lemma closure_visit_grows:
  assumes "closure_visit r m st = st'"
  shows "grows_by r (fst (fst st)) (fst (fst st'))"
proof (cases "is_active (fst (fst st)) m")
  case True
  have "grows_by r (fst (fst st)) (fst (fst (fold activate ds st)))"
    if "is_active (fst (fst st)) m" "set ds \<subseteq> set (d_DependsOn (definition_or_zero r m))" for ds st
    using that
  proof (induction ds arbitrary: st)
    case (Cons d ds)
    obtain a rs ch where st: "st = ((a, rs), ch)" by (metis surj_pair)
    have g: "grows_by r a (fst (fst (activate d st)))"
      using Cons.prems st grows_by_add [of a m d r] by simp
    then have "is_active (fst (fst (activate d st))) m"
      using Cons.prems(1) st by (auto simp: grows_by_def active_names_def)
    then show ?case using Cons.IH [of "activate d st"] Cons.prems(2) grows_by_trans [OF g] st by simp
  qed simp
  from this [of st] True assms show ?thesis by (auto simp: closure_visit_def)
qed (use assms in \<open>simp add: closure_visit_def\<close>)

lemma closure_fold_grows: "grows_by r (fst (fst st)) (fst (fst (fold (closure_visit r) ns st)))"
proof (induction ns arbitrary: st)
  case (Cons n ns)
  show ?case
    using grows_by_trans [OF closure_visit_grows [OF refl] Cons.IH] by simp
qed simp

text \<open>A visited module that was active has its dependencies active afterwards.\<close>

lemma closure_fold_closes:
  assumes "n \<in> set ns" and "is_active (fst (fst st)) n"
  shows "set (d_DependsOn (definition_or_zero r n)) \<subseteq> active_names (fst (fst (fold (closure_visit r) ns st)))"
  using assms
proof (induction ns arbitrary: st)
  case (Cons k ns)
  let ?st1 = "closure_visit r k st"
  have keep: "is_active (fst (fst ?st1)) n"
    using closure_visit_grows [OF refl, of r st k] Cons.prems(2) by (auto simp: grows_by_def active_names_def)
  show ?case
  proof (cases "n \<in> set ns")
    case True
    then show ?thesis using Cons.IH [OF _ keep] by simp
  next
    case False
    then have k: "k = n" using Cons.prems(1) by simp
    obtain a rs ch a1 rs1 ch1 where s: "st = ((a, rs), ch)" "?st1 = ((a1, rs1), ch1)" by (metis surj_pair)
    then have "set (d_DependsOn (definition_or_zero r n)) \<subseteq> active_names a1"
      using k Cons.prems(2) fold_activate_grows [of "d_DependsOn (definition_or_zero r n)" a rs ch a1 rs1 ch1]
      by (auto simp: closure_visit_def)
    then show ?thesis
      using closure_fold_grows [of r ?st1 ns] s by (auto simp: grows_by_def)
  qed
qed simp

lemma closure_loop_correct:
  assumes "fair_sched sched"
  shows "grows_by r (fst st) (fst (closure_loop r sched n st)) \<and>
    (\<forall>m \<in> active_names (fst (closure_loop r sched n st)).
       set (d_DependsOn (definition_or_zero r m)) \<subseteq> active_names (fst (closure_loop r sched n st)))"
  using assms
proof (induction r sched n st rule: closure_loop.induct)
  case (1 r sched n st)
  obtain st' ch where pass: "closure_pass r sched n st = (st', ch)" by (metis surj_pair)
  have g: "grows_by r (fst st) (fst st')"
    using closure_fold_grows [of r "(st, False)" "sched n (map fst (fst st))"] pass
    by (simp add: closure_pass_def)
  show ?case
  proof (cases ch)
    case True
    then have "closure_loop r sched n st = closure_loop r sched (Suc n) st'"
      using pass by (subst closure_loop.simps) simp
    then show ?thesis using "1.IH" [OF pass [symmetric] True "1.prems"] grows_by_trans [OF g] by simp
  next
    case False
    then have loop: "closure_loop r sched n st = st'" using pass by (subst closure_loop.simps) simp
    obtain a rs a' rs' where s: "st = (a, rs)" "st' = (a', rs')" by (metis surj_pair)
    have same: "active_names a' = active_names a"
      using fold_visit_grows [of r "sched n (map fst a)" a rs False a' rs' False] pass s False
      by (auto simp: closure_pass_def)
    have "set (d_DependsOn (definition_or_zero r m)) \<subseteq> active_names a'" if "m \<in> active_names a'" for m
    proof -
      have m: "is_active a m" using that unfolding same by (simp add: active_names_def)
      then have "m \<in> set (map fst a)"
        by (auto simp: is_active_def dest!: map_of_SomeD intro: rev_image_eqI)
      then have "m \<in> set (sched n (map fst a))" using "1.prems" unfolding fair_sched_def by blast
      then show ?thesis
        using closure_fold_closes [of m "sched n (map fst a)" "((a, rs), False)" r] m pass s False
        by (simp add: closure_pass_def)
    qed
    then show ?thesis using loop g s by simp
  qed
qed

lemma active_names_Nil: "active_names [] = {}"
  by (simp add: active_names_def is_active_def)

lemma policy_step_Inr:
  assumes "policy_step cs d (a, rs) = Inr (a', rs')"
  shows "active_names a' = active_names a \<union> (if policy_enabled cs d then {d_Name d} else {})"
    and "distinct (map fst a) \<Longrightarrow> distinct (map fst a')"
  using assms
  by (auto simp: policy_step_def policy_enabled_def active_names_def Let_def distinct_assoc_set
      split: if_split_asm option.splits)

lemma policy_step_not_disabled:
  "policy_step cs d st = Inr st' \<Longrightarrow> policy_enabled cs d \<Longrightarrow> \<not> explicitly_disabled cs (d_Name d)"
  by (auto simp: policy_step_def policy_enabled_def explicitly_disabled_def Let_def
      split: if_split_asm option.splits prod.splits)

lemma policy_loop:
  assumes "foldE (policy_step cs) ds (a, rs) = Inr (a', rs')" and "distinct (map fst a)"
  shows "active_names a' = active_names a \<union> d_Name ` {d \<in> set ds. policy_enabled cs d} \<and>
    distinct (map fst a') \<and> (\<forall>d \<in> set ds. policy_enabled cs d \<longrightarrow> \<not> explicitly_disabled cs (d_Name d))"
  using assms
proof (induction ds arbitrary: a rs)
  case (Cons d ds)
  then obtain a1 rs1 where u: "policy_step cs d (a, rs) = Inr (a1, rs1)"
    and rest: "foldE (policy_step cs) ds (a1, rs1) = Inr (a', rs')"
    by (auto simp: foldE_Cons_Inr simp del: foldE.simps(2))
  show ?case
    using Cons.IH [OF rest] policy_step_Inr [OF u] policy_step_not_disabled [OF u] Cons.prems(2) by auto
qed simp

lemma set_Definitions [simp]: "set (Definitions r) = snd ` set (reg_definitions r)"
  by (simp add: Definitions_def)

lemma wf_lookup:
  assumes "wf_registry r"
  shows "d \<in> set (Definitions r) \<longleftrightarrow> map_of (reg_definitions r) (d_Name d) = Some d"
  using assms by (force simp: wf_registry_def map_of_eq_Some_iff)

lemma wf_name: "wf_registry r \<Longrightarrow> map_of (reg_definitions r) n = Some d \<Longrightarrow> d_Name d = n"
  by (auto simp: wf_registry_def dest!: map_of_SomeD)

lemma distinct_Definitions: "wf_registry r \<Longrightarrow> distinct (map d_Name (Definitions r))"
proof -
  assume wf: "wf_registry r"
  have eq: "map d_Name (map snd (reg_definitions r)) = map fst (reg_definitions r)"
    using wf by (auto simp: wf_registry_def)
  have "distinct (map d_Name (map snd (reg_definitions r)))"
    unfolding eq using wf by (simp add: wf_registry_def)
  then have "distinct (map snd (reg_definitions r))" "inj_on d_Name (set (map snd (reg_definitions r)))"
    unfolding distinct_map [of d_Name] by simp_all
  then show ?thesis unfolding Definitions_def distinct_map [of d_Name] by simp
qed

text \<open>Everything the activation phase promises at once.\<close>

lemma activation_phase_correct:
  assumes wf: "wf_registry r" and fair: "fair_sched sched"
    and act: "activation_phase r sched config cs = Inr (active, reasons)"
  shows "distinct (map fst active)"
    and "\<And>d. d \<in> set (Definitions r) \<Longrightarrow> policy_enabled cs d \<Longrightarrow> is_active active (d_Name d)"
    and "\<And>m. is_active active m \<Longrightarrow> set (d_DependsOn (definition_or_zero r m)) \<subseteq> active_names active"
    and "\<And>n. is_active active n \<Longrightarrow>
      (\<exists>d \<in> set (Definitions r). d_Name d = n \<and> policy_enabled cs d) \<or>
      (\<exists>m. is_active active m \<and> n \<in> set (d_DependsOn (definition_or_zero r m)))"
proof -
  obtain a0 rs0 a1 rs1 a2 rs2 where p: "foldE (policy_step cs) (Definitions r) ([], []) = Inr (a0, rs0)"
    and e: "external_gateway_step r config cs (a0, rs0) = Inr (a1, rs1)"
    and f: "foldE (first_visit r cs) (sched 0 (map fst a1)) (a1, rs1) = Inr (a2, rs2)"
    and c: "closure_loop r sched 1 (a2, rs2) = (active, reasons)"
    using act by (auto simp: activation_phase_def)
  let ?seed = "d_Name ` {d \<in> set (Definitions r). policy_enabled cs d}"
  have a0: "active_names a0 = ?seed" "distinct (map fst a0)"
    and free: "\<forall>d \<in> set (Definitions r). policy_enabled cs d \<longrightarrow> \<not> explicitly_disabled cs (d_Name d)"
    using policy_loop [OF p] by (simp_all add: active_names_Nil)
  have nf: "''firewall'' \<notin> ?seed" if "a1 \<noteq> a0"
  proof
    assume "''firewall'' \<in> ?seed"
    then obtain d where d: "d \<in> set (Definitions r)" "policy_enabled cs d" "d_Name d = ''firewall''"
      by (auto simp del: set_Definitions)
    then have "map_of (reg_definitions r) ''firewall'' \<noteq> None" using wf_lookup [OF wf, of d] by simp
    then show False
      using e free d that by (auto simp: external_gateway_step_def split: if_split_asm)
  qed
  have "a1 = a0 \<or> a1 = assoc_set ''firewall'' False a0"
    using e by (auto simp: external_gateway_step_def split: if_split_asm)
  then have a1: "active_names a1 = ?seed \<and> distinct (map fst a1)"
  proof (cases "a1 = a0")
    case False
    have "active_names (assoc_set ''firewall'' False a0) = active_names a0 - {''firewall''}"
      by (auto simp: active_names_def)
    moreover have "S - {x} = S" if "x \<notin> S" for S and x :: string using that by blast
    ultimately have "active_names (assoc_set ''firewall'' False a0) = ?seed"
      by (simp only: a0(1) nf [OF False] not_False_eq_True)
    then show ?thesis
      using \<open>a1 = a0 \<or> _\<close> False distinct_assoc_set [OF a0(2)] by metis
  qed (use a0 in simp)
  have g: "grows_by r a1 active"
    and closed: "\<forall>m \<in> active_names active. set (d_DependsOn (definition_or_zero r m)) \<subseteq> active_names active"
    using grows_by_trans [OF first_loop_grows [OF f]] closure_loop_correct [OF fair, of r "(a2, rs2)" 1] c
    by auto
  show "distinct (map fst active)" using g a1 by (simp add: grows_by_def)
  show "is_active active (d_Name d)" if "d \<in> set (Definitions r)" "policy_enabled cs d" for d
    using g a1 that by (force simp: grows_by_def active_names_def)
  show "set (d_DependsOn (definition_or_zero r m)) \<subseteq> active_names active" if "is_active active m" for m
    using closed that by (simp add: active_names_def)
  show "(\<exists>d \<in> set (Definitions r). d_Name d = n \<and> policy_enabled cs d) \<or>
      (\<exists>m. is_active active m \<and> n \<in> set (d_DependsOn (definition_or_zero r m)))" if "is_active active n" for n
  proof (cases "n \<in> active_names a1")
    case True
    then show ?thesis using a1 by (auto simp del: set_Definitions)
  next
    case False
    then show ?thesis using g that by (auto simp: grows_by_def active_names_def)
  qed
qed

section \<open>Capabilities\<close>

lemma provide_step_Inr:
  "provide_step d c ps = Inr ps' \<Longrightarrow>
   ps' = assoc_set c (d_Name d) ps \<and> map_of ps c \<in> {None, Some (d_Name d)}"
  by (auto simp: provide_step_def split: option.split_asm if_split_asm)

lemma providers_seen_snoc:
  assumes "providers_seen init L ps" and "map_of ps c \<in> {None, Some n}"
  shows "providers_seen init (L @ [(c, n)]) (assoc_set c n ps)"
  unfolding providers_seen_def
proof (intro conjI allI impI)
  have old: "map_of ps k = Some m" if "(k, m) \<in> set L" for k m
    using assms(1) that by (auto simp: providers_seen_def)
  then show "\<forall>(k, m) \<in> set (L @ [(c, n)]). map_of (assoc_set c n ps) k = Some m"
    using assms(2) by fastforce
  fix k m assume "map_of (assoc_set c n ps) k = Some m"
  then show "(k, m) \<in> set (L @ [(c, n)]) \<or> map_of init k = Some m"
    using assms(1) by (auto simp: providers_seen_def split: if_split_asm)
qed

interpretation provide_loop:
  accumulating_loop "provide_step d" "providers_seen init" "\<lambda>c. [(c, d_Name d)]" "\<lambda>_. True" for init d
  by unfold_locales (auto dest!: provide_step_Inr intro: providers_seen_snoc)

interpretation providers_loop:
  accumulating_loop "providers_step active" "providers_seen init" "offers active" "\<lambda>_. True" for init active
proof
  fix d s t L
  assume "providers_step active d s = Inr t" and "providers_seen init L s"
  then show "providers_seen init (L @ offers active d) t"
    using provide_loop.loop_seen [of d "d_Provides d" s t init L]
    by (auto simp: providers_step_def offers_def concat_map_singleton split: if_split_asm)
qed simp

lemma providers_correct:
  assumes "foldE (providers_step active) ds (initial_providers config) = Inr ps"
  shows "\<And>d c. d \<in> set ds \<Longrightarrow> is_active active (d_Name d) \<Longrightarrow> c \<in> set (d_Provides d) \<Longrightarrow> map_of ps c = Some (d_Name d)"
    and "\<And>c n. map_of ps c = Some n \<Longrightarrow>
      (\<exists>d \<in> set ds. is_active active (d_Name d) \<and> c \<in> set (d_Provides d)) \<or>
      c = CapabilityGateway \<and> gw_Mode (sc_Gateway config) = GatewayModeExternal"
proof -
  have seen: "providers_seen (initial_providers config) (concat (map (offers active) ds)) ps"
    using providers_loop.loop_seen [OF assms, of "initial_providers config" "[]"] by (simp add: providers_seen_def)
  show "map_of ps c = Some (d_Name d)"
    if "d \<in> set ds" "is_active active (d_Name d)" "c \<in> set (d_Provides d)" for d c
    using seen that by (fastforce simp: providers_seen_def offers_def)
  show "(\<exists>d \<in> set ds. is_active active (d_Name d) \<and> c \<in> set (d_Provides d)) \<or>
      c = CapabilityGateway \<and> gw_Mode (sc_Gateway config) = GatewayModeExternal" if "map_of ps c = Some n" for c n
    using seen that
    by (fastforce simp: providers_seen_def offers_def initial_providers_def split: if_split_asm)
qed

subsection \<open>The effective dependencies\<close>

lemma provider_found_fold:
  "set (snd st) = set (fst st) \<Longrightarrow>
   set (fst (fold (provider_found n c) ps st)) = set (fst st) \<union> (if c \<in> set ps then {n} else {}) \<and>
   set (snd (fold (provider_found n c) ps st)) = set (fst (fold (provider_found n c) ps st))"
proof (induction ps arbitrary: st)
  case (Cons p ps)
  obtain ds seen where st: "st = (ds, seen)" by (cases st)
  have eq: "set (snd (provider_found n c p st)) = set (fst (provider_found n c p st))"
    and "set (fst (provider_found n c p st)) = set ds \<union> (if p = c then {n} else {})"
    using Cons.prems st by auto
  then show ?case using Cons.IH [OF eq] st by auto
qed simp

lemma candidate_fold:
  "set (snd st) = set (fst st) \<Longrightarrow>
   set (fst (fold (candidate_step active d c) cands st)) = set (fst st) \<union>
     d_Name ` {k \<in> set cands. is_active active (d_Name k) \<and> d_Name k \<noteq> d_Name d \<and> c \<in> set (d_Provides k)} \<and>
   set (snd (fold (candidate_step active d c) cands st)) = set (fst (fold (candidate_step active d c) cands st))"
proof (induction cands arbitrary: st)
  case (Cons k cands)
  have "set (snd (candidate_step active d c k st)) = set (fst (candidate_step active d c k st)) \<and>
    set (fst (candidate_step active d c k st)) = set (fst st) \<union>
      (if is_active active (d_Name k) \<and> d_Name k \<noteq> d_Name d \<and> c \<in> set (d_Provides k) then {d_Name k} else {})"
    using provider_found_fold [OF Cons.prems, of "d_Name k" c "d_Provides k"] Cons.prems
    by (auto simp: candidate_step_def)
  then show ?case using Cons.IH [of "candidate_step active d c k st"] by auto
qed simp

lemma set_effectiveDependencies:
  "set (effectiveDependencies r d active) = set (d_DependsOn d) \<union>
     d_Name ` {k \<in> set (Definitions r). is_active active (d_Name k) \<and> d_Name k \<noteq> d_Name d \<and>
        set (d_Requires d) \<inter> set (d_Provides k) \<noteq> {}}"
proof -
  have "set (snd st) = set (fst st) \<Longrightarrow>
    set (fst (fold (\<lambda>c. fold (candidate_step active d c) (Definitions r)) cs st)) = set (fst st) \<union>
     d_Name ` {k \<in> set (Definitions r). is_active active (d_Name k) \<and> d_Name k \<noteq> d_Name d \<and>
        set cs \<inter> set (d_Provides k) \<noteq> {}}" for cs st
  proof (induction cs arbitrary: st)
    case (Cons c cs)
    note f = candidate_fold [OF Cons.prems, of active d c "Definitions r"]
    show ?case using Cons.IH [of "fold (candidate_step active d c) (Definitions r) st"] f by auto
  qed simp
  from this [of "(d_DependsOn d, d_DependsOn d)" "d_Requires d"] show ?thesis
    by (simp add: effectiveDependencies_def)
qed

section \<open>Resolution\<close>

lemma lift_error_Inr [simp]: "lift_error x = Inr y \<longleftrightarrow> x = Inr y"
  by (cases x) (simp_all add: lift_error_def)

lemma resolve_stages:
  assumes "resolve p sched r config cs = Inr res"
  obtains active reasons ps order where
    "activation_phase r sched config cs = Inr (active, reasons)"
    "foldE (providers_step active) (Definitions r) (initial_providers config) = Inr ps"
    "\<forall>d \<in> set (Definitions r). requires_check active ps d = Inr ()"
    "topologicalOrder r active = Inr order"
    "res = map (enabled_entry r reasons) order @
      map (disabled_entry cs) (filter (\<lambda>d. \<not> is_active active (d_Name d)) (Definitions r))"
  using assms unfolding resolve_def
  by (auto simp: allE_Inr simp del: checks_simps set_Definitions split: prod.split_asm)

text \<open>Every active name belongs to a registered module.\<close>

lemma active_registered:
  assumes wf: "wf_registry r" and fair: "fair_sched sched"
    and act: "activation_phase r sched config cs = Inr (active, reasons)"
    and ord: "topologicalOrder r active = Inr order" and n: "is_active active n"
  shows "map_of (reg_definitions r) n \<noteq> None"
  using activation_phase_correct(4) [OF wf fair act n]
proof
  assume "\<exists>d \<in> set (Definitions r). d_Name d = n \<and> policy_enabled cs d"
  then show ?thesis using wf_lookup [OF wf] by fastforce
next
  assume "\<exists>m. is_active active m \<and> n \<in> set (d_DependsOn (definition_or_zero r m))"
  then obtain m where "m \<in> active_names active" "n \<in> needs r active m"
    by (auto simp: active_names_def needs_def set_effectiveDependencies)
  then show ?thesis
    using topologicalOrder_correct(4) [OF ord activation_phase_correct(1) [OF wf fair act]] by blast
qed

lemma enabled_entry_simps [simp]:
  "rs_Enabled (enabled_entry r reasons n)" "rs_Definition (enabled_entry r reasons n) = definition_or_zero r n"
  "\<not> rs_Enabled (disabled_entry cs d)" "rs_Definition (disabled_entry cs d) = d"
  by (simp_all add: enabled_entry_def disabled_entry_def)

lemma enabled_split:
  assumes "map (enabled_entry r reasons) order @ map (disabled_entry cs) off = xs @ m # ys" and "rs_Enabled m"
  shows "\<exists>xs' n ys'. order = xs' @ n # ys' \<and> xs = map (enabled_entry r reasons) xs' \<and>
    m = enabled_entry r reasons n"
proof -
  let ?k = "length xs"
  have "?k < length order"
  proof (rule ccontr)
    assume "\<not> ?k < length order"
    then have "m = disabled_entry cs (off ! (?k - length order))"
      using arg_cong [OF assms(1), of "\<lambda>l. l ! ?k"] arg_cong [OF assms(1), of length]
      by (simp add: nth_append)
    then show False using assms(2) by simp
  qed
  then have "order = take ?k order @ order ! ?k # drop (Suc ?k) order" by (rule id_take_nth_drop)
  moreover have "xs = map (enabled_entry r reasons) (take ?k order)"
    using arg_cong [OF assms(1), of "take ?k"] \<open>?k < length order\<close> by (simp add: take_map)
  moreover have "m = enabled_entry r reasons (order ! ?k)"
    using arg_cong [OF assms(1), of "\<lambda>l. l ! ?k"] \<open>?k < length order\<close> by (simp add: nth_append)
  ultimately show ?thesis by blast
qed

text \<open>The shape of a resolution: the active names in deployment order, then the others.\<close>

lemma resolve_shape:
  assumes wf: "wf_registry r" and fair: "fair_sched sched" and res: "resolve p sched r config cs = Inr res"
  obtains active reasons ps order where
    "activation_phase r sched config cs = Inr (active, reasons)"
    "foldE (providers_step active) (Definitions r) (initial_providers config) = Inr ps"
    "\<forall>d \<in> set (Definitions r). requires_check active ps d = Inr ()"
    "distinct order" "set order = active_names active" "deps_before (needs r active) order"
    "\<forall>n \<in> set order. map_of (reg_definitions r) n = Some (definition_or_zero r n) \<and> d_Name (definition_or_zero r n) = n"
    "res = map (enabled_entry r reasons) order @
      map (disabled_entry cs) (filter (\<lambda>d. \<not> is_active active (d_Name d)) (Definitions r))"
  using res
proof (cases rule: resolve_stages)
  case (1 active reasons ps order)
  note top = topologicalOrder_correct [OF 1(4) activation_phase_correct(1) [OF wf fair 1(1)]]
  have "map_of (reg_definitions r) n = Some (definition_or_zero r n) \<and> d_Name (definition_or_zero r n) = n"
    if "n \<in> set order" for n
  proof -
    have "is_active active n" using that top(2) by (simp add: active_names_def)
    then obtain d where d: "map_of (reg_definitions r) n = Some d"
      using active_registered [OF wf fair 1(1) 1(4)] by blast
    then show ?thesis using wf_name [OF wf d] by (simp add: definition_or_zero_def)
  qed
  then show thesis using that [OF 1(1-3) top(1-3) _ 1(5)] by blast
qed

text \<open>C14: A successful resolution lists every registered module exactly once; each enabled module stands after every module it depends on, and each capability it requires is provided by itself, by an enabled module before it, or by the external gateway.  This holds for every order in which Go may iterate its maps.\<close>

theorem resolution_in_order:
  assumes wf: "wf_registry r" and fair: "fair_sched sched"
    and res: "resolve p sched r config cs = Inr res"
  shows "distinct (map resolved_name res) \<and> set (map resolved_name res) = fst ` set (reg_definitions r) \<and>
    (\<forall>xs m ys. res = xs @ m # ys \<longrightarrow> rs_Enabled m \<longrightarrow>
       set (d_DependsOn (rs_Definition m)) \<subseteq> enabled_in xs \<and>
       (\<forall>c \<in> set (d_Requires (rs_Definition m)). capability_met config m xs c))"
  using wf fair res
proof (cases rule: resolve_shape)
  case (1 active reasons ps order)
  let ?off = "filter (\<lambda>d. \<not> is_active active (d_Name d)) (Definitions r)"
  have names: "map resolved_name res = order @ map d_Name ?off"
    using 1(7,8) by (auto simp: resolved_name_def intro!: map_idI)
  have "distinct (map d_Name ?off)" using distinct_Definitions [OF wf] by (rule distinct_map_filter)
  then have dist: "distinct (map resolved_name res)"
    unfolding names using 1(4,5) by (auto simp: active_names_def)
  have keys: "d_Name ` set (Definitions r) = fst ` set (reg_definitions r)"
    using wf by (force simp: wf_registry_def)
  have "set order \<subseteq> fst ` set (reg_definitions r)"
    using 1(7) by (auto dest!: map_of_SomeD intro: rev_image_eqI)
  then have cover: "set (map resolved_name res) = fst ` set (reg_definitions r)"
  proof -
    have "set (map d_Name ?off) = fst ` set (reg_definitions r) - active_names active"
      unfolding keys [symmetric] by (auto simp: active_names_def simp del: set_Definitions)
    then show ?thesis
      unfolding names set_append using 1(5) \<open>set order \<subseteq> _\<close> by blast
  qed
  have "set (d_DependsOn (rs_Definition m)) \<subseteq> enabled_in xs \<and>
      (\<forall>c \<in> set (d_Requires (rs_Definition m)). capability_met config m xs c)"
    if split: "res = xs @ m # ys" and on: "rs_Enabled m" for xs m ys
  proof -
    obtain xs' n ys' where order: "order = xs' @ n # ys'" and xs: "xs = map (enabled_entry r reasons) xs'"
      and m: "m = enabled_entry r reasons n"
      using enabled_split [OF split [unfolded 1(8)] on] by blast
    let ?d = "definition_or_zero r n"
    have before: "needs r active n \<subseteq> set xs'" using 1(6) order by (simp add: deps_before_def)
    have n: "is_active active n" "d_Name ?d = n" "?d \<in> set (Definitions r)"
      using 1(5,7) order wf_lookup [OF wf, of ?d] by (auto simp: active_names_def simp del: set_Definitions)
    have in_xs: "enabled_in xs = set xs'"
      using 1(7) order by (force simp: enabled_in_def resolved_name_def xs)
    have "capability_met config m xs c" if c: "c \<in> set (d_Requires ?d)" for c
    proof -
      have "requires_check active ps ?d = Inr ()" using 1(3) n(3) by blast
      then obtain who where "map_of ps c = Some who"
        using n c by (auto simp: requires_check_def allE_Inr)
      from providers_correct(2) [OF 1(2) this] show ?thesis
      proof
        assume "\<exists>k \<in> set (Definitions r). is_active active (d_Name k) \<and> c \<in> set (d_Provides k)"
        then obtain k where k: "k \<in> set (Definitions r)" "is_active active (d_Name k)" "c \<in> set (d_Provides k)"
          by blast
        have kdef: "definition_or_zero r (d_Name k) = k"
          using k(1) wf_lookup [OF wf, of k] by (simp add: definition_or_zero_def)
        show ?thesis
        proof (cases "d_Name k = n")
          case True
          then show ?thesis using k(3) kdef m by (simp add: capability_met_def)
        next
          case False
          then have "d_Name k \<in> needs r active n"
            using k c n(2) by (auto simp: needs_def set_effectiveDependencies simp del: set_Definitions)
          then have "d_Name k \<in> set xs'" using before by blast
          then show ?thesis using k(3) kdef m xs by (force simp: capability_met_def)
        qed
      qed (auto simp: capability_met_def)
    qed
    moreover have "set (d_DependsOn ?d) \<subseteq> enabled_in xs"
      using before in_xs by (auto simp: needs_def set_effectiveDependencies)
    ultimately show ?thesis using m by simp
  qed
  then show ?thesis using dist cover by blast
qed

text \<open>C15: A successful resolution enables every mandatory module, every module the operator switched on, and every default-on module left alone; any other enabled module is a dependency of an enabled one, and no capability has two enabled providers.\<close>

theorem resolution_enables:
  assumes wf: "wf_registry r" and fair: "fair_sched sched"
    and res: "resolve p sched r config cs = Inr res"
  shows "(\<forall>d \<in> set (Definitions r). policy_enabled cs d \<longrightarrow> d_Name d \<in> enabled_in res) \<and>
    (\<forall>m \<in> set res. rs_Enabled m \<longrightarrow> policy_enabled cs (rs_Definition m) \<or>
       (\<exists>m' \<in> set res. rs_Enabled m' \<and> resolved_name m \<in> set (d_DependsOn (rs_Definition m')))) \<and>
    (\<forall>m \<in> set res. \<forall>m' \<in> set res. rs_Enabled m \<longrightarrow> rs_Enabled m' \<longrightarrow>
       set (d_Provides (rs_Definition m)) \<inter> set (d_Provides (rs_Definition m')) \<noteq> {} \<longrightarrow>
       resolved_name m = resolved_name m')"
  using wf fair res
proof (cases rule: resolve_shape)
  case (1 active reasons ps order)
  note act = activation_phase_correct [OF wf fair 1(1)]
  have entry: "enabled_entry r reasons n \<in> set res" if "is_active active n" for n
    using that 1(5,8) by (auto simp: active_names_def)
  have on: "\<exists>n. m = enabled_entry r reasons n \<and> is_active active n \<and> d_Name (definition_or_zero r n) = n \<and>
      definition_or_zero r n \<in> set (Definitions r)" if "m \<in> set res" "rs_Enabled m" for m
  proof -
    have "m \<in> enabled_entry r reasons ` set order" using that unfolding 1(8) by auto
    then obtain n where n: "n \<in> set order" "m = enabled_entry r reasons n" by blast
    then show ?thesis
      using 1(5,7) wf_lookup [OF wf, of "definition_or_zero r n"] by (auto simp: active_names_def)
  qed
  have "d_Name d \<in> enabled_in res" if "d \<in> set (Definitions r)" "policy_enabled cs d" for d
  proof -
    have "definition_or_zero r (d_Name d) = d"
      using that(1) wf_lookup [OF wf, of d] by (simp add: definition_or_zero_def)
    then show ?thesis
      using entry [OF act(2) [OF that]] by (force simp: enabled_in_def resolved_name_def)
  qed
  moreover have "policy_enabled cs (rs_Definition m) \<or>
      (\<exists>m' \<in> set res. rs_Enabled m' \<and> resolved_name m \<in> set (d_DependsOn (rs_Definition m')))"
    if m: "m \<in> set res" "rs_Enabled m" for m
  proof -
    obtain n where n: "m = enabled_entry r reasons n" "is_active active n"
      "d_Name (definition_or_zero r n) = n" "definition_or_zero r n \<in> set (Definitions r)"
      using on [OF m] by blast
    from act(4) [OF n(2)] show ?thesis
    proof
      assume "\<exists>d \<in> set (Definitions r). d_Name d = n \<and> policy_enabled cs d"
      then obtain d where "d \<in> set (Definitions r)" "d_Name d = n" "policy_enabled cs d" by blast
      then have "definition_or_zero r n = d"
        using wf_lookup [OF wf, of d] by (simp add: definition_or_zero_def)
      then show ?thesis using \<open>policy_enabled cs d\<close> n by simp
    next
      assume "\<exists>k. is_active active k \<and> n \<in> set (d_DependsOn (definition_or_zero r k))"
      then obtain k where "is_active active k" "n \<in> set (d_DependsOn (definition_or_zero r k))" by blast
      then show ?thesis using entry [of k] n by (force simp: resolved_name_def)
    qed
  qed
  moreover have "resolved_name m = resolved_name m'"
    if m: "m \<in> set res" "rs_Enabled m" and m': "m' \<in> set res" "rs_Enabled m'"
      and both: "set (d_Provides (rs_Definition m)) \<inter> set (d_Provides (rs_Definition m')) \<noteq> {}" for m m'
  proof -
    obtain c where c: "c \<in> set (d_Provides (rs_Definition m))" "c \<in> set (d_Provides (rs_Definition m'))"
      using both by blast
    have "map_of ps c = Some (resolved_name x)"
      if "x \<in> set res" "rs_Enabled x" "c \<in> set (d_Provides (rs_Definition x))" for x
      using on [OF that(1,2)] providers_correct(1) [OF 1(2)] that(3)
      by (auto simp: resolved_name_def simp del: set_Definitions)
    from this [OF m c(1)] this [OF m' c(2)] show ?thesis by simp
  qed
  ultimately show ?thesis by blast
qed

section \<open>The first-party registry\<close>

lemma first_party_wf: "wf_registry FirstPartyRegistry"
  by (simp add: wf_registry_def FirstPartyRegistry_def first_party_definitions_def zero_ModuleDefinition_def)

text \<open>The compiled-in registry passes its own validation.\<close>

lemma first_party_registry_valid: "ValidateRegistry FirstPartyRegistry = Inr ()"
  by code_simp

end
