(* ===== verification/Registry_Checks.thy ===== *)
theory Registry_Checks
  imports Resolution
begin

text \<open>
  What \<open>ValidateRegistry\<close> guarantees about the definitions it accepts, concrete resolutions of the
  first-party registry, and the one place where the outcome of a resolution depends on the order in
  which Go iterates a map.
\<close>

section \<open>Specifications\<close>

text \<open>What the definitions claim: reserved VMIDs, guest VMIDs and guest addresses, with the owner.\<close>

definition reserved_vmids :: "ModuleDefinition \<Rightarrow> int list" where
  "reserved_vmids d =
     (if d_ReservedVMIDStart d \<noteq> 0 \<or> d_ReservedVMIDEnd d \<noteq> 0
      then [d_ReservedVMIDStart d..d_ReservedVMIDEnd d] else [])"

definition guest_vmids :: "ModuleDefinition \<Rightarrow> int list" where
  "guest_vmids d = filter (\<lambda>v. v \<noteq> 0) (map c_VMID (d_Guests d))"

definition guest_addresses :: "ModuleDefinition \<Rightarrow> string list" where
  "guest_addresses d = filter (\<lambda>a. a \<noteq> []) (map c_Address (d_Guests d))"

definition owned :: "(ModuleDefinition \<Rightarrow> 'k list) \<Rightarrow> ModuleDefinition \<Rightarrow> ('k \<times> string) list" where
  "owned f d = map (\<lambda>k. (k, d_Name d)) (f d)"

text \<open>A claims map records exactly the claims made so far.\<close>

definition claims :: "('k \<times> string) list \<Rightarrow> ('k \<times> string) list \<Rightarrow> bool" where
  "claims L m \<longleftrightarrow> (\<forall>k n. map_of m k = Some n \<longleftrightarrow> (k, n) \<in> set L)"

definition claims_of ::
  "ModuleDefinition list \<Rightarrow> claims_state \<Rightarrow> bool" where
  "claims_of ds st \<longleftrightarrow> (case st of (reserved, vmids, addrs) \<Rightarrow>
     claims (concat (map (owned reserved_vmids) ds)) reserved \<and>
     claims (concat (map (owned guest_vmids) ds)) vmids \<and>
     claims (concat (map (owned guest_addresses) ds)) addrs)"

definition definition_ok :: "ModuleDefinition \<Rightarrow> bool" where
  "definition_ok d \<longleftrightarrow> d_Name d \<noteq> [] \<and> d_Version d \<noteq> [] \<and>
     set (reserved_vmids d) \<subseteq> {ModuleGuestIDMin..ModuleGuestIDMax} \<and>
     (d_ReservedVMIDStart d \<noteq> 0 \<longrightarrow> set (map c_VMID (d_Guests d)) \<subseteq> set (reserved_vmids d)) \<and>
     (d_PlacementZoneType d = [] \<or> supportedPlacementZoneType (d_PlacementZoneType d))"

text \<open>Go's own order, and an order that also visits a key added on the way.\<close>

definition plain_sched :: schedule where
  "plain_sched n keys = keys"

definition late_sched :: schedule where
  "late_sched n keys = keys @ [''middle'']"

text \<open>A chain of modules, the last of them switched off by the operator.\<close>

definition chain_registry :: Registry where
  "chain_registry = NewRegistry
     [zero_ModuleDefinition\<lparr>d_Name := ''first'', d_Version := ''1.0.0'', d_Policy := DefaultOn, d_DependsOn := [''middle'']\<rparr>,
      zero_ModuleDefinition\<lparr>d_Name := ''last'', d_Version := ''1.0.0'', d_Policy := DefaultOff\<rparr>,
      zero_ModuleDefinition\<lparr>d_Name := ''middle'', d_Version := ''1.0.0'', d_Policy := DefaultOff, d_DependsOn := [''last'']\<rparr>]"

definition chain_configs :: module_configs where
  "chain_configs = [(''last'', zero_ModuleConfig\<lparr>mc_Enabled := Some False\<rparr>)]"

definition managed_config :: SiteConfig where
  "managed_config = demo_config\<lparr>sc_Modules := demo_modules\<lparr>mods_Firewall := None\<rparr>\<rparr>"

definition guest_claims :: "string \<Rightarrow> Component list \<Rightarrow> (int \<times> string) list \<times> (string \<times> string) list" where
  "guest_claims n gs =
     (map (\<lambda>v. (v, n)) (filter (\<lambda>v. v \<noteq> 0) (map c_VMID gs)),
      map (\<lambda>a. (a, n)) (filter (\<lambda>a. a \<noteq> []) (map c_Address gs)))"

text \<open>The state of the loop over one module's guests, over claims \<open>V\<close> and \<open>A\<close> made before.\<close>

definition guests_seen where
  "guests_seen n V A gs st \<longleftrightarrow>
     claims (V @ fst (guest_claims n gs)) (fst st) \<and> claims (A @ snd (guest_claims n gs)) (snd st)"

definition managed_resolution :: "ResolvedModule list" where
  "managed_resolution =
     (case resolve (\<lambda>_. None) plain_sched FirstPartyRegistry managed_config (ModulesMap (sc_Modules managed_config)) of
        Inl _ \<Rightarrow> [] | Inr res \<Rightarrow> res)"

section \<open>Claims\<close>

lemma claims_snoc:
  assumes "claims L m" and "\<not> claimed_by_other m k n"
  shows "claims (L @ [(k, n)]) ((k, n) # m)"
proof -
  have m: "\<And>k n. map_of m k = Some n \<longleftrightarrow> (k, n) \<in> set L" using assms(1) by (simp add: claims_def)
  have "n' = n" if "(k, n') \<in> set L" for n'
    using that assms(2) by (simp add: claimed_by_other_def flip: m)
  then show ?thesis by (auto simp: claims_def m)
qed

interpretation reserve_loop:
  accumulating_loop "reserve_step n" claims "\<lambda>v. [(v, n)]" "\<lambda>_. True" for n
  by unfold_locales (auto simp: reserve_step_def intro: claims_snoc split: if_split_asm)

lemma reserve_block_claims:
  assumes "reserve_block d m = Inr m'" and "claims L m"
  shows "claims (L @ owned reserved_vmids d) m'" and "set (reserved_vmids d) \<subseteq> {ModuleGuestIDMin..ModuleGuestIDMax}"
    and "d_ReservedVMIDStart d \<noteq> 0 \<Longrightarrow> set (reserved_vmids d) = {d_ReservedVMIDStart d..d_ReservedVMIDEnd d}"
  using assms reserve_loop.loop_seen [of "d_Name d" "[d_ReservedVMIDStart d..d_ReservedVMIDEnd d]" m m' L]
  by (auto simp: reserve_block_def owned_def reserved_vmids_def concat_map_singleton split: if_split_asm)

interpretation guest_loop:
  accumulating_loop "guest_step d" "guests_seen (d_Name d) V A" "\<lambda>g. [g]"
    "\<lambda>g. d_ReservedVMIDStart d \<noteq> 0 \<longrightarrow> c_VMID g \<in> {d_ReservedVMIDStart d..d_ReservedVMIDEnd d}" for d V A
proof
  fix g s t gs
  assume step: "guest_step d g s = Inr t" and seen: "guests_seen (d_Name d) V A gs s"
  obtain vmids addrs where s: "s = (vmids, addrs)" by (cases s)
  have free: "c_VMID g \<noteq> 0 \<longrightarrow> \<not> claimed_by_other vmids (c_VMID g) (d_Name d)"
    "c_Address g \<noteq> [] \<longrightarrow> \<not> claimed_by_other addrs (c_Address g) (d_Name d)"
    "d_ReservedVMIDStart d \<noteq> 0 \<longrightarrow> \<not> (c_VMID g < d_ReservedVMIDStart d \<or> c_VMID g > d_ReservedVMIDEnd d)"
    and t: "t = (if c_VMID g \<noteq> 0 then (c_VMID g, d_Name d) # vmids else vmids,
      if c_Address g \<noteq> [] then (c_Address g, d_Name d) # addrs else addrs)"
    using step by (auto simp: guest_step_def s checks_Inr simp del: checks_simps)
  show "guests_seen (d_Name d) V A (gs @ [g]) t"
    using seen free(1,2) claims_snoc [of _ vmids] claims_snoc [of _ addrs]
    by (auto simp: guests_seen_def guest_claims_def s t simp flip: append_assoc)
  show "d_ReservedVMIDStart d \<noteq> 0 \<longrightarrow> c_VMID g \<in> {d_ReservedVMIDStart d..d_ReservedVMIDEnd d}"
    using free(3) by auto
qed

lemma definition_step_Inr:
  assumes "definition_step d (R, V, A) = Inr (R', V', A')"
  shows "reserve_block d R = Inr R'" and "foldE (guest_step d) (d_Guests d) (V, A) = Inr (V', A')"
    and "d_Name d \<noteq> []" and "d_Version d \<noteq> []"
    and "d_PlacementZoneType d = [] \<or> supportedPlacementZoneType (d_PlacementZoneType d)"
  using assms by (auto simp: definition_step_def checks_Inr simp del: checks_simps split: if_split_asm prod.split_asm)

interpretation definition_loop:
  accumulating_loop definition_step claims_of "\<lambda>d. [d]" definition_ok
proof
  fix d s t L
  assume step: "definition_step d s = Inr t" and seen: "claims_of L s"
  obtain R V A where s: "s = (R, V, A)" by (metis surj_pair)
  obtain R' V' A' where t: "t = (R', V', A')" by (metis surj_pair)
  note parts = definition_step_Inr [OF step [unfolded s t]]
  let ?V = "concat (map (owned guest_vmids) L)" and ?A = "concat (map (owned guest_addresses) L)"
  have old: "claims (concat (map (owned reserved_vmids) L)) R" "guests_seen (d_Name d) ?V ?A [] (V, A)"
    using seen by (simp_all add: claims_of_def s guests_seen_def guest_claims_def)
  note block = reserve_block_claims [OF parts(1) old(1)]
  show "claims_of (L @ [d]) t"
    using guest_loop.loop_seen [OF parts(2) old(2)] block(1)
    by (simp add: claims_of_def t guests_seen_def guest_claims_def owned_def guest_vmids_def guest_addresses_def)
  show "definition_ok d"
    using guest_loop.loop_ok [OF parts(2) old(2)] block(2,3) parts(3-5)
    by (auto simp: definition_ok_def)
qed

lemma ValidateRegistry_claims:
  assumes "ValidateRegistry r = Inr ()"
  obtains R V A where "claims_of (Definitions r) (R, V, A)" "\<forall>d \<in> set (Definitions r). definition_ok d"
    "\<forall>(v, n) \<in> set R. \<not> claimed_by_other V v n"
proof -
  obtain R V A where loop: "foldE definition_step (Definitions r) ([], [], []) = Inr (R, V, A)"
    and last: "\<forall>(v, n) \<in> set R. \<not> claimed_by_other V v n"
    using assms by (fastforce simp: ValidateRegistry_def allE_Inr split: if_split_asm prod.split_asm)
  have start: "claims_of [] ([], [], [])" by (simp add: claims_of_def claims_def)
  show thesis
    using that [of R V A] definition_loop.loop_seen [OF loop start] definition_loop.loop_ok [OF loop start] last
    by simp
qed

text \<open>Two modules never claim the same thing.\<close>

lemma claims_owner:
  assumes "claims (concat (map (owned f) ds)) m" and "d \<in> set ds" and "k \<in> set (f d)"
  shows "map_of m k = Some (d_Name d)"
  using assms by (force simp: claims_def owned_def)

text \<open>C16: In a registry that passes validation two modules never claim the same guest VMID, the same guest address or the same reserved VMID, no guest has a VMID reserved by another module, and every reserved block lies in the module range and holds the VMIDs of its own module's guests.\<close>

theorem validated_registry_exclusive:
  assumes "ValidateRegistry r = Inr ()" and "d \<in> set (Definitions r)" and "d' \<in> set (Definitions r)"
    and "d_Name d \<noteq> d_Name d'"
  shows "definition_ok d \<and> set (guest_vmids d) \<inter> set (guest_vmids d') = {} \<and>
    set (guest_addresses d) \<inter> set (guest_addresses d') = {} \<and>
    set (reserved_vmids d) \<inter> set (reserved_vmids d') = {} \<and>
    set (reserved_vmids d) \<inter> set (guest_vmids d') = {}"
proof (rule ValidateRegistry_claims [OF assms(1)])
  fix R V A
  assume all: "claims_of (Definitions r) (R, V, A)" and ok: "\<forall>d \<in> set (Definitions r). definition_ok d"
    and free: "\<forall>(v, n) \<in> set R. \<not> claimed_by_other V v n"
  have R: "\<And>d k. d \<in> set (Definitions r) \<Longrightarrow> k \<in> set (reserved_vmids d) \<Longrightarrow> map_of R k = Some (d_Name d)"
    and V: "\<And>d k. d \<in> set (Definitions r) \<Longrightarrow> k \<in> set (guest_vmids d) \<Longrightarrow> map_of V k = Some (d_Name d)"
    and A: "\<And>d k. d \<in> set (Definitions r) \<Longrightarrow> k \<in> set (guest_addresses d) \<Longrightarrow> map_of A k = Some (d_Name d)"
    using all by (auto simp: claims_of_def simp del: set_Definitions intro: claims_owner)
  have mix: False if k: "k \<in> set (reserved_vmids d)" "k \<in> set (guest_vmids d')" for k
    using map_of_SomeD [OF R [OF assms(2) k(1)]] V [OF assms(3) k(2)] free assms(4)
    by (auto simp: claimed_by_other_def)
  have diff: "set (f d) \<inter> set (f d') = {}"
    if "\<And>d k. d \<in> set (Definitions r) \<Longrightarrow> k \<in> set (f d) \<Longrightarrow> map_of m k = Some (d_Name d)" for f :: "ModuleDefinition \<Rightarrow> 'x list" and m
    using that [OF assms(2)] that [OF assms(3)] assms(4) by fastforce
  show ?thesis
    using ok assms(2) diff [OF V] diff [OF A] diff [OF R] mix by blast
qed

section \<open>Concrete resolutions\<close>

lemma plain_fair [simp]: "fair_sched plain_sched" and late_fair [simp]: "fair_sched late_sched"
  by (auto simp: fair_sched_def plain_sched_def late_sched_def)

text \<open>A module the operator switched off may still be enabled.  In a chain of three modules whose last one is explicitly disabled, the resolution is refused when Go's iteration happens to visit the module added on the way, and otherwise succeeds with the disabled module enabled.\<close>

theorem explicit_disable_depends_on_order:
  "fair_sched plain_sched \<and> fair_sched late_sched \<and> ValidateRegistry chain_registry = Inr () \<and>
   resolve (\<lambda>_. None) late_sched chain_registry demo_config chain_configs =
     Inl (Some (Errorf ''modules.%s: required dependency %q is explicitly disabled'' [''middle'', ''last''])) \<and>
   map_sum id (map (\<lambda>m. (resolved_name m, rs_Enabled m)))
     (resolve (\<lambda>_. None) plain_sched chain_registry demo_config chain_configs) =
     Inr [(''last'', True), (''middle'', True), (''first'', True)]"
proof -
  have "ValidateRegistry chain_registry = Inr ()" by code_simp
  moreover have "resolve (\<lambda>_. None) late_sched chain_registry demo_config chain_configs =
     Inl (Some (Errorf ''modules.%s: required dependency %q is explicitly disabled'' [''middle'', ''last'']))"
    by code_simp
  moreover have "map_sum id (map (\<lambda>m. (resolved_name m, rs_Enabled m)))
     (resolve (\<lambda>_. None) plain_sched chain_registry demo_config chain_configs) =
     Inr [(''last'', True), (''middle'', True), (''first'', True)]" by code_simp
  ultimately show ?thesis by simp
qed

lemma managed_resolves:
  "resolve (\<lambda>_. None) plain_sched FirstPartyRegistry managed_config (ModulesMap (sc_Modules managed_config)) =
   Inr managed_resolution"
proof -
  have "\<not> isl (resolve (\<lambda>_. None) plain_sched FirstPartyRegistry managed_config (ModulesMap (sc_Modules managed_config)))"
    by code_simp
  then show ?thesis
    by (cases "resolve (\<lambda>_. None) plain_sched FirstPartyRegistry managed_config (ModulesMap (sc_Modules managed_config))")
      (simp_all add: managed_resolution_def)
qed

lemma managed_names:
  "map resolved_name managed_resolution = [''firewall'', ''dns'', ''monitoring'', ''tailnet-router'', ''bifrost'']"
  by code_simp

lemmas managed_run = first_party_wf plain_fair managed_resolves

section \<open>Witnesses\<close>

theorem resolution_in_order_witness:
  "map resolved_name managed_resolution = [''firewall'', ''dns'', ''monitoring'', ''tailnet-router'', ''bifrost''] \<and>
   distinct (map resolved_name managed_resolution)"
  using resolution_in_order [OF managed_run] managed_names by blast

theorem resolution_enables_witness: "''dns'' \<in> enabled_in managed_resolution"
proof -
  let ?dns = "definition_or_zero FirstPartyRegistry ''dns''"
  have "?dns \<in> snd ` set (reg_definitions FirstPartyRegistry)" by code_simp
  moreover have "policy_enabled (ModulesMap (sc_Modules managed_config)) ?dns" "d_Name ?dns = ''dns''"
    by code_simp+
  ultimately show ?thesis using resolution_enables [OF managed_run] by (metis set_Definitions)
qed

theorem deployment_order_terminates_witness:
  "(\<exists>order. topologicalOrder chain_registry [(''first'', True)] = Inr order) \<or>
   (\<exists>e. topologicalOrder chain_registry [(''first'', True)] = Inl (Some e))"
  using deployment_order_terminates [of "[(''first'', True)]" chain_registry] by simp

theorem deployment_order_correct_witness:
  "needs FirstPartyRegistry [(''dns'', True), (''firewall'', True)] ''dns'' \<subseteq> {''firewall''}"
proof -
  have order: "topologicalOrder FirstPartyRegistry [(''dns'', True), (''firewall'', True)] = Inr [''firewall'', ''dns'']"
    by code_simp
  have "distinct (map fst [(''dns'', True), (''firewall'', True)])" by simp
  note deployment_order_correct [OF order this, THEN conjunct2, THEN conjunct2, rule_format, of "[''firewall'']" "''dns''" "[]"]
  then show ?thesis by simp
qed

theorem validated_registry_exclusive_witness:
  "set (reserved_vmids (definition_or_zero FirstPartyRegistry ''bifrost'')) \<inter>
     set (guest_vmids (definition_or_zero FirstPartyRegistry ''tailnet-router'')) = {} \<and>
   guest_vmids (definition_or_zero FirstPartyRegistry ''tailnet-router'') = [200]"
proof -
  let ?b = "definition_or_zero FirstPartyRegistry ''bifrost''"
    and ?t = "definition_or_zero FirstPartyRegistry ''tailnet-router''"
  have valid: "ValidateRegistry FirstPartyRegistry = Inr ()" by code_simp
  have "?b \<in> snd ` set (reg_definitions FirstPartyRegistry)" "?t \<in> snd ` set (reg_definitions FirstPartyRegistry)"
    by code_simp+
  then have both: "?b \<in> set (Definitions FirstPartyRegistry)" "?t \<in> set (Definitions FirstPartyRegistry)" by simp_all
  have "d_Name ?b \<noteq> d_Name ?t" "guest_vmids ?t = [200]" by code_simp+
  then show ?thesis using validated_registry_exclusive [OF valid both] by blast
qed

end
