(* ===== verification/Artifacts.thy ===== *)
theory Artifacts
  imports Site_Model
begin

text \<open>
  \<^verbatim>\<open>internal/artifacts/catalog.go\<close>: the built-in appliance definitions, the recipe digest
  that binds a definition to its build inputs, and the qualification of artifact evidence.

  The embedded build bundle is a parameter with the three operations the code uses of
  \<^verbatim>\<open>io/fs\<close>: whether a path exists and is a directory, the entries a walk visits, and the
  bytes of a file.  The SHA-256 of a byte string, in hexadecimal, is a parameter as well.  Operations
  that read evidence files from disk are not modelled.
\<close>

section \<open>Definitions\<close>

abbreviation "BaseName \<equiv> ''boetticher-base''"
abbreviation "BaseVersion \<equiv> ''0.1.0''"
abbreviation "Architecture \<equiv> ''amd64''"
abbreviation "ModuleVersion \<equiv> ''1.0.0''"
abbreviation "QualificationPolicyVersion \<equiv> ''boetticher-trivy-v1''"
abbreviation "QualificationEvaluator \<equiv> ''boetticher-qualify-artifact''"

text \<open>The struct \<open>Definition\<close> of the package.\<close>

record ArtifactDefinition =
  ad_Name :: string
  ad_ArtifactName :: string
  ad_BuildTarget :: string
  ad_ScanTarget :: string
  ad_Version :: string
  ad_Kind :: string
  ad_Architecture :: string
  ad_Base :: string
  ad_BaseVersion :: string
  ad_Inputs :: "string list"

record BuilderProvenance =
  bp_Platform :: string
  bp_InputImage :: string
  bp_Kernel :: string
  bp_Go :: string
  bp_Trivy :: string
  bp_MMDebstrap :: string
  bp_Libguestfs :: string
  bp_QEMUImg :: string
  bp_Architecture :: string
  bp_BoetticherVersion :: string

record Evidence =
  ev_Artifact :: Artifact
  ev_ArtifactPath :: string
  ev_ContentSHA256 :: string
  ev_SizeBytes :: int
  ev_PackageManifestSHA :: string
  ev_SBOMSHA256 :: string
  ev_TrivyReportSHA256 :: string
  ev_BuilderProvenanceSHA256 :: string
  ev_SmokeReportSHA256 :: string
  ev_QualificationPolicyVersion :: string
  ev_QualificationEvaluator :: string
  ev_ScanCompleted :: bool
  ev_DefinitionSHA256 :: string
  ev_Qualified :: bool
  ev_Builder :: BuilderProvenance
  ev_qualifiedByEvaluator :: bool

record ScanSummary =
  scan_Completed :: bool
  scan_Secrets :: int
  scan_FixableCritical :: int
  scan_UnfixedCritical :: int
  scan_High :: int

subsection \<open>Qualification\<close>

definition is_hex :: "char \<Rightarrow> bool" where
  "is_hex c \<longleftrightarrow> c \<in> set ''0123456789abcdefABCDEF''"

definition sha256Pattern :: "string \<Rightarrow> bool" where
  "sha256Pattern v \<longleftrightarrow> length v = 64 \<and> list_all is_hex v"

definition optional_digests :: "Evidence \<Rightarrow> (string \<times> string) list" where
  "optional_digests e =
     [(''package_manifest_sha256'', ev_PackageManifestSHA e), (''sbom_sha256'', ev_SBOMSHA256 e),
      (''trivy_report_sha256'', ev_TrivyReportSHA256 e),
      (''builder_provenance_sha256'', ev_BuilderProvenanceSHA256 e),
      (''smoke_report_sha256'', ev_SmokeReportSHA256 e)]"

definition validateQualificationDigests :: "Evidence \<Rightarrow> gerror + unit" where
  "validateQualificationDigests e = checks
     [fails (\<not> sha256Pattern (ev_ContentSHA256 e)) (Errorf ''content_sha256 must be a SHA-256 digest'' []),
      allE (\<lambda>(name, v). fails (v \<noteq> [] \<and> \<not> sha256Pattern v) (Errorf ''%s must be a SHA-256 digest'' [name]))
        (optional_digests e),
      fails (ev_QualificationPolicyVersion e \<noteq> [] \<and> ev_QualificationPolicyVersion e \<noteq> QualificationPolicyVersion)
        (Errorf ''unsupported qualification policy %q'' [ev_QualificationPolicyVersion e]),
      fails (ev_Qualified e \<and> ev_QualificationEvaluator e \<noteq> QualificationEvaluator)
        (Errorf ''qualified evidence must be produced by %s'' [QualificationEvaluator]),
      fails (ev_Qualified e \<and> ev_QualificationPolicyVersion e \<noteq> QualificationPolicyVersion)
        (Errorf ''qualified evidence must declare policy %s'' [QualificationPolicyVersion]),
      fails (ev_Qualified e \<and> \<not> ev_ScanCompleted e)
        (Errorf ''qualified evidence must include a completed Trivy scan'' []),
      fails (ev_Qualified e \<and> \<not> sha256Pattern (ev_TrivyReportSHA256 e))
        (Errorf ''qualified evidence must include a Trivy report digest'' [])]"

definition QualifyEvidence :: "Evidence \<Rightarrow> ScanSummary \<Rightarrow> gerror + Evidence" where
  "QualifyEvidence e scan =
     (case validateQualificationDigests e of
        Inl err \<Rightarrow> Inl (Wrapf ''qualification evidence is incomplete: %w'' [] err)
      | Inr _ \<Rightarrow>
        bindE (checks
          [fails (\<not> scan_Completed scan) (Errorf ''qualification failed: Trivy scan did not complete'' []),
           fails (scan_Secrets scan > 0)
             (Errorf ''qualification failed: Trivy found %d secret finding(s)'' [itoa (scan_Secrets scan)]),
           fails (scan_FixableCritical scan > 0)
             (Errorf ''qualification failed: Trivy found %d fixable CRITICAL finding(s)'' [itoa (scan_FixableCritical scan)])])
        (\<lambda>_. Inr (e\<lparr>ev_QualificationPolicyVersion := QualificationPolicyVersion,
          ev_QualificationEvaluator := QualificationEvaluator, ev_ScanCompleted := True, ev_Qualified := True,
          ev_Artifact := (ev_Artifact e)\<lparr>art_ContentSHA256 := ev_ContentSHA256 e\<rparr>,
          ev_qualifiedByEvaluator := True\<rparr>)))"

definition artifactIdentityMatches :: "Artifact \<Rightarrow> Artifact \<Rightarrow> bool" where
  "artifactIdentityMatches observed requested \<longleftrightarrow>
     \<not> (art_Name observed \<noteq> art_Name requested \<or> art_Version observed \<noteq> art_Version requested \<or>
        art_Architecture observed \<noteq> art_Architecture requested \<or> art_Kind observed \<noteq> art_Kind requested) \<and>
     \<not> (art_ContentSHA256 observed \<noteq> [] \<and> art_ContentSHA256 requested \<noteq> [] \<and>
        art_ContentSHA256 observed \<noteq> art_ContentSHA256 requested)"

subsection \<open>The catalogue\<close>

definition commonDefinitionInputs :: "string list" where
  "commonDefinitionInputs =
     [''images/base'', ''cmd/artifact-identity'', ''scripts/build-images.sh'', ''scripts/smoke-appliance.sh'']"

definition artifact_entry ::
  "string \<Rightarrow> string \<Rightarrow> string \<Rightarrow> string \<Rightarrow> string \<Rightarrow> string list \<Rightarrow> ArtifactDefinition" where
  "artifact_entry name artifactName target version kind extra =
     \<lparr>ad_Name = name, ad_ArtifactName = artifactName, ad_BuildTarget = target, ad_ScanTarget = artifactName,
      ad_Version = version, ad_Kind = kind, ad_Architecture = Architecture, ad_Base = BaseName,
      ad_BaseVersion = BaseVersion, ad_Inputs = commonDefinitionInputs @ extra\<rparr>"

definition ArtifactDefinitions :: "ArtifactDefinition list" where
  "ArtifactDefinitions =
     [artifact_entry ''base'' BaseName ''image-base'' BaseVersion ''lxc'' [],
      artifact_entry ''dns'' ''boetticher-dns-blocky'' ''image-dns-blocky'' ModuleVersion ''lxc''
        [''images/dns'', ''internal/dns'', ''internal/model'', ''internal/modules'', ''cmd/render-blocky-config''],
      artifact_entry ''firewall'' ''boetticher-firewall'' ''image-firewall'' ModuleVersion ''qemu''
        [''images/firewall'', ''cmd/boetticher-firewall-telemetry'', ''internal/firewalltelemetry'',
         ''internal/network'', ''scripts/smoke-firewall-image.sh''],
      artifact_entry ''tailnet-router'' ''boetticher-tailnet-router'' ''image-tailnet-router'' ModuleVersion ''lxc''
        [''images/tailnet-router'', ''internal/model'', ''internal/modules''],
      artifact_entry ''bifrost'' ''boetticher-bifrost'' ''image-bifrost'' ModuleVersion ''lxc''
        [''images/bifrost'', ''internal/bifrost'', ''cmd/boetticher-bifrost'', ''internal/model'', ''internal/modules'']]"

definition LookupArtifact :: "string \<Rightarrow> ArtifactDefinition option" where
  "LookupArtifact module = find (\<lambda>d. ad_Name d = module) ArtifactDefinitions"

text \<open>The embedded file system.\<close>

record build_bundle =
  fs_IsDir :: "string \<Rightarrow> gerror + bool"
  fs_Walk :: "string \<Rightarrow> gerror + (string \<times> bool) list"
  fs_ReadFile :: "string \<Rightarrow> gerror + string"

definition input_files :: "build_bundle \<Rightarrow> string \<Rightarrow> string list \<Rightarrow> gerror + string list" where
  "input_files fs input files =
     (case fs_IsDir fs input of
        Inl e \<Rightarrow> Inl e
      | Inr False \<Rightarrow> Inr (List.insert input files)
      | Inr True \<Rightarrow>
        (case fs_Walk fs input of
           Inl e \<Rightarrow> Inl e
         | Inr entries \<Rightarrow> Inr (fold (\<lambda>(name, dir) fs. if dir \<or> HasSuffix name ''_test.go'' then fs
                                     else List.insert name fs) entries files)))"

definition definitionFiles :: "build_bundle \<Rightarrow> string list \<Rightarrow> gerror + string list" where
  "definitionFiles fs inputs = bindE (foldE (input_files fs) inputs []) (\<lambda>files. Inr (sort files))"

definition artifact_name :: "ArtifactDefinition \<Rightarrow> string" where
  "artifact_name d = (if ad_ArtifactName d = [] then ''boetticher-'' @ ad_Name d else ad_ArtifactName d)"

definition definition_identity :: "ArtifactDefinition \<Rightarrow> string \<Rightarrow> string" where
  "definition_identity d baseDigest =
     joinWith ''/'' [ad_Base d, ad_BaseVersion d, artifact_name d, ad_Version d, ad_Architecture d, ad_Kind d] @
     (if baseDigest \<noteq> [] then ''/'' @ baseDigest else [])"

text \<open>What is hashed: the identity, then each file's name and bytes, each ended by a zero byte.\<close>

definition hashed_file :: "build_bundle \<Rightarrow> string \<Rightarrow> string \<Rightarrow> gerror + string" where
  "hashed_file fs name acc =
     (case fs_ReadFile fs name of
        Inl e \<Rightarrow> Inl (Wrapf ''read %s: %w'' [name] e)
      | Inr data \<Rightarrow> Inr (acc @ name @ [CHR 0x00] @ data @ [CHR 0x00]))"

definition definition_bytes :: "build_bundle \<Rightarrow> ArtifactDefinition \<Rightarrow> string \<Rightarrow> gerror + string" where
  "definition_bytes fs d baseDigest =
     bindE (definitionFiles fs (ad_Inputs d)) (\<lambda>paths.
     foldE (hashed_file fs) paths (definition_identity d baseDigest @ [CHR 0x00]))"

text \<open>How far a definition is from the base: the recursion follows \<open>Base\<close>.\<close>

definition base_distance :: "ArtifactDefinition \<Rightarrow> nat" where
  "base_distance d = (if artifact_name d = BaseName then 0 else if ad_Base d = BaseName then 1 else 2)"

text \<open>The files an input stands for.\<close>

definition files_of :: "build_bundle \<Rightarrow> string \<Rightarrow> string set" where
  "files_of fs input =
     (case fs_IsDir fs input of
        Inr True \<Rightarrow> (case fs_Walk fs input of
            Inr entries \<Rightarrow> {name. (name, False) \<in> set entries \<and> \<not> HasSuffix name ''_test.go''} | Inl _ \<Rightarrow> {})
      | _ \<Rightarrow> {input})"

definition input_readable :: "build_bundle \<Rightarrow> string \<Rightarrow> bool" where
  "input_readable fs input \<longleftrightarrow>
     (case fs_IsDir fs input of Inl _ \<Rightarrow> False | Inr False \<Rightarrow> True | Inr True \<Rightarrow> \<not> isl (fs_Walk fs input))"

text \<open>A bundle that holds every input of the catalogue.\<close>

definition complete_bundle :: "build_bundle \<Rightarrow> bool" where
  "complete_bundle fs \<longleftrightarrow>
     (\<forall>d \<in> set ArtifactDefinitions. \<forall>input \<in> set (ad_Inputs d). input_readable fs input \<and>
        (\<forall>f \<in> files_of fs input. \<not> isl (fs_ReadFile fs f)))"

definition clean_scan :: "ScanSummary \<Rightarrow> bool" where
  "clean_scan scan \<longleftrightarrow> scan_Completed scan \<and> scan_Secrets scan \<le> 0 \<and> scan_FixableCritical scan \<le> 0"

definition demo_bundle :: build_bundle where
  "demo_bundle = \<lparr>fs_IsDir = (\<lambda>p. Inr (p = ''images/base'')),
     fs_Walk = (\<lambda>p. Inr [(p, True), (p @ ''/build.sh'', False), (p @ ''/x_test.go'', False)]),
     fs_ReadFile = (\<lambda>p. Inr (''# '' @ p))\<rparr>"

definition demo_evidence :: Evidence where
  "demo_evidence =
     \<lparr>ev_Artifact = \<lparr>art_Name = ''boetticher-firewall'', art_Version = ModuleVersion, art_Architecture = Architecture,
        art_Kind = ''qemu'', art_DefinitionSHA256 = [], art_ContentSHA256 = []\<rparr>,
      ev_ArtifactPath = [], ev_ContentSHA256 = replicate 64 (CHR ''a''), ev_SizeBytes = 4096,
      ev_PackageManifestSHA = [], ev_SBOMSHA256 = [], ev_TrivyReportSHA256 = [], ev_BuilderProvenanceSHA256 = [],
      ev_SmokeReportSHA256 = [], ev_QualificationPolicyVersion = [], ev_QualificationEvaluator = [],
      ev_ScanCompleted = False, ev_DefinitionSHA256 = [], ev_Qualified = False,
      ev_Builder = \<lparr>bp_Platform = [], bp_InputImage = [], bp_Kernel = [], bp_Go = [], bp_Trivy = [],
        bp_MMDebstrap = [], bp_Libguestfs = [], bp_QEMUImg = [], bp_Architecture = [], bp_BoetticherVersion = []\<rparr>,
      ev_qualifiedByEvaluator = False\<rparr>"

definition demo_scan :: ScanSummary where
  "demo_scan = \<lparr>scan_Completed = True, scan_Secrets = 0, scan_FixableCritical = 0, scan_UnfixedCritical = 2, scan_High = 5\<rparr>"

function definitionSHA256 :: "build_bundle \<Rightarrow> (string \<Rightarrow> string) \<Rightarrow> ArtifactDefinition \<Rightarrow> gerror + string" where
  "definitionSHA256 fs sha256 d =
     bindE
       (if artifact_name d \<noteq> BaseName then
          (case find (\<lambda>c. ad_ArtifactName c = ad_Base d) ArtifactDefinitions of
             None \<Rightarrow> Inl (Errorf ''base definition %s is not declared'' [ad_Base d])
           | Some candidate \<Rightarrow>
             (case definitionSHA256 fs sha256 candidate of
                Inl e \<Rightarrow> Inl (Wrapf ''hash base definition %s: %w'' [ad_Base d] e)
              | Inr baseDigest \<Rightarrow>
                if baseDigest = [] then Inl (Errorf ''base definition %s is not declared'' [ad_Base d])
                else Inr baseDigest))
        else Inr [])
     (\<lambda>baseDigest. bindE (definition_bytes fs d baseDigest) (\<lambda>bytes. Inr (sha256 bytes)))"
  by pat_completeness auto
termination
proof (relation "measure (\<lambda>(fs, sha256, d). base_distance d)", goal_cases)
  case (2 fs sha256 d c)
  then have c: "c \<in> set ArtifactDefinitions" "ad_ArtifactName c = ad_Base d" by (auto simp: find_Some_iff)
  then have "ad_Base c = BaseName" "ad_ArtifactName c \<noteq> []"
    by (auto simp: ArtifactDefinitions_def artifact_entry_def)
  then show ?case using c(2) 2 by (auto simp: base_distance_def artifact_name_def)
qed simp

declare definitionSHA256.simps [simp del]

definition ArtifactFor :: "build_bundle \<Rightarrow> (string \<Rightarrow> string) \<Rightarrow> string \<Rightarrow> gerror + Artifact" where
  "ArtifactFor fs sha256 module =
     (case find (\<lambda>d. ad_Name d = module) ArtifactDefinitions of
        None \<Rightarrow> Inl (Errorf ''no built-in artifact definition for module %q'' [module])
      | Some d \<Rightarrow>
        (case definitionSHA256 fs sha256 d of
           Inl e \<Rightarrow> Inl (Wrapf ''hash artifact definition %s: %w'' [ad_Name d] e)
         | Inr digest \<Rightarrow> Inr \<lparr>art_Name = (if ad_ArtifactName d = [] then ''boetticher-'' @ module else ad_ArtifactName d),
             art_Version = ad_Version d, art_Architecture = ad_Architecture d, art_Kind = ad_Kind d,
             art_DefinitionSHA256 = digest, art_ContentSHA256 = []\<rparr>))"

definition definition_check :: "build_bundle \<Rightarrow> (string \<Rightarrow> string) \<Rightarrow> ArtifactDefinition \<Rightarrow> gerror + unit" where
  "definition_check fs sha256 d = checks
     [fails (ad_Base d \<noteq> BaseName \<or> ad_BaseVersion d \<noteq> BaseVersion)
        (Errorf ''artifact %s does not consume the pinned %s base'' [ad_Name d, BaseName]),
      fails (ad_Architecture d \<noteq> Architecture \<or> ad_Version d = [] \<or> ad_Kind d = [] \<or> ad_BuildTarget d = [] \<or>
             ad_ScanTarget d = [] \<or> ad_Inputs d = [])
        (Errorf ''artifact %s has incomplete identity'' [ad_Name d]),
      (case definitionSHA256 fs sha256 d of
         Inl e \<Rightarrow> Inl (Wrapf ''artifact %s has unavailable build inputs: %w'' [ad_Name d] e)
       | Inr _ \<Rightarrow> Inr ())]"

definition ValidateDefinitions :: "build_bundle \<Rightarrow> (string \<Rightarrow> string) \<Rightarrow> gerror + unit" where
  "ValidateDefinitions fs sha256 = allE (definition_check fs sha256) ArtifactDefinitions"

section \<open>Qualification\<close>

lemma QualifyEvidence_Inr:
  "QualifyEvidence e scan = Inr e' \<longleftrightarrow> validateQualificationDigests e = Inr () \<and> clean_scan scan \<and>
     e' = e\<lparr>ev_QualificationPolicyVersion := QualificationPolicyVersion,
          ev_QualificationEvaluator := QualificationEvaluator, ev_ScanCompleted := True, ev_Qualified := True,
          ev_Artifact := (ev_Artifact e)\<lparr>art_ContentSHA256 := ev_ContentSHA256 e\<rparr>,
          ev_qualifiedByEvaluator := True\<rparr>"
  by (auto simp: QualifyEvidence_def clean_scan_def checks_Inr simp del: checks_simps split: sum.split)

text \<open>C25: Evidence is marked qualified only after a completed scan without secrets or fixable critical findings; the qualified artifact is bound to the content digest of the evidence.  The result passes the validator of qualified evidence exactly when it carries the digest of the Trivy report, which qualification itself does not ask for.\<close>

theorem qualified_evidence:
  assumes "QualifyEvidence e scan = Inr e'"
  shows "clean_scan scan \<and> ev_Qualified e' \<and> sha256Pattern (ev_ContentSHA256 e') \<and>
    art_ContentSHA256 (ev_Artifact e') = ev_ContentSHA256 e' \<and> ev_ContentSHA256 e' = ev_ContentSHA256 e \<and>
    (validateQualificationDigests e' = Inr () \<longleftrightarrow> sha256Pattern (ev_TrivyReportSHA256 e))"
  using assms unfolding QualifyEvidence_Inr
  by (auto simp: validateQualificationDigests_def optional_digests_def checks_Inr allE_Inr simp del: checks_simps)

theorem qualified_evidence_witness:
  "\<not> sha256Pattern (ev_TrivyReportSHA256 demo_evidence) \<and>
   (\<exists>e'. QualifyEvidence demo_evidence demo_scan = Inr e' \<and> ev_Qualified e' \<and>
         validateQualificationDigests e' \<noteq> Inr ())"
proof -
  have "\<not> isl (QualifyEvidence demo_evidence demo_scan)" by code_simp
  then obtain e' where e': "QualifyEvidence demo_evidence demo_scan = Inr e'"
    by (cases "QualifyEvidence demo_evidence demo_scan") auto
  have no: "\<not> sha256Pattern (ev_TrivyReportSHA256 demo_evidence)" by code_simp
  then show ?thesis using qualified_evidence [OF e'] e' by blast
qed

section \<open>Recipe files\<close>

lemma fold_insert_files:
  "set (fold (\<lambda>(name, dir) fs. if dir \<or> bad name then fs else List.insert name fs) es files) =
     set files \<union> {name. (name, False) \<in> set es \<and> \<not> bad name}"
  "distinct files \<Longrightarrow>
     distinct (fold (\<lambda>(name, dir) fs. if dir \<or> bad name then fs else List.insert name fs) es files)"
  by (induction es arbitrary: files) (auto split: if_split_asm)

lemma input_files_Inr:
  assumes "input_files fs input files = Inr files'"
  shows "set files' = set files \<union> files_of fs input" and "distinct files \<Longrightarrow> distinct files'"
    and "input_readable fs input"
  using assms
  by (auto simp: input_files_def files_of_def input_readable_def fold_insert_files
      split: sum.split_asm bool.split_asm)

lemma input_files_total: "input_readable fs input \<Longrightarrow> \<exists>files'. input_files fs input files = Inr files'"
  by (auto simp: input_files_def input_readable_def split: sum.split sum.split_asm bool.split bool.split_asm)

text \<open>The loop over the inputs, for the shared law of loops that remember what they have seen.\<close>

interpretation inputs_loop:
  accumulating_loop "input_files fs"
    "\<lambda>inputs files. distinct files \<and> set files = (\<Union>i \<in> set inputs. files_of fs i)" "\<lambda>i. [i]" "input_readable fs"
    for fs
  by unfold_locales (auto dest: input_files_Inr)

lemma input_loop_total:
  "\<forall>i \<in> set inputs. input_readable fs i \<Longrightarrow> \<exists>files'. foldE (input_files fs) inputs files = Inr files'"
proof (induction inputs arbitrary: files)
  case (Cons i rest)
  obtain f where "input_files fs i files = Inr f" using input_files_total Cons.prems by fastforce
  then show ?case using Cons by simp
qed simp

lemma definitionFiles_Inr:
  "definitionFiles fs inputs = Inr files \<longleftrightarrow>
     (\<forall>i \<in> set inputs. input_readable fs i) \<and> files = sorted_list_of_set (\<Union>i \<in> set inputs. files_of fs i)"
proof -
  have ok: "(\<forall>i \<in> set inputs. input_readable fs i) \<and> distinct f \<and> set f = (\<Union>i \<in> set inputs. files_of fs i)"
    if "foldE (input_files fs) inputs [] = Inr f" for f
    using inputs_loop.loop_seen [OF that, of "[]"] inputs_loop.loop_ok [OF that, of "[]"] by simp
  have sort: "sort f = sorted_list_of_set (\<Union>i \<in> set inputs. files_of fs i)"
    if "foldE (input_files fs) inputs [] = Inr f" for f
    using ok [OF that] by (metis sorted_list_of_set_sort_remdups distinct_remdups_id)
  show ?thesis
  proof
    assume "definitionFiles fs inputs = Inr files"
    then show "(\<forall>i \<in> set inputs. input_readable fs i) \<and> files = sorted_list_of_set (\<Union>i \<in> set inputs. files_of fs i)"
      using ok sort by (auto simp: definitionFiles_def)
  next
    assume r: "(\<forall>i \<in> set inputs. input_readable fs i) \<and> files = sorted_list_of_set (\<Union>i \<in> set inputs. files_of fs i)"
    then obtain f where "foldE (input_files fs) inputs [] = Inr f" using input_loop_total by blast
    then show "definitionFiles fs inputs = Inr files" using r sort by (simp add: definitionFiles_def)
  qed
qed

text \<open>The recipe digest of a definition whose inputs can all be read depends on the set of its inputs only, not on their order or on repetitions.\<close>

lemma recipe_digest_input_order:
  assumes "set inputs = set (ad_Inputs d)" and "\<forall>i \<in> set (ad_Inputs d). input_readable fs i"
  shows "definitionSHA256 fs sha256 (d\<lparr>ad_Inputs := inputs\<rparr>) = definitionSHA256 fs sha256 d"
proof -
  have "definitionFiles fs inputs = definitionFiles fs (ad_Inputs d)"
    using definitionFiles_Inr [of fs inputs "sorted_list_of_set (\<Union>i \<in> set inputs. files_of fs i)"]
      definitionFiles_Inr [of fs "ad_Inputs d" "sorted_list_of_set (\<Union>i \<in> set inputs. files_of fs i)"] assms
    by simp
  then have same: "definition_bytes fs (d\<lparr>ad_Inputs := inputs\<rparr>) b = definition_bytes fs d b"
    "artifact_name (d\<lparr>ad_Inputs := inputs\<rparr>) = artifact_name d" "ad_Base (d\<lparr>ad_Inputs := inputs\<rparr>) = ad_Base d" for b
    by (simp_all add: definition_bytes_def definition_identity_def artifact_name_def)
  show ?thesis
    unfolding definitionSHA256.simps [of fs sha256 d] definitionSHA256.simps [of fs sha256 "d\<lparr>ad_Inputs := inputs\<rparr>"] same ..
qed

section \<open>The catalogue\<close>

lemma hashed_loop_total:
  "\<forall>f \<in> set files. \<not> isl (fs_ReadFile fs f) \<Longrightarrow> \<exists>bytes. foldE (hashed_file fs) files acc = Inr bytes"
  by (induction files arbitrary: acc) (auto simp: hashed_file_def isl_def split: sum.split)

lemma definition_bytes_total:
  assumes "complete_bundle fs" and "d \<in> set ArtifactDefinitions"
    and fin: "finite (\<Union>i \<in> set (ad_Inputs d). files_of fs i)"
  shows "\<exists>bytes. definition_bytes fs d b = Inr bytes"
proof -
  let ?files = "sorted_list_of_set (\<Union>i \<in> set (ad_Inputs d). files_of fs i)"
  have "definitionFiles fs (ad_Inputs d) = Inr ?files"
    using assms by (auto simp: definitionFiles_Inr complete_bundle_def)
  moreover have "\<forall>f \<in> set ?files. \<not> isl (fs_ReadFile fs f)"
    using assms by (auto simp: complete_bundle_def)
  ultimately show ?thesis using hashed_loop_total by (simp add: definition_bytes_def)
qed

lemma finite_files_of [simp]: "finite (files_of fs i)"
proof -
  have "finite {n. (n, False) \<in> set es \<and> \<not> bad n}" for es :: "(string \<times> bool) list" and bad
    by (rule finite_subset [of _ "fst ` set es"]) (auto intro: rev_image_eqI)
  then show ?thesis by (auto simp: files_of_def split: sum.split bool.split)
qed

lemma catalogue_digest_total:
  assumes "complete_bundle fs" and "\<And>bytes. sha256 bytes \<noteq> []" and "d \<in> set ArtifactDefinitions"
  shows "\<exists>digest. definitionSHA256 fs sha256 d = Inr digest \<and> digest \<noteq> []"
proof -
  let ?base = "artifact_entry ''base'' BaseName ''image-base'' BaseVersion ''lxc'' []"
  have base_in: "?base \<in> set ArtifactDefinitions" by (simp add: ArtifactDefinitions_def)
  have base_name: "artifact_name ?base = BaseName" by (simp add: artifact_name_def artifact_entry_def)
  obtain bytes where "definition_bytes fs ?base [] = Inr bytes"
    using definition_bytes_total [OF assms(1) base_in] by auto
  then have base: "definitionSHA256 fs sha256 ?base = Inr (sha256 bytes)"
    using base_name by (simp add: definitionSHA256.simps [of fs sha256 ?base])
  have lookup: "find (\<lambda>c. ad_ArtifactName c = ad_Base d) ArtifactDefinitions = Some ?base"
    using assms(3) by (auto simp: ArtifactDefinitions_def artifact_entry_def)
  have total: "\<exists>bytes. definition_bytes fs d b = Inr bytes" for b
    using definition_bytes_total [OF assms(1,3)] by simp
  show ?thesis
    using total [of "[]"] total [of "sha256 bytes"] base lookup assms(2)
    by (subst definitionSHA256.simps) (cases "artifact_name d = BaseName"; auto)
qed

text \<open>When the embedded bundle holds every build input, each module of the catalogue has an artifact identity, pinned to its catalogue entry and carrying a recipe digest; every other name is refused.\<close>

theorem artifact_for_catalogue:
  assumes "complete_bundle fs" and "\<And>bytes. sha256 bytes \<noteq> []"
  shows "((\<exists>a. ArtifactFor fs sha256 module = Inr a) \<longleftrightarrow>
      module \<in> {''base'', ''dns'', ''firewall'', ''tailnet-router'', ''bifrost''}) \<and>
    (\<forall>a. ArtifactFor fs sha256 module = Inr a \<longrightarrow>
      (\<exists>d \<in> set ArtifactDefinitions. ad_Name d = module \<and> art_Name a = ad_ArtifactName d \<and>
        art_Version a = ad_Version d \<and> art_Kind a = ad_Kind d \<and> art_Architecture a = Architecture \<and>
        definitionSHA256 fs sha256 d = Inr (art_DefinitionSHA256 a) \<and> art_DefinitionSHA256 a \<noteq> []))"
proof (cases "find (\<lambda>d. ad_Name d = module) ArtifactDefinitions")
  case None
  then have "ad_Name ` set ArtifactDefinitions \<inter> {module} = {}" by (auto simp: find_None_iff)
  then have "module \<notin> {''base'', ''dns'', ''firewall'', ''tailnet-router'', ''bifrost''}"
    by (auto simp: ArtifactDefinitions_def artifact_entry_def)
  then show ?thesis using None by (simp add: ArtifactFor_def)
next
  case (Some d)
  then have d: "d \<in> set ArtifactDefinitions" "ad_Name d = module" by (auto simp: find_Some_iff)
  then have "module \<in> {''base'', ''dns'', ''firewall'', ''tailnet-router'', ''bifrost''}"
    "ad_ArtifactName d \<noteq> []" "ad_Architecture d = Architecture"
    by (auto simp: ArtifactDefinitions_def artifact_entry_def)
  moreover obtain digest where "definitionSHA256 fs sha256 d = Inr digest" "digest \<noteq> []"
    using catalogue_digest_total [of fs sha256 d] assms d(1) by auto
  ultimately show ?thesis using d Some by (auto simp: ArtifactFor_def)
qed

section \<open>Witnesses\<close>

lemma demo_bundle_complete: "complete_bundle demo_bundle"
  by (auto simp: complete_bundle_def demo_bundle_def input_readable_def files_of_def split: bool.split)

theorem artifact_for_catalogue_witness:
  "(\<exists>a. ArtifactFor demo_bundle (\<lambda>bytes. ''h'' @ bytes) ''firewall'' = Inr a) \<and>
   \<not> (\<exists>a. ArtifactFor demo_bundle (\<lambda>bytes. ''h'' @ bytes) ''logging'' = Inr a)"
  using artifact_for_catalogue [OF demo_bundle_complete, of "\<lambda>bytes. ''h'' @ bytes" "''firewall''"]
    artifact_for_catalogue [OF demo_bundle_complete, of "\<lambda>bytes. ''h'' @ bytes" "''logging''"]
  by simp

end
