(* ===== verification/Compose.thy ===== *)
theory Compose
  imports Site_Validate Registry_Checks Artifacts
begin

text \<open>
  \<^verbatim>\<open>internal/modules/compose.go\<close>, \<^verbatim>\<open>declarations.go\<close> and \<^verbatim>\<open>secrets.go\<close>: the
  composition of a site configuration into the canonical site, the declaration of each enabled
  module, and the secret contracts.

  \<open>sort.Slice\<close> is the stable sort of the model; the keys it sorts by are unique in every
  composed site.  The parameters of a composition are the URL parser, the iteration order of the
  resolution, the embedded build bundle and SHA-256; \<open>environment\<close> bundles them.
\<close>

section \<open>Definitions\<close>

record environment =
  env_urlParse :: url_parser
  env_sched :: schedule
  env_bundle :: build_bundle
  env_sha256 :: "string \<Rightarrow> string"

definition IsEnabled :: "Site \<Rightarrow> string \<Rightarrow> bool" where
  "IsEnabled s name = (case find (\<lambda>m. sm_Name m = name) (s_Modules s) of Some m \<Rightarrow> sm_Enabled m | None \<Rightarrow> False)"

definition moduleComponentReference :: "Site \<Rightarrow> string \<Rightarrow> Component option" where
  "moduleComponentReference s name = find (\<lambda>c. c_Name c = name) (PlatformComponents s)"

subsection \<open>Guests\<close>

definition project_guest :: "ModuleDefinition \<Rightarrow> Site \<Rightarrow> Component \<Rightarrow> gerror + Component" where
  "project_guest d s g =
     bindE
       (if d_PlacementZoneType d \<noteq> [] then
          (case ZoneForType s (d_PlacementZoneType d) of
             Inl e \<Rightarrow> Inl (Wrapf ''module %s placement: %w'' [d_Name d] e)
           | Inr zone \<Rightarrow> Inr (g\<lparr>c_Zone := z_Name zone\<rparr>))
        else Inr g)
     (\<lambda>c. Inr (c\<lparr>c_Module := d_Name d,
        c_Tags := sort (c_Tags c @
          (if d_Name d = ''airvpn'' \<or> d_Name d = ''tailnet-router'' then [TagMonitoringAgent] else []) @
          [TagBoetticher, TagManaged, TagModule, ''module-'' @ d_Name d, ModuleOwnershipTag (d_Name d), TagBackup]),
        c_SSHUser := DefaultAdminSSHUser, c_SSHPort := 22, c_Logging := True\<rparr>))"

definition moduleGuestProjections :: "ModuleDefinition \<Rightarrow> Site \<Rightarrow> gerror + Component list" where
  "moduleGuestProjections d s = mapE (project_guest d s) (d_Guests d)"

definition composeComponents ::
  "Component list \<Rightarrow> ResolvedModule list \<Rightarrow> Site \<Rightarrow> gerror + Component list" where
  "composeComponents base resolved s =
     bindE (mapE (\<lambda>m. moduleGuestProjections (rs_Definition m) s) (filter rs_Enabled resolved))
       (\<lambda>projected. Inr (sort_key c_Name (base @ concat projected)))"

subsection \<open>Declarations\<close>

abbreviation "tailscaleDERPRegionCount \<equiv> (28::nat)"

definition zero_ModuleDeclaration :: ModuleDeclaration where
  "zero_ModuleDeclaration =
     \<lparr>md_Module = [], md_Artifact = \<lparr>art_Name = [], art_Version = [], art_Architecture = [], art_Kind = [],
        art_DefinitionSHA256 = [], art_ContentSHA256 = []\<rparr>,
      md_Guests = [], md_Persistent = [], md_Volumes = [], md_Secrets = [], md_NetworkIntents = [],
      md_DNSRecords = [], md_DHCPReservations = [], md_Certificates = [], md_Monitoring = [], md_Backups = [],
      md_Security = \<lparr>gs_Unprivileged = False, gs_Devices = [], gs_Capabilities = []\<rparr>,
      md_USBRequirements = [], md_AdvertisedRoutes = [], md_ReturnRouting = []\<rparr>"

definition egress :: "string \<Rightarrow> string \<Rightarrow> string \<Rightarrow> string \<Rightarrow> string \<Rightarrow> string \<Rightarrow> NetworkIntent" where
  "egress source destination endpoint protocol port purpose =
     \<lparr>ni_Source = source, ni_Destination = destination, ni_Endpoint = endpoint, ni_Protocol = protocol,
      ni_Ports = [port], ni_Direction = ''egress'', ni_Purpose = purpose\<rparr>"

definition appendUniqueSecret :: "SecretDeclaration list \<Rightarrow> SecretDeclaration \<Rightarrow> SecretDeclaration list" where
  "appendUniqueSecret secrets secret =
     (if list_ex (\<lambda>x. sec_Name x = sec_Name secret) secrets then secrets else secrets @ [secret])"

definition persistent_state :: "string \<Rightarrow> string \<Rightarrow> string \<Rightarrow> string \<Rightarrow> bool \<Rightarrow> PersistentState" where
  "persistent_state guest name path kind sensitive =
     \<lparr>ps_Name = name, ps_Guest = guest, ps_Path = path, ps_Kind = kind, ps_Backup = True,
      ps_Sensitive = sensitive, ps_Replacement = ''retain-across-rootfs-replacement''\<rparr>"

definition persistentFor :: "string \<Rightarrow> string \<Rightarrow> PersistentState list" where
  "persistentFor module guest =
     (let p = persistent_state guest;
          identity = p ''ssh-identity'' ''/var/lib/boetticher/identity/ssh'' ''endpoint-identity'' True
      in if module = ''dns'' then
           [identity, p ''powerdns-database'' ''/var/lib/powerdns'' ''application-database'' True]
         else if module = ''firewall'' then
           [identity, p ''kea-leases'' ''/var/lib/kea'' ''lease-state'' False,
            p ''firewall-telemetry'' ''/var/lib/boetticher/firewall-telemetry'' ''firewall-telemetry-database'' False]
         else if module = ''tailnet-router'' then
           [identity, p ''tailscale-state'' ''/var/lib/tailscale'' ''node-identity'' True]
         else if module = ''bifrost'' then
           [identity, p ''tls-identity'' ''/var/lib/boetticher/identity/tls'' ''endpoint-tls'' True]
         else [identity])"

definition volume :: "string \<Rightarrow> string \<Rightarrow> string \<Rightarrow> string \<Rightarrow> int \<Rightarrow> PersistentVolumeDeclaration" where
  "volume module guest name mount sizeGiB =
     \<lparr>vol_Name = name, vol_Module = module, vol_Guest = guest, vol_SizeGiB = sizeGiB, vol_MountPath = mount,
      vol_Placement = StorageDefault, vol_Backup = True, vol_Storage = []\<rparr>"

definition volumesFor :: "string \<Rightarrow> string \<Rightarrow> PersistentVolumeDeclaration list" where
  "volumesFor module guest =
     (let v = volume module guest; identity = v ''ssh-identity'' ''/var/lib/boetticher/identity/ssh'' 1
      in if module = ''dns'' then [identity, v ''powerdns-database'' ''/var/lib/powerdns'' 8]
         else if module = ''firewall'' then
           [identity, v ''kea-leases'' ''/var/lib/kea'' 4,
            v ''firewall-telemetry'' ''/var/lib/boetticher/firewall-telemetry'' 2]
         else if module = ''tailnet-router'' then [identity, v ''tailscale-state'' ''/var/lib/tailscale'' 4]
         else if module = ''bifrost'' then [identity, v ''tls-identity'' ''/var/lib/boetticher/identity/tls'' 1]
         else [identity])"

text \<open>The part every declaration has: artifact, guests, and one entry per guest.\<close>

definition declare_guest :: "string \<Rightarrow> string \<Rightarrow> Component \<Rightarrow> ModuleDeclaration \<Rightarrow> ModuleDeclaration" where
  "declare_guest name domain c m =
     m\<lparr>md_Guests := md_Guests m @ [c],
       md_Backups := md_Backups m @ [\<lparr>bk_Guest = c_Name c, bk_Policy = ''platform-default''\<rparr>],
       md_Monitoring := md_Monitoring m @ [\<lparr>mon_Name = c_Name c, mon_Kind = ''host'', mon_Target = c_Hostname c,
         mon_Checks = [''cpu'', ''memory'', ''filesystem'', ''service''],
         mon_Description = name @ '' module appliance health''\<rparr>],
       md_Certificates := md_Certificates m @ [\<lparr>cert_Identity = c_Hostname c,
         cert_SANs = [c_Hostname c @ ''.'' @ domain], cert_Consumer = c_Name c\<rparr>],
       md_Persistent := md_Persistent m @ persistentFor name (c_Name c),
       md_Volumes := md_Volumes m @ volumesFor name (c_Name c)\<rparr>"

definition declaration_artifact :: "environment \<Rightarrow> ModuleDefinition \<Rightarrow> gerror + Artifact" where
  "declaration_artifact env d =
     (if d_Name d = ''monitoring'' then
        Inr \<lparr>art_Name = ''boetticher-observability'', art_Version = d_Version d, art_Architecture = ''amd64'',
          art_Kind = ''lxc'', art_DefinitionSHA256 = replicate 64 (CHR ''0''), art_ContentSHA256 = []\<rparr>
      else ArtifactFor (env_bundle env) (env_sha256 env) (d_Name d))"

definition tsig_secret :: SecretDeclaration where
  "tsig_secret = \<lparr>sec_Name = ''ddns_tsig_secret'', sec_Purpose = ''authenticated DHCP DNS updates'',
     sec_Consumer = ''kea-dhcp-ddns-server'', sec_Generation = ''random'', sec_Rotation = ''replaceable'',
     sec_Delivery = ''systemd-credential-to-ephemeral-secret-file'', sec_Lifecycle = SecretLifecycleRuntime,
     sec_Persistent = False\<rparr>"

definition journal_intent :: "Site \<Rightarrow> string \<Rightarrow> NetworkIntent list" where
  "journal_intent s guest =
     (if IsEnabled s ''logging''
      then [egress guest (''logs.'' @ nw_Domain (s_Network s)) [] ''tcp'' ''19532'' ''native journal upload''] else [])"

definition declare_dns :: "Site \<Rightarrow> ModuleDeclaration \<Rightarrow> ModuleDeclaration" where
  "declare_dns s m =
     m\<lparr>md_Secrets := [tsig_secret, tsig_secret\<lparr>sec_Purpose := ''PowerDNS authenticated update authorization'',
          sec_Consumer := ''powerdns-authoritative'', sec_Delivery := ''protected-powerdns-backend'',
          sec_Persistent := True\<rparr>],
       md_DNSRecords := [\<lparr>dr_Name = ''dns01.'' @ nw_Domain (s_Network s), dr_Type = ''A'',
          dr_Address = ''10.10.10.10'', dr_Owner = ''dns''\<rparr>]\<rparr>"

definition declare_monitoring :: "ModuleDeclaration \<Rightarrow> ModuleDeclaration" where
  "declare_monitoring m =
     m\<lparr>md_NetworkIntents := [egress ''lab-monitor-01'' LogicalProxmoxIdentity [] ''tcp'' ''8006''
        ''observability Proxmox API collection'']\<rparr>"

definition declare_logging :: "Site \<Rightarrow> ModuleDeclaration \<Rightarrow> ModuleDeclaration" where
  "declare_logging s m =
     (let logs = ''logs.'' @ nw_Domain (s_Network s)
      in m\<lparr>md_NetworkIntents :=
             [egress ''boetticher-managed-endpoints'' logs [] ''tcp'' ''19532'' ''native journal upload'',
              egress LogicalProxmoxIdentity logs [] ''tcp'' ''19532'' ''native Proxmox journal upload''],
           md_Certificates := md_Certificates m @ [\<lparr>cert_Identity = logs, cert_SANs = [logs],
              cert_Consumer = ''systemd-journal-remote''\<rparr>]\<rparr>)"

definition two_digits :: "nat \<Rightarrow> string" where
  "two_digits n = (if n < 10 then ''0'' @ itoa (int n) else itoa (int n))"

definition derp_intent :: "nat \<Rightarrow> NetworkIntent" where
  "derp_intent region =
     egress ''lab-tailnet-01'' (''tailscale-derp-'' @ two_digits region)
       (''https://'' @ ''derp'' @ itoa (int region) @ ''-all.tailscale.com'') ''tcp'' ''443''
       ''Tailscale DERP region operation''"

definition routed_intent :: "Site \<Rightarrow> string \<times> string \<times> string \<Rightarrow> NetworkIntent list" where
  "routed_intent s target =
     (case target of (component, destination, purpose) \<Rightarrow>
        if moduleComponentReference s component \<noteq> None
        then [egress ''lab-tailnet-01'' destination [] ''tcp'' ''443'' purpose] else [])"

definition declare_tailnet :: "Site \<Rightarrow> ModuleDeclaration \<Rightarrow> ModuleDeclaration" where
  "declare_tailnet s m =
     m\<lparr>md_Secrets := [\<lparr>sec_Name = ''tailscale_auth_key'',
          sec_Purpose = ''initial Tailscale registration or re-registration'', sec_Consumer = ''tailscaled'',
          sec_Generation = ''operator-supplied'', sec_Rotation = ''replaceable'',
          sec_Delivery = ''systemd-credential-to-ephemeral-secret-file'',
          sec_Lifecycle = SecretLifecycleBootstrap, sec_Persistent = False\<rparr>],
       md_AdvertisedRoutes := [''10.10.0.0/16''],
       md_ReturnRouting := [''Tailnet return traffic for 10.10.0.0/16 must use the TRANSIT gateway 10.10.5.1''],
       md_Security := \<lparr>gs_Unprivileged = True, gs_Devices = [\<lparr>dev_Name = ''tun'', dev_Path = ''/dev/net/tun'',
          dev_Type = ''c'', dev_Major = 10, dev_Minor = 200, dev_Access = ''rwm''\<rparr>], gs_Capabilities = []\<rparr>,
       md_NetworkIntents :=
         [egress ''lab-tailnet-01'' ''dns'' [] ''tcp/udp'' ''53'' ''Tailscale router DNS resolution'',
          egress ''lab-tailnet-01'' ''dns'' [] ''udp'' ''123'' ''Tailscale router time synchronisation'',
          egress ''lab-tailnet-01'' ''tailscale-control-plane'' ''https://controlplane.tailscale.com'' ''tcp'' ''443''
            ''Tailscale control-plane operation''] @
         concat (map (routed_intent s)
           [(''lab-bifrost-01'', ''bifrost'', ''routed Bifrost HTTPS access''),
            (''lab-monitor-01'', ''monitor'', ''routed monitoring HTTPS access'')]) @
         map derp_intent [1..<Suc tailscaleDERPRegionCount] @ journal_intent s ''lab-tailnet-01'',
       md_Monitoring := md_Monitoring m @ [\<lparr>mon_Name = ''tailscaled'', mon_Kind = ''service'',
          mon_Target = ''lab-tailnet-01'', mon_Checks = [''tailscaled'', ''route-advertisement''],
          mon_Description = ''Tailscale daemon and advertised subnet route health''\<rparr>]\<rparr>"

definition upstream_secret :: "BifrostUpstreamConfig \<Rightarrow> SecretDeclaration" where
  "upstream_secret u = \<lparr>sec_Name = bu_APIKeySecret u,
     sec_Purpose = ''server-side credential for the configured Bifrost upstream'', sec_Consumer = ''bifrost'',
     sec_Generation = ''operator-supplied'', sec_Rotation = ''replaceable'',
     sec_Delivery = ''systemd-credential-to-ephemeral-secret-file'', sec_Lifecycle = SecretLifecycleRuntime,
     sec_Persistent = False\<rparr>"

definition declare_bifrost :: "Site \<Rightarrow> ModuleDeclaration \<Rightarrow> ModuleDeclaration" where
  "declare_bifrost s m =
     (let config = (case map_of (s_ModuleConfig s) ''bifrost'' of None \<Rightarrow> zero_ModuleConfig | Some c \<Rightarrow> c);
          domain = nw_Domain (s_Network s)
      in m\<lparr>md_Secrets := fold (\<lambda>u secrets. appendUniqueSecret secrets (upstream_secret u)) (mc_Upstreams config) (md_Secrets m),
           md_NetworkIntents := md_NetworkIntents m @
             map (\<lambda>u. egress ''lab-bifrost-01'' (bu_Name u) (bu_BaseURL u) ''tcp'' ''443''
                   ''configured Bifrost upstream HTTPS access'') (mc_Upstreams config) @
             [egress ''lab-bifrost-01'' ''dns'' [] ''tcp/udp'' ''53'' ''Bifrost DNS resolution'',
              egress ''lab-bifrost-01'' ''dns'' [] ''udp'' ''123'' ''Bifrost time synchronisation''] @
             journal_intent s ''lab-bifrost-01'',
           md_Certificates := md_Certificates m @ [\<lparr>cert_Identity = ''bifrost.'' @ domain,
              cert_SANs = [''bifrost.'' @ domain, ''ai.'' @ domain], cert_Consumer = ''nginx''\<rparr>],
           md_Monitoring := md_Monitoring m @
             [\<lparr>mon_Name = ''nginx'', mon_Kind = ''service'', mon_Target = ''lab-bifrost-01'',
               mon_Checks = [''nginx'', ''https'', ''mtls''], mon_Description = ''Bifrost mTLS frontend health''\<rparr>,
              \<lparr>mon_Name = ''bifrost'', mon_Kind = ''service'', mon_Target = ''lab-bifrost-01'',
               mon_Checks = [''bifrost'', ''loopback''], mon_Description = ''Bifrost loopback backend health''\<rparr>]\<rparr>)"

definition declare_gatus :: "Site \<Rightarrow> ModuleDeclaration \<Rightarrow> ModuleDeclaration" where
  "declare_gatus s m =
     (let domain = nw_Domain (s_Network s)
      in m\<lparr>md_NetworkIntents :=
             [egress ''lab-gatus-01'' ''dns'' [] ''tcp/udp'' ''53'' ''Gatus DNS resolution'',
              egress ''lab-gatus-01'' ''dns'' [] ''udp'' ''123'' ''Gatus time synchronisation''],
           md_Certificates := md_Certificates m @ [\<lparr>cert_Identity = ''gatus.'' @ domain,
             cert_SANs = [''gatus.'' @ domain, ''lab-gatus-01.'' @ domain], cert_Consumer = ''nginx''\<rparr>]\<rparr>)"

definition declaration_case :: "string \<Rightarrow> Site \<Rightarrow> ModuleDeclaration \<Rightarrow> gerror + ModuleDeclaration" where
  "declaration_case name s m =
     (if name = ''dns'' then Inr (declare_dns s m)
      else if name = ''monitoring'' then Inr (declare_monitoring m)
      else if name = ''firewall'' then Inr (m\<lparr>md_Secrets := [tsig_secret]\<rparr>)
      else if name = ''logging'' then Inr (declare_logging s m)
      else if name = ''tailnet-router'' then Inr (declare_tailnet s m)
      else if name = ''bifrost'' then Inr (declare_bifrost s m)
      else if name = ''gatus'' then Inr (declare_gatus s m)
      else Inl (Errorf ''no declaration implementation for first-party module %q'' [name]))"

definition declarationFor :: "environment \<Rightarrow> ModuleDefinition \<Rightarrow> Site \<Rightarrow> gerror + ModuleDeclaration" where
  "declarationFor env d s =
     bindE (moduleGuestProjections d s) (\<lambda>components.
     bindE (declaration_artifact env d) (\<lambda>artifact.
     declaration_case (d_Name d) s
       (fold (declare_guest (d_Name d) (nw_Domain (s_Network s))) components
         (zero_ModuleDeclaration\<lparr>md_Module := d_Name d, md_Artifact := artifact,
            md_USBRequirements := d_USBRequirements d\<rparr>))))"

definition composeDeclarations ::
  "environment \<Rightarrow> Site \<Rightarrow> ResolvedModule list \<Rightarrow> gerror + ModuleDeclaration list" where
  "composeDeclarations env s resolved =
     bindE (mapE (\<lambda>m. declarationFor env (rs_Definition m) s) (filter rs_Enabled resolved))
       (\<lambda>declarations. Inr (sort_key md_Module declarations))"

subsection \<open>The Gatus contract\<close>

definition gatus_guest_step ::
  "url_parser \<Rightarrow> Component \<Rightarrow> Component \<Rightarrow> string list \<times> NetworkIntent list
   \<Rightarrow> gerror + string list \<times> NetworkIntent list" where
  "gatus_guest_step urlParse gatus guest st =
     (case st of (seen, intents) \<Rightarrow>
        if c_URL guest = [] \<or> \<not> c_ProductOwned guest \<or> c_Module guest = [] \<or> c_Zone guest = c_Zone gatus then Inr st
        else
          let refuse = Errorf ''Gatus endpoint for %s must be an HTTPS URL with a hostname'' [c_Name guest] in
          case urlParse (c_URL guest) of
            None \<Rightarrow> Inl refuse
          | Some parsed \<Rightarrow>
            if u_Scheme parsed \<noteq> ''https'' \<or> u_Hostname parsed = [] \<or> u_HasUser parsed then Inl refuse
            else
              (let key = c_Name guest @ [CHR 0x00] @ u_Hostname parsed
               in if key \<in> set seen then Inr st
                  else Inr (key # seen, intents @
                    [egress ''lab-gatus-01'' (c_Hostname guest) (c_URL guest) ''tcp'' ''443''
                      (''Gatus HTTPS check for '' @ c_Name guest)])))"

text \<open>Two stable sorts, the less significant key first, are the one comparison of the source.\<close>

definition sort_intents :: "NetworkIntent list \<Rightarrow> NetworkIntent list" where
  "sort_intents xs = sort_key ni_Destination (sort_key ni_Purpose xs)"

fun update_first :: "('a \<Rightarrow> bool) \<Rightarrow> ('a \<Rightarrow> 'a) \<Rightarrow> 'a list \<Rightarrow> 'a list" where
  "update_first P f [] = []"
| "update_first P f (x # xs) = (if P x then f x # xs else x # update_first P f xs)"

definition addGatusEndpointIntents :: "url_parser \<Rightarrow> Site \<Rightarrow> gerror + Site" where
  "addGatusEndpointIntents urlParse s =
     (if \<not> IsEnabled s ''gatus'' then Inr s
      else case find (\<lambda>m. md_Module m = ''gatus'') (s_Declarations s) of
        None \<Rightarrow> Inr s
      | Some gatus \<Rightarrow>
        (case moduleComponentReference s ''lab-gatus-01'' of
           None \<Rightarrow> Inr s
         | Some gatusGuest \<Rightarrow>
           bindE (foldE (gatus_guest_step urlParse gatusGuest)
               (concat (map md_Guests (filter (\<lambda>m. md_Module m \<noteq> ''gatus'') (s_Declarations s))))
               ([], md_NetworkIntents gatus))
             (\<lambda>(_, intents). Inr (s\<lparr>s_Declarations :=
                update_first (\<lambda>m. md_Module m = ''gatus'')
                  (\<lambda>m. m\<lparr>md_NetworkIntents := sort_intents intents\<rparr>) (s_Declarations s)\<rparr>))))"

subsection \<open>Composition\<close>

definition site_module :: "ResolvedModule \<Rightarrow> SiteModule" where
  "site_module m = (let d = rs_Definition m in
     \<lparr>sm_Name = d_Name d, sm_Version = d_Version d, sm_Policy = d_Policy d, sm_Enabled = rs_Enabled m,
      sm_Reason = rs_Reason m, sm_State = rs_State m, sm_DependsOn = d_DependsOn d, sm_Requires = d_Requires d,
      sm_Provides = d_Provides d\<rparr>)"

definition wrap_error :: "string \<Rightarrow> gerror + 'a \<Rightarrow> gerror option + 'a" where
  "wrap_error fmt x = (case x of Inl e \<Rightarrow> Inl (Some (Wrapf fmt [] e)) | Inr y \<Rightarrow> Inr y)"

definition ComposeSite :: "environment \<Rightarrow> SiteConfig \<Rightarrow> gerror option + Site \<times> ResolvedModule list" where
  "ComposeSite env config =
     bindE (Resolve (env_urlParse env) (env_sched env) FirstPartyRegistry config) (\<lambda>resolved.
     let base = BaseSite config in
     bindE (lift_error (composeComponents (s_Components base) resolved base)) (\<lambda>components.
     let s1 = base\<lparr>s_Components := components\<rparr> in
     bindE (lift_error (composeDeclarations env s1 resolved)) (\<lambda>declarations.
     let s2 = s1\<lparr>s_Declarations := declarations,
                 s_DHCPReservations := s_DHCPReservations s1 @ concat (map md_DHCPReservations declarations),
                 s_Modules := map site_module resolved\<rparr> in
     bindE (wrap_error ''compose Gatus network contract: %w'' (addGatusEndpointIntents (env_urlParse env) s2)) (\<lambda>s.
     bindE (wrap_error ''compose canonical site: %w'' (ValidateSite (env_urlParse env) s)) (\<lambda>_.
     Inr (s, resolved))))))"

subsection \<open>Secret contracts\<close>

definition declarationByName :: "ModuleDeclaration list \<Rightarrow> string \<Rightarrow> ModuleDeclaration option" where
  "declarationByName declarations name = find (\<lambda>m. md_Module m = name) declarations"

fun first_by_name :: "SecretDeclaration list \<Rightarrow> SecretDeclaration list \<Rightarrow> SecretDeclaration list" where
  "first_by_name [] acc = acc"
| "first_by_name (x # xs) acc =
     first_by_name xs (if list_ex (\<lambda>y. sec_Name y = sec_Name x) acc then acc else acc @ [x])"

definition sortedSecretDeclarations :: "SecretDeclaration list \<Rightarrow> SecretDeclaration list" where
  "sortedSecretDeclarations secrets = sort_key sec_Name (first_by_name secrets [])"

definition inactive_site :: "SiteConfig \<Rightarrow> Site" where
  "inactive_site config =
     (let base = BaseSite config; configs = ModulesMap (sc_Modules config)
      in base\<lparr>s_ModuleConfig := configs,
           s_Modules := s_Modules base @ map (\<lambda>d.
             \<lparr>sm_Name = d_Name d, sm_Version = [], sm_Policy = [],
              sm_Enabled = (case map_of configs (d_Name d) of
                 Some c \<Rightarrow> (case mc_Enabled c of Some e \<Rightarrow> e | None \<Rightarrow> defaultEnabled (d_Policy d))
               | None \<Rightarrow> defaultEnabled (d_Policy d)),
              sm_Reason = [], sm_State = [], sm_DependsOn = [], sm_Requires = [], sm_Provides = []\<rparr>)
             (Definitions FirstPartyRegistry)\<rparr>)"

definition bifrost_secrets_known :: "url_parser \<Rightarrow> SiteConfig \<Rightarrow> gerror + unit" where
  "bifrost_secrets_known urlParse config =
     (case map_of (ModulesMap (sc_Modules config)) ''bifrost'' of
        None \<Rightarrow> Inl (Errorf ''module bifrost requires configured upstreams and model aliases before its secret names are known'' [])
      | Some c \<Rightarrow>
        if mc_Upstreams c = [] \<or> mc_Models c = [] then
          Inl (Errorf ''module bifrost requires configured upstreams and model aliases before its secret names are known'' [])
        else ValidateBifrostConfig urlParse c)"

definition SecretDeclarations ::
  "environment \<Rightarrow> SiteConfig \<Rightarrow> string \<Rightarrow> gerror option + SecretDeclaration list" where
  "SecretDeclarations env config name =
     (case Definition FirstPartyRegistry name of
        None \<Rightarrow> Inl (Some (Errorf ''unknown first-party module %q'' [name]))
      | Some d \<Rightarrow>
        bindE (ComposeSite env config) (\<lambda>(s, _).
          case declarationByName (s_Declarations s) name of
            Some m \<Rightarrow> Inr (sortedSecretDeclarations (md_Secrets m))
          | None \<Rightarrow>
            bindE (lift_error (if name = ''bifrost'' then bifrost_secrets_known (env_urlParse env) config else Inr ())) (\<lambda>_.
            (case declarationFor env d (inactive_site config) of
               Inl e \<Rightarrow> Inl (Some (Wrapf ''resolve secret declarations for module %s: %w'' [name] e))
             | Inr m \<Rightarrow> Inr (sortedSecretDeclarations (md_Secrets m))))))"

definition configured_secrets_step ::
  "environment \<Rightarrow> SiteConfig \<Rightarrow> string \<Rightarrow> (string \<times> ModuleDeclaration) list
   \<Rightarrow> gerror option + (string \<times> ModuleDeclaration) list" where
  "configured_secrets_step env config name byModule =
     (if map_of byModule name \<noteq> None then Inr byModule
      else bindE (SecretDeclarations env config name) (\<lambda>secrets.
        Inr (assoc_set name (zero_ModuleDeclaration\<lparr>md_Module := name, md_Secrets := secrets\<rparr>) byModule)))"

definition AllSecretDeclarations ::
  "environment \<Rightarrow> SiteConfig \<Rightarrow> gerror option + ModuleDeclaration list" where
  "AllSecretDeclarations env config =
     bindE (ComposeSite env config) (\<lambda>(s, _).
     let active = fold (\<lambda>m. assoc_set (md_Module m) (m\<lparr>md_Secrets := sortedSecretDeclarations (md_Secrets m)\<rparr>))
           (s_Declarations s) [];
         names = sort (map fst (ModulesMap (sc_Modules config))) in
     bindE (foldE (configured_secrets_step env config) names active) (\<lambda>byModule.
     Inr (sort_key md_Module (filter (\<lambda>m. md_Secrets m \<noteq> []) (map snd byModule)))))"

end
