(* ===== verification/Composition.thy ===== *)
theory Composition
  imports Compose "HOL-Library.Multiset"
begin

text \<open>
  Correctness of the composition: what a composed site holds, that the guests of the component list
  and of the declarations are the same, and what the secret contracts list.
\<close>

section \<open>Specifications\<close>

text \<open>A guest as its module's definition places it.\<close>

definition owned_guest :: "Site \<Rightarrow> ModuleDefinition \<Rightarrow> Component \<Rightarrow> bool" where
  "owned_guest s d c \<longleftrightarrow>
     c_Module c = d_Name d \<and> ModuleOwnershipTag (d_Name d) \<in> set (c_Tags c) \<and> c_Logging c \<and>
     (\<exists>g \<in> set (d_Guests d). c_Name c = c_Name g \<and> c_VMID c = c_VMID g \<and> c_Address c = c_Address g \<and>
        (if d_PlacementZoneType d = [] then c_Zone c = c_Zone g
         else \<exists>z \<in> set (nw_Zones (s_Network s)). z_Type z = d_PlacementZoneType d \<and> c_Zone c = z_Name z))"

definition https_parse :: url_parser where
  "https_parse u =
     (if HasPrefix u ''https://'' then
        Some \<lparr>u_Scheme = ''https'', u_Host = drop 8 u, u_HasUser = False, u_RawQuery = [], u_Fragment = [],
              u_Hostname = drop 8 u\<rparr>
      else None)"

text \<open>A bundle of empty directories: every recipe digest covers the identity alone.\<close>

definition empty_bundle :: build_bundle where
  "empty_bundle = \<lparr>fs_IsDir = (\<lambda>_. Inr True), fs_Walk = (\<lambda>_. Inr []), fs_ReadFile = (\<lambda>_. Inr [])\<rparr>"

definition demo_env :: environment where
  "demo_env = \<lparr>env_urlParse = https_parse, env_sched = plain_sched, env_bundle = empty_bundle,
     env_sha256 = (\<lambda>bytes. replicate 64 (CHR ''a''))\<rparr>"

text \<open>A small site whose operator mentions Bifrost without enabling it.\<close>

definition quiet_config :: SiteConfig where
  "quiet_config = managed_config\<lparr>sc_Modules := demo_modules\<lparr>mods_Firewall := None, mods_TailnetRouter := None,
     mods_Bifrost := Some \<lparr>bf_Enabled = Some False, bf_Network = [], bf_Upstreams = [], bf_Models = []\<rparr>\<rparr>\<rparr>"

text \<open>The composition after the resolution.\<close>

definition compose_rest :: "environment \<Rightarrow> SiteConfig \<Rightarrow> ResolvedModule list \<Rightarrow> gerror option + Site \<times> ResolvedModule list" where
  "compose_rest env config resolved =
     (let base = BaseSite config in
     bindE (lift_error (composeComponents (s_Components base) resolved base)) (\<lambda>components.
     let s1 = base\<lparr>s_Components := components\<rparr> in
     bindE (lift_error (composeDeclarations env s1 resolved)) (\<lambda>declarations.
     let s2 = s1\<lparr>s_Declarations := declarations,
                 s_DHCPReservations := s_DHCPReservations s1 @ concat (map md_DHCPReservations declarations),
                 s_Modules := map site_module resolved\<rparr> in
     bindE (wrap_error ''compose Gatus network contract: %w'' (addGatusEndpointIntents (env_urlParse env) s2)) (\<lambda>s.
     bindE (wrap_error ''compose canonical site: %w'' (ValidateSite (env_urlParse env) s)) (\<lambda>_.
     Inr (s, resolved))))))"

definition quiet_resolved :: "ResolvedModule list" where
  "quiet_resolved =
     map (enabled_entry FirstPartyRegistry [(''dns'', ''mandatory''), (''firewall'', ''default''), (''monitoring'', ''default'')])
       [''firewall'', ''dns'', ''monitoring''] @
     map (disabled_entry (ModulesMap (sc_Modules quiet_config)))
       [definition_or_zero FirstPartyRegistry ''bifrost'', definition_or_zero FirstPartyRegistry ''tailnet-router'']"

definition quiet_site :: Site where
  "quiet_site = (case ComposeSite demo_env quiet_config of Inr (s, _) \<Rightarrow> s | Inl _ \<Rightarrow> BaseSite quiet_config)"

text \<open>The same site with no module mentioned at all.\<close>

definition plain_config :: SiteConfig where
  "plain_config = managed_config\<lparr>sc_Modules := demo_modules\<lparr>mods_DNS := None, mods_Firewall := None,
     mods_TailnetRouter := None\<rparr>\<rparr>"

definition plain_resolved :: "ResolvedModule list" where
  "plain_resolved =
     map (enabled_entry FirstPartyRegistry [(''dns'', ''mandatory''), (''firewall'', ''default''), (''monitoring'', ''default'')])
       [''firewall'', ''dns'', ''monitoring''] @
     map (disabled_entry [])
       [definition_or_zero FirstPartyRegistry ''bifrost'', definition_or_zero FirstPartyRegistry ''tailnet-router'']"

definition plain_site :: Site where
  "plain_site = (case ComposeSite demo_env plain_config of Inr (s, _) \<Rightarrow> s | Inl _ \<Rightarrow> BaseSite plain_config)"

abbreviation bifrost_unknown :: gerror where
  "bifrost_unknown \<equiv>
     Errorf ''module bifrost requires configured upstreams and model aliases before its secret names are known'' []"

text \<open>What a composition of the mandatory and default modules declares.\<close>

definition core_declarations :: "Site \<Rightarrow> bool" where
  "core_declarations s \<longleftrightarrow> map md_Module (s_Declarations s) = [''dns'', ''firewall'', ''monitoring''] \<and>
     map (map sec_Name \<circ> md_Secrets) (s_Declarations s) =
       [[''ddns_tsig_secret'', ''ddns_tsig_secret''], [''ddns_tsig_secret''], []]"

section \<open>Guests and declarations\<close>

lemma ZoneForType_Inr:
  "ZoneForType s t = Inr z \<Longrightarrow> z \<in> set (nw_Zones (s_Network s)) \<and> z_Type z = t"
  by (auto simp: ZoneForType_def find_Some_iff split: if_split_asm option.split_asm)

lemma project_guest_owned:
  assumes "project_guest d s g = Inr c" and "g \<in> set (d_Guests d)"
  shows "owned_guest s d c"
  using assms
  by (auto simp: project_guest_def owned_guest_def split: if_split_asm sum.split_asm
      dest!: ZoneForType_Inr intro!: bexI [of _ g])

lemma projections_owned:
  "moduleGuestProjections d s = Inr cs \<Longrightarrow> c \<in> set cs \<Longrightarrow> owned_guest s d c"
  by (auto simp: moduleGuestProjections_def mapE_image intro: project_guest_owned)

lemma projections_network:
  assumes "s_Network s = s_Network s'"
  shows "moduleGuestProjections d s = moduleGuestProjections d s'"
proof -
  have "project_guest d s g = project_guest d s' g" for g
    using assms by (simp add: project_guest_def ZoneForType_def)
  then show ?thesis by (simp add: moduleGuestProjections_def cong: map_cong) (metis ext)
qed

lemma declare_guest_fold:
  "md_Guests (fold (declare_guest n domain) cs m) = md_Guests m @ cs \<and>
   md_Module (fold (declare_guest n domain) cs m) = md_Module m \<and>
   md_DHCPReservations (fold (declare_guest n domain) cs m) = md_DHCPReservations m"
  by (induction cs arbitrary: m) (simp_all add: declare_guest_def)

lemma declaration_case_keeps:
  "declaration_case n s m = Inr m' \<Longrightarrow>
   md_Guests m' = md_Guests m \<and> md_Module m' = md_Module m \<and> md_DHCPReservations m' = md_DHCPReservations m"
  by (auto simp: declaration_case_def declare_dns_def declare_monitoring_def declare_logging_def
      declare_tailnet_def declare_bifrost_def declare_gatus_def Let_def split: if_split_asm)

lemma declarationFor_Inr:
  assumes "declarationFor env d s = Inr m"
  shows "moduleGuestProjections d s = Inr (md_Guests m)" and "md_Module m = d_Name d"
    and "md_DHCPReservations m = []"
  using assms
  by (auto simp: declarationFor_def declare_guest_fold zero_ModuleDeclaration_def dest!: declaration_case_keeps)

section \<open>Composition\<close>

lemma update_first_map: "(\<And>x. g (f x) = g x) \<Longrightarrow> map g (update_first P f xs) = map g xs"
  by (induction xs) simp_all

lemma gatus_keeps:
  assumes "addGatusEndpointIntents p s = Inr s'"
  shows "\<exists>ds. s' = s\<lparr>s_Declarations := ds\<rparr> \<and> map md_Module ds = map md_Module (s_Declarations s) \<and>
    map md_Guests ds = map md_Guests (s_Declarations s)"
proof -
  have "s' = s\<lparr>s_Declarations := s_Declarations s\<rparr> \<or>
    (\<exists>xs. s' = s\<lparr>s_Declarations := update_first (\<lambda>m. md_Module m = ''gatus'')
        (\<lambda>m. m\<lparr>md_NetworkIntents := xs\<rparr>) (s_Declarations s)\<rparr>)"
    using assms
    by (auto simp: addGatusEndpointIntents_def split: if_split_asm option.split_asm)
  then show ?thesis by (elim disjE exE) (blast, auto simp: update_first_map)
qed

lemma wrap_error_Inr [simp]: "wrap_error fmt x = Inr y \<longleftrightarrow> x = Inr y"
  by (cases x) (simp_all add: wrap_error_def)

lemma ComposeSite_Inr:
  assumes "ComposeSite env config = Inr (s, resolved)"
  obtains components ds ds' where
    "Resolve (env_urlParse env) (env_sched env) FirstPartyRegistry config = Inr resolved"
    "composeComponents (s_Components (BaseSite config)) resolved (BaseSite config) = Inr components"
    "composeDeclarations env ((BaseSite config)\<lparr>s_Components := components\<rparr>) resolved = Inr ds"
    "map md_Module ds' = map md_Module ds" "map md_Guests ds' = map md_Guests ds"
    "s = (BaseSite config)\<lparr>s_Components := components, s_Declarations := ds',
       s_DHCPReservations := s_DHCPReservations (BaseSite config) @ concat (map md_DHCPReservations ds),
       s_Modules := map site_module resolved\<rparr>"
    "ValidateSite (env_urlParse env) s = Inr ()"
proof -
  obtain components ds s2 where
    1: "Resolve (env_urlParse env) (env_sched env) FirstPartyRegistry config = Inr resolved"
      "composeComponents (s_Components (BaseSite config)) resolved (BaseSite config) = Inr components"
      "composeDeclarations env ((BaseSite config)\<lparr>s_Components := components\<rparr>) resolved = Inr ds"
      "ValidateSite (env_urlParse env) s = Inr ()"
    and g: "addGatusEndpointIntents (env_urlParse env) s2 = Inr s"
    and s2: "s2 = (BaseSite config)\<lparr>s_Components := components, s_Declarations := ds,
       s_DHCPReservations := s_DHCPReservations (BaseSite config) @ concat (map md_DHCPReservations ds),
       s_Modules := map site_module resolved\<rparr>"
    using assms unfolding ComposeSite_def Let_def by auto
  show thesis
    using gatus_keeps [OF g] by (auto simp: s2 intro!: that [OF 1(1-3) _ _ _ 1(4)])
qed

lemma mset_concat_sort: "mset (concat (map f (sort_key g xs))) = mset (concat (map f xs))"
  by (simp add: mset_concat flip: sum_mset_sum_list)

lemma composeDeclarations_Inr:
  assumes "composeDeclarations env s resolved = Inr ds"
  shows "map md_Module ds = sort (map resolved_name (filter rs_Enabled resolved))"
    and "mapE (\<lambda>m. moduleGuestProjections (rs_Definition m) s) (filter rs_Enabled resolved) = Inr gs \<Longrightarrow>
      mset (concat (map md_Guests ds)) = mset (concat gs)"
    and "m \<in> set ds \<Longrightarrow> \<exists>r \<in> set resolved. rs_Enabled r \<and> md_Module m = resolved_name r \<and>
      moduleGuestProjections (rs_Definition r) s = Inr (md_Guests m) \<and> md_DHCPReservations m = []"
proof -
  let ?on = "filter rs_Enabled resolved"
  obtain ds0 where ds0: "mapE (\<lambda>m. declarationFor env (rs_Definition m) s) ?on = Inr ds0"
    and ds: "ds = sort_key md_Module ds0"
    using assms by (auto simp: composeDeclarations_def)
  have names: "map md_Module ds0 = map resolved_name ?on"
    by (rule mapE_key [OF ds0]) (simp add: declarationFor_Inr resolved_name_def)
  show "map md_Module ds = sort (map resolved_name ?on)"
    unfolding ds names [symmetric]
    by (rule properties_for_sort [symmetric]) simp_all
  show "mset (concat (map md_Guests ds)) = mset (concat gs)"
    if gs: "mapE (\<lambda>m. moduleGuestProjections (rs_Definition m) s) ?on = Inr gs"
  proof -
    have "list_all2 (\<lambda>x y. moduleGuestProjections (rs_Definition x) s = Inr (md_Guests y)) ?on ds0"
      by (rule list_all2_mono [OF ds0 [unfolded mapE_Inr]]) (rule declarationFor_Inr(1))
    then have "mapE (\<lambda>m. moduleGuestProjections (rs_Definition m) s) ?on = Inr (map md_Guests ds0)"
      by (simp add: mapE_Inr list_all2_map2)
    then show ?thesis using gs mset_concat_sort [of md_Guests md_Module ds0] by (simp add: ds)
  qed
  show "\<exists>r \<in> set resolved. rs_Enabled r \<and> md_Module m = resolved_name r \<and>
      moduleGuestProjections (rs_Definition r) s = Inr (md_Guests m) \<and> md_DHCPReservations m = []"
    if "m \<in> set ds"
    using that mapE_image [OF ds0, of m] declarationFor_Inr [of env _ s m] by (auto simp: ds resolved_name_def)
qed

lemma composeComponents_Inr:
  assumes "composeComponents base resolved s = Inr cs"
  shows "sorted (map c_Name cs)"
    and "\<exists>gs. mapE (\<lambda>m. moduleGuestProjections (rs_Definition m) s) (filter rs_Enabled resolved) = Inr gs \<and>
      mset cs = mset base + mset (concat gs)"
  using assms by (auto simp: composeComponents_def)

text \<open>C12: A composed site passes the validation of the canonical site.  It declares exactly the enabled modules, once each and in ascending order; its components are those of the base site together with the guests of the declarations, each guest counted once, and every declared guest carries its module's name and ownership tag, the name, VMID and address of a guest of the module's definition, and a zone of the type the definition asks for.\<close>

theorem composition_faithful:
  assumes "ComposeSite env config = Inr (s, resolved)"
  shows "ValidateSite (env_urlParse env) s = Inr () \<and>
    map sm_Name (s_Modules s) = map resolved_name resolved \<and>
    map md_Module (s_Declarations s) = sort (map resolved_name (filter rs_Enabled resolved)) \<and>
    sorted (map c_Name (s_Components s)) \<and>
    mset (s_Components s) =
      mset (s_Components (BaseSite config)) + mset (concat (map md_Guests (s_Declarations s))) \<and>
    (\<forall>m \<in> set (s_Declarations s). \<exists>r \<in> set resolved. rs_Enabled r \<and> md_Module m = resolved_name r \<and>
       (\<forall>g \<in> set (md_Guests m). owned_guest s (rs_Definition r) g))"
  using assms
proof (cases rule: ComposeSite_Inr)
  case (1 components ds ds')
  let ?base = "BaseSite config"
  let ?s1 = "?base\<lparr>s_Components := components\<rparr>"
  have net: "moduleGuestProjections d ?base = moduleGuestProjections d ?s1"
    "owned_guest ?s1 d g = owned_guest s d g" for d g
    by (rule projections_network) (simp_all add: 1(6) owned_guest_def)
  obtain gs where gs: "mapE (\<lambda>m. moduleGuestProjections (rs_Definition m) ?s1) (filter rs_Enabled resolved) = Inr gs"
    and comps: "mset components = mset (s_Components ?base) + mset (concat gs)"
    using composeComponents_Inr(2) [OF 1(2)] unfolding net by blast
  have owned: "\<exists>r \<in> set resolved. rs_Enabled r \<and> md_Module m = resolved_name r \<and>
      (\<forall>g \<in> set (md_Guests m). owned_guest s (rs_Definition r) g)" if "m \<in> set ds'" for m
  proof -
    from that obtain i where i: "i < length ds'" "m = ds' ! i" by (auto simp: in_set_conv_nth)
    have len: "length ds' = length ds" using 1(4) by (metis length_map)
    then have same: "md_Module m = md_Module (ds ! i)" "md_Guests m = md_Guests (ds ! i)"
      using 1(4,5) i by (metis nth_map)+
    have "ds ! i \<in> set ds" using i len by simp
    from composeDeclarations_Inr(3) [OF 1(3) this] show ?thesis
      using projections_owned [of _ ?s1 "md_Guests m"] same net(2) by metis
  qed
  have "map sm_Name (map site_module resolved) = map resolved_name resolved"
    by (simp add: site_module_def resolved_name_def Let_def)
  then show ?thesis
    using 1(7) owned comps composeComponents_Inr(1) [OF 1(2)] composeDeclarations_Inr(1) [OF 1(3)]
      composeDeclarations_Inr(2) [OF 1(3) gs] 1(4,5)
    by (simp add: 1(6))
qed

section \<open>Secret contracts\<close>

lemma first_by_name_acc:
  "sec_Name ` set (first_by_name xs acc) = sec_Name ` set (acc @ xs) \<and>
   (distinct (map sec_Name acc) \<longrightarrow> distinct (map sec_Name (first_by_name xs acc))) \<and>
   set (first_by_name xs acc) \<subseteq> set (acc @ xs)"
proof (induction xs acc rule: first_by_name.induct)
  case (2 x xs acc)
  show ?case
  proof (cases "list_ex (\<lambda>y. sec_Name y = sec_Name x) acc")
    case True
    then obtain y where y: "y \<in> set acc" "sec_Name x = sec_Name y" by (auto simp: list_ex_iff)
    have "sec_Name x \<in> sec_Name ` set acc" unfolding y(2) by (rule imageI [OF y(1)])
    then show ?thesis using 2 True by auto
  next
    case False
    then have "sec_Name x \<notin> sec_Name ` set acc" by (auto simp: list_ex_iff)
    then show ?thesis using 2 False by auto
  qed
qed simp

lemma sortedSecretDeclarations_exact:
  "map sec_Name (sortedSecretDeclarations xs) = sorted_list_of_set (sec_Name ` set xs) \<and>
   set (sortedSecretDeclarations xs) \<subseteq> set xs"
proof -
  let ?ys = "sortedSecretDeclarations xs"
  have ys: "sorted (map sec_Name ?ys)" "distinct (map sec_Name ?ys)" "set (map sec_Name ?ys) = sec_Name ` set xs"
    using first_by_name_acc [of xs "[]"] by (simp_all add: sortedSecretDeclarations_def distinct_map)
  have "sorted_list_of_set (set (map sec_Name ?ys)) = map sec_Name ?ys"
    by (rule sorted_list_of_set.idem_if_sorted_distinct [OF ys(1,2)])
  moreover have "set ?ys \<subseteq> set xs"
    using first_by_name_acc [of xs "[]"] by (simp add: sortedSecretDeclarations_def)
  ultimately show ?thesis by (simp only: ys(3) simp_thms)
qed

lemma SecretDeclarations_Inr:
  assumes "SecretDeclarations env config name = Inr secrets" and "ComposeSite env config = Inr (s, resolved)"
  shows "\<exists>m. secrets = sortedSecretDeclarations (md_Secrets m) \<and>
    (declarationByName (s_Declarations s) name = Some m \<or>
     declarationByName (s_Declarations s) name = None \<and>
     declarationFor env (definition_or_zero FirstPartyRegistry name) (inactive_site config) = Inr m)"
  using assms
  by (auto simp: SecretDeclarations_def Definition_def definition_or_zero_def
      split: option.split_asm sum.split_asm)

text \<open>The contract lists the names of the declaration's secrets, each once and in ascending order.\<close>

lemma secret_contract_exact:
  assumes "SecretDeclarations env config name = Inr secrets" and "ComposeSite env config = Inr (s, resolved)"
  shows "\<exists>m. map sec_Name secrets = sorted_list_of_set (sec_Name ` set (md_Secrets m)) \<and>
    set secrets \<subseteq> set (md_Secrets m) \<and>
    (declarationByName (s_Declarations s) name = Some m \<or>
     declarationByName (s_Declarations s) name = None \<and>
     declarationFor env (definition_or_zero FirstPartyRegistry name) (inactive_site config) = Inr m)"
  using SecretDeclarations_Inr [OF assms] sortedSecretDeclarations_exact by metis

lemma resolved_names_distinct:
  assumes "fair_sched (env_sched env)" and "ComposeSite env config = Inr (s, resolved)"
  shows "distinct (map md_Module (s_Declarations s))"
  using assms(2)
proof (cases rule: ComposeSite_Inr)
  case (1 components ds ds')
  have "resolve (env_urlParse env) (env_sched env) FirstPartyRegistry config (ModulesMap (sc_Modules config)) = Inr resolved"
    using 1(1) by (auto simp: Resolve_def)
  from first_party_wf assms(1) this have "distinct (map resolved_name (filter rs_Enabled resolved))"
  proof (cases rule: resolve_shape)
    case (1 active reasons ps order)
    have "filter rs_Enabled resolved = map (enabled_entry FirstPartyRegistry reasons) order"
      unfolding 1(8) by (simp add: filter_map comp_def)
    moreover have "map (\<lambda>n. resolved_name (enabled_entry FirstPartyRegistry reasons n)) order = order"
      using 1(7) by (intro map_idI) (simp add: resolved_name_def)
    ultimately show ?thesis using 1(4) by (simp add: comp_def)
  qed
  then show ?thesis using composeDeclarations_Inr(1) [OF 1(3)] 1(4) by (simp add: 1(6))
qed

lemma active_secrets_fold:
  fixes f :: "ModuleDeclaration \<Rightarrow> ModuleDeclaration"
  assumes "distinct (map md_Module ms)" and "m \<in> set ms"
  shows "map_of (fold (\<lambda>m. assoc_set (md_Module m) (f m)) ms acc) (md_Module m) = Some (f m)"
  using assms
proof (induction ms arbitrary: acc)
  case (Cons k ms)
  have other: "map_of (fold (\<lambda>m. assoc_set (md_Module m) (f m)) xs acc) n = map_of acc n"
    if "n \<notin> set (map md_Module xs)" for xs n acc
    using that by (induction xs arbitrary: acc) auto
  show ?case
  proof (cases "m = k")
    case True
    then show ?thesis using Cons.prems(1) other [of "md_Module k" ms] by simp
  next
    case False
    then show ?thesis using Cons by simp
  qed
qed simp

lemma configured_step_keeps:
  assumes "foldE (configured_secrets_step env config) names acc = Inr acc'" and "map_of acc n = Some m"
  shows "map_of acc' n = Some m"
  using assms
proof (rule foldE_invariant [where P = "\<lambda>acc. map_of acc n = Some m"])
  fix x u v
  assume "map_of u n = Some m" "configured_secrets_step env config x u = Inr v"
  then show "map_of v n = Some m" by (auto simp: configured_secrets_step_def split: if_split_asm)
qed

text \<open>C13: The list of all secret contracts leaves out no secret of an active module: every name a composed declaration asks for is listed under that module.\<close>

theorem all_secrets_complete:
  assumes "fair_sched (env_sched env)" and "ComposeSite env config = Inr (s, resolved)"
    and "AllSecretDeclarations env config = Inr all"
    and "m \<in> set (s_Declarations s)" and "x \<in> set (md_Secrets m)"
  shows "\<exists>m' \<in> set all. md_Module m' = md_Module m \<and> sec_Name x \<in> sec_Name ` set (md_Secrets m')"
proof -
  let ?f = "\<lambda>m. m\<lparr>md_Secrets := sortedSecretDeclarations (md_Secrets m)\<rparr>"
  obtain byModule where
    loop: "foldE (configured_secrets_step env config) (sort (map fst (ModulesMap (sc_Modules config))))
      (fold (\<lambda>m. assoc_set (md_Module m) (?f m)) (s_Declarations s) []) = Inr byModule"
    and all: "all = sort_key md_Module (filter (\<lambda>m. md_Secrets m \<noteq> []) (map snd byModule))"
    using assms(2,3) by (auto simp: AllSecretDeclarations_def Let_def)
  have "map_of byModule (md_Module m) = Some (?f m)"
    by (rule configured_step_keeps [OF loop active_secrets_fold [OF resolved_names_distinct [OF assms(1,2)] assms(4)]])
  then have "?f m \<in> set (map snd byModule)" by (force dest: map_of_SomeD)
  moreover have names: "sec_Name x \<in> sec_Name ` set (sortedSecretDeclarations (md_Secrets m))"
    using sortedSecretDeclarations_exact [of "md_Secrets m"] assms(5)
    by (metis finite_imageI finite_set imageI set_map set_sorted_list_of_set)
  moreover have "md_Secrets (?f m) \<noteq> []" using names by auto
  ultimately have "?f m \<in> set all" by (simp only: all set_sort set_filter mem_Collect_eq simp_thms)
  then show ?thesis using names by (intro bexI [of _ "?f m"]) simp_all
qed

lemma bifrost_first:
  "mods_Bifrost m = Some b \<Longrightarrow> \<exists>rest. sort (map fst (ModulesMap m)) = ''bifrost'' # rest"
  by (cases "mods_DNS m"; cases "mods_Monitoring m"; cases "mods_Firewall m"; cases "mods_TailnetRouter m")
    (simp_all add: ModulesMap_def)

text \<open>A site that mentions Bifrost without upstreams and without enabling it has no list of secret contracts at all: the one inactive module makes the whole call fail, although the composition of the site succeeds.\<close>

theorem quiet_bifrost_blocks_secrets:
  assumes "ComposeSite env config = Inr (s, resolved)" and "declarationByName (s_Declarations s) ''bifrost'' = None"
    and "mods_Bifrost (sc_Modules config) = Some b" and "bf_Upstreams b = []"
  shows "AllSecretDeclarations env config = Inl (Some bifrost_unknown)"
proof -
  let ?acc = "fold (\<lambda>m. assoc_set (md_Module m) (m\<lparr>md_Secrets := sortedSecretDeclarations (md_Secrets m)\<rparr>))
    (s_Declarations s) []"
  have "''bifrost'' \<notin> set (map md_Module (s_Declarations s))"
    using assms(2) by (auto simp: declarationByName_def find_None_iff)
  then have none: "map_of ?acc ''bifrost'' = None"
  proof -
    have "n \<notin> set (map md_Module xs) \<Longrightarrow> map_of acc n = None \<Longrightarrow>
      map_of (fold (\<lambda>m. assoc_set (md_Module m) (m\<lparr>md_Secrets := sortedSecretDeclarations (md_Secrets m)\<rparr>)) xs acc) n = None"
      for xs n and acc :: "(string \<times> ModuleDeclaration) list"
      by (induction xs arbitrary: acc) auto
    then show ?thesis using \<open>''bifrost'' \<notin> _\<close> by simp
  qed
  have known: "bifrost_secrets_known (env_urlParse env) config = Inl bifrost_unknown"
    using assms(3,4) by (simp add: bifrost_secrets_known_def)
  have "Definition FirstPartyRegistry ''bifrost'' \<noteq> None" by code_simp
  then have "SecretDeclarations env config ''bifrost'' = Inl (Some bifrost_unknown)"
    using assms(1,2) known by (auto simp: SecretDeclarations_def lift_error_def)
  then have step: "configured_secrets_step env config ''bifrost'' ?acc = Inl (Some bifrost_unknown)"
    using none by (simp add: configured_secrets_step_def)
  obtain rest where "sort (map fst (ModulesMap (sc_Modules config))) = ''bifrost'' # rest"
    using bifrost_first [OF assms(3)] by blast
  then show ?thesis using assms(1) step by (simp add: AllSecretDeclarations_def)
qed

section \<open>Witnesses\<close>

lemma quiet_resolves: "Resolve https_parse plain_sched FirstPartyRegistry quiet_config = Inr quiet_resolved"
  by code_simp

lemma compose_stages:
  "Resolve (env_urlParse env) (env_sched env) FirstPartyRegistry config = Inr rs \<Longrightarrow>
   ComposeSite env config = compose_rest env config rs"
  by (simp add: ComposeSite_def compose_rest_def)

lemma quiet_rest: "case compose_rest demo_env quiet_config quiet_resolved of Inl _ \<Rightarrow> False | Inr (s, _) \<Rightarrow> core_declarations s"
  by code_simp

lemma plain_resolves: "Resolve https_parse plain_sched FirstPartyRegistry plain_config = Inr plain_resolved"
  by code_simp

lemma plain_rest: "case compose_rest demo_env plain_config plain_resolved of Inl _ \<Rightarrow> False | Inr (s, _) \<Rightarrow> core_declarations s"
  by code_simp

lemma staged_run:
  assumes "Resolve https_parse plain_sched FirstPartyRegistry config = Inr rs"
    and "case compose_rest demo_env config rs of Inl _ \<Rightarrow> False | Inr (s, _) \<Rightarrow> core_declarations s"
  shows "\<exists>s. ComposeSite demo_env config = Inr (s, rs) \<and> core_declarations s"
proof -
  have res: "Resolve (env_urlParse demo_env) (env_sched demo_env) FirstPartyRegistry config = Inr rs"
    using assms(1) by (simp add: demo_env_def)
  then obtain s rs' where run: "ComposeSite demo_env config = Inr (s, rs')" "core_declarations s"
    using compose_stages [OF res] assms(2) by (auto split: sum.split_asm)
  from run(1) have "rs' = rs" by (cases rule: ComposeSite_Inr) (use res in simp)
  then show ?thesis using run by blast
qed

lemma quiet_composes: "ComposeSite demo_env quiet_config = Inr (quiet_site, quiet_resolved)" "core_declarations quiet_site"
  using staged_run [OF quiet_resolves quiet_rest] by (auto simp: quiet_site_def)

lemma plain_composes: "ComposeSite demo_env plain_config = Inr (plain_site, plain_resolved)" "core_declarations plain_site"
  using staged_run [OF plain_resolves plain_rest] by (auto simp: plain_site_def)

lemma quiet_bifrost:
  "declarationByName (s_Declarations quiet_site) ''bifrost'' = None"
  "mods_Bifrost (sc_Modules quiet_config) =
     Some \<lparr>bf_Enabled = Some False, bf_Network = [], bf_Upstreams = [], bf_Models = []\<rparr>"
proof -
  have "set (map md_Module (s_Declarations quiet_site)) = {''dns'', ''firewall'', ''monitoring''}"
    using quiet_composes(2) by (simp only: core_declarations_def) simp
  then have "''bifrost'' \<notin> set (map md_Module (s_Declarations quiet_site))" by simp
  then show "declarationByName (s_Declarations quiet_site) ''bifrost'' = None"
    by (force simp: declarationByName_def find_None_iff)
qed (simp add: quiet_config_def)

theorem composition_faithful_witness:
  "map md_Module (s_Declarations quiet_site) = [''dns'', ''firewall'', ''monitoring''] \<and>
   sorted (map c_Name (s_Components quiet_site))"
  using composition_faithful [OF quiet_composes(1)] quiet_composes(2) unfolding core_declarations_def by blast

theorem quiet_bifrost_blocks_secrets_witness:
  "AllSecretDeclarations demo_env quiet_config = Inl (Some bifrost_unknown)"
  by (rule quiet_bifrost_blocks_secrets [OF quiet_composes(1) quiet_bifrost]) simp

theorem all_secrets_complete_witness:
  "\<exists>all. AllSecretDeclarations demo_env plain_config = Inr all \<and>
     (\<exists>m' \<in> set all. md_Module m' = ''dns'' \<and> ''ddns_tsig_secret'' \<in> sec_Name ` set (md_Secrets m'))"
proof -
  obtain m ms where ms: "s_Declarations plain_site = m # ms" and m: "md_Module m = ''dns''"
    "map sec_Name (md_Secrets m) = [''ddns_tsig_secret'', ''ddns_tsig_secret'']"
    using plain_composes(2) unfolding core_declarations_def by (cases "s_Declarations plain_site") auto
  obtain x xs where x: "md_Secrets m = x # xs" "sec_Name x = ''ddns_tsig_secret''" using m(2) by (cases "md_Secrets m") auto
  have fair: "fair_sched (env_sched demo_env)" by (simp add: demo_env_def)
  have "ModulesMap (sc_Modules plain_config) = []"
    by (simp add: plain_config_def demo_modules_def ModulesMap_def)
  then obtain all where all: "AllSecretDeclarations demo_env plain_config = Inr all"
    by (auto simp: AllSecretDeclarations_def plain_composes(1))
  show ?thesis
    using all_secrets_complete [OF fair plain_composes(1) all, of m x] all ms m(1) x by auto
qed

end
