(* ===== verification/Uci_Model.thy ===== *)
theory Uci_Model
  imports Site_Config
begin

text \<open>
  The managed firewall appliance, \<^verbatim>\<open>internal/firewallmodule\<close>: the named sections of its
  native configuration, the names and identities by which Boetticher recognises its own sections
  (\<^verbatim>\<open>reconcile.go\<close>, \<^verbatim>\<open>tailnet.go\<close>, \<^verbatim>\<open>vpn.go\<close>), and the section
  lists that reconciliation compares against (\<^verbatim>\<open>services.go\<close>, \<^verbatim>\<open>desired.go\<close>).

  A Go map is an association list whose keys are distinct; \<open>opt\<close> and \<open>lst\<close> read it as Go does,
  with the zero value for an absent key.  Identifiers are encoded character by character; a
  non-ASCII rune is one character here.
\<close>

section \<open>Sections\<close>

record UCISection =
  us_Type :: string
  us_Options :: "(string \<times> string) list"
  us_Lists :: "(string \<times> string list) list"

record Section =
  sn_Name :: string
  sn_Type :: string
  sn_Options :: "(string \<times> string) list"
  sn_Lists :: "(string \<times> string list) list"

type_synonym uci_package = "(string \<times> UCISection) list"

definition opt :: "(string \<times> string) list \<Rightarrow> string \<Rightarrow> string" where
  "opt m k = (case map_of m k of None \<Rightarrow> [] | Some v \<Rightarrow> v)"

definition lst :: "(string \<times> string list) list \<Rightarrow> string \<Rightarrow> string list" where
  "lst m k = (case map_of m k of None \<Rightarrow> [] | Some v \<Rightarrow> v)"

definition ReplaceChar :: "char \<Rightarrow> string \<Rightarrow> string \<Rightarrow> string" where
  "ReplaceChar c new s = concat (map (\<lambda>x. if x = c then new else [x]) s)"

section \<open>Native names\<close>

definition nativeIdentifier :: "string \<Rightarrow> string" where
  "nativeIdentifier name =
     concat (map (\<lambda>c. if is_alnum c then [c] else if c = CHR ''_'' then ''_u'' else if c = CHR ''-'' then ''_h''
       else if c = CHR ''.'' then ''_d'' else ''_x'') name)"

definition nativeRecordSuffix :: "string \<Rightarrow> string" where
  "nativeRecordSuffix name =
     ''n'' @ concat (map (\<lambda>c. if is_lower c \<or> is_digit c then [c] else if c = CHR ''-'' then ''_h''
       else if c = CHR ''.'' then ''_d'' else ''_x'') name)"

definition nativeHostSectionName :: "string \<Rightarrow> string" where
  "nativeHostSectionName name = ''boetticher_host_'' @ nativeIdentifier name"

definition nativeResolverSectionName :: "string \<Rightarrow> string" where
  "nativeResolverSectionName address = ''boetticher_resolver_'' @ ReplaceChar (CHR ''.'') ''_'' address"

definition nativeRecordSectionName :: "string \<Rightarrow> string" where
  "nativeRecordSectionName name = ''boetticher_record_'' @ nativeRecordSuffix (TrimSuffix name ''.'')"

definition nativeVPNClientMTUSectionName :: "string \<Rightarrow> string" where
  "nativeVPNClientMTUSectionName address = ''boetticher_vpn_client_mtu_'' @ nativeRecordSuffix address"

definition nativeVPNForwardSectionName :: "string \<Rightarrow> string" where
  "nativeVPNForwardSectionName name = ''boetticher_vpn_forward_'' @ nativeRecordSuffix name"

definition systemDNSSectionName :: "string \<Rightarrow> string \<Rightarrow> string" where
  "systemDNSSectionName cname target =
     ''boetticher_system_dns_'' @ nativeRecordSuffix (TrimSuffix cname ''.'') @ ''_to_'' @
     nativeRecordSuffix (TrimSuffix target ''.'')"

section \<open>Managed identities\<close>

definition publication_label :: "(string \<times> string) list \<Rightarrow> string" where
  "publication_label options =
     TrimSuffix (TrimPrefix (opt options ''name'') ''Boetticher system '') '' HOME publication''"

definition homePublicationIdentity ::
  "string \<Rightarrow> (string \<times> string) list \<Rightarrow> (string \<times> string list) list \<Rightarrow> bool" where
  "homePublicationIdentity name options lists0 \<longleftrightarrow>
     HasPrefix name ''boetticher_system_'' \<and> HasSuffix name ''_home_publication'' \<and>
     publication_label options \<noteq> [] \<and>
     name = ''boetticher_system_'' @ nativeIdentifier (ToLower (publication_label options)) @ ''_home_publication'' \<and>
     list_all (\<lambda>k. k \<in> {''name'', ''src'', ''src_ip'', ''src_dport'', ''dest'', ''dest_ip'', ''dest_port'', ''target'',
       ''family'', ''reflection''}) (map fst options) \<and>
     length options = 10 \<and> opt options ''src'' = ''home_wan'' \<and> opt options ''src_ip'' \<noteq> [] \<and>
     opt options ''src_dport'' \<noteq> [] \<and> opt options ''dest'' = ''servers'' \<and> opt options ''dest_ip'' \<noteq> [] \<and>
     opt options ''dest_port'' \<noteq> [] \<and> opt options ''target'' = ''DNAT'' \<and> opt options ''family'' = ''ipv4'' \<and>
     opt options ''reflection'' = ''0'' \<and> length lists0 = 1 \<and> lst lists0 ''proto'' = [''tcp'']"

abbreviation "tailnet_GuestAddress \<equiv> ''10.10.5.10''"
abbreviation "tailnet_GuestMAC \<equiv> ''02:00:00:00:05:10''"
abbreviation "tailnet_Gateway \<equiv> ''10.10.5.1''"

definition tailnet_NonPublicIPv4 :: string where
  "tailnet_NonPublicIPv4 = ''0.0.0.0/8, 10.0.0.0/8, 100.64.0.0/10, 127.0.0.0/8, 169.254.0.0/16, 172.16.0.0/12, 192.0.0.0/24, 192.0.2.0/24, 192.168.0.0/16, 198.18.0.0/15, 198.51.100.0/24, 203.0.113.0/24, 224.0.0.0/4, 240.0.0.0/4''"

definition tailnet_rule_ids :: "string list" where
  "tailnet_rule_ids = [''deny_home'', ''deny_nonpublic'', ''transport_tcp'', ''transport_udp'', ''dns'', ''ntp'', ''trusted'',
     ''servers'', ''proxmox_ssh'']"

definition system_rule_identity :: "string \<Rightarrow> (string \<times> string) list \<Rightarrow> bool" where
  "system_rule_identity name options =
     (let parts = SplitChar (CHR ''_'') name; suffix = last parts;
          systemName = TrimSuffix (TrimPrefix (opt options ''name'') ''Boetticher system '') ('' '' @ suffix);
          encoded = TrimPrefix (TrimSuffix name (''_'' @ suffix)) ''boetticher_system_''
      in if length parts < 4 \<or> (suffix \<noteq> ''trusted'' \<and> suffix \<noteq> ''monitoring'') then False
         else if opt options ''name'' = [] \<or> \<not> HasPrefix (opt options ''name'') ''Boetticher system '' \<or>
            nativeIdentifier (ToLower systemName) \<noteq> encoded \<or> opt options ''dest'' \<noteq> ''servers'' \<or>
            opt options ''proto'' \<noteq> ''tcp'' \<or> opt options ''family'' \<noteq> ''ipv4'' \<or> opt options ''target'' \<noteq> ''ACCEPT'' \<or>
            opt options ''dest_ip'' = [] \<or> opt options ''dest_port'' = [] then False
         else if suffix = ''trusted'' then opt options ''src'' = ''trusted'' \<and> opt options ''src_ip'' = []
         else opt options ''src'' = ''infra'' \<and> opt options ''src_ip'' = ''10.10.10.20'')"

definition tailnet_rule_identity :: "string \<Rightarrow> (string \<times> string) list \<Rightarrow> bool" where
  "tailnet_rule_identity name options =
     (let rule = TrimPrefix name ''boetticher_tailnet_'' in
      rule \<in> set tailnet_rule_ids \<and> opt options ''name'' = ''Boetticher Tailnet '' @ rule \<and>
      opt options ''src'' = ''transit'' \<and> opt options ''src_ip'' = tailnet_GuestAddress @ ''/32'' \<and>
      opt options ''src_mac'' = tailnet_GuestMAC \<and> opt options ''family'' = ''ipv4'')"

text \<open>The table \<open>checks\<close> for one zone: the section name, and the rule name and protocol it must have.\<close>

definition zone_rule_checks :: "string \<Rightarrow> string \<Rightarrow> (string \<times> string \<times> string) list" where
  "zone_rule_checks zone label =
     (let allow = ''boetticher_allow_'' @ zone; deny = ''boetticher_deny_'' @ zone @ ''_external_'';
          title = ''Boetticher '' @ label in
      [(allow @ ''_ping'', title @ '' gateway ping'', ''icmp''), (allow @ ''_dhcp'', title @ '' DHCP'', ''udp''),
       (deny @ ''dhcp'', title @ '' deny external DHCP'', ''udp''), (allow @ ''_ntp'', title @ '' NTP'', ''udp''),
       (deny @ ''ntp'', title @ '' deny external NTP'', ''udp'')] @
      map (\<lambda>protocol. (allow @ ''_dns_'' @ protocol, title @ '' DNS '' @ protocol, protocol)) [''tcp'', ''udp''] @
      concat (map (\<lambda>(suffix, protocol).
         [(deny @ suffix, title @ '' deny external '' @ suffix, protocol),
          (deny @ suffix @ ''_vpn'', title @ '' deny external '' @ suffix @ '' via VPN'', protocol)])
         [(''dns_udp'', ''udp''), (''dns_tcp'', ''tcp''), (''dot_tcp'', ''tcp'')]) @
      [(deny @ ''ntp_vpn'', title @ '' deny external NTP via VPN'', ''udp'')])"

definition zone_labels :: "(string \<times> string) list" where
  "zone_labels = [(''transit'', ''TRANSIT''), (''infra'', ''INFRA''), (''servers'', ''SERVERS''), (''trusted'', ''TRUSTED''),
     (''sandbox'', ''SANDBOX''), (''mgmt'', ''MGMT'')]"

definition zone_rules :: "(string \<times> string \<times> string \<times> string) list" where
  "zone_rules = concat (map (\<lambda>(zone, label). map (\<lambda>(n, title, protocol). (n, title, zone, protocol))
     (zone_rule_checks zone label)) zone_labels)"

definition managedRuleIdentity :: "string \<Rightarrow> (string \<times> string) list \<Rightarrow> bool" where
  "managedRuleIdentity name options =
     (if HasPrefix name ''boetticher_system_'' then system_rule_identity name options
      else if HasPrefix name ''boetticher_tailnet_'' then tailnet_rule_identity name options
      else case map_of zone_rules name of
        Some (title, zone, protocol) \<Rightarrow>
          opt options ''name'' = title \<and> opt options ''src'' = zone \<and> opt options ''proto'' = protocol \<and>
          opt options ''family'' = ''ipv4''
      | None \<Rightarrow>
        if name = ''boetticher_allow_trusted_proxmox_ssh'' then
          opt options ''name'' = ''Boetticher TRUSTED Proxmox SSH'' \<and> opt options ''src'' = ''trusted'' \<and>
          opt options ''dest'' = ''mgmt'' \<and> opt options ''dest_ip'' = ProxmoxManagementAddress @ ''/32'' \<and>
          opt options ''proto'' = ''tcp'' \<and> opt options ''dest_port'' = ''22'' \<and> opt options ''family'' = ''ipv4''
        else name = ''boetticher_allow_home_api'' \<and> opt options ''name'' = ''Boetticher Controller management API'' \<and>
          opt options ''src'' = ''home_wan'' \<and> opt options ''proto'' = ''tcp'' \<and> opt options ''family'' = ''ipv4'')"

definition managedVPNFirewallSection :: "string \<Rightarrow> UCISection \<Rightarrow> bool" where
  "managedVPNFirewallSection name s =
     (let o1 = opt (us_Options s) in
      if name = ''boetticher_zone_vpn'' then
        us_Type s = ''zone'' \<and> o1 ''name'' = ''vpn'' \<and> o1 ''family'' = ''ipv4'' \<and> o1 ''masq'' = ''1''
      else if HasPrefix name ''boetticher_forward_'' \<and> HasSuffix name ''_vpn'' then
        us_Type s = ''forwarding'' \<and> o1 ''dest'' = ''vpn'' \<and> o1 ''family'' = ''ipv4''
      else if HasPrefix name ''boetticher_vpn_forward_'' then
        us_Type s = ''redirect'' \<and> HasPrefix (o1 ''name'') ''Boetticher VPN '' \<and> o1 ''src'' = ''vpn'' \<and>
        o1 ''target'' = ''DNAT'' \<and> o1 ''family'' = ''ipv4'' \<and> o1 ''reflection'' = ''0'' \<and> lst (us_Lists s) ''proto'' \<noteq> []
      else False)"

definition forwarding_pairs :: "(string \<times> string \<times> string) list" where
  "forwarding_pairs = (''boetticher_forward_trusted_servers'', ''trusted'', ''servers'') #
     map (\<lambda>zone. (''boetticher_forward_'' @ zone @ ''_home_wan'', zone, ''home_wan''))
       [''transit'', ''infra'', ''servers'', ''trusted'', ''sandbox'', ''mgmt'']"

text \<open>The chain of conditions of \<open>managedStaleSection\<close> in the order of the source; a condition that
  does not return falls through to the next.\<close>

definition stale_vpn_or_system :: "string \<Rightarrow> UCISection \<Rightarrow> bool option" where
  "stale_vpn_or_system name s =
     (let o1 = opt (us_Options s); t = us_Type s in
      if t = ''redirect'' \<and> HasPrefix name ''boetticher_system_'' then
        Some (if \<not> HasSuffix (TrimPrefix name ''boetticher_system_'') ''_home_publication'' \<or> o1 ''name'' = [] then False
              else homePublicationIdentity name (us_Options s) (us_Lists s) \<and> publication_label (us_Options s) \<noteq> [])
      else if t = ''cname'' \<and> HasPrefix name ''boetticher_system_dns_'' then
        Some (o1 ''cname'' \<noteq> [] \<and> o1 ''target'' \<noteq> [] \<and> length (us_Options s) = 2 \<and>
              name = systemDNSSectionName (o1 ''cname'') (o1 ''target''))
      else if t = ''route'' \<and> HasPrefix name ''boetticher_vpn_client_mtu_'' then
        Some (o1 ''target'' \<noteq> [] \<and> HasPrefix (o1 ''interface'') ''boetticher_iface_'' \<and>
              o1 ''netmask'' = ''255.255.255.255'' \<and> name = nativeVPNClientMTUSectionName (o1 ''target'') \<and> o1 ''mtu'' \<noteq> [])
      else if t = ''redirect'' \<and> HasPrefix name ''boetticher_vpn_forward_'' then
        Some (let label = TrimPrefix (o1 ''name'') ''Boetticher VPN '' in
              if label = [] \<or> label = o1 ''name'' then False
              else name = nativeVPNForwardSectionName label \<or> name = ''boetticher_vpn_forward_'' @ label)
      else if managedVPNFirewallSection name s then Some True
      else if name = ''airvpn'' \<and> t = ''interface'' then Some True
      else if HasPrefix name ''boetticher_vpn_'' \<and>
          t \<in> {''interface'', ''wireguard_airvpn'', ''rule'', ''zone'', ''forwarding''} then Some True
      else None)"

definition stale_service :: "string \<Rightarrow> UCISection \<Rightarrow> bool option" where
  "stale_service name s =
     (let o1 = opt (us_Options s); t = us_Type s in
      if t = ''host'' then Some (nativeHostSectionName (o1 ''name'') = name \<and> o1 ''name'' \<noteq> [])
      else if t = ''dhcp'' \<and> HasPrefix name ''boetticher_dhcp_'' \<and>
          name \<in> set (map (\<lambda>zone. ''boetticher_dhcp_'' @ zone)
            [''transit'', ''infrastructure'', ''servers'', ''trusted'', ''sandbox'', ''management'', ''mgmt'']) then Some True
      else if t = ''resolver'' \<and> HasPrefix name ''boetticher_resolver_'' then
        Some (nativeResolverSectionName (o1 ''address'') = name \<and> o1 ''address'' \<noteq> [])
      else if t = ''hostrecord'' \<and> HasPrefix name ''boetticher_record_'' then
        Some (nativeRecordSectionName (o1 ''name'') = name \<and> o1 ''name'' \<noteq> [])
      else if t = ''hostrecord'' \<and> HasPrefix name ''boetticher_binding_record_'' then
        Some (''boetticher_binding_record_'' @ nativeRecordSuffix (TrimSuffix (o1 ''name'') ''.'') = name \<and> o1 ''name'' \<noteq> [])
      else if t = ''hostrecord'' \<and> HasPrefix name ''boetticher_observability_record_'' then
        Some (''boetticher_observability_record_'' @ nativeRecordSuffix (o1 ''name'') = name \<and> o1 ''name'' \<noteq> [])
      else if t = ''cname'' \<and> HasPrefix name ''boetticher_cname_'' then
        Some (''boetticher_cname_'' @ nativeRecordSuffix (TrimSuffix (o1 ''cname'') ''.'') = name \<and> o1 ''cname'' \<noteq> [])
      else if t = ''cname'' \<and> HasPrefix name ''boetticher_binding_cname_'' then
        Some (''boetticher_binding_cname_'' @ nativeRecordSuffix (TrimSuffix (o1 ''cname'') ''.'') = name \<and> o1 ''cname'' \<noteq> [])
      else None)"

definition managedStaleSection :: "string \<Rightarrow> UCISection \<Rightarrow> bool" where
  "managedStaleSection name s =
     (case stale_vpn_or_system name s of
        Some b \<Rightarrow> b
      | None \<Rightarrow>
        (case stale_service name s of
           Some b \<Rightarrow> b
         | None \<Rightarrow>
           if us_Type s = ''rule'' then managedRuleIdentity name (us_Options s)
           else if us_Type s = ''forwarding'' \<and> HasPrefix name ''boetticher_forward_'' then
             (case map_of forwarding_pairs name of
                Some (src, dest) \<Rightarrow> opt (us_Options s) ''src'' = src \<and> opt (us_Options s) ''dest'' = dest \<and>
                  opt (us_Options s) ''family'' = ''ipv4''
              | None \<Rightarrow> False)
           else False))"

definition compatibleIdentity :: "string \<Rightarrow> UCISection \<Rightarrow> Section \<Rightarrow> bool" where
  "compatibleIdentity name observed desired =
     (let ob = opt (us_Options observed); de = opt (sn_Options desired); t = us_Type observed in
      if t = ''cname'' \<and> HasPrefix name ''boetticher_system_dns_'' then
        managedStaleSection name observed \<and> sn_Type desired = ''cname'' \<and> sn_Name desired = name
      else if t = ''redirect'' \<and> HasPrefix name ''boetticher_system_'' \<and> HasSuffix name ''_home_publication'' then
        homePublicationIdentity name (us_Options observed) (us_Lists observed) \<and> sn_Type desired = ''redirect'' \<and>
        sn_Name desired = name
      else if t = ''hostrecord'' \<and> HasPrefix name ''boetticher_observability_record_'' then
        ob ''name'' = de ''name'' \<and> ob ''ip'' = ''10.10.10.20''
      else if name = ''airvpn'' then ob ''proto'' = ''wireguard''
      else if t = ''host'' then ob ''name'' = de ''name''
      else if t = ''hostrecord'' \<or> t = ''cname'' \<or> t = ''resolver'' then
        (let key = (if t = ''cname'' then ''cname'' else ''name'') in ob key = de key)
      else if t = ''rule'' \<or> t = ''forwarding'' then
        (if t = ''rule'' \<and> HasPrefix name ''boetticher_tailnet_'' then managedRuleIdentity name (us_Options observed)
         else if \<not> managedStaleSection name observed then True
         else managedStaleSection name observed)
      else True)"

section \<open>Composed firewall sections\<close>

definition rule_section :: "string \<Rightarrow> (string \<times> string) list \<Rightarrow> Section" where
  "rule_section name options = \<lparr>sn_Name = name, sn_Type = ''rule'', sn_Options = options, sn_Lists = []\<rparr>"

definition override_options :: "(string \<times> string) list \<Rightarrow> (string \<times> string) list \<Rightarrow> (string \<times> string) list" where
  "override_options options new = fold (\<lambda>(k, v). assoc_set k v) new options"

definition tailnet_rule :: "string \<Rightarrow> (string \<times> string) list \<Rightarrow> Section" where
  "tailnet_rule rule new = rule_section (''boetticher_tailnet_'' @ rule)
     (override_options
       [(''name'', ''Boetticher Tailnet '' @ rule), (''src'', ''transit''), (''src_ip'', tailnet_GuestAddress @ ''/32''),
        (''src_mac'', tailnet_GuestMAC), (''family'', ''ipv4''), (''target'', ''ACCEPT'')] new)"

text \<open>\<open>strings.Split\<close> with the separator \<open>, \<close>: the list has no other spaces.\<close>

definition split_comma_space :: "string \<Rightarrow> string list" where
  "split_comma_space s = map (\<lambda>w. TrimPrefix w '' '') (SplitChar (CHR '','') s)"

definition TrustedRoutedDestinations :: "(string \<times> string) list" where
  "TrustedRoutedDestinations = [(''SERVERS'', ''10.10.20.0/24'')]"

definition tailnetFirewallSections :: "string \<Rightarrow> Section list" where
  "tailnetFirewallSections home =
     [tailnet_rule ''deny_home'' [(''dest'', ''home_wan''), (''dest_ip'', home), (''target'', ''DROP''), (''proto'', ''all'')],
      (tailnet_rule ''deny_nonpublic'' [(''dest'', ''home_wan''), (''target'', ''DROP''), (''proto'', ''all'')])
        \<lparr>sn_Lists := [(''dest_ip'', split_comma_space tailnet_NonPublicIPv4)]\<rparr>,
      tailnet_rule ''transport_tcp'' [(''dest'', ''home_wan''), (''proto'', ''tcp''), (''dest_port'', ''80 443'')],
      tailnet_rule ''transport_udp'' [(''dest'', ''home_wan''), (''proto'', ''udp'')],
      tailnet_rule ''dns'' [(''dest_ip'', tailnet_Gateway), (''proto'', ''tcp udp''), (''dest_port'', ''53'')],
      tailnet_rule ''ntp'' [(''dest_ip'', tailnet_Gateway), (''proto'', ''udp''), (''dest_port'', ''123'')],
      tailnet_rule ''trusted'' [(''dest'', ''trusted''), (''proto'', ''all'')],
      tailnet_rule ''proxmox_ssh'' [(''dest'', ''mgmt''), (''dest_ip'', ProxmoxManagementAddress @ ''/32''),
        (''proto'', ''tcp''), (''dest_port'', ''22'')]] @
     map (\<lambda>(zone, _). tailnet_rule (ToLower zone) [(''dest'', ToLower zone), (''proto'', ''all'')]) TrustedRoutedDestinations"

definition service_rule ::
  "string \<Rightarrow> string \<Rightarrow> string \<Rightarrow> (string \<times> string) list \<Rightarrow> string \<Rightarrow> string \<Rightarrow> Section" where
  "service_rule name title zone middle port target =
     rule_section name ([(''name'', title), (''src'', zone)] @ middle @
       [(''dest_port'', port), (''family'', ''ipv4''), (''target'', target)])"

definition dns_deny_sections :: "string \<Rightarrow> string \<Rightarrow> bool \<Rightarrow> string \<times> string \<times> string \<Rightarrow> Section list" where
  "dns_deny_sections name label vpnEnabled item =
     (case item of (suffix, protocol, port) \<Rightarrow>
        let section = ''boetticher_deny_'' @ name @ ''_external_'' @ suffix;
            title = ''Boetticher '' @ label @ '' deny external '' @ suffix in
        service_rule section title name [(''dest'', ''home_wan''), (''proto'', protocol)] port ''DROP'' #
        (if vpnEnabled then
           [service_rule (section @ ''_vpn'') (title @ '' via VPN'') name [(''dest'', ''vpn''), (''proto'', protocol)] port ''DROP'']
         else []))"

definition zone_service_sections :: "bool \<Rightarrow> bool \<Rightarrow> bool \<Rightarrow> Zone \<Rightarrow> Section list" where
  "zone_service_sections dnsEnabled dhcpEnabled vpnEnabled z =
     (let name = ToLower (z_Name z); title = ''Boetticher '' @ z_Name z;
          allow = ''boetticher_allow_'' @ name; deny = ''boetticher_deny_'' @ name @ ''_external_'' in
      (if dhcpEnabled then
         [service_rule (allow @ ''_dhcp'') (title @ '' DHCP'') name [(''proto'', ''udp''), (''src_port'', ''68'')] ''67'' ''ACCEPT'',
          service_rule (deny @ ''dhcp'') (title @ '' deny external DHCP'') name [(''dest'', ''home_wan''), (''proto'', ''udp'')] ''67'' ''DROP'']
       else []) @
      (if dnsEnabled then
         map (\<lambda>protocol. service_rule (allow @ ''_dns_'' @ protocol) (title @ '' DNS '' @ protocol) name
           [(''proto'', protocol)] ''53'' ''ACCEPT'') [''tcp'', ''udp''] @
         concat (map (dns_deny_sections name (z_Name z) vpnEnabled)
           [(''dns_udp'', ''udp'', ''53''), (''dns_tcp'', ''tcp'', ''53''), (''dot_tcp'', ''tcp'', ''853'')])
       else []) @
      (if dhcpEnabled then
         [service_rule (allow @ ''_ntp'') (title @ '' NTP'') name [(''proto'', ''udp'')] ''123'' ''ACCEPT'',
          service_rule (deny @ ''ntp'') (title @ '' deny external NTP'') name [(''dest'', ''home_wan''), (''proto'', ''udp'')] ''123'' ''DROP''] @
         (if vpnEnabled then
            [service_rule (deny @ ''ntp_vpn'') (title @ '' deny external NTP via VPN'') name [(''dest'', ''vpn''), (''proto'', ''udp'')] ''123'' ''DROP'']
          else [])
       else []))"

definition serviceFirewallSections :: "Site \<Rightarrow> bool \<Rightarrow> bool \<Rightarrow> bool \<Rightarrow> Section list" where
  "serviceFirewallSections s dnsEnabled dhcpEnabled vpnEnabled =
     (if \<not> dnsEnabled \<and> \<not> dhcpEnabled then []
      else concat (map (zone_service_sections dnsEnabled dhcpEnabled vpnEnabled) (nw_Zones (s_Network s))))"

end
