(* ===== verification/Effects.thy ===== *)
theory Effects
  imports Prelude
begin

text \<open>
  Code that talks to the outside world: an operation maps the state of the world to a result or an
  error and the next state.  An early \<open>return err\<close> is \<open>bindW\<close>, \<open>fmt.Errorf("...: %w", err)\<close> around
  a call is \<open>mapErrorW\<close>, and a loop whose body may return an error is \<open>forW\<close>.

  The Hoare triple \<open>hoareW P m Q E\<close> speaks of both exits: from a world with \<open>P\<close>, a successful run
  ends with \<open>Q\<close> and a failing run with \<open>E\<close>.  Its rules carry the proofs about the reconciler.
\<close>

type_synonym ('e, 'a, 'w) effect = "'w \<Rightarrow> ('e + 'a) \<times> 'w"

definition pureW :: "'a \<Rightarrow> ('e, 'a, 'w) effect" where
  "pureW x w = (Inr x, w)"

definition failW :: "'e \<Rightarrow> ('e, 'a, 'w) effect" where
  "failW e w = (Inl e, w)"

definition bindW :: "('e, 'a, 'w) effect \<Rightarrow> ('a \<Rightarrow> ('e, 'b, 'w) effect) \<Rightarrow> ('e, 'b, 'w) effect" where
  "bindW m f w = (case m w of (Inl e, w') \<Rightarrow> (Inl e, w') | (Inr x, w') \<Rightarrow> f x w')"

definition mapErrorW :: "('e \<Rightarrow> 'f) \<Rightarrow> ('e, 'a, 'w) effect \<Rightarrow> ('f, 'a, 'w) effect" where
  "mapErrorW g m w = (case m w of (Inl e, w') \<Rightarrow> (Inl (g e), w') | (Inr x, w') \<Rightarrow> (Inr x, w'))"

definition liftW :: "'e + 'a \<Rightarrow> ('e, 'a, 'w) effect" where
  "liftW x w = (x, w)"

fun forW :: "('a \<Rightarrow> ('e, unit, 'w) effect) \<Rightarrow> 'a list \<Rightarrow> ('e, unit, 'w) effect" where
  "forW f [] = pureW ()"
| "forW f (x # xs) = bindW (f x) (\<lambda>_. forW f xs)"

section \<open>Triples\<close>

definition hoareW :: "('w \<Rightarrow> bool) \<Rightarrow> ('e, 'a, 'w) effect \<Rightarrow> ('a \<Rightarrow> 'w \<Rightarrow> bool) \<Rightarrow> ('w \<Rightarrow> bool) \<Rightarrow> bool" where
  "hoareW P m Q E \<longleftrightarrow> (\<forall>w. P w \<longrightarrow> (case m w of (Inr x, w') \<Rightarrow> Q x w' | (Inl _, w') \<Rightarrow> E w'))"

lemma hoareW_success: "hoareW P m Q E \<Longrightarrow> P w \<Longrightarrow> m w = (Inr x, w') \<Longrightarrow> Q x w'"
  by (auto simp: hoareW_def)

lemma hoareW_failure: "hoareW P m Q E \<Longrightarrow> P w \<Longrightarrow> m w = (Inl e, w') \<Longrightarrow> E w'"
  by (auto simp: hoareW_def)

lemma hoareW_snd:
  assumes "hoareW P m (\<lambda>_. Q) Q" and "P w"
  shows "Q (snd (m w))"
  using assms by (cases "m w") (auto simp: hoareW_def split: prod.splits sum.splits)

lemma hoareW_weaken:
  assumes "hoareW P' m Q' E'" and "\<And>w. P w \<Longrightarrow> P' w" and "\<And>x w. Q' x w \<Longrightarrow> Q x w" and "\<And>w. E' w \<Longrightarrow> E w"
  shows "hoareW P m Q E"
  using assms unfolding hoareW_def by (fastforce split: prod.splits sum.splits)

lemma hoareW_pure: "(\<And>w. P w \<Longrightarrow> Q x w) \<Longrightarrow> hoareW P (pureW x) Q E"
  by (simp add: hoareW_def pureW_def)

lemma hoareW_fail: "(\<And>w. P w \<Longrightarrow> E w) \<Longrightarrow> hoareW P (failW e) Q E"
  by (simp add: hoareW_def failW_def)

lemma hoareW_lift: "(\<And>x w. r = Inr x \<Longrightarrow> P w \<Longrightarrow> Q x w) \<Longrightarrow> (\<And>w. P w \<Longrightarrow> E w) \<Longrightarrow> hoareW P (liftW r) Q E"
  by (cases r) (auto simp: hoareW_def liftW_def)

lemma hoareW_bind:
  assumes "hoareW P m R E" and "\<And>x. hoareW (R x) (f x) Q E"
  shows "hoareW P (bindW m f) Q E"
  using assms unfolding hoareW_def bindW_def by (fastforce split: prod.splits sum.splits)

lemma hoareW_mapError [simp]: "hoareW P (mapErrorW g m) Q E \<longleftrightarrow> hoareW P m Q E"
  unfolding hoareW_def mapErrorW_def by (fastforce split: prod.splits sum.splits)

lemma hoareW_if:
  "(b \<Longrightarrow> hoareW P m Q E) \<Longrightarrow> (\<not> b \<Longrightarrow> hoareW P n Q E) \<Longrightarrow> hoareW P (if b then m else n) Q E"
  by simp

text \<open>A loop keeps an invariant that its body keeps.\<close>

lemma hoareW_for_inv:
  assumes "\<And>x. x \<in> set xs \<Longrightarrow> hoareW I (f x) (\<lambda>_. I) E"
  shows "hoareW I (forW f xs) (\<lambda>_. I) E"
  using assms by (induction xs) (auto intro: hoareW_bind hoareW_pure)

text \<open>A loop whose invariant speaks of the elements that are done and those that are left.\<close>

lemma hoareW_for:
  assumes "\<And>x ys zs. xs = ys @ x # zs \<Longrightarrow> hoareW (I ys) (f x) (\<lambda>_. I (ys @ [x])) E"
  shows "hoareW (I []) (forW f xs) (\<lambda>_. I xs) E"
proof -
  have "hoareW (I ys) (forW f zs) (\<lambda>_. I xs) E" if "xs = ys @ zs" for ys zs
    using that
  proof (induction zs arbitrary: ys)
    case Nil
    then show ?case by (auto intro: hoareW_pure)
  next
    case (Cons z zs)
    show ?case
      using assms [OF Cons.prems] Cons.IH [of "ys @ [z]"] Cons.prems by (auto intro: hoareW_bind)
  qed
  from this [of "[]" xs] show ?thesis by simp
qed

lemmas hoareW_rules = hoareW_pure hoareW_fail hoareW_if hoareW_bind

lemma bindW_Inr:
  "bindW m f w = (Inr y, w'') \<longleftrightarrow> (\<exists>x w'. m w = (Inr x, w') \<and> f x w' = (Inr y, w''))"
  by (auto simp: bindW_def split: prod.splits sum.splits)

section \<open>Loops over the keys of a map\<close>

text \<open>A loop that gives each of its keys a value of its own, whatever relates the world to the map.\<close>

lemma hoareW_for_map:
  assumes "distinct ks"
    and "\<And>k m'. k \<in> set ks \<Longrightarrow> m' k = m k \<Longrightarrow> hoareW (R m') (f k) (\<lambda>_. R (m'(k := tgt k))) E"
  shows "hoareW (R m) (forW f ks) (\<lambda>_. R (\<lambda>k. if k \<in> set ks then tgt k else m k)) E"
proof -
  let ?I = "\<lambda>ys. R (\<lambda>k. if k \<in> set ys then tgt k else m k)"
  have "hoareW (?I ys) (f x) (\<lambda>_. ?I (ys @ [x])) E" if split: "ks = ys @ x # zs" for x ys zs
  proof -
    let ?m = "\<lambda>k. if k \<in> set ys then tgt k else m k"
    have "?m x = m x" using assms(1) split by auto
    then have "hoareW (R ?m) (f x) (\<lambda>_. R (?m(x := tgt x))) E" using assms(2) [of x ?m] split by auto
    moreover have "?m(x := tgt x) = (\<lambda>k. if k \<in> set (ys @ [x]) then tgt k else m k)" by auto
    ultimately show ?thesis by simp
  qed
  from hoareW_for [of ks ?I f E, OF this] show ?thesis by simp
qed

lemma bindW_assoc: "bindW (bindW m f) g = bindW m (\<lambda>x. bindW (f x) g)"
  by (auto simp: bindW_def fun_eq_iff split: prod.splits sum.splits)

lemma bindW_pure [simp]: "bindW (pureW x) f = f x"
  by (simp add: bindW_def pureW_def fun_eq_iff)

lemma forW_append: "forW f (xs @ ys) = bindW (forW f xs) (\<lambda>_. forW f ys)"
  by (induction xs) (auto simp: bindW_assoc)

lemma forW_concat: "forW f (concat xss) = forW (forW f) xss"
  by (induction xss) (auto simp: forW_append)

lemma forW_map: "forW f (map g xs) = forW (\<lambda>x. f (g x)) xs"
  by (induction xs) auto

lemma mapE_projr: "mapE f xs = Inr ys \<Longrightarrow> ys = map (\<lambda>x. projr (f x)) xs \<and> (\<forall>x \<in> set xs. f x = Inr (projr (f x)))"
  by (induction xs arbitrary: ys) (auto split: sum.splits)

end
