(* ===== verification/Uci_Reconcile.thy ===== *)
theory Uci_Reconcile
  imports Uci_Model Effects
begin

text \<open>
  \<^verbatim>\<open>internal/firewallmodule/reconcile.go\<close>, \<^verbatim>\<open>tailnet.go\<close> and
  \<^verbatim>\<open>appliance_reconcile.go\<close>: the difference between the observed and the desired sections of
  one package, the scope of the firewall package, the staging of the difference through the
  provider's UCI calls, and the ordered reconciliation of the whole appliance.

  The provider and the caller's verification callbacks are code outside this package: a function
  from a request and the state of the outside world to a reply and the next state.  Every definition
  holds for any such function.  Where an error message carries the text of a second error, only the
  first one is kept.
\<close>

section \<open>Requests and effects\<close>

datatype request =
    UCIAddNamed string string string
  | UCISet string string string string
  | UCISetList string string string "string list"
  | UCIDelete string string string
  | UCIApply int
  | UCIGet string
  | UCICommit string
  | ServiceConfigChange string
  | ReloadFirewall
  | SafetyBeforeNetwork
  | NetworkReady
  | SafetyAfterNetwork
  | RuntimeReapply

datatype reply = Done | Named string | Package uci_package

type_synonym 'w provider = "request \<Rightarrow> 'w \<Rightarrow> (gerror + reply) \<times> 'w"

definition send :: "'w provider \<Rightarrow> request \<Rightarrow> (gerror, unit, 'w) effect" where
  "send p r = bindW (p r) (\<lambda>_. pureW ())"

section \<open>Difference\<close>

datatype Mutation = MutationCreate Section | MutationUpdate Section | MutationDelete string

fun mutation_name :: "Mutation \<Rightarrow> string" where
  "mutation_name (MutationCreate s) = sn_Name s"
| "mutation_name (MutationUpdate s) = sn_Name s"
| "mutation_name (MutationDelete n) = n"

definition sameSection :: "UCISection \<Rightarrow> Section \<Rightarrow> bool" where
  "sameSection observed desired \<longleftrightarrow>
     us_Type observed = sn_Type desired \<and> length (us_Options observed) = length (sn_Options desired) \<and>
     list_all (\<lambda>(k, v). opt (us_Options observed) k = v) (sn_Options desired) \<and>
     list_all (\<lambda>(k, vs). vs = [] \<and> lst (us_Lists observed) k = [] \<or> lst (us_Lists observed) k = vs) (sn_Lists desired) \<and>
     list_all (\<lambda>(k, vs). map_of (sn_Lists desired) k \<noteq> None \<or> vs = []) (us_Lists observed)"

definition wanted :: "Section list \<Rightarrow> string \<Rightarrow> Section option" where
  "wanted desired name = map_of (rev (map (\<lambda>s. (sn_Name s, s)) desired)) name"

definition cname_conflict :: "uci_package \<Rightarrow> Section \<Rightarrow> gerror + unit" where
  "cname_conflict current section =
     (if sn_Type section = ''cname'' \<and> HasPrefix (sn_Name section) ''boetticher_system_dns_'' then
        allE (\<lambda>(name, observed).
          fails (name \<noteq> sn_Name section \<and> us_Type observed = ''cname'' \<and>
                 opt (us_Options observed) ''cname'' = opt (sn_Options section) ''cname'' \<and>
                 \<not> managedStaleSection name observed)
            (Errorf ''system DNS name %s conflicts with provider CNAME %s'' [opt (sn_Options section) ''cname'', name]))
          current
      else Inr ())"

definition publication_conflict :: "uci_package \<Rightarrow> Section \<Rightarrow> gerror + unit" where
  "publication_conflict current section =
     (if sn_Type section \<noteq> ''redirect'' \<or> opt (sn_Options section) ''src'' \<noteq> ''home_wan'' \<or>
         opt (sn_Options section) ''src_dport'' = [] then Inr ()
      else allE (\<lambda>(name, observed).
        fails (\<not> (name = sn_Name section \<or> us_Type observed \<noteq> ''redirect'' \<or>
                  opt (us_Options observed) ''src'' \<noteq> ''home_wan'' \<or>
                  opt (us_Options observed) ''src_dport'' \<noteq> opt (sn_Options section) ''src_dport'') \<and>
               \<not> managedStaleSection name observed)
          (Errorf ''HOME publication port %s conflicts with provider redirect %s''
            [opt (sn_Options section) ''src_dport'', name])) current)"

definition section_mutations :: "uci_package \<Rightarrow> Section \<Rightarrow> gerror + Mutation list" where
  "section_mutations current section =
     (let name = sn_Name section in
      case map_of current name of
        None \<Rightarrow> Inr [MutationCreate section]
      | Some observed \<Rightarrow>
        if us_Type observed \<noteq> sn_Type section then
          Inl (Errorf ''provider section %s has conflicting type %q, expected %q'' [name, us_Type observed, sn_Type section])
        else if \<not> compatibleIdentity name observed section then
          Inl (Errorf ''provider section %s has conflicting managed identity'' [name])
        else if \<not> sameSection observed section then
          (if us_Type observed = ''hostrecord'' \<and> opt (us_Options observed) ''ip'' \<noteq> opt (sn_Options section) ''ip''
           then Inr [MutationDelete name, MutationCreate section] else Inr [MutationUpdate section])
        else Inr [])"

definition stale_names :: "uci_package \<Rightarrow> Section list \<Rightarrow> string list" where
  "stale_names current desired =
     sort (map fst (filter (\<lambda>(name, observed). wanted desired name = None \<and> managedStaleSection name observed) current))"

definition sortedSectionNames :: "Section list \<Rightarrow> string list" where
  "sortedSectionNames sections = sort (map sn_Name sections)"

definition DiffOwned :: "uci_package \<Rightarrow> Section list \<Rightarrow> gerror + Mutation list" where
  "DiffOwned current desired =
     bindE (allE (\<lambda>section. checks [cname_conflict current section, publication_conflict current section]) desired) (\<lambda>_.
     bindE (mapE (\<lambda>name. section_mutations current (the (wanted desired name))) (sortedSectionNames desired)) (\<lambda>mutations.
     Inr (concat mutations @ map MutationDelete (stale_names current desired))))"

section \<open>Scope of the firewall package\<close>

definition observability_rules :: "string list" where
  "observability_rules =
     [''boetticher_observability_controller_exporter'', ''boetticher_observability_host_exporter'',
      ''boetticher_observability_controller_portal'', ''boetticher_media_monitoring'',
      ''boetticher_observability_controller_ingress'', ''boetticher_observability_host_ingress'',
      ''boetticher_observability_runtime_ingress'', ''boetticher_observability_trusted_ingress'',
      ''boetticher_observability_tailnet_ingress'']"

definition owned_firewall_names :: "Section list \<Rightarrow> string list" where
  "owned_firewall_names desired =
     map sn_Name desired @ map sn_Name (tailnetFirewallSections ''192.168.4.0/22'') @
     map sn_Name (serviceFirewallSections (NewSite ''scope'' ''controller-local'' GatewayModeManaged) True True True) @
     observability_rules"

definition FirewallScope :: "uci_package \<Rightarrow> Section list \<Rightarrow> uci_package" where
  "FirewallScope current desired =
     filter (\<lambda>(name, s). managedVPNFirewallSection name s \<or>
         HasPrefix name ''boetticher_system_'' \<and> managedRuleIdentity name (us_Options s) \<or>
         name \<in> set (owned_firewall_names desired)) current"

definition DiffFirewall :: "uci_package \<Rightarrow> Section list \<Rightarrow> gerror + Mutation list" where
  "DiffFirewall current desired = DiffOwned (FirewallScope current desired) desired"

section \<open>Staging\<close>

definition delete_stale_keys ::
  "'w provider \<Rightarrow> string \<Rightarrow> string \<Rightarrow> string \<Rightarrow> string list \<Rightarrow> string list \<Rightarrow> (gerror, unit, 'w) effect" where
  "delete_stale_keys p pkg name fmt observedKeys desiredKeys =
     forW (\<lambda>key. mapErrorW (Wrapf fmt [name, key]) (send p (UCIDelete pkg name key)))
       (filter (\<lambda>key. key \<notin> set desiredKeys) observedKeys)"

definition write_option ::
  "'w provider \<Rightarrow> string \<Rightarrow> Section \<Rightarrow> UCISection option \<Rightarrow> string \<Rightarrow> (gerror, unit, 'w) effect" where
  "write_option p pkg desired observed key =
     (if (case observed of None \<Rightarrow> False | Some ob \<Rightarrow> opt (us_Options ob) key = opt (sn_Options desired) key) then pureW ()
      else mapErrorW (Wrapf ''set provider option %s.%s: %w'' [sn_Name desired, key])
        (send p (UCISet pkg (sn_Name desired) key (opt (sn_Options desired) key))))"

definition write_list ::
  "'w provider \<Rightarrow> string \<Rightarrow> Section \<Rightarrow> UCISection option \<Rightarrow> string \<Rightarrow> (gerror, unit, 'w) effect" where
  "write_list p pkg desired observed key =
     (let name = sn_Name desired; items = lst (sn_Lists desired) key;
          old = (case observed of None \<Rightarrow> [] | Some ob \<Rightarrow> lst (us_Lists ob) key) in
      if observed \<noteq> None \<and> old = items then pureW ()
      else bindW
        (if observed \<noteq> None \<and> old \<noteq> [] then
           mapErrorW (Wrapf ''reset provider list %s.%s: %w'' [name, key]) (send p (UCIDelete pkg name key))
         else pureW ())
        (\<lambda>_. if items = [] then pureW ()
             else mapErrorW (Wrapf ''set provider list %s.%s: %w'' [name, key]) (send p (UCISetList pkg name key items))))"

definition writeSection ::
  "'w provider \<Rightarrow> string \<Rightarrow> Section \<Rightarrow> UCISection option \<Rightarrow> (gerror, unit, 'w) effect" where
  "writeSection p pkg desired observed =
     (let name = sn_Name desired in
      bindW (case observed of
          None \<Rightarrow> pureW ()
        | Some ob \<Rightarrow>
          if us_Type ob \<noteq> sn_Type desired then
            failW (Errorf ''provider section %s has type %q, expected %q'' [name, us_Type ob, sn_Type desired])
          else bindW (delete_stale_keys p pkg name ''remove stale provider option %s.%s: %w''
                        (map fst (us_Options ob)) (map fst (sn_Options desired)))
            (\<lambda>_. delete_stale_keys p pkg name ''remove stale provider list %s.%s: %w''
                        (map fst (us_Lists ob)) (map fst (sn_Lists desired)))) (\<lambda>_.
      bindW (forW (write_option p pkg desired observed) (sort (map fst (sn_Options desired)))) (\<lambda>_.
      forW (write_list p pkg desired observed) (sort (map fst (sn_Lists desired))))))"

fun stage_mutation :: "'w provider \<Rightarrow> string \<Rightarrow> uci_package \<Rightarrow> Mutation \<Rightarrow> (gerror, unit, 'w) effect" where
  "stage_mutation p pkg current (MutationCreate section) =
     bindW (mapErrorW (Wrapf ''create provider section %s: %w'' [sn_Name section])
              (p (UCIAddNamed pkg (sn_Type section) (sn_Name section)))) (\<lambda>r.
     if r \<noteq> Named (sn_Name section) then
       failW (Errorf ''create provider section %s returned unexpected name %q''
         [sn_Name section, case r of Named n \<Rightarrow> n | _ \<Rightarrow> []])
     else writeSection p pkg section None)"
| "stage_mutation p pkg current (MutationUpdate section) =
     writeSection p pkg section
       (Some (case map_of current (sn_Name section) of
                None \<Rightarrow> \<lparr>us_Type = [], us_Options = [], us_Lists = []\<rparr> | Some ob \<Rightarrow> ob))"
| "stage_mutation p pkg current (MutationDelete name) =
     mapErrorW (Wrapf ''delete stale provider section %s: %w'' [name]) (send p (UCIDelete pkg name []))"

definition scoped :: "string \<Rightarrow> uci_package \<Rightarrow> Section list \<Rightarrow> uci_package" where
  "scoped pkg current desired = (if pkg = ''firewall'' then FirewallScope current desired else current)"

definition StageOwned ::
  "'w provider option \<Rightarrow> string \<Rightarrow> uci_package \<Rightarrow> Section list \<Rightarrow> (gerror, nat, 'w) effect" where
  "StageOwned client pkg current desired =
     (case client of
        None \<Rightarrow> failW (Errorf ''provider UCI client is required'' [])
      | Some p \<Rightarrow>
        bindW (liftW (DiffOwned (scoped pkg current desired) desired)) (\<lambda>mutations.
        bindW (forW (stage_mutation p pkg (scoped pkg current desired)) mutations) (\<lambda>_.
        pureW (length mutations))))"

definition ReconcileOwned ::
  "'w provider option \<Rightarrow> string \<Rightarrow> uci_package \<Rightarrow> Section list \<Rightarrow> (gerror, nat, 'w) effect" where
  "ReconcileOwned client pkg current0 desired =
     (let current = scoped pkg current0 desired in
      case client of
        None \<Rightarrow> failW (Errorf ''provider UCI client is required'' [])
      | Some p \<Rightarrow>
        bindW (liftW (DiffOwned current desired)) (\<lambda>_.
        bindW (StageOwned client pkg current desired) (\<lambda>changed.
        if changed = 0 then pureW 0
        else bindW (send p (UCIApply 30)) (\<lambda>_. pureW changed))))"

section \<open>The appliance\<close>

text \<open>The packages of a composition, and which optional callback the caller supplies.\<close>

record Composition =
  cp_Firewall :: "Section list"
  cp_Network :: "Section list"
  cp_System :: "Section list"
  cp_Stubby :: "Section list"
  cp_DHCP :: "Section list"

record VerifyCallbacks =
  vc_SafetyBeforeNetwork :: bool
  vc_NetworkReady :: bool
  vc_SafetyAfterNetwork :: bool
  vc_RuntimeReapply :: bool

definition defaults_check :: "string \<times> UCISection \<Rightarrow> gerror + unit" where
  "defaults_check ns =
     (case ns of (name, s) \<Rightarrow>
        if us_Type s \<noteq> ''defaults'' then Inr ()
        else allE (\<lambda>(option, want).
          fails (case map_of (us_Options s) option of None \<Rightarrow> False | Some got \<Rightarrow> got \<noteq> want)
            (Errorf ''firewall defaults %s.%s conflicts with required value %q'' [name, option, want]))
          [(''auto_includes'', ''1''), (''flow_offloading'', ''0''), (''flow_offloading_hw'', ''0'')])"

definition validateFirewallDefaults :: "uci_package \<Rightarrow> gerror + unit" where
  "validateFirewallDefaults current =
     bindE (allE defaults_check current) (\<lambda>_.
     let count = length (filter (\<lambda>(_, s). us_Type s = ''defaults'') current) in
     fails (count \<noteq> 1)
       (Errorf ''firewall defaults must contain exactly one native defaults section (found %d)'' [itoa (int count)]))"

definition packages :: "Composition \<Rightarrow> (string \<times> Section list) list" where
  "packages c = [(''firewall'', cp_Firewall c), (''network'', cp_Network c), (''system'', cp_System c),
     (''stubby'', cp_Stubby c), (''dhcp'', cp_DHCP c)]"

definition sectionFor :: "Composition \<Rightarrow> string \<Rightarrow> Section list" where
  "sectionFor c name = (if name = ''system'' then cp_System c else if name = ''stubby'' then cp_Stubby c
     else if name = ''dhcp'' then cp_DHCP c else [])"

text \<open>The appliance's errors carry the number of changes made so far.\<close>

type_synonym 'w appliance = "(nat \<times> gerror, nat, 'w) effect"

text \<open>One entry of the read loop: the observed package and the number of its mutations.\<close>

definition read_package ::
  "'w provider \<Rightarrow> string \<times> Section list \<Rightarrow> (string \<times> uci_package \<times> nat) list
   \<Rightarrow> (gerror, (string \<times> uci_package \<times> nat) list, 'w) effect" where
  "read_package p item acc =
     (case item of (name, desired) \<Rightarrow>
        bindW (mapErrorW (Wrapf ''read provider UCI %s: %w'' [name]) (p (UCIGet name))) (\<lambda>r.
        let observed = (case r of Package m \<Rightarrow> m | _ \<Rightarrow> []) in
        bindW (liftW (if name = ''firewall'' then validateFirewallDefaults observed else Inr ())) (\<lambda>_.
        bindW (mapErrorW (Wrapf ''prepare provider UCI %s: %w'' [name])
            (liftW (if name = ''firewall'' then DiffFirewall observed desired else DiffOwned observed desired))) (\<lambda>mutations.
        pureW (acc @ [(name, observed, length mutations)])))))"

fun read_packages ::
  "'w provider \<Rightarrow> (string \<times> Section list) list \<Rightarrow> (string \<times> uci_package \<times> nat) list
   \<Rightarrow> (gerror, (string \<times> uci_package \<times> nat) list, 'w) effect" where
  "read_packages p [] acc = pureW acc"
| "read_packages p (item # items) acc = bindW (read_package p item acc) (read_packages p items)"

definition verifyRuntime :: "'w provider \<Rightarrow> bool \<Rightarrow> string \<Rightarrow> (gerror, unit, 'w) effect" where
  "verifyRuntime p reapply label w =
     (case send p SafetyBeforeNetwork w of
        (Inr _, w1) \<Rightarrow> (Inr (), w1)
      | (Inl err, w1) \<Rightarrow>
        if \<not> reapply then (Inl (Wrapf ''verify %s: %w'' [label] err), w1)
        else case send p RuntimeReapply w1 of
          (Inl _, w2) \<Rightarrow> (Inl (Wrapf ''verify %s: %w; runtime reapply failed: %v'' [label] err), w2)
        | (Inr _, w2) \<Rightarrow>
          mapErrorW (Wrapf ''verify %s after runtime reapply: %w'' [label]) (send p SafetyBeforeNetwork) w2)"

text \<open>Stage, commit and activate one package if it has mutations; the error carries the count.\<close>

definition apply_package ::
  "'w provider \<Rightarrow> string \<Rightarrow> request \<Rightarrow> uci_package \<times> nat \<Rightarrow> Section list \<Rightarrow> nat \<Rightarrow> 'w appliance" where
  "apply_package p name activate observed desired changed =
     (if snd observed = 0 then pureW changed
      else mapErrorW (Pair changed)
        (bindW (StageOwned (Some p) name (fst observed) desired) (\<lambda>_.
         bindW (send p (UCICommit name)) (\<lambda>_.
         bindW (send p activate) (\<lambda>_. pureW (changed + snd observed))))))"

definition gate :: "'w provider \<Rightarrow> request \<Rightarrow> string \<Rightarrow> nat \<Rightarrow> (nat \<times> gerror, unit, 'w) effect" where
  "gate p r fmt changed = mapErrorW (\<lambda>e. (changed, Wrapf fmt [] e)) (send p r)"

definition change_of :: "(string \<times> uci_package \<times> nat) list \<Rightarrow> string \<Rightarrow> uci_package \<times> nat" where
  "change_of changes name = (case map_of changes name of None \<Rightarrow> ([], 0) | Some c \<Rightarrow> c)"

definition verify_existing :: "'w provider \<Rightarrow> VerifyCallbacks \<Rightarrow> 'w appliance" where
  "verify_existing p verify =
     bindW (mapErrorW (Pair 0) (verifyRuntime p (vc_RuntimeReapply verify) ''existing firewall safety'')) (\<lambda>_.
     bindW (gate p NetworkReady ''verify existing network readiness: %w'' 0) (\<lambda>_.
     bindW (gate p SafetyAfterNetwork ''verify existing firewall safety after network: %w'' 0) (\<lambda>_.
     pureW 0)))"

definition apply_service ::
  "'w provider \<Rightarrow> Composition \<Rightarrow> (string \<times> uci_package \<times> nat) list \<Rightarrow> string \<Rightarrow> nat \<Rightarrow> 'w appliance" where
  "apply_service p c changes name =
     apply_package p name (ServiceConfigChange name) (change_of changes name) (sectionFor c name)"

definition apply_changes ::
  "'w provider \<Rightarrow> Composition \<Rightarrow> (string \<times> uci_package \<times> nat) list \<Rightarrow> 'w appliance" where
  "apply_changes p c changes =
     bindW (apply_package p ''firewall'' ReloadFirewall (change_of changes ''firewall'') (cp_Firewall c) 0) (\<lambda>n1.
     bindW (gate p SafetyBeforeNetwork ''verify firewall safety before network: %w'' n1) (\<lambda>_.
     bindW (apply_package p ''network'' (ServiceConfigChange ''network'') (change_of changes ''network'') (cp_Network c) n1) (\<lambda>n2.
     bindW (gate p NetworkReady ''verify network readiness: %w'' n2) (\<lambda>_.
     bindW (gate p ReloadFirewall ''reload firewall after network readiness: %w'' n2) (\<lambda>_.
     bindW (gate p SafetyAfterNetwork ''verify firewall safety after network: %w'' n2) (\<lambda>_.
     bindW (apply_service p c changes ''system'' n2) (\<lambda>n3.
     bindW (apply_service p c changes ''stubby'' n3) (\<lambda>n4.
     apply_service p c changes ''dhcp'' n4))))))))"

definition totalMutations :: "(string \<times> uci_package \<times> nat) list \<Rightarrow> nat" where
  "totalMutations changes = sum_list (map (\<lambda>(_, _, n). n) changes)"

definition ReconcileAppliance ::
  "'w provider option \<Rightarrow> Composition \<Rightarrow> VerifyCallbacks \<Rightarrow> 'w appliance" where
  "ReconcileAppliance client c verify =
     (case client of
        None \<Rightarrow> failW (0, Errorf ''provider is required'' [])
      | Some p \<Rightarrow>
        if \<not> vc_SafetyBeforeNetwork verify \<or> \<not> vc_NetworkReady verify \<or> \<not> vc_SafetyAfterNetwork verify then
          failW (0, Errorf ''all appliance verification callbacks are required'' [])
        else
          bindW (mapErrorW (Pair 0) (read_packages p (packages c) [])) (\<lambda>changes.
          if totalMutations changes = 0 then verify_existing p verify else apply_changes p c changes))"

end
