(* ===== verification/Uci_Correct.thy ===== *)
theory Uci_Correct
  imports Uci_Reconcile
begin

text \<open>
  What reconciliation does to the appliance.  A package of the provider's configuration is a map
  from section names to a type and a map from keys to scalar or list values (\<open>uci_section\<close>).
  The locale \<open>uci_provider\<close> is the contract of the calls the reconciler makes: how each successful
  write changes that map, which section a failed one may have changed, and that a read reports it.
  Inside it, the staging of a difference refines one atomic update of the package: every desired
  section holds exactly what is desired, every stale managed section is gone and everything else is
  as it was.
\<close>

section \<open>The configuration as the provider holds it\<close>

datatype uci_value = UOption string | UList "string list"

type_synonym uci_section = "string \<times> (string \<rightharpoonup> uci_value)"

type_synonym uci_view = "string \<Rightarrow> string \<rightharpoonup> uci_section"

definition entries :: "(string \<times> string) list \<Rightarrow> (string \<times> string list) list \<Rightarrow> string \<rightharpoonup> uci_value" where
  "entries options lists0 k =
     (if lst lists0 k \<noteq> [] then Some (UList (lst lists0 k)) else map_option UOption (map_of options k))"

definition observed_of :: "UCISection \<Rightarrow> uci_section" where
  "observed_of s = (us_Type s, entries (us_Options s) (us_Lists s))"

definition desired_of :: "Section \<Rightarrow> uci_section" where
  "desired_of s = (sn_Type s, entries (sn_Options s) (sn_Lists s))"

definition wf_observed :: "UCISection \<Rightarrow> bool" where
  "wf_observed s \<longleftrightarrow> distinct (map fst (us_Options s)) \<and> distinct (map fst (us_Lists s)) \<and>
     [] \<notin> fst ` set (us_Options s) \<union> fst ` set (us_Lists s) \<and> [] \<notin> snd ` set (us_Lists s) \<and>
     fst ` set (us_Options s) \<inter> fst ` set (us_Lists s) = {}"

definition wf_section :: "Section \<Rightarrow> bool" where
  "wf_section s \<longleftrightarrow> sn_Name s \<noteq> [] \<and> distinct (map fst (sn_Options s)) \<and> distinct (map fst (sn_Lists s)) \<and>
     [] \<notin> fst ` set (sn_Options s) \<union> fst ` set (sn_Lists s) \<and> [] \<notin> snd ` set (sn_Options s) \<and>
     fst ` set (sn_Options s) \<inter> fst ` set (sn_Lists s) = {}"

definition wf_desired :: "Section list \<Rightarrow> bool" where
  "wf_desired desired \<longleftrightarrow> distinct (map sn_Name desired) \<and> list_all wf_section desired"

definition observes :: "uci_package \<Rightarrow> (string \<rightharpoonup> uci_section) \<Rightarrow> bool" where
  "observes current v \<longleftrightarrow> distinct (map fst current) \<and> (\<forall>s \<in> snd ` set current. wf_observed s) \<and>
     v = map_option observed_of \<circ> map_of current"

text \<open>The abstract specification of one reconciliation: a single update of the package.\<close>

definition reconciled ::
  "string \<Rightarrow> uci_package \<Rightarrow> Section list \<Rightarrow> (string \<rightharpoonup> uci_section) \<Rightarrow> (string \<rightharpoonup> uci_section)" where
  "reconciled pkg current desired v name =
     (case wanted desired name of
        Some s \<Rightarrow> Some (desired_of s)
      | None \<Rightarrow> if name \<in> set (stale_names (scoped pkg current desired) desired) then None else v name)"

definition appliance_reconciled :: "Composition \<Rightarrow> uci_view \<Rightarrow> uci_view \<Rightarrow> bool" where
  "appliance_reconciled c v v' \<longleftrightarrow>
     (\<forall>pkg. case map_of (packages c) pkg of
        None \<Rightarrow> v' pkg = v pkg
      | Some desired \<Rightarrow> \<exists>current. observes current (v pkg) \<and> v' pkg = reconciled pkg current desired (v pkg))"

definition wf_composition :: "Composition \<Rightarrow> bool" where
  "wf_composition c \<longleftrightarrow> list_all (\<lambda>(_, desired). wf_desired desired) (packages c)"

section \<open>Lookup\<close>

lemma opt_Some: "distinct (map fst m) \<Longrightarrow> (k, v) \<in> set m \<Longrightarrow> opt m k = v"
  by (simp add: opt_def)

lemma lst_Some: "distinct (map fst m) \<Longrightarrow> (k, v) \<in> set m \<Longrightarrow> lst m k = v"
  by (simp add: lst_def)

lemma lst_None: "k \<notin> fst ` set m \<Longrightarrow> lst m k = []"
  by (simp add: lst_def map_of_eq_None_iff [THEN iffD2])

lemma map_of_opt: "k \<in> fst ` set m \<Longrightarrow> map_of m k = Some (opt m k)"
  by (cases "map_of m k") (auto simp: opt_def map_of_eq_None_iff)

lemma opt_nonempty: "opt m k \<noteq> [] \<Longrightarrow> k \<in> fst ` set m"
  by (cases "map_of m k") (auto simp: opt_def dest: map_of_SomeD intro: rev_image_eqI)

lemma opt_in_snd: "k \<in> fst ` set m \<Longrightarrow> opt m k \<in> snd ` set m"
  by (drule map_of_opt, drule map_of_SomeD, erule rev_image_eqI) simp

lemma lst_nonempty_iff: "[] \<notin> snd ` set m \<Longrightarrow> lst m k \<noteq> [] \<longleftrightarrow> k \<in> fst ` set m"
proof (cases "map_of m k")
  case None
  then show ?thesis by (simp add: lst_def) (simp add: map_of_eq_None_iff)
next
  case (Some v)
  moreover assume "[] \<notin> snd ` set m"
  ultimately show ?thesis by (auto simp: lst_def dest!: map_of_SomeD intro: rev_image_eqI)
qed

lemma wanted_iff: "wanted desired name = None \<longleftrightarrow> name \<notin> sn_Name ` set desired"
  by (auto simp: wanted_def map_of_eq_None_iff image_iff)

lemma wanted_Some: "wanted desired name = Some s \<Longrightarrow> s \<in> set desired \<and> sn_Name s = name"
  by (auto simp: wanted_def dest!: map_of_SomeD)

lemma observes_wf: "observes current v \<Longrightarrow> map_of current name = Some ob \<Longrightarrow> wf_observed ob"
  by (auto simp: observes_def dest!: map_of_SomeD)

lemma scoped_desired: "name \<in> sn_Name ` set desired \<Longrightarrow> map_of (scoped pkg current desired) name = map_of current name"
  by (induction current) (auto simp: scoped_def FirewallScope_def owned_firewall_names_def)

lemma set_scoped: "set (scoped pkg current desired) \<subseteq> set current"
  by (auto simp: scoped_def FirewallScope_def)

lemma set_stale_names:
  "set (stale_names current desired) \<subseteq> fst ` set current - sn_Name ` set desired"
  by (auto simp: stale_names_def wanted_iff)

lemma distinct_stale_names: "distinct (map fst current) \<Longrightarrow> distinct (stale_names current desired)"
  by (auto simp: stale_names_def intro: distinct_map_filter)

lemma distinct_scoped: "distinct (map fst current) \<Longrightarrow> distinct (map fst (scoped pkg current desired))"
  by (auto simp: scoped_def FirewallScope_def intro: distinct_map_filter)


section \<open>The provider's contract\<close>

fun write_target :: "request \<Rightarrow> (string \<times> string) option" where
  "write_target (UCIAddNamed pkg t n) = Some (pkg, n)"
| "write_target (UCISet pkg n k v) = Some (pkg, n)"
| "write_target (UCISetList pkg n k vs) = Some (pkg, n)"
| "write_target (UCIDelete pkg n k) = Some (pkg, n)"
| "write_target _ = None"

text \<open>Adding a section without a name creates one with a name of the provider's choice.\<close>

fun named :: "request \<Rightarrow> bool" where
  "named (UCIAddNamed pkg t n) = (n \<noteq> [])"
| "named _ = True"

definition put :: "uci_view \<Rightarrow> string \<Rightarrow> string \<Rightarrow> uci_section option \<Rightarrow> uci_view" where
  "put v pkg n s = v(pkg := (v pkg)(n := s))"

locale uci_provider =
  fixes call :: "'w provider"
    and view :: "'w \<Rightarrow> uci_view"
  assumes add_named: "call (UCIAddNamed pkg t n) w = (Inr (Named n), w') \<Longrightarrow> view w pkg n = None \<Longrightarrow>
        view w' = put (view w) pkg n (Some (t, Map.empty))"
    and set_option: "call (UCISet pkg n k v) w = (Inr r, w') \<Longrightarrow> view w pkg n = Some (t, m) \<Longrightarrow> v \<noteq> [] \<Longrightarrow>
        view w' = put (view w) pkg n (Some (t, m(k \<mapsto> UOption v)))"
    and set_list: "call (UCISetList pkg n k vs) w = (Inr r, w') \<Longrightarrow> view w pkg n = Some (t, m) \<Longrightarrow> vs \<noteq> [] \<Longrightarrow>
        view w' = put (view w) pkg n (Some (t, m(k \<mapsto> UList vs)))"
    and delete_key: "call (UCIDelete pkg n k) w = (Inr r, w') \<Longrightarrow> view w pkg n = Some (t, m) \<Longrightarrow> k \<noteq> [] \<Longrightarrow>
        view w' = put (view w) pkg n (Some (t, m(k := None)))"
    and delete_section: "call (UCIDelete pkg n []) w = (Inr r, w') \<Longrightarrow> view w' = put (view w) pkg n None"
    and frame: "write_target req \<noteq> Some (pkg, n) \<Longrightarrow> named req \<Longrightarrow> view (snd (call req w)) pkg n = view w pkg n"
    and get: "call (UCIGet pkg) w = (Inr r, w') \<Longrightarrow> \<exists>current. r = Package current \<and> observes current (view w pkg)"
begin

text \<open>The worlds whose view is \<open>v\<close> except that section \<open>n\<close> of \<open>pkg\<close> is \<open>(t, m)\<close>, and those whose view
  differs from \<open>v\<close> in the sections \<open>N\<close> of \<open>pkg\<close> only.\<close>

definition at :: "uci_view \<Rightarrow> string \<Rightarrow> string \<Rightarrow> string \<Rightarrow> (string \<rightharpoonup> uci_value) \<Rightarrow> 'w \<Rightarrow> bool" where
  "at v pkg n t m w \<longleftrightarrow> view w = put v pkg n (Some (t, m))"

definition only :: "uci_view \<Rightarrow> string \<Rightarrow> string set \<Rightarrow> 'w \<Rightarrow> bool" where
  "only v pkg N w \<longleftrightarrow> (\<forall>p n. p \<noteq> pkg \<or> n \<notin> N \<longrightarrow> view w p n = v p n)"

lemma at_fun: "at v pkg n t m = (\<lambda>w. view w = put v pkg n (Some (t, m)))"
  by (simp add: at_def fun_eq_iff)

lemma put_put [simp]: "put (put v pkg n s) pkg n s' = put v pkg n s'"
  by (simp add: put_def)

lemma put_same: "v pkg n = s \<Longrightarrow> put v pkg n s = v"
  by (auto simp: put_def fun_eq_iff)

lemma put_get [simp]: "put v pkg n s pkg n = s"
  by (simp add: put_def)

lemma only_frame:
  assumes "write_target r = Some (pkg, n)" and "n \<in> N" and "only v pkg N w" and "call r w = (x, w')" and "named r"
  shows "only v pkg N w'"
  unfolding only_def
proof (intro allI impI)
  fix p n' assume out: "p \<noteq> pkg \<or> n' \<notin> N"
  then have "write_target r \<noteq> Some (p, n')" using assms(1,2) by auto
  from frame [OF this assms(5), of w] assms(3,4) out show "view w' p n' = v p n'" by (auto simp: only_def)
qed

lemma at_only: "at v pkg n t m w \<Longrightarrow> n \<in> N \<Longrightarrow> only v pkg N w"
  by (auto simp: at_def only_def put_def)

lemma hoareW_send:
  assumes "\<And>w x w'. P w \<Longrightarrow> call r w = (Inr x, w') \<Longrightarrow> Q w'"
    and "\<And>w e w'. P w \<Longrightarrow> call r w = (Inl e, w') \<Longrightarrow> E w'"
  shows "hoareW P (send call r) (\<lambda>_. Q) E"
  using assms by (auto simp: hoareW_def send_def bindW_def pureW_def split: prod.splits sum.splits)

lemma send_key:
  assumes "write_target r = Some (pkg, n)" and "n \<in> N" and "named r"
    and "\<And>w x w'. at v pkg n t m w \<Longrightarrow> call r w = (Inr x, w') \<Longrightarrow> at v pkg n t m' w'"
  shows "hoareW (at v pkg n t m) (send call r) (\<lambda>_. at v pkg n t m') (only v pkg N)"
proof (rule hoareW_send)
  show "only v pkg N w'" if "at v pkg n t m w" and "call r w = (Inl e, w')" for w e w'
    using only_frame [OF assms(1,2) at_only [OF that(1) assms(2)] that(2) assms(3)] .
qed (rule assms(4))

lemma send_set: "n \<in> N \<Longrightarrow> x \<noteq> [] \<Longrightarrow>
    hoareW (at v pkg n t m) (send call (UCISet pkg n k x)) (\<lambda>_. at v pkg n t (m(k \<mapsto> UOption x))) (only v pkg N)"
  by (rule send_key) (auto simp: at_def dest: set_option)

lemma send_set_list: "n \<in> N \<Longrightarrow> xs \<noteq> [] \<Longrightarrow>
    hoareW (at v pkg n t m) (send call (UCISetList pkg n k xs)) (\<lambda>_. at v pkg n t (m(k \<mapsto> UList xs))) (only v pkg N)"
  by (rule send_key) (auto simp: at_def dest: set_list)

lemma send_delete: "n \<in> N \<Longrightarrow> k \<noteq> [] \<Longrightarrow>
    hoareW (at v pkg n t m) (send call (UCIDelete pkg n k)) (\<lambda>_. at v pkg n t (m(k := None))) (only v pkg N)"
  by (rule send_key) (auto simp: at_def dest: delete_key)

end

section \<open>Writing one section\<close>

definition option_entry :: "Section \<Rightarrow> string \<Rightarrow> uci_value option" where
  "option_entry s k = Some (UOption (opt (sn_Options s) k))"

definition list_entry :: "(string \<times> string list) list \<Rightarrow> string \<Rightarrow> uci_value option" where
  "list_entry m k = (if lst m k = [] then None else Some (UList (lst m k)))"

text \<open>What the option and list loops need of the section's content when they start.\<close>

definition pruned :: "Section \<Rightarrow> UCISection option \<Rightarrow> (string \<rightharpoonup> uci_value) \<Rightarrow> bool" where
  "pruned s observed m \<longleftrightarrow>
     (\<forall>k. k \<notin> fst ` set (sn_Options s) \<union> fst ` set (sn_Lists s) \<longrightarrow> m k = None) \<and>
     (\<forall>k \<in> fst ` set (sn_Options s). \<forall>ob. observed = Some ob \<and> opt (us_Options ob) k = opt (sn_Options s) k \<longrightarrow>
        m k = option_entry s k) \<and>
     (\<forall>k \<in> fst ` set (sn_Lists s).
        m k = (case observed of None \<Rightarrow> None | Some ob \<Rightarrow> list_entry (us_Lists ob) k))"

lemma wf_option_nonempty: "wf_section s \<Longrightarrow> k \<in> fst ` set (sn_Options s) \<Longrightarrow> opt (sn_Options s) k \<noteq> []"
  using opt_in_snd [of k "sn_Options s"] unfolding wf_section_def by metis

lemma pruned_create: "pruned s None Map.empty"
  by (simp add: pruned_def)

lemma pruned_update:
  assumes s: "wf_section s" and ob: "wf_observed ob"
    and m: "\<And>k. m k = (if k \<in> fst ` set (us_Lists ob) - fst ` set (sn_Lists s) then None
        else if k \<in> fst ` set (us_Options ob) - fst ` set (sn_Options s) then None
        else entries (us_Options ob) (us_Lists ob) k)"
  shows "pruned s (Some ob) m"
proof -
  have ne: "lst (us_Lists ob) k \<noteq> [] \<longleftrightarrow> k \<in> fst ` set (us_Lists ob)" for k
    using ob by (simp add: wf_observed_def lst_nonempty_iff)
  have none: "map_of (us_Options ob) k = None \<longleftrightarrow> k \<notin> fst ` set (us_Options ob)" for k
    by (rule map_of_eq_None_iff)
  have other: "m k = None" if "k \<notin> fst ` set (sn_Options s) \<union> fst ` set (sn_Lists s)" for k
    using that by (auto simp: m entries_def ne none)
  have options: "m k = option_entry s k"
    if k: "k \<in> fst ` set (sn_Options s)" and eq: "opt (us_Options ob) k = opt (sn_Options s) k" for k
  proof -
    have "opt (sn_Options s) k \<noteq> []" using wf_option_nonempty [OF s k] .
    then have "k \<in> fst ` set (us_Options ob)" using opt_nonempty eq by metis
    moreover then have "k \<notin> fst ` set (us_Lists ob)" using ob by (auto simp: wf_observed_def)
    ultimately show ?thesis using k ne [of k] by (simp add: m entries_def map_of_opt option_entry_def eq)
  qed
  have lists0: "m k = list_entry (us_Lists ob) k" if k: "k \<in> fst ` set (sn_Lists s)" for k
  proof -
    have "k \<notin> fst ` set (sn_Options s)" using s k by (auto simp: wf_section_def)
    moreover have "k \<notin> fst ` set (us_Options ob)" if "k \<in> fst ` set (us_Lists ob)"
      using ob that by (auto simp: wf_observed_def)
    ultimately show ?thesis using k ne [of k] none [of k] by (auto simp: m entries_def list_entry_def)
  qed
  show ?thesis unfolding pruned_def using other options lists0 by auto
qed

lemma entries_desired:
  assumes "wf_section s"
  shows "(\<lambda>k. if k \<in> fst ` set (sn_Lists s) then list_entry (sn_Lists s) k
          else if k \<in> fst ` set (sn_Options s) then option_entry s k else None) = entries (sn_Options s) (sn_Lists s)"
proof
  fix k
  have "map_of (sn_Options s) k = None" if "k \<in> fst ` set (sn_Lists s)"
    using assms that by (auto simp: wf_section_def map_of_eq_None_iff)
  moreover have "map_of (sn_Options s) k = None" if "k \<notin> fst ` set (sn_Options s)"
    using that by (simp add: map_of_eq_None_iff)
  ultimately show "(if k \<in> fst ` set (sn_Lists s) then list_entry (sn_Lists s) k
      else if k \<in> fst ` set (sn_Options s) then option_entry s k else None) = entries (sn_Options s) (sn_Lists s) k"
    by (auto simp: entries_def list_entry_def option_entry_def map_of_opt lst_None)
qed

context uci_provider
begin

lemma write_option_ok:
  assumes s: "wf_section s" and k: "k \<in> fst ` set (sn_Options s)" and n: "sn_Name s \<in> N"
    and skip: "\<And>ob. observed = Some ob \<Longrightarrow> opt (us_Options ob) k = opt (sn_Options s) k \<Longrightarrow> m k = option_entry s k"
  shows "hoareW (at v pkg (sn_Name s) t m) (write_option call pkg s observed k)
           (\<lambda>_. at v pkg (sn_Name s) t (m(k := option_entry s k))) (only v pkg N)"
proof (cases "\<exists>ob. observed = Some ob \<and> opt (us_Options ob) k = opt (sn_Options s) k")
  case True
  then have "m(k := option_entry s k) = m" using skip by (auto simp: fun_eq_iff)
  moreover have "write_option call pkg s observed k = pureW ()" using True by (auto simp: write_option_def)
  ultimately show ?thesis by (auto intro: hoareW_pure)
next
  case False
  have "opt (sn_Options s) k \<noteq> []" using wf_option_nonempty [OF s k] .
  from send_set [OF n this] False show ?thesis
    by (auto simp: write_option_def option_entry_def split: option.splits)
qed

lemma write_list_ok:
  assumes s: "wf_section s" and k: "k \<in> fst ` set (sn_Lists s)" and n: "sn_Name s \<in> N"
    and start: "m k = (case observed of None \<Rightarrow> None | Some ob \<Rightarrow> list_entry (us_Lists ob) k)"
  shows "hoareW (at v pkg (sn_Name s) t m) (write_list call pkg s observed k)
           (\<lambda>_. at v pkg (sn_Name s) t (m(k := list_entry (sn_Lists s) k))) (only v pkg N)"
proof -
  let ?items = "lst (sn_Lists s) k"
  let ?old = "case observed of None \<Rightarrow> [] | Some ob \<Rightarrow> lst (us_Lists ob) k"
  let ?at = "\<lambda>m. at v pkg (sn_Name s) t m"
  have key: "k \<noteq> []" using s k unfolding wf_section_def by blast
  show ?thesis
  proof (cases "observed \<noteq> None \<and> ?old = ?items")
    case True
    then have "m(k := list_entry (sn_Lists s) k) = m" using start by (auto simp: fun_eq_iff list_entry_def)
    moreover have "write_list call pkg s observed k = pureW ()" using True by (auto simp: write_list_def Let_def)
    ultimately show ?thesis by (auto intro: hoareW_pure)
  next
    case False
    let ?reset = "if observed \<noteq> None \<and> ?old \<noteq> [] then
           mapErrorW (Wrapf ''reset provider list %s.%s: %w'' [sn_Name s, k]) (send call (UCIDelete pkg (sn_Name s) k))
         else pureW ()"
    have "hoareW (?at m) ?reset (\<lambda>_. ?at (m(k := None))) (only v pkg N)"
    proof (rule hoareW_if)
      assume "\<not> (observed \<noteq> None \<and> ?old \<noteq> [])"
      then have "m(k := None) = m" using start by (auto simp: fun_eq_iff list_entry_def split: option.splits)
      then show "hoareW (?at m) (pureW ()) (\<lambda>_. ?at (m(k := None))) (only v pkg N)" by (auto intro: hoareW_pure)
    qed (simp add: send_delete [OF n key])
    moreover have "hoareW (?at (m(k := None))) (if ?items = [] then pureW ()
         else mapErrorW (Wrapf ''set provider list %s.%s: %w'' [sn_Name s, k])
           (send call (UCISetList pkg (sn_Name s) k ?items)))
         (\<lambda>_. ?at (m(k := list_entry (sn_Lists s) k))) (only v pkg N)"
      using send_set_list [OF n, of ?items v pkg t "m(k := None)" k]
      by (auto intro: hoareW_pure simp: list_entry_def)
    ultimately show ?thesis
      using False by (simp only: write_list_def Let_def if_False) (rule hoareW_bind)
  qed
qed

lemma write_entries:
  assumes s: "wf_section s" and n: "sn_Name s \<in> N" and m: "pruned s observed m"
  shows "hoareW (at v pkg (sn_Name s) t m)
    (bindW (forW (write_option call pkg s observed) (sort (map fst (sn_Options s)))) (\<lambda>_.
      forW (write_list call pkg s observed) (sort (map fst (sn_Lists s)))))
    (\<lambda>_. at v pkg (sn_Name s) t (entries (sn_Options s) (sn_Lists s))) (only v pkg N)"
proof (rule hoareW_bind)
  let ?at = "at v pkg (sn_Name s) t"
  let ?m1 = "\<lambda>k. if k \<in> set (sort (map fst (sn_Options s))) then option_entry s k else m k"
  show "hoareW (?at m) (forW (write_option call pkg s observed) (sort (map fst (sn_Options s))))
      (\<lambda>_. ?at ?m1) (only v pkg N)"
    by (rule hoareW_for_map, use s in \<open>simp add: wf_section_def\<close>, rule write_option_ok [OF s _ n])
      (use m in \<open>auto simp: pruned_def\<close>)
  have m1: "?m1 k = (case observed of None \<Rightarrow> None | Some ob \<Rightarrow> list_entry (us_Lists ob) k)"
    if "k \<in> fst ` set (sn_Lists s)" for k
    using that s m by (auto simp: pruned_def wf_section_def)
  have "hoareW (?at ?m1) (forW (write_list call pkg s observed) (sort (map fst (sn_Lists s))))
      (\<lambda>_. ?at (\<lambda>k. if k \<in> set (sort (map fst (sn_Lists s))) then list_entry (sn_Lists s) k else ?m1 k)) (only v pkg N)"
    by (rule hoareW_for_map, use s in \<open>simp add: wf_section_def\<close>, rule write_list_ok [OF s _ n])
      (use m1 in auto)
  moreover have "(\<lambda>k. if k \<in> set (sort (map fst (sn_Lists s))) then list_entry (sn_Lists s) k else ?m1 k) =
      entries (sn_Options s) (sn_Lists s)"
    using m by (subst entries_desired [OF s, symmetric]) (auto simp: fun_eq_iff pruned_def)
  ultimately show "hoareW (?at ?m1) (forW (write_list call pkg s observed) (sort (map fst (sn_Lists s))))
      (\<lambda>_. ?at (entries (sn_Options s) (sn_Lists s))) (only v pkg N)" by simp
qed

lemma delete_stale_keys_ok:
  assumes "distinct ks" and "[] \<notin> set ks" and "n \<in> N"
  shows "hoareW (at v pkg n t m) (delete_stale_keys call pkg n fmt ks ds)
    (\<lambda>_. at v pkg n t (\<lambda>k. if k \<in> set ks - set ds then None else m k)) (only v pkg N)"
proof -
  have "hoareW (at v pkg n t m) (delete_stale_keys call pkg n fmt ks ds)
    (\<lambda>_. at v pkg n t (\<lambda>k. if k \<in> set (filter (\<lambda>key. key \<notin> set ds) ks) then None else m k)) (only v pkg N)"
    unfolding delete_stale_keys_def
    by (rule hoareW_for_map, use assms(1) in simp, unfold hoareW_mapError, rule send_delete [OF assms(3)])
      (use assms(2) in auto)
  moreover have "(\<lambda>k. if k \<in> set (filter (\<lambda>key. key \<notin> set ds) ks) then None else m k) =
      (\<lambda>k. if k \<in> set ks - set ds then None else m k)" by auto
  ultimately show ?thesis by simp
qed

lemma write_created:
  assumes "wf_section s" and "sn_Name s \<in> N"
  shows "hoareW (at v pkg (sn_Name s) (sn_Type s) Map.empty) (writeSection call pkg s None)
    (\<lambda>_ w. view w = put v pkg (sn_Name s) (Some (desired_of s))) (only v pkg N)"
  using write_entries [OF assms pruned_create, of v pkg "sn_Type s"]
  by (simp add: writeSection_def Let_def at_fun desired_of_def)

lemma write_updated:
  assumes s: "wf_section s" and n: "sn_Name s \<in> N" and ob: "wf_observed ob" and "us_Type ob = sn_Type s"
  shows "hoareW (at v pkg (sn_Name s) (us_Type ob) (entries (us_Options ob) (us_Lists ob)))
    (writeSection call pkg s (Some ob))
    (\<lambda>_ w. view w = put v pkg (sn_Name s) (Some (desired_of s))) (only v pkg N)"
proof -
  let ?at = "at v pkg (sn_Name s) (sn_Type s)"
  let ?m1 = "\<lambda>k. if k \<in> set (map fst (us_Options ob)) - set (map fst (sn_Options s)) then None
     else entries (us_Options ob) (us_Lists ob) k"
  let ?m2 = "\<lambda>k. if k \<in> set (map fst (us_Lists ob)) - set (map fst (sn_Lists s)) then None else ?m1 k"
  have d: "distinct (map fst (us_Options ob))" "[] \<notin> set (map fst (us_Options ob))"
      "distinct (map fst (us_Lists ob))" "[] \<notin> set (map fst (us_Lists ob))"
    using ob by (auto simp: wf_observed_def)
  have "hoareW (?at (entries (us_Options ob) (us_Lists ob)))
     (bindW (delete_stale_keys call pkg (sn_Name s) ''remove stale provider option %s.%s: %w''
                        (map fst (us_Options ob)) (map fst (sn_Options s)))
            (\<lambda>_. delete_stale_keys call pkg (sn_Name s) ''remove stale provider list %s.%s: %w''
                        (map fst (us_Lists ob)) (map fst (sn_Lists s)))) (\<lambda>_. ?at ?m2) (only v pkg N)"
    by (rule hoareW_bind [OF delete_stale_keys_ok [OF d(1,2) n] delete_stale_keys_ok [OF d(3,4) n]])
  moreover have "pruned s (Some ob) ?m2" by (rule pruned_update [OF s ob]) simp
  note write_entries [OF s n this, of v pkg "sn_Type s"]
  ultimately have "hoareW (?at (entries (us_Options ob) (us_Lists ob))) (writeSection call pkg s (Some ob))
    (\<lambda>_. ?at (entries (sn_Options s) (sn_Lists s))) (only v pkg N)"
    using assms(4) by (simp only: writeSection_def Let_def option.case not_True_eq_False if_False refl) (rule hoareW_bind)
  then show ?thesis using assms(4) by (simp add: at_fun desired_of_def)
qed

end

section \<open>Comparing sections\<close>

lemma same_keys:
  assumes "distinct xs" and "distinct ys" and "length xs = length ys" and "set ys \<subseteq> set xs"
  shows "set xs = set ys"
  using assms by (metis card_subset_eq distinct_card finite_set)

lemma sameSection_lists:
  assumes "sameSection ob s"
  shows "\<forall>(k, vs) \<in> set (sn_Lists s). vs = [] \<and> lst (us_Lists ob) k = [] \<or> lst (us_Lists ob) k = vs"
    and "\<forall>(k, vs) \<in> set (us_Lists ob). map_of (sn_Lists s) k \<noteq> None \<or> vs = []"
proof -
  note parts = assms [unfolded sameSection_def list_all_iff, THEN conjunct2, THEN conjunct2, THEN conjunct2]
  from parts show "\<forall>(k, vs) \<in> set (sn_Lists s). vs = [] \<and> lst (us_Lists ob) k = [] \<or> lst (us_Lists ob) k = vs"
    by (rule conjunct1)
  from parts show "\<forall>(k, vs) \<in> set (us_Lists ob). map_of (sn_Lists s) k \<noteq> None \<or> vs = []"
    by (rule conjunct2)
qed

lemma sameSection_content:
  assumes s: "wf_section s" and ob: "wf_observed ob" and same: "sameSection ob s"
  shows "observed_of ob = desired_of s"
proof -
  have eq: "opt (us_Options ob) k = opt (sn_Options s) k" if "k \<in> fst ` set (sn_Options s)" for k
    using same that s by (auto simp: sameSection_def list_all_iff wf_section_def opt_Some)
  have sub: "fst ` set (sn_Options s) \<subseteq> fst ` set (us_Options ob)"
    using eq wf_option_nonempty [OF s] opt_nonempty by (metis subsetI)
  have keys: "fst ` set (us_Options ob) = fst ` set (sn_Options s)"
    using same_keys [of "map fst (us_Options ob)" "map fst (sn_Options s)"] sub same s ob
    by (simp add: sameSection_def wf_section_def wf_observed_def)
  have options: "map_of (us_Options ob) k = map_of (sn_Options s) k" for k
  proof (cases "k \<in> fst ` set (sn_Options s)")
    case True
    then show ?thesis using eq keys by (simp add: map_of_opt)
  next
    case False
    then show ?thesis using keys by (simp add: map_of_eq_None_iff [THEN iffD2])
  qed
  have lists0: "lst (us_Lists ob) k = lst (sn_Lists s) k" for k
  proof (cases "k \<in> fst ` set (sn_Lists s)")
    case True
    then obtain vs where vs: "(k, vs) \<in> set (sn_Lists s)" by auto
    from bspec [OF sameSection_lists(1) [OF same] vs] have "vs = [] \<and> lst (us_Lists ob) k = [] \<or> lst (us_Lists ob) k = vs" by simp
    moreover have "lst (sn_Lists s) k = vs" using vs s by (simp add: wf_section_def lst_Some)
    ultimately show ?thesis by auto
  next
    case False
    have "k \<notin> fst ` set (us_Lists ob)"
    proof
      assume "k \<in> fst ` set (us_Lists ob)"
      then obtain vs where vs: "(k, vs) \<in> set (us_Lists ob)" by auto
      have "map_of (sn_Lists s) k = None" using False by (simp add: map_of_eq_None_iff)
      then have "vs = []" using bspec [OF sameSection_lists(2) [OF same] vs] by simp
      with vs have "[] \<in> snd ` set (us_Lists ob)" by (auto intro: rev_image_eqI)
      then show False using ob unfolding wf_observed_def by blast
    qed
    then show ?thesis using False by (simp add: lst_None)
  qed
  show ?thesis using same by (auto simp: observed_of_def desired_of_def entries_def fun_eq_iff options lists0 sameSection_def)
qed

section \<open>Staging a difference\<close>

context uci_provider
begin

lemma stage_create:
  assumes "wf_section s" and n: "sn_Name s \<in> N" and none: "v pkg (sn_Name s) = None"
  shows "hoareW (\<lambda>w. view w = v) (stage_mutation call pkg current (MutationCreate s))
    (\<lambda>_ w. view w = put v pkg (sn_Name s) (Some (desired_of s))) (only v pkg N)"
proof -
  let ?mid = "\<lambda>r w. only v pkg N w \<and> (r = Named (sn_Name s) \<longrightarrow> at v pkg (sn_Name s) (sn_Type s) Map.empty w)"
  have "hoareW (\<lambda>w. view w = v) (call (UCIAddNamed pkg (sn_Type s) (sn_Name s))) ?mid (only v pkg N)"
  proof -
    have "only v pkg N w'" if "call (UCIAddNamed pkg (sn_Type s) (sn_Name s)) w = (x, w')" "view w = v" for w x w'
      using only_frame [OF _ n _ that(1), of pkg v] that(2) assms(1) by (auto simp: only_def wf_section_def)
    moreover have "at v pkg (sn_Name s) (sn_Type s) Map.empty w'"
      if "call (UCIAddNamed pkg (sn_Type s) (sn_Name s)) w = (Inr (Named (sn_Name s)), w')" "view w = v" for w w'
      using add_named [OF that(1)] that(2) none by (simp add: at_def)
    ultimately show ?thesis by (auto simp: hoareW_def split: prod.splits sum.splits)
  qed
  moreover have "hoareW (?mid r) (if r \<noteq> Named (sn_Name s) then failW e else writeSection call pkg s None)
      (\<lambda>_ w. view w = put v pkg (sn_Name s) (Some (desired_of s))) (only v pkg N)" for r e
    by (rule hoareW_if) (auto intro: hoareW_fail hoareW_weaken [OF write_created [OF assms(1,2)]])
  ultimately show ?thesis
    by (simp only: stage_mutation.simps) (rule hoareW_bind, simp only: hoareW_mapError)
qed

lemma stage_update:
  assumes "wf_section s" and "sn_Name s \<in> N" and "wf_observed ob" and "us_Type ob = sn_Type s"
    and "map_of current (sn_Name s) = Some ob" and "v pkg (sn_Name s) = Some (observed_of ob)"
  shows "hoareW (\<lambda>w. view w = v) (stage_mutation call pkg current (MutationUpdate s))
    (\<lambda>_ w. view w = put v pkg (sn_Name s) (Some (desired_of s))) (only v pkg N)"
proof -
  have "put v pkg (sn_Name s) (Some (observed_of ob)) = v" using assms(6) by (rule put_same)
  then show ?thesis using write_updated [OF assms(1-4), of v pkg] assms(5) by (simp add: at_fun observed_of_def)
qed

lemma stage_delete:
  assumes "n \<in> N"
  shows "hoareW (\<lambda>w. view w = v) (stage_mutation call pkg current (MutationDelete n))
    (\<lambda>_ w. view w = put v pkg n None) (only v pkg N)"
proof -
  have "only v pkg N w'" if "call (UCIDelete pkg n []) w = (x, w')" "view w = v" for w x w'
    using only_frame [OF _ assms _ that(1), of pkg v] that(2) by (auto simp: only_def)
  then show ?thesis unfolding stage_mutation.simps hoareW_mapError
    by (intro hoareW_send) (auto dest: delete_section)
qed

text \<open>The mutations of one desired section bring it to its desired content.\<close>

lemma stage_section:
  assumes s: "wf_section s" and n: "sn_Name s \<in> N"
    and ob: "\<And>ob. map_of current (sn_Name s) = Some ob \<Longrightarrow> wf_observed ob"
    and v: "v pkg (sn_Name s) = map_option observed_of (map_of current (sn_Name s))"
    and ms: "section_mutations current s = Inr ms"
  shows "hoareW (\<lambda>w. view w = v) (forW (stage_mutation call pkg current) ms)
    (\<lambda>_ w. view w = put v pkg (sn_Name s) (Some (desired_of s))) (only v pkg N)"
proof (cases "map_of current (sn_Name s)")
  case None
  then have "ms = [MutationCreate s]" using ms by (simp add: section_mutations_def)
  then show ?thesis using stage_create [OF s n, of v pkg current] v None
    by (auto intro: hoareW_bind hoareW_pure simp del: stage_mutation.simps)
next
  case (Some ob)
  note wf = assms(3) [OF Some]
  have t: "us_Type ob = sn_Type s" using ms Some by (auto simp: section_mutations_def Let_def split: if_splits)
  consider "sameSection ob s" "ms = []" | "ms = [MutationDelete (sn_Name s), MutationCreate s]" | "ms = [MutationUpdate s]"
    using ms Some by (auto simp: section_mutations_def Let_def split: if_splits)
  then show ?thesis
  proof cases
    case 1
    then have "put v pkg (sn_Name s) (Some (desired_of s)) = v"
      using v Some sameSection_content [OF s wf] by (simp add: put_same)
    then show ?thesis using 1 by (simp add: hoareW_pure)
  next
    case 2
    have "hoareW (\<lambda>w. view w = put v pkg (sn_Name s) None) (stage_mutation call pkg current (MutationCreate s))
      (\<lambda>_ w. view w = put v pkg (sn_Name s) (Some (desired_of s))) (only v pkg N)"
      by (rule hoareW_weaken [OF stage_create [OF s n, where v = "put v pkg (sn_Name s) None" and pkg = pkg]])
        (auto simp: only_def put_def n split: if_splits)
    then show ?thesis using stage_delete [OF n, of v pkg current] 2
      by (auto intro!: hoareW_bind hoareW_pure simp del: stage_mutation.simps)
  next
    case 3
    then show ?thesis using stage_update [OF s n wf t Some, of v pkg] v Some
      by (auto intro: hoareW_bind hoareW_pure simp del: stage_mutation.simps)
  qed
qed

text \<open>The worlds in which package \<open>pkg\<close> has become \<open>m\<close>, changed in the sections \<open>N\<close> only.\<close>

definition staged :: "uci_view \<Rightarrow> string \<Rightarrow> string set \<Rightarrow> (string \<rightharpoonup> uci_section) \<Rightarrow> 'w \<Rightarrow> bool" where
  "staged v pkg N m w \<longleftrightarrow> view w = v(pkg := m) \<and> (\<forall>n. n \<notin> N \<longrightarrow> m n = v pkg n)"

lemma staged_step:
  assumes "hoareW (\<lambda>w. view w = v(pkg := m)) f (\<lambda>_ w. view w = put (v(pkg := m)) pkg n s) (only (v(pkg := m)) pkg N)"
    and "n \<in> N"
  shows "hoareW (staged v pkg N m) f (\<lambda>_. staged v pkg N (m(n := s))) (only v pkg N)"
proof (cases "\<forall>n. n \<notin> N \<longrightarrow> m n = v pkg n")
  case True
  show ?thesis
    by (rule hoareW_weaken [OF assms(1)]) (use True assms(2) in \<open>auto simp: staged_def put_def only_def\<close>)
next
  case False
  then show ?thesis by (auto simp: hoareW_def staged_def)
qed

lemma stage_package:
  assumes wf: "wf_desired desired" and ob: "observes current (v pkg)"
    and diff: "DiffOwned (scoped pkg current desired) desired = Inr ms"
  defines "N \<equiv> sn_Name ` set desired \<union> set (stale_names (scoped pkg current desired) desired)"
  shows "hoareW (\<lambda>w. view w = v) (forW (stage_mutation call pkg (scoped pkg current desired)) ms)
    (\<lambda>_ w. view w = v(pkg := reconciled pkg current desired (v pkg))) (only v pkg N)"
proof -
  let ?cur = "scoped pkg current desired"
  let ?stage = "stage_mutation call pkg ?cur"
  let ?ms = "\<lambda>n. section_mutations ?cur (the (wanted desired n))"
  let ?names = "sortedSectionNames desired"
  let ?stale = "stale_names ?cur desired"
  let ?tgt = "\<lambda>n. Some (desired_of (the (wanted desired n)))"
  let ?m1 = "\<lambda>n. if n \<in> set ?names then ?tgt n else v pkg n"
  obtain mss where mss: "mapE ?ms ?names = Inr mss" and ms: "ms = concat mss @ map MutationDelete ?stale"
    using diff by (auto simp: DiffOwned_def)
  have names: "set ?names = sn_Name ` set desired" and dn: "distinct ?names"
    using wf by (simp_all add: sortedSectionNames_def wf_desired_def)
  have ds: "distinct ?stale"
    using ob by (simp add: observes_def distinct_stale_names distinct_scoped)
  have "hoareW (staged v pkg N m) (forW ?stage (projr (?ms n))) (\<lambda>_. staged v pkg N (m(n := ?tgt n))) (only v pkg N)"
    if n: "n \<in> set ?names" and m: "m n = v pkg n" for n m
  proof (rule staged_step)
    obtain s where s: "wanted desired n = Some s" "s \<in> set desired" "sn_Name s = n"
      using n wanted_iff wanted_Some names by (metis option.exhaust)
    have look: "map_of ?cur (sn_Name s) = map_of current (sn_Name s)" using s by (intro scoped_desired) auto
    show "n \<in> N" using n names by (simp add: N_def)
    have "hoareW (\<lambda>w. view w = v(pkg := m)) (forW ?stage (projr (?ms (sn_Name s))))
      (\<lambda>_ w. view w = put (v(pkg := m)) pkg (sn_Name s) (Some (desired_of s))) (only (v(pkg := m)) pkg N)"
    proof (rule stage_section)
      show "wf_section s" using wf s by (simp add: wf_desired_def list_all_iff)
      show "sn_Name s \<in> N" using s by (auto simp: N_def)
      show "wf_observed ob" if "map_of ?cur (sn_Name s) = Some ob" for ob
        using observes_wf [OF assms(2)] look that by simp
      show "(v(pkg := m)) pkg (sn_Name s) = map_option observed_of (map_of ?cur (sn_Name s))"
        using ob m s look by (simp add: observes_def)
      show "section_mutations ?cur s = Inr (projr (?ms (sn_Name s)))"
        using mapE_projr [OF mss] n s by auto
    qed
    then show "hoareW (\<lambda>w. view w = v(pkg := m)) (forW ?stage (projr (?ms n)))
      (\<lambda>_ w. view w = put (v(pkg := m)) pkg n (?tgt n)) (only (v(pkg := m)) pkg N)" using s by simp
  qed
  then have "hoareW (staged v pkg N (v pkg)) (forW (\<lambda>n. forW ?stage (projr (?ms n))) ?names)
      (\<lambda>_. staged v pkg N ?m1) (only v pkg N)"
    by (rule hoareW_for_map [OF dn])
  then have first: "hoareW (staged v pkg N (v pkg)) (forW ?stage (concat mss)) (\<lambda>_. staged v pkg N ?m1) (only v pkg N)"
    using mapE_projr [OF mss] by (simp add: forW_concat forW_map)
  have "hoareW (staged v pkg N ?m1) (forW (\<lambda>n. ?stage (MutationDelete n)) ?stale)
      (\<lambda>_. staged v pkg N (\<lambda>n. if n \<in> set ?stale then None else ?m1 n)) (only v pkg N)"
    by (rule hoareW_for_map [OF ds], rule staged_step, rule stage_delete) (auto simp: N_def)
  then have "hoareW (staged v pkg N (v pkg)) (forW ?stage ms)
      (\<lambda>_. staged v pkg N (\<lambda>n. if n \<in> set ?stale then None else ?m1 n)) (only v pkg N)"
    unfolding ms forW_append forW_map by (rule hoareW_bind [OF first])
  moreover have "(\<lambda>n. if n \<in> set ?stale then None else ?m1 n) = reconciled pkg current desired (v pkg)"
  proof
    fix n
    show "(if n \<in> set ?stale then None else ?m1 n) = reconciled pkg current desired (v pkg) n"
    proof (cases "wanted desired n")
      case None
      then show ?thesis using wanted_iff [of desired n] by (simp add: reconciled_def names)
    next
      case (Some s)
      then have "n \<in> sn_Name ` set desired" using wanted_iff [of desired n] by auto
      then show ?thesis using Some set_stale_names [of ?cur desired] by (auto simp: reconciled_def names)
    qed
  qed
  ultimately show ?thesis by (auto elim!: hoareW_weaken simp: staged_def)
qed

theorem stage_owned_refines:
  assumes "wf_desired desired" and "observes current (v pkg)"
  shows "hoareW (\<lambda>w. view w = v) (StageOwned (Some call) pkg current desired)
    (\<lambda>_ w. view w = v(pkg := reconciled pkg current desired (v pkg)))
    (only v pkg (sn_Name ` set desired \<union> set (stale_names (scoped pkg current desired) desired)))"
proof -
  let ?E = "only v pkg (sn_Name ` set desired \<union> set (stale_names (scoped pkg current desired) desired))"
  have "hoareW (\<lambda>w. view w = v) (liftW (DiffOwned (scoped pkg current desired) desired))
    (\<lambda>ms w. view w = v \<and> DiffOwned (scoped pkg current desired) desired = Inr ms) ?E"
    by (rule hoareW_lift) (auto simp: only_def)
  moreover have "hoareW (\<lambda>w. view w = v \<and> DiffOwned (scoped pkg current desired) desired = Inr ms)
      (bindW (forW (stage_mutation call pkg (scoped pkg current desired)) ms) (\<lambda>_. pureW (length ms)))
      (\<lambda>_ w. view w = v(pkg := reconciled pkg current desired (v pkg))) ?E" for ms
  proof (cases "DiffOwned (scoped pkg current desired) desired = Inr ms")
    case True
    then show ?thesis using stage_package [of desired current v pkg ms, OF assms True] by (auto intro: hoareW_bind hoareW_pure)
  next
    case False
    then show ?thesis by (simp add: hoareW_def)
  qed
  ultimately show ?thesis unfolding StageOwned_def option.case by (rule hoareW_bind)
qed

end

section \<open>Reconciling the appliance\<close>

lemma diff_scoped:
  "(if name = ''firewall'' then DiffFirewall observed desired else DiffOwned observed desired) =
   DiffOwned (scoped name observed desired) desired"
  by (simp add: DiffFirewall_def scoped_def)

text \<open>A package that was read: its content, and a difference with as many mutations as were counted.\<close>

definition package_read :: "uci_view \<Rightarrow> string \<times> Section list \<Rightarrow> string \<times> uci_package \<times> nat \<Rightarrow> bool" where
  "package_read v item change \<longleftrightarrow> fst change = fst item \<and> observes (fst (snd change)) (v (fst item)) \<and>
     (\<exists>ms. DiffOwned (scoped (fst item) (fst (snd change)) (snd item)) (snd item) = Inr ms \<and> snd (snd change) = length ms)"

text \<open>An empty difference means that there is nothing to reconcile.\<close>

lemma empty_difference:
  assumes wf: "wf_desired desired" and ob: "observes current m"
    and diff: "DiffOwned (scoped pkg current desired) desired = Inr []"
  shows "reconciled pkg current desired m = m"
proof
  fix n
  let ?cur = "scoped pkg current desired"
  let ?ms = "\<lambda>n. section_mutations ?cur (the (wanted desired n))"
  obtain mss where mss: "mapE ?ms (sortedSectionNames desired) = Inr mss" "concat mss = []"
    and stale: "stale_names ?cur desired = []"
    using diff by (auto simp: DiffOwned_def)
  show "reconciled pkg current desired m n = m n"
  proof (cases "wanted desired n")
    case (Some s)
    have s: "s \<in> set desired" "sn_Name s = n" using wanted_Some [OF Some] by auto
    then have "projr (?ms n) \<in> set mss" and "?ms n = Inr (projr (?ms n))"
      using mapE_projr [OF mss(1)] by (auto simp: sortedSectionNames_def)
    moreover then have "projr (?ms n) = []" using mss(2) by simp
    ultimately have "section_mutations ?cur s = Inr []" using Some by simp
    then obtain ob where o: "map_of ?cur n = Some ob" "sameSection ob s"
      using s by (auto simp: section_mutations_def Let_def split: option.splits if_splits)
    then have "map_of current n = Some ob" using scoped_desired [of n desired pkg current] s by auto
    moreover have "wf_section s" using wf s by (simp add: wf_desired_def list_all_iff)
    ultimately show ?thesis
      using Some sameSection_content [OF _ observes_wf [OF assms(2)] o(2)] ob
      by (auto simp: reconciled_def observes_def)
  qed (simp add: reconciled_def stale)
qed

lemma no_changes:
  assumes wf: "wf_composition c" and rd: "list_all2 (package_read v) (packages c) changes"
    and zero: "totalMutations changes = 0"
  shows "appliance_reconciled c v v"
  unfolding appliance_reconciled_def
proof
  fix pkg
  show "case map_of (packages c) pkg of None \<Rightarrow> v pkg = v pkg
      | Some desired \<Rightarrow> \<exists>current. observes current (v pkg) \<and> v pkg = reconciled pkg current desired (v pkg)"
  proof (cases "map_of (packages c) pkg")
    case (Some desired)
    then obtain change where "change \<in> set changes" and r: "package_read v (pkg, desired) change"
      using rd map_of_SomeD [OF Some] by (metis list_all2_conv_all_nth in_set_conv_nth)
    moreover have "\<forall>x \<in> set changes. snd (snd x) = 0" using zero by (simp add: totalMutations_def split_beta')
    ultimately have "snd (snd change) = 0" by blast
    then show ?thesis using Some r empty_difference wf map_of_SomeD [OF Some]
      by (fastforce simp: package_read_def wf_composition_def list_all_iff)
  qed simp
qed

lemma change_read:
  assumes "list_all2 (package_read v) items changes" and "map_of items name = Some desired"
  shows "\<exists>current n. change_of changes name = (current, n) \<and> package_read v (name, desired) (name, current, n)"
  using assms
proof (induction rule: list_all2_induct)
  case (Cons item items change changes)
  then show ?case
    by (cases item; cases change) (auto simp: change_of_def package_read_def split: if_splits)
qed simp

context uci_provider
begin

abbreviation viewing :: "uci_view \<Rightarrow> 'w \<Rightarrow> bool" where
  "viewing v w \<equiv> view w = v"

lemma call_view:
  assumes "call r w = (x, w')" and "write_target r = None"
  shows "view w' = view w"
proof (intro ext)
  fix pkg n
  have "named r" using assms(2) by (cases r) auto
  then show "view w' pkg n = view w pkg n" using frame [of r pkg n w] assms by simp
qed

lemma call_keep:
  assumes "write_target r = None"
  shows "hoareW (viewing v) (call r) (\<lambda>_. viewing v) (viewing v)"
  unfolding hoareW_def by (auto split: prod.splits sum.splits dest!: call_view [OF _ assms])

lemma send_keep: "write_target r = None \<Longrightarrow> hoareW (viewing v) (send call r) (\<lambda>_. viewing v) (viewing v)"
  unfolding send_def by (rule hoareW_bind [OF call_keep]) (auto intro: hoareW_pure)

lemma send_view: "send call r w = (x, w') \<Longrightarrow> write_target r = None \<Longrightarrow> view w' = view w"
  using hoareW_snd [OF send_keep, of r w "view w"] by simp

lemma send_keep_any: "write_target r = None \<Longrightarrow> hoareW (viewing v) (send call r) (\<lambda>_. viewing v) (\<lambda>_. True)"
  by (auto intro: hoareW_weaken [OF send_keep])

lemma gate_keep: "write_target r = None \<Longrightarrow> hoareW (viewing v) (gate call r fmt n) (\<lambda>_. viewing v) (\<lambda>_. True)"
  by (auto simp: gate_def intro: hoareW_weaken [OF send_keep])

lemma verifyRuntime_keep: "hoareW (viewing v) (verifyRuntime call reapply label) (\<lambda>_. viewing v) (\<lambda>_. True)"
  unfolding hoareW_def verifyRuntime_def mapErrorW_def
  by (auto split: prod.split sum.split dest!: send_view)

lemma read_package_ok:
  "hoareW (\<lambda>w. viewing v w \<and> list_all2 (package_read v) done_items acc) (read_package call item acc)
     (\<lambda>acc' w. viewing v w \<and> list_all2 (package_read v) (done_items @ [item]) acc') (\<lambda>_. True)"
proof -
  obtain name desired where item: "item = (name, desired)" by (cases item)
  let ?R = "\<lambda>r w. viewing v w \<and> list_all2 (package_read v) done_items acc \<and> (\<exists>m. r = Package m \<and> observes m (v name))"
  have "hoareW (\<lambda>w. viewing v w \<and> list_all2 (package_read v) done_items acc) (call (UCIGet name)) ?R (\<lambda>_. True)"
    unfolding hoareW_def by (auto split: prod.split sum.split dest: call_view get)
  moreover have "hoareW (?R r)
     (let observed = (case r of Package m \<Rightarrow> m | _ \<Rightarrow> []) in
        bindW (liftW (if name = ''firewall'' then validateFirewallDefaults observed else Inr ())) (\<lambda>_.
        bindW (mapErrorW (Wrapf ''prepare provider UCI %s: %w'' [name])
            (liftW (if name = ''firewall'' then DiffFirewall observed desired else DiffOwned observed desired))) (\<lambda>mutations.
        pureW (acc @ [(name, observed, length mutations)]))))
     (\<lambda>acc' w. viewing v w \<and> list_all2 (package_read v) (done_items @ [item]) acc') (\<lambda>_. True)" for r
    unfolding diff_scoped hoareW_def Let_def bindW_def liftW_def mapErrorW_def pureW_def item
    by (auto simp: package_read_def list_all2_appendI split: prod.splits sum.splits if_splits)
  ultimately show ?thesis
    unfolding read_package_def item prod.case by (rule hoareW_bind [OF hoareW_mapError [THEN iffD2]])
qed

lemma read_packages_ok:
  "hoareW (\<lambda>w. viewing v w \<and> list_all2 (package_read v) done_items acc) (read_packages call items acc)
     (\<lambda>acc' w. viewing v w \<and> list_all2 (package_read v) (done_items @ items) acc') (\<lambda>_. True)"
proof (induction items arbitrary: acc done_items)
  case (Cons item items)
  show ?case
    unfolding read_packages.simps
    by (rule hoareW_bind [OF read_package_ok]) (use Cons.IH [of "done_items @ [item]"] in simp)
qed (auto intro: hoareW_pure)

lemma apply_package_ok:
  assumes "package_read v (name, desired) (name, change)" and "v1 name = v name"
    and "wf_desired desired" and "write_target activate = None"
  shows "hoareW (viewing v1) (apply_package call name activate change desired n)
    (\<lambda>_. viewing (v1(name := reconciled name (fst change) desired (v name)))) (\<lambda>_. True)"
proof -
  let ?v2 = "v1(name := reconciled name (fst change) desired (v1 name))"
  from assms(1,2) obtain ms where ob: "observes (fst change) (v1 name)"
    and diff: "DiffOwned (scoped name (fst change) desired) desired = Inr ms" and len: "snd change = length ms"
    by (auto simp: package_read_def)
  have "hoareW (viewing v1) (apply_package call name activate change desired n) (\<lambda>_. viewing ?v2) (\<lambda>_. True)"
  proof (cases "snd change = 0")
    case True
    then show ?thesis using stage_package [of desired "fst change" v1 name ms, OF assms(3) ob diff] len
      by (auto simp: apply_package_def hoareW_def pureW_def)
  next
    case False
    have stage: "hoareW (viewing v1) (StageOwned (Some call) name (fst change) desired) (\<lambda>_. viewing ?v2) (\<lambda>_. True)"
      by (rule hoareW_weaken [OF stage_owned_refines [of desired "fst change" v1 name, OF assms(3) ob]]) auto
    show ?thesis using False
      by (simp add: apply_package_def)
        (intro hoareW_bind [OF stage] hoareW_bind [OF send_keep_any] hoareW_pure; simp add: assms(4))
  qed
  then show ?thesis using assms(2) by simp
qed

lemma appliance_steps:
  assumes wf: "wf_composition c" and rd: "list_all2 (package_read v) (packages c) changes"
  shows "hoareW (viewing v) (apply_changes call c changes)
    (\<lambda>_ w. appliance_reconciled c v (view w)) (\<lambda>_. True)"
proof -
  let ?cur = "\<lambda>name. fst (change_of changes name)"
  have pr: "package_read v (name, desired) (name, change_of changes name)" and wd: "wf_desired desired"
    if "map_of (packages c) name = Some desired" for name desired
    using change_read [OF rd that] wf map_of_SomeD [OF that]
    by (auto simp: wf_composition_def list_all_iff)
  let ?v1 = "v(''firewall'' := reconciled ''firewall'' (?cur ''firewall'') (cp_Firewall c) (v ''firewall''))"
  let ?v2 = "?v1(''network'' := reconciled ''network'' (?cur ''network'') (cp_Network c) (v ''network''))"
  let ?v3 = "?v2(''system'' := reconciled ''system'' (?cur ''system'') (cp_System c) (v ''system''))"
  let ?v4 = "?v3(''stubby'' := reconciled ''stubby'' (?cur ''stubby'') (cp_Stubby c) (v ''stubby''))"
  let ?v5 = "?v4(''dhcp'' := reconciled ''dhcp'' (?cur ''dhcp'') (cp_DHCP c) (v ''dhcp''))"
  have step: "hoareW (viewing v') (apply_package call name activate (change_of changes name) desired n)
      (\<lambda>_. viewing (v'(name := reconciled name (?cur name) desired (v name)))) (\<lambda>_. True)"
    if "map_of (packages c) name = Some desired" and "v' name = v name" and "write_target activate = None"
    for v' name desired activate n
    using apply_package_ok [of v name desired "change_of changes name" v' activate n] pr wd that by simp
  have sec: "sectionFor c ''system'' = cp_System c" "sectionFor c ''stubby'' = cp_Stubby c" "sectionFor c ''dhcp'' = cp_DHCP c"
    by (simp_all add: sectionFor_def)
  have final: "appliance_reconciled c v ?v5"
    unfolding appliance_reconciled_def
  proof
    fix pkg
    show "case map_of (packages c) pkg of None \<Rightarrow> ?v5 pkg = v pkg
      | Some desired \<Rightarrow> \<exists>current. observes current (v pkg) \<and> ?v5 pkg = reconciled pkg current desired (v pkg)"
    proof (cases "map_of (packages c) pkg")
      case (Some desired)
      have "observes (?cur pkg) (v pkg)" using pr [OF Some] by (simp add: package_read_def)
      moreover have "?v5 pkg = reconciled pkg (?cur pkg) desired (v pkg)"
        using Some by (auto simp: packages_def split: if_splits)
      ultimately show ?thesis using Some by auto
    qed (auto simp: packages_def split: if_splits)
  qed
  have "hoareW (viewing ?v4) (apply_service call c changes ''dhcp'' n) (\<lambda>_. viewing ?v5) (\<lambda>_. True)" for n
    unfolding apply_service_def sec by (rule step) (simp_all add: packages_def)
  then have dhcp: "hoareW (viewing ?v4) (apply_service call c changes ''dhcp'' n)
      (\<lambda>_ w. appliance_reconciled c v (view w)) (\<lambda>_. True)" for n
    by (rule hoareW_weaken) (assumption | erule ssubst, rule final | rule TrueI)+
  have stubby: "hoareW (viewing ?v3) (apply_service call c changes ''stubby'' n) (\<lambda>_. viewing ?v4) (\<lambda>_. True)"
    and system: "hoareW (viewing ?v2) (apply_service call c changes ''system'' n) (\<lambda>_. viewing ?v3) (\<lambda>_. True)" for n
    unfolding apply_service_def sec by (rule step; simp add: packages_def)+
  have network: "hoareW (viewing ?v1) (apply_package call ''network'' (ServiceConfigChange ''network'')
      (change_of changes ''network'') (cp_Network c) n) (\<lambda>_. viewing ?v2) (\<lambda>_. True)" for n
    by (rule step) (simp_all add: packages_def)
  have firewall: "hoareW (viewing v) (apply_package call ''firewall'' ReloadFirewall
      (change_of changes ''firewall'') (cp_Firewall c) n) (\<lambda>_. viewing ?v1) (\<lambda>_. True)" for n
    by (rule step) (simp_all add: packages_def)
  show ?thesis unfolding apply_changes_def
    by (intro hoareW_bind [OF firewall] hoareW_bind [OF network] hoareW_bind [OF system] hoareW_bind [OF stubby]
        hoareW_bind [OF gate_keep] dhcp) simp_all
qed

theorem reconcile_appliance_refines:
  assumes "wf_composition c"
  shows "hoareW (viewing v) (ReconcileAppliance (Some call) c verify)
    (\<lambda>_ w. appliance_reconciled c v (view w)) (\<lambda>_. True)"
proof (cases "vc_SafetyBeforeNetwork verify \<and> vc_NetworkReady verify \<and> vc_SafetyAfterNetwork verify")
  case False
  then show ?thesis by (auto simp: ReconcileAppliance_def intro: hoareW_fail)
next
  case True
  have idle: "hoareW (viewing v) (verify_existing call verify) (\<lambda>_. viewing v) (\<lambda>_. True)"
    unfolding verify_existing_def
    by (rule hoareW_bind [OF hoareW_mapError [THEN iffD2, OF verifyRuntime_keep]] hoareW_bind [OF gate_keep] hoareW_pure
        | simp)+
  let ?read = "\<lambda>changes w. viewing v w \<and> list_all2 (package_read v) (packages c) changes"
  have "hoareW (?read changes)
      (if totalMutations changes = 0 then verify_existing call verify else apply_changes call c changes)
      (\<lambda>_ w. appliance_reconciled c v (view w)) (\<lambda>_. True)" for changes
  proof (cases "list_all2 (package_read v) (packages c) changes")
    case rd: True
    show ?thesis
    proof (rule hoareW_if)
      assume "totalMutations changes = 0"
      from no_changes [OF assms rd this]
      show "hoareW (?read changes) (verify_existing call verify) (\<lambda>_ w. appliance_reconciled c v (view w)) (\<lambda>_. True)"
        by (intro hoareW_weaken [OF idle]) auto
    next
      show "hoareW (?read changes) (apply_changes call c changes) (\<lambda>_ w. appliance_reconciled c v (view w)) (\<lambda>_. True)"
        by (rule hoareW_weaken [OF appliance_steps [OF assms rd]]) auto
    qed
  qed (simp add: hoareW_def)
  moreover have "hoareW (viewing v) (mapErrorW (Pair 0) (read_packages call (packages c) [])) ?read (\<lambda>_. True)"
    using read_packages_ok [of v "[]" "[]" "packages c"] by simp
  ultimately show ?thesis using True unfolding ReconcileAppliance_def by (auto intro: hoareW_bind)
qed

end

end
