(* ===== verification/Uci_Trace.thy ===== *)
theory Uci_Trace
  imports Uci_Correct
begin

text \<open>
  Which calls reconciliation makes, and in which order, whatever the provider answers.  The provider
  is wrapped so that it records every request with its outcome; the theorems speak of the records of
  a whole run, failing runs included.
\<close>

definition logged :: "'w provider \<Rightarrow> ((request \<times> bool) list \<times> 'w) provider" where
  "logged p r s = (case p r (snd s) of (x, w) \<Rightarrow> (x, fst s @ [(r, is_ok x)], w))"

fun changed_package :: "request \<Rightarrow> string option" where
  "changed_package (UCICommit pkg) = Some pkg"
| "changed_package (ServiceConfigChange pkg) = Some pkg"
| "changed_package ReloadFirewall = Some ''firewall''"
| "changed_package r = map_option fst (write_target r)"

text \<open>The sections a reconciliation may touch.\<close>

definition touchable :: "string \<Rightarrow> uci_package \<Rightarrow> Section list \<Rightarrow> string set" where
  "touchable pkg current desired = sn_Name ` set desired \<union> set (stale_names (scoped pkg current desired) desired)"

text \<open>A successful \<open>gate\<close> after which no request changed one of the packages \<open>dirty\<close>.\<close>

definition fresh :: "request \<Rightarrow> string set \<Rightarrow> (request \<times> bool) list \<Rightarrow> bool" where
  "fresh gate_request dirty log \<longleftrightarrow>
     (\<exists>before after. log = before @ (gate_request, True) # after \<and>
        (\<forall>(r, _) \<in> set after. \<forall>pkg \<in> dirty. changed_package r \<noteq> Some pkg))"

definition allowed :: "(request \<times> bool) list \<Rightarrow> request \<Rightarrow> bool" where
  "allowed log r \<longleftrightarrow>
     (case changed_package r of
        None \<Rightarrow> True
      | Some pkg \<Rightarrow>
        (\<forall>name \<in> {''firewall'', ''network'', ''system'', ''stubby'', ''dhcp''}. (UCIGet name, True) \<in> set log) \<and>
        (pkg = ''firewall'' \<or>
         pkg = ''network'' \<and> fresh SafetyBeforeNetwork {''firewall''} log \<or>
         pkg \<in> {''system'', ''stubby'', ''dhcp''} \<and> fresh SafetyAfterNetwork {''firewall'', ''network''} log))"

definition ordered :: "(request \<times> bool) list \<Rightarrow> bool" where
  "ordered log \<longleftrightarrow> (\<forall>before r ok after. log = before @ (r, ok) # after \<longrightarrow> allowed before r)"

section \<open>Requests of one package\<close>

lemma ordered_Nil [simp]: "ordered []"
  by (simp add: ordered_def)

lemma ordered_snoc: "ordered log \<Longrightarrow> allowed log r \<Longrightarrow> ordered (log @ [(r, ok)])"
  unfolding ordered_def
proof (intro allI impI)
  fix before r' ok' after
  assume all: "\<forall>before r ok after. log = before @ (r, ok) # after \<longrightarrow> allowed before r" and "allowed log r"
    and eq: "log @ [(r, ok)] = before @ (r', ok') # after"
  show "allowed before r'"
  proof (cases after rule: rev_cases)
    case Nil
    then show ?thesis using eq \<open>allowed log r\<close> by simp
  next
    case (snoc xs x)
    then have "log = before @ (r', ok') # xs" using eq by simp
    then show ?thesis using all by blast
  qed
qed

lemma fresh_gate: "fresh g dirty (log @ [(g, True)])"
  unfolding fresh_def by (rule exI [of _ log], rule exI [of _ "[]"]) simp

lemma fresh_snoc:
  assumes "fresh g dirty log" and "\<And>pkg. changed_package r = Some pkg \<Longrightarrow> pkg \<notin> dirty"
  shows "fresh g dirty (log @ [(r, ok)])"
proof -
  from assms(1) obtain before after where log: "log = before @ (g, True) # after"
    and clean: "\<forall>(r, _) \<in> set after. \<forall>pkg \<in> dirty. changed_package r \<noteq> Some pkg"
    by (auto simp: fresh_def)
  show ?thesis unfolding fresh_def
    by (rule exI [of _ before], rule exI [of _ "after @ [(r, ok)]"]) (use log clean assms(2) in auto)
qed

lemma hoareW_logged:
  assumes "\<And>log. I log \<Longrightarrow> J (log @ [(r, True)])" and "\<And>log. I log \<Longrightarrow> E (log @ [(r, False)])"
  shows "hoareW (\<lambda>s. I (fst s)) (logged p r) (\<lambda>_ s. J (fst s)) (\<lambda>s. E (fst s))"
  using assms by (auto simp: hoareW_def logged_def split: prod.splits sum.splits)

lemma hoareW_send_inv:
  assumes "hoareW I (p r) (\<lambda>_. J) E"
  shows "hoareW I (send p r) (\<lambda>_. J) E"
  unfolding send_def by (rule hoareW_bind [OF assms]) (rule hoareW_pure)

text \<open>Staging sends write requests for touchable sections of its package and nothing else: what all
  of those keep, staging keeps.\<close>

lemma writeSection_inv:
  assumes step: "\<And>r. write_target r = Some (pkg, sn_Name s) \<Longrightarrow> hoareW I (p r) (\<lambda>_. I) E" and "\<And>w. I w \<Longrightarrow> E w"
  shows "hoareW I (writeSection p pkg s observed) (\<lambda>_. I) E"
proof -
  have send: "hoareW I (send p r) (\<lambda>_. I) E" if "write_target r = Some (pkg, sn_Name s)" for r
    using step [OF that] by (rule hoareW_send_inv)
  have stale: "hoareW I (delete_stale_keys p pkg (sn_Name s) fmt ks ds) (\<lambda>_. I) E" for fmt ks ds
    unfolding delete_stale_keys_def by (rule hoareW_for_inv) (simp add: send)
  have o: "hoareW I (write_option p pkg s observed k) (\<lambda>_. I) E" for k
    by (auto simp: write_option_def send split: option.splits intro: hoareW_pure)
  have l: "hoareW I (write_list p pkg s observed k) (\<lambda>_. I) E" for k
    unfolding write_list_def Let_def
    by (rule hoareW_if, rule hoareW_pure, assumption, rule hoareW_bind [where R = "\<lambda>_. I"])
      (auto simp: send intro!: hoareW_if hoareW_pure)
  have "hoareW I (case observed of None \<Rightarrow> pureW () | Some ob \<Rightarrow>
          if us_Type ob \<noteq> sn_Type s then failW (e ob)
          else bindW (delete_stale_keys p pkg (sn_Name s) f1 (map fst (us_Options ob)) (map fst (sn_Options s)))
            (\<lambda>_. delete_stale_keys p pkg (sn_Name s) f2 (map fst (us_Lists ob)) (map fst (sn_Lists s)))) (\<lambda>_. I) E"
    for e f1 f2
    by (cases observed) (auto intro!: hoareW_pure hoareW_fail hoareW_bind [OF stale stale] assms(2))
  then show ?thesis unfolding writeSection_def Let_def
    by (rule hoareW_bind) (rule hoareW_bind [OF hoareW_for_inv [OF o] hoareW_for_inv [OF l]])
qed

lemma stage_mutation_inv:
  assumes step: "\<And>r. write_target r = Some (pkg, mutation_name m) \<Longrightarrow> hoareW I (p r) (\<lambda>_. I) E"
    and "\<And>w. I w \<Longrightarrow> E w"
  shows "hoareW I (stage_mutation p pkg current m) (\<lambda>_. I) E"
proof (cases m)
  case (MutationCreate s)
  have "hoareW I (if b then failW e else writeSection p pkg s None) (\<lambda>_. I) E" for b e
    by (rule hoareW_if) (auto intro!: hoareW_fail assms(2) writeSection_inv step simp: MutationCreate)
  then show ?thesis using step [of "UCIAddNamed pkg (sn_Type s) (sn_Name s)"] MutationCreate
    by (auto intro: hoareW_bind)
next
  case (MutationUpdate s)
  then show ?thesis by (auto intro!: writeSection_inv step assms(2))
next
  case (MutationDelete n)
  then show ?thesis by (auto intro!: hoareW_send_inv step)
qed

lemma section_mutation_names:
  "section_mutations current s = Inr ms \<Longrightarrow> mutation_name ` set ms \<subseteq> {sn_Name s}"
  by (auto simp: section_mutations_def Let_def split: option.splits if_splits)

lemma mutation_names:
  assumes "DiffOwned (scoped pkg current desired) desired = Inr ms"
  shows "mutation_name ` set ms \<subseteq> touchable pkg current desired"
proof -
  let ?cur = "scoped pkg current desired"
  from assms obtain mss where mss: "mapE (\<lambda>n. section_mutations ?cur (the (wanted desired n))) (sortedSectionNames desired) = Inr mss"
    and ms: "ms = concat mss @ map MutationDelete (stale_names ?cur desired)"
    by (auto simp: DiffOwned_def)
  have "mutation_name m \<in> sn_Name ` set desired" if "m \<in> set x" and x: "x \<in> set mss" for m x
  proof -
    from mapE_image [OF mss, of x] x obtain n where "n \<in> sn_Name ` set desired"
      and "section_mutations ?cur (the (wanted desired n)) = Inr x"
      by (auto simp: sortedSectionNames_def)
    moreover then obtain s where "wanted desired n = Some s" using wanted_iff [of desired n] by auto
    moreover then have "sn_Name s = n" by (rule wanted_Some [THEN conjunct2])
    ultimately have "mutation_name ` set x \<subseteq> {n}" using section_mutation_names [of ?cur s x] by simp
    then have "mutation_name m = n" using that(1) by blast
    then show ?thesis using \<open>n \<in> sn_Name ` set desired\<close> by simp
  qed
  then show ?thesis by (auto simp: ms touchable_def)
qed

lemma stage_owned_inv:
  assumes step: "\<And>r n. write_target r = Some (pkg, n) \<Longrightarrow> n \<in> touchable pkg current desired \<Longrightarrow> hoareW I (p r) (\<lambda>_. I) E"
    and "\<And>w. I w \<Longrightarrow> E w"
  shows "hoareW I (StageOwned (Some p) pkg current desired) (\<lambda>_. I) E"
proof -
  let ?diff = "DiffOwned (scoped pkg current desired) desired"
  have "hoareW (\<lambda>w. I w \<and> ?diff = Inr ms)
      (bindW (forW (stage_mutation p pkg (scoped pkg current desired)) ms) (\<lambda>_. pureW (length ms))) (\<lambda>_. I) E" for ms
  proof (cases "?diff = Inr ms")
    case True
    have "hoareW I (forW (stage_mutation p pkg (scoped pkg current desired)) ms) (\<lambda>_. I) E"
      by (rule hoareW_for_inv, rule stage_mutation_inv [OF step]) (use mutation_names [OF True] assms(2) in auto)
    then show ?thesis using True by (auto intro: hoareW_bind hoareW_pure)
  qed (simp add: hoareW_def)
  moreover have "hoareW I (liftW ?diff) (\<lambda>ms w. I w \<and> ?diff = Inr ms) E"
    by (rule hoareW_lift) (auto intro: assms(2))
  ultimately show ?thesis unfolding StageOwned_def option.case by (auto intro: hoareW_bind)
qed

text \<open>Whatever the provider answers, and also when staging fails half-way, every request that
  \<open>StageOwned\<close> makes writes to a section of its own package that is either desired or a stale managed
  section; no other section and no other package is ever addressed.\<close>

lemma stage_touches_owned_sections:
  "\<forall>(r, ok) \<in> set (fst (snd (StageOwned (Some (logged p)) pkg current desired ([], w)))).
     \<exists>n \<in> touchable pkg current desired. write_target r = Some (pkg, n)"
proof -
  let ?I = "\<lambda>log. \<forall>(r, ok) \<in> set log. \<exists>n \<in> touchable pkg current desired. write_target r = Some (pkg, n)"
  have "hoareW (\<lambda>s. ?I (fst s)) (StageOwned (Some (logged p)) pkg current desired) (\<lambda>_ s. ?I (fst s)) (\<lambda>s. ?I (fst s))"
    by (rule stage_owned_inv) (rule hoareW_logged, auto)
  from hoareW_snd [OF this, of "([], w)"] show ?thesis by simp
qed

section \<open>Order of the appliance's requests\<close>

lemma apply_package_inv:
  assumes step: "\<And>r. changed_package r = Some name \<Longrightarrow> hoareW I (p r) (\<lambda>_. I) E" and "\<And>w. I w \<Longrightarrow> E w"
    and "changed_package activate = Some name"
  shows "hoareW I (apply_package p name activate change desired n) (\<lambda>_. I) E"
proof -
  have wr: "changed_package r = Some pkg" if "write_target r = Some (pkg, m)" for r pkg m
    using that by (cases r) auto
  have "hoareW I (StageOwned (Some p) name (fst change) desired) (\<lambda>_. I) E"
    by (rule stage_owned_inv) (auto intro: step wr assms(2))
  moreover have "hoareW I (send p (UCICommit name)) (\<lambda>_. I) E" and "hoareW I (send p activate) (\<lambda>_. I) E"
    by (auto intro!: hoareW_send_inv step assms(3))
  ultimately show ?thesis unfolding apply_package_def
    by (auto intro!: hoareW_if hoareW_pure) (rule hoareW_bind, assumption, rule hoareW_bind, assumption, rule hoareW_bind,
        assumption, rule hoareW_pure)
qed

definition planned :: "(request \<times> bool) list \<Rightarrow> bool" where
  "planned log \<longleftrightarrow> ordered log \<and>
     (\<forall>name \<in> {''firewall'', ''network'', ''system'', ''stubby'', ''dhcp''}. (UCIGet name, True) \<in> set log)"

definition guarded :: "(request \<times> string set) option \<Rightarrow> (request \<times> bool) list \<Rightarrow> bool" where
  "guarded g log \<longleftrightarrow> planned log \<and> (case g of None \<Rightarrow> True | Some (gate_request, dirty) \<Rightarrow> fresh gate_request dirty log)"

text \<open>Packages that may be changed behind a gate.\<close>

fun behind :: "(request \<times> string set) option \<Rightarrow> string set" where
  "behind None = {''firewall''}"
| "behind (Some (g, dirty)) =
     (if g = SafetyBeforeNetwork \<and> dirty = {''firewall''} then {''network''}
      else if g = SafetyAfterNetwork \<and> dirty = {''firewall'', ''network''} then {''system'', ''stubby'', ''dhcp''} else {})"

lemma guarded_allowed: "guarded g log \<Longrightarrow> changed_package r = Some pkg \<Longrightarrow> pkg \<in> behind g \<Longrightarrow> allowed log r"
  by (cases g) (auto simp: guarded_def planned_def allowed_def split: if_splits)

lemma guarded_snoc:
  assumes "guarded g log" and "\<And>pkg. changed_package r = Some pkg \<Longrightarrow> pkg \<in> behind g"
  shows "guarded g (log @ [(r, ok)])"
proof -
  have "allowed log r"
    using guarded_allowed [OF assms(1)] assms(2) by (cases "changed_package r") (auto simp: allowed_def)
  moreover have "fresh gr dirty (log @ [(r, ok)])" if "g = Some (gr, dirty)" for gr dirty
    using assms that by (intro fresh_snoc) (auto simp: guarded_def split: if_splits)
  ultimately show ?thesis using assms(1) by (auto simp: guarded_def planned_def ordered_snoc split: option.splits)
qed

lemma guarded_ordered: "guarded g log \<Longrightarrow> ordered log"
  by (simp add: guarded_def planned_def)

lemma guarded_call:
  assumes "\<And>pkg. changed_package r = Some pkg \<Longrightarrow> pkg \<in> behind g"
  shows "hoareW (\<lambda>s. guarded g (fst s)) (logged p r) (\<lambda>_ s. guarded g (fst s)) (\<lambda>s. ordered (fst s))"
  by (rule hoareW_logged) (auto intro!: guarded_snoc guarded_ordered [of g] assms)

lemma guarded_apply:
  assumes "pkg \<in> behind g" and "changed_package activate = Some pkg"
  shows "hoareW (\<lambda>s. guarded g (fst s)) (apply_package (logged p) pkg activate change desired n)
    (\<lambda>_ s. guarded g (fst s)) (\<lambda>s. ordered (fst s))"
  by (rule apply_package_inv [OF guarded_call]) (use assms in \<open>auto simp: guarded_def planned_def\<close>)

lemma guarded_keep:
  assumes "changed_package r = None"
  shows "hoareW (\<lambda>s. guarded g (fst s)) (gate (logged p) r fmt n) (\<lambda>_ s. guarded g (fst s)) (\<lambda>s. ordered (fst s))"
  unfolding gate_def hoareW_mapError by (rule hoareW_send_inv [OF guarded_call]) (simp add: assms)

lemma guarded_gate:
  assumes "changed_package r = None"
  shows "hoareW (\<lambda>s. guarded g (fst s)) (gate (logged p) r fmt n) (\<lambda>_ s. guarded (Some (r, dirty)) (fst s)) (\<lambda>s. ordered (fst s))"
proof -
  have "planned (log @ [(r, ok)])" if "guarded g log" for log ok
    using guarded_snoc [OF that, of r ok] assms by (auto simp: guarded_def)
  then show ?thesis unfolding gate_def hoareW_mapError
    by (intro hoareW_send_inv hoareW_logged) (auto simp: guarded_def fresh_gate planned_def)
qed

lemma guarded_forget: "guarded g log \<Longrightarrow> guarded None log"
  by (simp add: guarded_def)

lemma guarded_send:
  assumes "changed_package r = None"
  shows "hoareW (\<lambda>s. guarded g (fst s)) (send (logged p) r) (\<lambda>_ s. guarded g (fst s)) (\<lambda>s. guarded g (fst s))"
  by (intro hoareW_send_inv hoareW_logged guarded_snoc) (auto simp: assms)

lemma guarded_verify:
  "hoareW (\<lambda>s. guarded g (fst s)) (verify_existing (logged p) verify) (\<lambda>_ s. guarded g (fst s)) (\<lambda>s. ordered (fst s))"
proof -
  have keep: "guarded g (fst s')" if "send (logged p) r s = (x, s')" "guarded g (fst s)" "changed_package r = None" for r s x s'
    using hoareW_snd [where w = s, OF guarded_send [where g = g and p = p, OF that(3)]] that(1,2) by simp
  have "hoareW (\<lambda>s. guarded g (fst s)) (verifyRuntime (logged p) reapply label)
      (\<lambda>_ s. guarded g (fst s)) (\<lambda>s. ordered (fst s))" for reapply label
    unfolding hoareW_def verifyRuntime_def mapErrorW_def
    by (auto split: prod.split sum.split dest!: keep intro!: guarded_ordered [of g])
  then have "hoareW (\<lambda>s. guarded g (fst s)) (mapErrorW f (verifyRuntime (logged p) reapply label))
      (\<lambda>_ s. guarded g (fst s)) (\<lambda>s. ordered (fst s))" for f :: "gerror \<Rightarrow> nat \<times> gerror" and reapply label by simp
  then show ?thesis unfolding verify_existing_def
    by (rule hoareW_bind) (intro hoareW_bind [OF guarded_keep] hoareW_pure; simp)
qed

lemma read_packages_trace:
  "hoareW (\<lambda>s. ordered (fst s) \<and> (\<forall>name \<in> fst ` set read. (UCIGet name, True) \<in> set (fst s)))
     (read_packages (logged p) items acc)
     (\<lambda>_ s. ordered (fst s) \<and> (\<forall>name \<in> fst ` set (read @ items). (UCIGet name, True) \<in> set (fst s)))
     (\<lambda>s. ordered (fst s))"
proof (induction items arbitrary: read acc)
  case (Cons item items)
  obtain name desired where item: "item = (name, desired)" by (cases item)
  let ?I = "\<lambda>read s. ordered (fst s) \<and> (\<forall>name \<in> fst ` set read. (UCIGet name, True) \<in> set (fst s))"
  have "hoareW (?I read) (logged p (UCIGet name)) (\<lambda>_. ?I (read @ [item])) (\<lambda>s. ordered (fst s))"
    by (rule hoareW_logged [where J = "\<lambda>log. ordered log \<and> (\<forall>name \<in> fst ` set (read @ [item]). (UCIGet name, True) \<in> set log)"])
      (auto simp: item intro!: ordered_snoc simp: allowed_def)
  moreover have "hoareW (?I (read @ [item])) (bindW (liftW a) (\<lambda>_. bindW (mapErrorW f (liftW b)) (\<lambda>x. pureW (g x))))
      (\<lambda>_. ?I (read @ [item])) (\<lambda>s. ordered (fst s))" for a b f g
    by (auto simp: hoareW_def bindW_def liftW_def mapErrorW_def pureW_def split: sum.splits)
  ultimately have "hoareW (?I read) (read_package (logged p) item acc) (\<lambda>_. ?I (read @ [item])) (\<lambda>s. ordered (fst s))"
    unfolding read_package_def item prod.case Let_def
    by (intro hoareW_bind [OF hoareW_mapError [THEN iffD2]])
  then show ?case using Cons.IH [of "read @ [item]"] by (auto intro: hoareW_bind)
qed (auto intro: hoareW_pure)

lemma apply_changes_trace:
  "hoareW (\<lambda>s. guarded None (fst s)) (apply_changes (logged p) c changes) (\<lambda>_ s. ordered (fst s)) (\<lambda>s. ordered (fst s))"
proof -
  let ?at = "\<lambda>g s. guarded g (fst s)"
  let ?E = "\<lambda>s. ordered (fst s)"
  let ?before = "Some (SafetyBeforeNetwork, {''firewall''})"
  let ?after = "Some (SafetyAfterNetwork, {''firewall'', ''network''})"
  have service: "hoareW (?at ?after) (apply_service (logged p) c changes name n) (\<lambda>_. ?at ?after) ?E"
    if "name \<in> {''system'', ''stubby'', ''dhcp''}" for name n
    unfolding apply_service_def by (rule guarded_apply) (use that in auto)
  have network: "hoareW (?at ?before) (apply_package (logged p) ''network'' (ServiceConfigChange ''network'') ch ds n)
      (\<lambda>_. ?at None) ?E" for ch ds n
    by (rule hoareW_weaken [OF guarded_apply [where g = ?before]]) (auto dest: guarded_forget)
  have reload: "hoareW (?at None) (gate (logged p) ReloadFirewall fmt n) (\<lambda>_. ?at None) ?E" for fmt n
    unfolding gate_def hoareW_mapError by (rule hoareW_send_inv, rule guarded_call) simp
  have before: "hoareW (?at None) (gate (logged p) SafetyBeforeNetwork fmt n) (\<lambda>_. ?at ?before) ?E"
    and after: "hoareW (?at None) (gate (logged p) SafetyAfterNetwork fmt n) (\<lambda>_. ?at ?after) ?E" for fmt n
    by (rule guarded_gate; simp)+
  have dhcp: "hoareW (?at ?after) (apply_service (logged p) c changes ''dhcp'' n) (\<lambda>_. ?E) ?E" for n
    by (rule hoareW_weaken [OF service]) (auto intro: guarded_ordered)
  show ?thesis unfolding apply_changes_def
    by (intro hoareW_bind [OF guarded_apply] hoareW_bind [OF before] hoareW_bind [OF network]
        hoareW_bind [OF guarded_keep [of NetworkReady]] hoareW_bind [OF reload] hoareW_bind [OF after]
        hoareW_bind [OF service] dhcp) simp_all
qed

text \<open>C2: Every request of \<open>ReconcileAppliance\<close> that changes a package (a write, a commit or an
  activation) comes after all five packages were read, and: a change of the network package comes
  after a safety check that succeeded once the firewall was last changed; a change of the system,
  stubby or dhcp package comes after a safety check that succeeded once the firewall and the network
  were last changed; no other package is changed.  This holds of every run, failing ones included,
  whatever the provider and the callbacks answer.\<close>

theorem appliance_changes_ordered:
  "ordered (fst (snd (ReconcileAppliance (Some (logged p)) c verify ([], w))))"
proof -
  let ?I = "\<lambda>s. guarded None (fst s)"
  have "hoareW ?I (if b then verify_existing (logged p) verify else apply_changes (logged p) c changes)
      (\<lambda>_ s. ordered (fst s)) (\<lambda>s. ordered (fst s))" for b changes
    by (rule hoareW_if) (auto intro: hoareW_weaken [OF guarded_verify [of None]] apply_changes_trace guarded_ordered)
  moreover have "hoareW (\<lambda>s. ordered (fst s)) (mapErrorW (Pair 0) (read_packages (logged p) (packages c) []))
      (\<lambda>_. ?I) (\<lambda>s. ordered (fst s))"
    unfolding hoareW_mapError
    by (rule hoareW_weaken [OF read_packages_trace [of "[]"]]) (auto simp: guarded_def planned_def packages_def)
  ultimately have "hoareW (\<lambda>s. ordered (fst s)) (ReconcileAppliance (Some (logged p)) c verify)
      (\<lambda>_ s. ordered (fst s)) (\<lambda>s. ordered (fst s))"
    unfolding ReconcileAppliance_def option.case by (intro hoareW_if hoareW_fail) (auto intro: hoareW_bind)
  from hoareW_snd [OF this, of "([], w)"] show ?thesis by simp
qed

end
