(* ===== verification/Uci_Fixpoint.thy ===== *)
theory Uci_Fixpoint
  imports Uci_Trace
begin

text \<open>
  Two facts about repeated reconciliation: a reconciled package needs no further change, and the
  firewall package's scope leaves out the publications of systems that were removed.
\<close>

section \<open>Stale publications\<close>

lemma SplitChar_ne: "SplitChar c xs \<noteq> []"
  by (cases xs) (auto split: list.splits)

lemma SplitChar_append: "SplitChar c (xs @ c # ys) = SplitChar c xs @ SplitChar c ys"
proof (induction xs)
  case (Cons x xs)
  then show ?case using SplitChar_ne [of c xs] by (cases "SplitChar c xs") auto
qed simp

lemma SplitChar_single: "c \<notin> set ys \<Longrightarrow> SplitChar c ys = [ys]"
  by (induction ys) auto

lemma HasSuffix_append: "HasSuffix s p \<Longrightarrow> \<exists>q. s = q @ p"
  by (metis HasPrefix_def HasSuffix_def append_take_drop_id rev_append rev_rev_ident)

lemma publication_not_rule:
  assumes "HasPrefix name ''boetticher_system_''" and "HasSuffix name ''_home_publication''"
  shows "\<not> managedRuleIdentity name options"
proof -
  obtain q where q: "name = q @ ''_home_publication''" using HasSuffix_append [OF assms(2)] by blast
  have "name = (q @ ''_home'') @ CHR ''_'' # ''publication''" using q by simp
  then have "SplitChar (CHR ''_'') name = SplitChar (CHR ''_'') (q @ ''_home'') @ [''publication'']"
    using SplitChar_append [of "CHR ''_''" "q @ ''_home''" "''publication''"] SplitChar_single [of "CHR ''_''" "''publication''"]
    by simp
  then have "last (SplitChar (CHR ''_'') name) = ''publication''" by simp
  then show ?thesis using assms(1) by (simp add: managedRuleIdentity_def system_rule_identity_def Let_def)
qed

lemma fixed_names_no_system:
  "list_all (\<lambda>n. \<not> HasPrefix n ''boetticher_system_'')
     (map sn_Name (tailnetFirewallSections ''192.168.4.0/22'') @
      map sn_Name (serviceFirewallSections (NewSite ''scope'' ''controller-local'' GatewayModeManaged) True True True) @
      observability_rules)"
  by code_simp

lemma publication_out_of_scope:
  assumes "HasPrefix name ''boetticher_system_''" and "HasSuffix name ''_home_publication''"
    and "name \<notin> sn_Name ` set desired"
  shows "name \<notin> fst ` set (FirewallScope current desired)"
proof -
  obtain r where "name = ''boetticher_system_'' @ r"
    using assms(1) by (metis HasPrefix_def append_take_drop_id)
  then have "\<not> managedVPNFirewallSection name s" for s
    by (auto simp: managedVPNFirewallSection_def HasPrefix_def Let_def)
  moreover have "name \<notin> set (owned_firewall_names desired)"
    using assms(1,3) fixed_names_no_system by (auto simp: owned_firewall_names_def list_all_iff)
  ultimately show ?thesis using publication_not_rule [OF assms(1,2)] by (auto simp: FirewallScope_def)
qed

text \<open>C5: A published HOME port outlives its system.  A redirect on the appliance that carries the full
  managed identity of a HOME publication, and is no longer desired, is classified as stale
  (\<open>managedStaleSection\<close>), but the difference of the firewall package never deletes it: its scope admits
  \<open>boetticher_system_\<close> sections only if they are identified as rules.\<close>

theorem stale_publication_survives:
  assumes "us_Type s = ''redirect''" and "homePublicationIdentity name (us_Options s) (us_Lists s)"
    and "name \<notin> sn_Name ` set desired" and "DiffFirewall current desired = Inr ms"
  shows "managedStaleSection name s \<and> MutationDelete name \<notin> set ms"
proof -
  have pre: "HasPrefix name ''boetticher_system_''" and suf: "HasSuffix name ''_home_publication''"
    and label: "publication_label (us_Options s) \<noteq> []"
    and eq: "name = ''boetticher_system_'' @ nativeIdentifier (ToLower (publication_label (us_Options s))) @ ''_home_publication''"
    using assms(2) unfolding homePublicationIdentity_def by blast+
  have "opt (us_Options s) ''name'' \<noteq> []"
    using label by (auto simp: publication_label_def TrimSuffix_def TrimPrefix_def HasPrefix_def HasSuffix_def split: if_splits)
  moreover have "HasSuffix (TrimPrefix name ''boetticher_system_'') ''_home_publication''"
    by (subst eq) (simp add: TrimPrefix_def HasPrefix_def HasSuffix_def)
  ultimately have "managedStaleSection name s"
    using assms(1,2) pre label by (simp add: managedStaleSection_def stale_vpn_or_system_def Let_def)
  moreover have "MutationDelete name \<notin> set ms"
  proof
    assume "MutationDelete name \<in> set ms"
    then have "name \<in> mutation_name ` set ms" by force
    also have "\<dots> \<subseteq> touchable ''firewall'' current desired"
      using assms(4) by (intro mutation_names) (simp add: DiffFirewall_def scoped_def)
    finally have "name \<in> fst ` set (FirewallScope current desired)"
      using assms(3) set_stale_names [of "FirewallScope current desired" desired] by (auto simp: touchable_def scoped_def)
    then show False using publication_out_of_scope [OF pre suf assms(3)] by simp
  qed
  ultimately show ?thesis by simp
qed

definition web_publication :: UCISection where
  "web_publication = \<lparr>us_Type = ''redirect'', us_Options = [(''name'', ''Boetticher system web HOME publication''), (''src'', ''home_wan''),
     (''src_ip'', ''192.168.4.0/22''), (''src_dport'', ''8443''), (''dest'', ''servers''), (''dest_ip'', ''10.10.20.61''),
     (''dest_port'', ''443''), (''target'', ''DNAT''), (''family'', ''ipv4''), (''reflection'', ''0'')], us_Lists = [(''proto'', [''tcp''])]\<rparr>"

theorem stale_publication_survives_witness:
  "managedStaleSection ''boetticher_system_web_home_publication'' web_publication \<and>
   DiffFirewall [(''boetticher_system_web_home_publication'', web_publication)] [] = Inr [] \<and>
   DiffOwned [(''boetticher_system_web_home_publication'', web_publication)] [] =
     Inr [MutationDelete ''boetticher_system_web_home_publication'']"
proof -
  have t: "us_Type web_publication = ''redirect''"
    and i: "homePublicationIdentity ''boetticher_system_web_home_publication'' (us_Options web_publication) (us_Lists web_publication)"
    and d: "DiffFirewall [(''boetticher_system_web_home_publication'', web_publication)] [] = Inr []"
    and o: "DiffOwned [(''boetticher_system_web_home_publication'', web_publication)] [] =
      Inr [MutationDelete ''boetticher_system_web_home_publication'']"
    by code_simp+
  from stale_publication_survives [OF t i _ d] d o show ?thesis by simp
qed

section \<open>Content decides\<close>

lemma content_eq:
  assumes a: "wf_observed a" and b: "wf_observed b" and eq: "observed_of a = observed_of b"
  shows "us_Type a = us_Type b" and "lst (us_Lists a) = lst (us_Lists b)"
    and "map_of (us_Options a) = map_of (us_Options b)"
proof -
  show "us_Type a = us_Type b" using eq by (simp add: observed_of_def)
  have e: "entries (us_Options a) (us_Lists a) k = entries (us_Options b) (us_Lists b) k" for k
    using eq by (simp add: observed_of_def)
  have l: "lst (us_Lists s) k = (case entries (us_Options s) (us_Lists s) k of Some (UList vs) \<Rightarrow> vs | _ \<Rightarrow> [])" for s :: UCISection and k
    by (cases "map_of (us_Options s) k") (auto simp: entries_def)
  show "lst (us_Lists a) = lst (us_Lists b)" using l [of a] l [of b] e by (simp add: fun_eq_iff)
  have o: "map_of (us_Options s) k = (case entries (us_Options s) (us_Lists s) k of Some (UOption x) \<Rightarrow> Some x | _ \<Rightarrow> None)"
    if "wf_observed s" for s k
  proof (cases "lst (us_Lists s) k = []")
    case True
    then show ?thesis by (cases "map_of (us_Options s) k") (auto simp: entries_def)
  next
    case False
    then have "k \<in> fst ` set (us_Lists s)" using that lst_nonempty_iff [of "us_Lists s" k] by (simp add: wf_observed_def)
    then have "map_of (us_Options s) k = None" using that by (auto simp: wf_observed_def map_of_eq_None_iff)
    then show ?thesis using False by (simp add: entries_def)
  qed
  show "map_of (us_Options a) = map_of (us_Options b)" using o [OF a] o [OF b] e by (simp add: fun_eq_iff)
qed

lemma distinct_length_dom: "distinct (map fst m) \<Longrightarrow> length m = card (dom (map_of m))"
  by (metis distinct_card dom_map_of_conv_image_fst length_map list.set_map)

lemma content_shape:
  assumes a: "wf_observed a" and b: "wf_observed b" and eq: "observed_of a = observed_of b"
  shows "opt (us_Options a) = opt (us_Options b)" and "length (us_Options a) = length (us_Options b)"
    and "length (us_Lists a) = length (us_Lists b)" and "set (map fst (us_Options a)) = set (map fst (us_Options b))"
proof -
  note c = content_eq [OF a b eq]
  show "opt (us_Options a) = opt (us_Options b)" by (simp add: fun_eq_iff opt_def c(3))
  show keys: "set (map fst (us_Options a)) = set (map fst (us_Options b))"
    using c(3) by (metis dom_map_of_conv_image_fst list.set_map)
  then show "length (us_Options a) = length (us_Options b)"
    using a b by (metis distinct_card length_map wf_observed_def)
  have k: "set (map fst (us_Lists s)) = {k. lst (us_Lists s) k \<noteq> []}" if "wf_observed s" for s
    using that lst_nonempty_iff [of "us_Lists s"] by (auto simp: wf_observed_def)
  have "set (map fst (us_Lists a)) = set (map fst (us_Lists b))" using k [OF a] k [OF b] c(2) by simp
  then show "length (us_Lists a) = length (us_Lists b)"
    using a b by (metis distinct_card length_map wf_observed_def)
qed

lemma managedRuleIdentity_cong: "opt x = opt y \<Longrightarrow> managedRuleIdentity name x = managedRuleIdentity name y"
  unfolding managedRuleIdentity_def system_rule_identity_def tailnet_rule_identity_def Let_def by (simp only:)

lemma homePublicationIdentity_content:
  assumes "wf_observed a" "wf_observed b" "observed_of a = observed_of b"
  shows "homePublicationIdentity name (us_Options a) (us_Lists a) = homePublicationIdentity name (us_Options b) (us_Lists b)"
  unfolding homePublicationIdentity_def publication_label_def list_all_iff
  by (simp only: content_shape [OF assms] content_eq [OF assms])

lemma managedVPN_content:
  assumes "wf_observed a" "wf_observed b" "observed_of a = observed_of b"
  shows "managedVPNFirewallSection name a = managedVPNFirewallSection name b"
  unfolding managedVPNFirewallSection_def Let_def by (simp only: content_shape [OF assms] content_eq [OF assms])

lemma managedStaleSection_content:
  assumes "wf_observed a" "wf_observed b" "observed_of a = observed_of b"
  shows "managedStaleSection name a = managedStaleSection name b"
proof -
  have "stale_vpn_or_system name a = stale_vpn_or_system name b"
    unfolding stale_vpn_or_system_def publication_label_def Let_def
    by (simp only: content_shape [OF assms] content_eq [OF assms] homePublicationIdentity_content [OF assms] managedVPN_content [OF assms])
  moreover have "stale_service name a = stale_service name b"
    unfolding stale_service_def Let_def by (simp only: content_shape [OF assms] content_eq [OF assms])
  ultimately show ?thesis unfolding managedStaleSection_def
    by (simp only: managedRuleIdentity_cong [OF content_shape(1) [OF assms]] content_shape [OF assms] content_eq [OF assms])
qed

lemma compatibleIdentity_content:
  assumes "wf_observed a" "wf_observed b" "observed_of a = observed_of b"
  shows "compatibleIdentity name a s = compatibleIdentity name b s"
  unfolding compatibleIdentity_def Let_def
  by (simp only: content_shape [OF assms] content_eq [OF assms] managedStaleSection_content [OF assms]
      homePublicationIdentity_content [OF assms] managedRuleIdentity_cong [OF content_shape(1) [OF assms]])

section \<open>Reconciled packages\<close>

text \<open>The conditions under which a difference is empty, one observed section at a time.\<close>

definition conflicting :: "Section \<Rightarrow> string \<Rightarrow> UCISection \<Rightarrow> bool" where
  "conflicting s name ob \<longleftrightarrow> name \<noteq> sn_Name s \<and> \<not> managedStaleSection name ob \<and>
     (sn_Type s = ''cname'' \<and> HasPrefix (sn_Name s) ''boetticher_system_dns_'' \<and> us_Type ob = ''cname'' \<and>
        opt (us_Options ob) ''cname'' = opt (sn_Options s) ''cname'' \<or>
      sn_Type s = ''redirect'' \<and> opt (sn_Options s) ''src'' = ''home_wan'' \<and> opt (sn_Options s) ''src_dport'' \<noteq> [] \<and>
        us_Type ob = ''redirect'' \<and> opt (us_Options ob) ''src'' = ''home_wan'' \<and>
        opt (us_Options ob) ''src_dport'' = opt (sn_Options s) ''src_dport'')"

lemma conflicting_content:
  assumes "wf_observed a" "wf_observed b" "observed_of a = observed_of b"
  shows "conflicting s name a = conflicting s name b"
  unfolding conflicting_def
  by (simp only: content_shape [OF assms] content_eq [OF assms] managedStaleSection_content [OF assms])

lemma cname_conflict_Inr:
  "cname_conflict current s = Inr () \<longleftrightarrow> (\<forall>(name, ob) \<in> set current. \<not> (name \<noteq> sn_Name s \<and> \<not> managedStaleSection name ob \<and>
     sn_Type s = ''cname'' \<and> HasPrefix (sn_Name s) ''boetticher_system_dns_'' \<and> us_Type ob = ''cname'' \<and>
     opt (us_Options ob) ''cname'' = opt (sn_Options s) ''cname''))"
  by (auto simp: cname_conflict_def allE_Inr)

lemma publication_conflict_Inr:
  "publication_conflict current s = Inr () \<longleftrightarrow> (\<forall>(name, ob) \<in> set current. \<not> (name \<noteq> sn_Name s \<and> \<not> managedStaleSection name ob \<and>
     sn_Type s = ''redirect'' \<and> opt (sn_Options s) ''src'' = ''home_wan'' \<and> opt (sn_Options s) ''src_dport'' \<noteq> [] \<and>
     us_Type ob = ''redirect'' \<and> opt (us_Options ob) ''src'' = ''home_wan'' \<and>
     opt (us_Options ob) ''src_dport'' = opt (sn_Options s) ''src_dport''))"
  by (auto simp: publication_conflict_def allE_Inr)

lemma conflicts_iff:
  "allE (\<lambda>section. checks [cname_conflict current section, publication_conflict current section]) desired = Inr () \<longleftrightarrow>
     (\<forall>s \<in> set desired. \<forall>(name, ob) \<in> set current. \<not> conflicting s name ob)"
proof -
  have "checks [cname_conflict current s, publication_conflict current s] = Inr () \<longleftrightarrow>
      (\<forall>(name, ob) \<in> set current. \<not> conflicting s name ob)" for s
    unfolding checks_Inr list.set ball_simps insert_iff cname_conflict_Inr publication_conflict_Inr conflicting_def
    by fastforce
  then show ?thesis by (simp only: allE_Inr)
qed

text \<open>A section as the appliance holds it, and desired sections that agree with each other: an appliance
  that holds exactly them needs no change.\<close>

definition as_observed :: "Section \<Rightarrow> UCISection" where
  "as_observed s = \<lparr>us_Type = sn_Type s, us_Options = sn_Options s, us_Lists = filter (\<lambda>(k, vs). vs \<noteq> []) (sn_Lists s)\<rparr>"

definition self_consistent :: "Section list \<Rightarrow> bool" where
  "self_consistent desired \<longleftrightarrow> DiffOwned (map (\<lambda>s. (sn_Name s, as_observed s)) desired) desired = Inr []"

lemma lst_filter: "distinct (map fst m) \<Longrightarrow> lst (filter (\<lambda>(k, vs). vs \<noteq> []) m) k = lst m k"
  by (induction m) (auto simp: lst_def map_of_eq_None_iff [THEN iffD2] rev_image_eqI)

lemma as_observed_content:
  assumes s: "wf_section s"
  shows "wf_observed (as_observed s)" and "observed_of (as_observed s) = desired_of s"
proof -
  show "wf_observed (as_observed s)" using s
    by (auto simp: wf_section_def wf_observed_def as_observed_def intro: distinct_map_filter)
  show "observed_of (as_observed s) = desired_of s"
    using s by (simp add: as_observed_def observed_of_def desired_of_def entries_def fun_eq_iff lst_filter wf_section_def)
qed

lemma sameSection_self:
  assumes s: "wf_section s" and ob: "wf_observed ob" and eq: "observed_of ob = desired_of s"
  shows "sameSection ob s"
proof -
  note wf = as_observed_content(1) [OF s]
  have eq': "observed_of ob = observed_of (as_observed s)" using eq as_observed_content(2) [OF s] by simp
  have o: "opt (us_Options ob) k = v" if "(k, v) \<in> set (sn_Options s)" for k v
    using content_shape(1) [OF ob wf eq'] s that by (simp add: wf_section_def opt_Some as_observed_def)
  have ls: "lst (us_Lists ob) k = lst (sn_Lists s) k" for k
    using content_eq(2) [OF ob wf eq'] lst_filter s by (simp add: wf_section_def as_observed_def)
  have "lst (us_Lists ob) k = vs" if "(k, vs) \<in> set (sn_Lists s)" for k vs
    using ls [of k] that s by (simp add: lst_Some wf_section_def)
  moreover have "map_of (sn_Lists s) k \<noteq> None" if "(k, vs) \<in> set (us_Lists ob)" "vs \<noteq> []" for k vs
  proof -
    have "lst (us_Lists ob) k = vs" using that ob by (simp add: wf_observed_def lst_Some)
    then show ?thesis using ls [of k] that(2) by (cases "map_of (sn_Lists s) k") (auto simp: lst_def)
  qed
  ultimately show ?thesis
    using o content_eq(1) [OF ob wf eq'] content_shape(2) [OF ob wf eq']
    by (auto simp: sameSection_def list_all_iff as_observed_def)
qed

lemma mapE_Nil: "(\<And>x. x \<in> set xs \<Longrightarrow> f x = Inr []) \<Longrightarrow> mapE f xs = Inr (map (\<lambda>_. []) xs)"
  by (induction xs) auto

lemma DiffOwned_Nil:
  "DiffOwned current desired = Inr [] \<longleftrightarrow>
     (\<forall>s \<in> set desired. \<forall>(name, ob) \<in> set current. \<not> conflicting s name ob) \<and>
     (\<forall>n \<in> sn_Name ` set desired. section_mutations current (the (wanted desired n)) = Inr []) \<and>
     stale_names current desired = []"
proof -
  let ?f = "\<lambda>n. section_mutations current (the (wanted desired n))"
  have "(\<exists>mss. mapE ?f (sortedSectionNames desired) = Inr mss \<and> concat mss = []) \<longleftrightarrow>
      (\<forall>n \<in> sn_Name ` set desired. ?f n = Inr [])" (is "?l \<longleftrightarrow> ?r")
  proof
    assume ?l
    then obtain mss where m: "mapE ?f (sortedSectionNames desired) = Inr mss" "concat mss = []" by blast
    show ?r
    proof
      fix n assume n: "n \<in> sn_Name ` set desired"
      then have "?f n = Inr (projr (?f n))" and "projr (?f n) \<in> set mss"
        using mapE_projr [OF m(1)] by (auto simp: sortedSectionNames_def)
      moreover then have "projr (?f n) = []" using m(2) by simp
      ultimately show "?f n = Inr []" by metis
    qed
  next
    assume ?r
    then show ?l using mapE_Nil [of "sortedSectionNames desired" ?f]
      by (intro exI [of _ "map (\<lambda>_. []) (sortedSectionNames desired)"]) (auto simp: sortedSectionNames_def)
  qed
  then show ?thesis
    unfolding DiffOwned_def conflicts_iff [symmetric] by (auto simp del: checks_simps simp: bindE_Inr)
qed

lemma scoped_iff:
  "(name, ob) \<in> set (scoped pkg current desired) \<longleftrightarrow> (name, ob) \<in> set current \<and>
     (pkg = ''firewall'' \<longrightarrow> managedVPNFirewallSection name ob \<or>
        HasPrefix name ''boetticher_system_'' \<and> managedRuleIdentity name (us_Options ob) \<or> name \<in> set (owned_firewall_names desired))"
  by (auto simp: scoped_def FirewallScope_def)

lemma scoped_content:
  assumes "wf_observed a" "wf_observed b" "observed_of a = observed_of b" "(name, a) \<in> set current" "(name, b) \<in> set current'"
  shows "(name, a) \<in> set (scoped pkg current desired) \<longleftrightarrow> (name, b) \<in> set (scoped pkg current' desired)"
  using assms(4,5) managedVPN_content [OF assms(1-3)] managedRuleIdentity_cong [OF content_shape(1) [OF assms(1-3)]]
  by (simp add: scoped_iff)

lemma stale_names_iff:
  "name \<in> set (stale_names current desired) \<longleftrightarrow>
     wanted desired name = None \<and> (\<exists>ob. (name, ob) \<in> set current \<and> managedStaleSection name ob)"
  by (force simp: stale_names_def)

text \<open>Where a section of a reconciled package comes from.\<close>

lemma reconciled_origin:
  assumes ob: "observes current v" and ob': "observes current' (reconciled pkg current desired v)"
    and mem: "(name, o') \<in> set current'"
  shows "wf_observed o'" and
    "(\<exists>s. wanted desired name = Some s \<and> observed_of o' = desired_of s) \<or>
     wanted desired name = None \<and> name \<notin> set (stale_names (scoped pkg current desired) desired) \<and>
     (\<exists>a. (name, a) \<in> set current \<and> wf_observed a \<and> observed_of a = observed_of o')"
proof -
  show "wf_observed o'" using ob' mem by (force simp: observes_def)
  have look: "map_of current' name = Some o'" using ob' mem by (simp add: observes_def)
  have r: "reconciled pkg current desired v name = Some (observed_of o')"
    using ob' look by (auto simp: observes_def fun_eq_iff)
  show "(\<exists>s. wanted desired name = Some s \<and> observed_of o' = desired_of s) \<or>
     wanted desired name = None \<and> name \<notin> set (stale_names (scoped pkg current desired) desired) \<and>
     (\<exists>a. (name, a) \<in> set current \<and> wf_observed a \<and> observed_of a = observed_of o')"
  proof (cases "wanted desired name")
    case None
    then have n: "name \<notin> set (stale_names (scoped pkg current desired) desired)" and "v name = Some (observed_of o')"
      using r by (auto simp: reconciled_def split: if_splits)
    then obtain a where a: "map_of current name = Some a" "observed_of a = observed_of o'"
      using ob by (auto simp: observes_def)
    then show ?thesis using None n map_of_SomeD [OF a(1)] observes_wf [OF ob a(1)] by blast
  next
    case (Some s)
    then show ?thesis using r by (simp add: reconciled_def)
  qed
qed

lemma wf_desired_section: "wf_desired desired \<Longrightarrow> s \<in> set desired \<Longrightarrow> wf_section s"
  by (simp add: wf_desired_def list_all_iff)

lemma self_consistentD:
  assumes "self_consistent desired"
  shows "s \<in> set desired \<Longrightarrow> s' \<in> set desired \<Longrightarrow> \<not> conflicting s (sn_Name s') (as_observed s')"
    and "n \<in> sn_Name ` set desired \<Longrightarrow>
      section_mutations (map (\<lambda>s. (sn_Name s, as_observed s)) desired) (the (wanted desired n)) = Inr []"
  using assms unfolding self_consistent_def DiffOwned_Nil by force+

lemma reconciled_no_conflict:
  assumes wf: "wf_desired desired" and self: "self_consistent desired"
    and ob: "observes current v" and diff: "DiffOwned (scoped pkg current desired) desired = Inr ms"
    and ob': "observes current' (reconciled pkg current desired v)"
    and s: "s \<in> set desired" and sc: "(name, o') \<in> set (scoped pkg current' desired)"
  shows "\<not> conflicting s name o'"
proof -
  have mem: "(name, o') \<in> set current'" using sc set_scoped by auto
  note wo = reconciled_origin(1) [OF ob ob' mem]
  from reconciled_origin(2) [OF ob ob' mem] show ?thesis
  proof (elim disjE exE conjE)
    fix s' assume w: "wanted desired name = Some s'" "observed_of o' = desired_of s'"
    then have s': "s' \<in> set desired" "sn_Name s' = name" using wanted_Some by blast+
    note as = as_observed_content [OF wf_desired_section [OF wf s'(1)]]
    have "\<not> conflicting s name (as_observed s')" using self_consistentD(1) [OF self s s'(1)] s'(2) by simp
    then show ?thesis using conflicting_content [OF wo as(1)] w(2) as(2) by simp
  next
    fix a assume a: "(name, a) \<in> set current" "wf_observed a" "observed_of a = observed_of o'"
    have "\<forall>s \<in> set desired. \<forall>(name, a) \<in> set (scoped pkg current desired). \<not> conflicting s name a"
      using diff by (auto simp: DiffOwned_def conflicts_iff [symmetric] simp del: checks_simps)
    moreover have "(name, a) \<in> set (scoped pkg current desired)" using scoped_content [OF a(2) wo a(3,1) mem] sc by simp
    ultimately have "\<not> conflicting s name a" using s by fast
    then show ?thesis using conflicting_content [OF a(2) wo a(3)] by simp
  qed
qed

lemma reconciled_sections_same:
  assumes wf: "wf_desired desired" and self: "self_consistent desired"
    and ob': "observes current' (reconciled pkg current desired v)" and n: "n \<in> sn_Name ` set desired"
  shows "section_mutations (scoped pkg current' desired) (the (wanted desired n)) = Inr []"
proof -
  obtain s where w: "wanted desired n = Some s" using n wanted_iff [of desired n] by auto
  then have s: "s \<in> set desired" "sn_Name s = n" using wanted_Some by blast+
  note ws = wf_desired_section [OF wf s(1)]
  have "reconciled pkg current desired v n = Some (desired_of s)" using w by (simp add: reconciled_def)
  then obtain o' where look: "map_of current' n = Some o'" and c: "observed_of o' = desired_of s"
    using ob' by (auto simp: observes_def fun_eq_iff)
  note wo = observes_wf [OF ob' look]
  have c': "observed_of o' = observed_of (as_observed s)" using c as_observed_content(2) [OF ws] by simp
  have "map_of (map (\<lambda>s. (sn_Name s, as_observed s)) desired) n = Some (as_observed s)"
    using wf s by (auto simp: wf_desired_def map_of_eq_Some_iff comp_def)
  then have "compatibleIdentity n (as_observed s) s"
    using self_consistentD(2) [OF self n] w s by (auto simp: section_mutations_def Let_def split: if_splits)
  then have "compatibleIdentity n o' s" using compatibleIdentity_content [OF wo as_observed_content(1) [OF ws] c'] by simp
  moreover have "us_Type o' = sn_Type s" using c by (simp add: observed_of_def desired_of_def)
  moreover have "sameSection o' s" by (rule sameSection_self [OF ws wo c])
  ultimately show ?thesis using look scoped_desired [OF n, of pkg current'] w s
    by (simp add: section_mutations_def Let_def)
qed

lemma reconciled_no_stale:
  assumes ob: "observes current v" and ob': "observes current' (reconciled pkg current desired v)"
  shows "stale_names (scoped pkg current' desired) desired = []"
proof -
  have "name \<notin> set (stale_names (scoped pkg current' desired) desired)" for name
  proof
    assume "name \<in> set (stale_names (scoped pkg current' desired) desired)"
    then obtain o' where w: "wanted desired name = None" and sc: "(name, o') \<in> set (scoped pkg current' desired)"
      and st: "managedStaleSection name o'" by (auto simp: stale_names_iff)
    then have mem: "(name, o') \<in> set current'" using set_scoped by auto
    note wo = reconciled_origin(1) [OF ob ob' mem]
    from reconciled_origin(2) [OF ob ob' mem] w obtain a where fresh: "name \<notin> set (stale_names (scoped pkg current desired) desired)"
      and a: "(name, a) \<in> set current" "wf_observed a" "observed_of a = observed_of o'" by auto
    have "(name, a) \<in> set (scoped pkg current desired)" using scoped_content [OF a(2) wo a(3,1) mem] sc by simp
    moreover have "managedStaleSection name a" using st managedStaleSection_content [OF a(2) wo a(3)] by simp
    ultimately show False using fresh w by (auto simp: stale_names_iff)
  qed
  then show ?thesis by (metis list.set_intros(1) neq_Nil_conv)
qed


definition ntp_sections :: "Section list" where
  "ntp_sections = [\<lparr>sn_Name = ''ntp'', sn_Type = ''timeserver'', sn_Options = [(''enabled'', ''1''), (''use_dhcp'', ''0'')],
     sn_Lists = [(''server'', [''192.0.2.1''])]\<rparr>]"


end
