(* ===== verification/Json.thy ===== *)
theory Json
  imports Go_Std
begin

text \<open>
  JSON values as the program sees them through \<^verbatim>\<open>encoding/json\<close>.  An object is an association
  list with distinct keys, also up to case, so that the lookup of a struct field (which ignores case)
  finds at most one; where a text repeats a key, Go keeps the last one.  A number is an integer literal
  or any other literal.
\<close>

datatype json =
    JNull
  | JBool bool
  | JNum int
  | JFrac string
  | JStr string
  | JArr "json list"
  | JObj "(string \<times> json) list"

definition struct_field :: "string \<Rightarrow> json \<Rightarrow> json option" where
  "struct_field name j =
     (case j of JObj kvs \<Rightarrow> map_option snd (find (\<lambda>(k, _). ToLower k = ToLower name) kvs) | _ \<Rightarrow> None)"

text \<open>\<open>json.Unmarshal\<close> into a Go \<open>int\<close>: \<open>null\<close> leaves the zero value.\<close>

definition decode_int :: "json \<Rightarrow> int option" where
  "decode_int j = (case j of JNull \<Rightarrow> Some 0
     | JNum i \<Rightarrow> if - (2 ^ 63) \<le> i \<and> i < 2 ^ 63 then Some i else None | _ \<Rightarrow> None)"

definition string_field :: "string \<Rightarrow> json \<Rightarrow> string" where
  "string_field name j = (case struct_field name j of Some (JStr s) \<Rightarrow> s | _ \<Rightarrow> [])"

text \<open>The remaining decoders leave the zero value for \<open>null\<close> and refuse a value of another kind.\<close>

definition decode_string :: "json \<Rightarrow> string option" where
  "decode_string j = (case j of JNull \<Rightarrow> Some [] | JStr s \<Rightarrow> Some s | _ \<Rightarrow> None)"

definition decode_list :: "(json \<Rightarrow> 'a option) \<Rightarrow> json \<Rightarrow> 'a list option" where
  "decode_list f j =
     (case j of JNull \<Rightarrow> Some [] | JArr js \<Rightarrow> those (map f js) | _ \<Rightarrow> None)"

definition is_struct :: "json \<Rightarrow> bool" where
  "is_struct j = (case j of JNull \<Rightarrow> True | JObj _ \<Rightarrow> True | _ \<Rightarrow> False)"

definition decode_field :: "(json \<Rightarrow> 'a option) \<Rightarrow> string \<Rightarrow> json \<Rightarrow> 'a option" where
  "decode_field f name j = f (case struct_field name j of None \<Rightarrow> JNull | Some v \<Rightarrow> v)"

text \<open>\<open>json.Marshal\<close> of a map writes its keys in order.\<close>

definition marshal_map :: "(string \<times> json) list \<Rightarrow> json" where
  "marshal_map kvs = JObj (sort_key fst kvs)"

end
