(* ===== verification/Openwrt_Client.thy ===== *)
theory Openwrt_Client
  imports Uci_Trace Json
begin

text \<open>
  \<^verbatim>\<open>internal/openwrt/client.go\<close> and \<^verbatim>\<open>services.go\<close>: the ubus client through which the
  reconciler reaches the appliance.  The HTTPS transport and the appliance behind it are one
  parameter \<open>post\<close>, a function from a session, an object, an operation name and the parameters to a reply; the
  client's own state (session, request counter, closed flag) is part of the world.
\<close>

section \<open>Client\<close>

record rpc_envelope =
  rp_JSONRPC :: string
  rp_Result :: "json option"
  rp_Error :: "json option"

datatype http_body = Unreadable | NotJSON | Envelope rpc_envelope

datatype http_reply = TransportError gerror | Response int string http_body

record Client =
  cl_user :: string
  cl_pass :: string
  cl_session :: string
  cl_request :: "64 word"
  cl_closed :: bool

type_synonym 'n transport = "string \<Rightarrow> string \<Rightarrow> string \<Rightarrow> json \<Rightarrow> 'n \<Rightarrow> http_reply \<times> 'n"

type_synonym 'n online = "'n \<times> Client"

definition loginSession :: string where
  "loginSession = replicate 32 (CHR ''0'')"

definition decode_result :: "json list \<Rightarrow> gerror + json" where
  "decode_result result =
     (case result of
        [] \<Rightarrow> Inl (Errorf ''provider result is malformed'' [])
      | status # rest \<Rightarrow>
        (case decode_int status of
           None \<Rightarrow> Inl (Errorf ''provider response status is malformed'' [])
         | Some code \<Rightarrow>
           if code \<noteq> 0 then Inl (Errorf ''provider operation failed with status %d'' [itoa code])
           else Inr (case rest of [] \<Rightarrow> JObj [] | x # _ \<Rightarrow> x)))"

definition decode_envelope :: "string \<Rightarrow> string \<Rightarrow> rpc_envelope \<Rightarrow> gerror + json" where
  "decode_envelope object meth e =
     (if rp_JSONRPC e \<noteq> ''2.0'' then Inl (Errorf ''provider response is malformed'' [])
      else if rp_Error e \<noteq> None \<and> rp_Error e \<noteq> Some JNull then Inl (Errorf ''provider JSON-RPC operation failed'' [])
      else if rp_Result e = None \<or> rp_Result e = Some JNull then
        (if object = ''uci'' \<and> meth = ''commit'' then Inr (JObj []) else Inl (Errorf ''provider response is malformed'' []))
      else case rp_Result e of
        Some (JArr result) \<Rightarrow> decode_result result
      | _ \<Rightarrow> Inl (Errorf ''provider result is malformed'' []))"

definition decode_reply :: "string \<Rightarrow> string \<Rightarrow> http_reply \<Rightarrow> gerror + json" where
  "decode_reply object meth reply =
     (case reply of
        TransportError e \<Rightarrow> Inl (Wrapf ''provider request failed: %w'' [] e)
      | Response code status body \<Rightarrow>
        if code < 200 \<or> 300 \<le> code then Inl (Errorf ''provider request returned HTTP %s'' [status])
        else case body of
          Unreadable \<Rightarrow> Inl (Errorf ''read provider response'' [])
        | NotJSON \<Rightarrow> Inl (Errorf ''provider response is malformed'' [])
        | Envelope e \<Rightarrow> decode_envelope object meth e)"

definition rpc_call ::
  "'n transport \<Rightarrow> string \<Rightarrow> string \<Rightarrow> string \<Rightarrow> json \<Rightarrow> (gerror, json, 'n online) effect" where
  "rpc_call post session object meth params w =
     (if cl_closed (snd w) then (Inl (Errorf ''provider client is closed'' []), w)
      else case post session object meth params (fst w) of
        (reply, n) \<Rightarrow> (decode_reply object meth reply, n, snd w\<lparr>cl_request := cl_request (snd w) + 1\<rparr>))"

definition Authenticate :: "'n transport \<Rightarrow> (gerror, unit, 'n online) effect" where
  "Authenticate post w =
     bindW (mapErrorW (Wrapf ''provider authentication failed: %w'' [])
         (rpc_call post loginSession ''session'' ''login''
           (JObj [(''username'', JStr (cl_user (snd w))), (''password'', JStr (cl_pass (snd w))), (''timeout'', JNum 300)])))
       (\<lambda>result w'.
         let session = string_field ''ubus_rpc_session'' result in
         if session = [] then (Inl (Errorf ''provider authentication response did not contain a session'' []), w')
         else (Inr (), fst w', snd w'\<lparr>cl_session := session\<rparr>)) w"

definition callWithSession ::
  "'n transport \<Rightarrow> string \<Rightarrow> string \<Rightarrow> json \<Rightarrow> (gerror, json, 'n online) effect" where
  "callWithSession post object meth params =
     bindW (\<lambda>w. if cl_session (snd w) = [] then Authenticate post w else pureW () w)
       (\<lambda>_ w. rpc_call post (cl_session (snd w)) object meth params w)"

section \<open>UCI operations\<close>

definition decode_options :: "(string \<times> json) list \<Rightarrow> (string \<times> string) list" where
  "decode_options raw = concat (map (\<lambda>(k, v). case v of JStr s \<Rightarrow> if HasPrefix k ''.'' then [] else [(k, s)] | _ \<Rightarrow> []) raw)"

definition strings_of :: "json list \<Rightarrow> string list" where
  "strings_of items = concat (map (\<lambda>v. case v of JStr s \<Rightarrow> [s] | _ \<Rightarrow> []) items)"

definition decode_lists :: "(string \<times> json) list \<Rightarrow> (string \<times> string list) list" where
  "decode_lists raw = concat (map (\<lambda>(k, v). case v of
       JArr items \<Rightarrow> if HasPrefix k ''.'' \<or> strings_of items = [] then [] else [(k, strings_of items)] | _ \<Rightarrow> []) raw)"

definition decodeSection :: "(string \<times> json) list \<Rightarrow> UCISection option" where
  "decodeSection raw =
     (case map_of raw ''.type'' of
        Some (JStr t) \<Rightarrow>
          if t = [] then None
          else Some \<lparr>us_Type = t, us_Options = decode_options raw, us_Lists = decode_lists raw\<rparr>
      | _ \<Rightarrow> None)"

definition sectionName :: "(string \<times> json) list \<Rightarrow> string" where
  "sectionName raw = (case map_of raw ''.name'' of Some (JStr n) \<Rightarrow> n | _ \<Rightarrow> [])"

definition decode_member :: "string \<times> json \<Rightarrow> gerror + (string \<times> UCISection)" where
  "decode_member kv =
     (case snd kv of
        JObj raw \<Rightarrow> (case decodeSection raw of
            Some s \<Rightarrow> Inr (fst kv, s) | None \<Rightarrow> Inl (Errorf ''provider UCI section is malformed'' []))
      | _ \<Rightarrow> Inl (Errorf ''provider UCI section is malformed'' []))"

definition decode_package :: "json \<Rightarrow> gerror + uci_package" where
  "decode_package result =
     (case struct_field ''values'' result of
        Some (JObj values0) \<Rightarrow>
          (case decodeSection values0 of
             Some s \<Rightarrow> if sectionName values0 = [] then Inl (Errorf ''provider UCI response omitted section name'' [])
                      else Inr [(sectionName values0, s)]
           | None \<Rightarrow> mapE decode_member values0)
      | _ \<Rightarrow> Inl (Errorf ''provider UCI response is malformed'' []))"

definition client_UCIGet :: "'n transport \<Rightarrow> string \<Rightarrow> (gerror, uci_package, 'n online) effect" where
  "client_UCIGet post config =
     (if config = [] then failW (Errorf ''UCI config name is required'' [])
      else bindW (mapErrorW (Wrapf ''read provider UCI %s: %w'' [config])
             (callWithSession post ''uci'' ''get'' (JObj [(''config'', JStr config)])))
           (\<lambda>result. liftW (decode_package result)))"

definition uci_set ::
  "'n transport \<Rightarrow> string \<Rightarrow> string \<Rightarrow> string \<Rightarrow> string \<Rightarrow> json \<Rightarrow> (gerror, unit, 'n online) effect" where
  "uci_set post fmt config section option v =
     (if config = [] \<or> section = [] \<or> option = [] then failW (Errorf ''UCI config, section, and option are required'' [])
      else bindW (mapErrorW (Wrapf fmt [config, section, option])
             (callWithSession post ''uci'' ''set''
               (JObj [(''config'', JStr config), (''section'', JStr section), (''values'', JObj [(option, v)])])))
           (\<lambda>_. pureW ()))"

definition client_UCISet ::
  "'n transport \<Rightarrow> string \<Rightarrow> string \<Rightarrow> string \<Rightarrow> string \<Rightarrow> (gerror, unit, 'n online) effect" where
  "client_UCISet post config section option v =
     uci_set post ''set provider UCI %s.%s.%s: %w'' config section option (JStr v)"

definition client_UCISetList ::
  "'n transport \<Rightarrow> string \<Rightarrow> string \<Rightarrow> string \<Rightarrow> string list \<Rightarrow> (gerror, unit, 'n online) effect" where
  "client_UCISetList post config section option vs =
     uci_set post ''set provider UCI list %s.%s.%s: %w'' config section option (JArr (map JStr vs))"

definition client_UCIAddNamed ::
  "'n transport \<Rightarrow> string \<Rightarrow> string \<Rightarrow> string \<Rightarrow> (gerror, string, 'n online) effect" where
  "client_UCIAddNamed post config sectionType name =
     (if config = [] \<or> sectionType = [] then failW (Errorf ''UCI config and section type are required'' [])
      else bindW (mapErrorW (Wrapf ''add provider UCI section: %w'' [])
             (callWithSession post ''uci'' ''add''
               (JObj ([(''config'', JStr config), (''type'', JStr sectionType)] @
                  (if name = [] then [] else [(''name'', JStr name)])))))
           (\<lambda>result.
             if string_field ''section'' result = [] then
               failW (Errorf ''provider UCI add response did not contain a section name'' [])
             else pureW (string_field ''section'' result)))"

definition client_UCIDelete ::
  "'n transport \<Rightarrow> string \<Rightarrow> string \<Rightarrow> string \<Rightarrow> (gerror, unit, 'n online) effect" where
  "client_UCIDelete post config section option =
     (if config = [] \<or> section = [] then failW (Errorf ''UCI config and section are required'' [])
      else bindW (mapErrorW (Wrapf ''delete provider UCI section: %w'' [])
             (callWithSession post ''uci'' ''delete''
               (JObj ([(''config'', JStr config), (''section'', JStr section)] @
                  (if option = [] then [] else [(''option'', JStr option)])))))
           (\<lambda>_. pureW ()))"

definition client_UCIApply :: "'n transport \<Rightarrow> int \<Rightarrow> (gerror, unit, 'n online) effect" where
  "client_UCIApply post timeout =
     bindW (mapErrorW (Wrapf ''apply provider UCI changes: %w'' [])
       (callWithSession post ''uci'' ''apply''
         (JObj [(''timeout'', JNum (if timeout \<le> 0 then 30 else timeout)), (''rollback'', JBool False)])))
     (\<lambda>_. pureW ())"

definition commitPackages :: "string list" where
  "commitPackages = [''network'', ''firewall'', ''dhcp'', ''stubby'', ''system'']"

definition client_UCICommit :: "'n transport \<Rightarrow> string \<Rightarrow> (gerror, unit, 'n online) effect" where
  "client_UCICommit post config =
     (if config \<notin> set commitPackages then failW (Errorf ''unsupported UCI config package'' [])
      else bindW (mapErrorW (Wrapf ''commit provider UCI %s: %w'' [config])
             (callWithSession post ''uci'' ''commit'' (JObj [(''config'', JStr config)])))
           (\<lambda>_. pureW ()))"

definition client_ServiceConfigChange :: "'n transport \<Rightarrow> string \<Rightarrow> (gerror, unit, 'n online) effect" where
  "client_ServiceConfigChange post service =
     (if service \<notin> set commitPackages then failW (Errorf ''unsupported service configuration'' [])
      else bindW (mapErrorW (Wrapf ''reload provider service configuration %s: %w'' [service])
             (callWithSession post ''service'' ''event''
               (JObj [(''type'', JStr ''config.change''), (''data'', JObj [(''package'', JStr service)])])))
           (\<lambda>_. pureW ()))"

definition client_ReloadInterface :: "'n transport \<Rightarrow> string \<Rightarrow> (gerror, unit, 'n online) effect" where
  "client_ReloadInterface post name =
     (if name \<noteq> ''airvpn'' then failW (Errorf ''unsupported interface reload'' [])
      else forW (\<lambda>meth. bindW (mapErrorW (Wrapf ''%s AirVPN interface: %w'' [meth])
             (callWithSession post (''network.interface.'' @ name) meth (JObj []))) (\<lambda>_. pureW ()))
           [''down'', ''up''])"

definition client_ReloadFirewall :: "'n transport \<Rightarrow> (gerror, unit, 'n online) effect" where
  "client_ReloadFirewall post =
     bindW (mapErrorW (Wrapf ''reload provider firewall: %w'' [])
       (callWithSession post ''file'' ''exec''
         (JObj [(''command'', JStr ''/sbin/fw4''), (''params'', JArr [JStr ''reload''])])))
     (\<lambda>result.
       case struct_field ''code'' result of
         Some (JNum code) \<Rightarrow>
           if decode_int (JNum code) = None then failW (Errorf ''provider firewall reload response is malformed'' [])
           else if code \<noteq> 0 then failW (Errorf ''provider firewall reload failed with exit code %d'' [itoa code])
           else pureW ()
       | _ \<Rightarrow> failW (Errorf ''provider firewall reload response is malformed'' []))"

text \<open>The provider the reconciler uses: the client, and the caller's verification callbacks.\<close>

definition unitW :: "('e, unit, 'w) effect \<Rightarrow> ('e, reply, 'w) effect" where
  "unitW m = bindW m (\<lambda>_. pureW Done)"

fun client_provider :: "'n transport \<Rightarrow> 'n online provider \<Rightarrow> 'n online provider" where
  "client_provider post verify (UCIAddNamed pkg t n) = bindW (client_UCIAddNamed post pkg t n) (\<lambda>m. pureW (Named m))"
| "client_provider post verify (UCISet pkg n k v) = unitW (client_UCISet post pkg n k v)"
| "client_provider post verify (UCISetList pkg n k vs) = unitW (client_UCISetList post pkg n k vs)"
| "client_provider post verify (UCIDelete pkg n k) = unitW (client_UCIDelete post pkg n k)"
| "client_provider post verify (UCIApply timeout) = unitW (client_UCIApply post timeout)"
| "client_provider post verify (UCIGet pkg) = bindW (client_UCIGet post pkg) (\<lambda>m. pureW (Package m))"
| "client_provider post verify (UCICommit pkg) = unitW (client_UCICommit post pkg)"
| "client_provider post verify (ServiceConfigChange pkg) = unitW (client_ServiceConfigChange post pkg)"
| "client_provider post verify ReloadFirewall = unitW (client_ReloadFirewall post)"
| "client_provider post verify r = verify r"

section \<open>Runtime observations\<close>

definition zero_literal :: "json \<Rightarrow> bool" where
  "zero_literal j = (case j of JNum i \<Rightarrow> i = 0
     | JFrac s \<Rightarrow> list_all (\<lambda>c. c \<in> {CHR ''0'', CHR ''.'', CHR ''-''}) (takeWhile (\<lambda>c. c \<noteq> CHR ''e'' \<and> c \<noteq> CHR ''E'') s)
     | _ \<Rightarrow> True)"

definition member_string :: "(string \<times> json) list \<Rightarrow> string \<Rightarrow> string" where
  "member_string kvs k = (case map_of kvs k of Some (JStr s) \<Rightarrow> s | _ \<Rightarrow> [])"

text \<open>What the \<open>target\<close> branch decides: the next hop of a default route, if there is one.\<close>

definition default_next_hop :: "(string \<times> json) list \<Rightarrow> string" where
  "default_next_hop kvs =
     (if member_string kvs ''target'' = ''0.0.0.0'' \<and>
         (case map_of kvs ''mask'' of None \<Rightarrow> True | Some j \<Rightarrow> zero_literal j) then
        (if member_string kvs ''nexthop'' \<noteq> [] then member_string kvs ''nexthop'' else member_string kvs ''gateway'')
      else [])"

fun defaultRouteValue :: "string \<Rightarrow> json \<Rightarrow> bool"
  and default_route_members :: "string \<Rightarrow> (string \<times> json) list \<Rightarrow> bool"
  and default_route_items :: "string \<Rightarrow> json list \<Rightarrow> bool" where
  "defaultRouteValue expected (JObj kvs) =
     (if default_next_hop kvs \<noteq> [] then expected = [] \<or> default_next_hop kvs = expected
      else default_route_members expected kvs)"
| "defaultRouteValue expected (JArr items) = default_route_items expected items"
| "defaultRouteValue expected _ = False"
| "default_route_members expected [] = False"
| "default_route_members expected ((k, v) # kvs) = (defaultRouteValue expected v \<or> default_route_members expected kvs)"
| "default_route_items expected [] = False"
| "default_route_items expected (v # vs) = (defaultRouteValue expected v \<or> default_route_items expected vs)"

definition DefaultRouteVia :: "json \<Rightarrow> string \<Rightarrow> gerror + bool" where
  "DefaultRouteVia runtime expected =
     (if expected = [] then Inl (Errorf ''expected provider default-route gateway is required'' [])
      else Inr (defaultRouteValue expected runtime))"

record ServiceObservation =
  so_Present :: bool
  so_Running :: bool
  so_Instances :: nat

fun serviceInstancesValue :: "json \<Rightarrow> nat \<times> bool"
  and instances_members :: "(string \<times> json) list \<Rightarrow> nat \<times> bool"
  and instances_items :: "json list \<Rightarrow> nat \<times> bool" where
  "serviceInstancesValue (JObj kvs) =
     (case map_of kvs ''running'' of
        Some (JBool b) \<Rightarrow> (case instances_members kvs of (n, r) \<Rightarrow> (1 + n, b \<or> r))
      | _ \<Rightarrow> instances_members kvs)"
| "serviceInstancesValue (JArr items) = instances_items items"
| "serviceInstancesValue _ = (0, False)"
| "instances_members [] = (0, False)"
| "instances_members ((k, v) # kvs) =
     (case instances_members kvs of (n, r) \<Rightarrow>
        if k = ''running'' then (n, r) else (case serviceInstancesValue v of (m, q) \<Rightarrow> (m + n, q \<or> r)))"
| "instances_items [] = (0, False)"
| "instances_items (v # vs) =
     (case serviceInstancesValue v of (m, q) \<Rightarrow> case instances_items vs of (n, r) \<Rightarrow> (m + n, q \<or> r))"

definition ParseServiceList :: "json \<Rightarrow> gerror + (string \<times> ServiceObservation) list" where
  "ParseServiceList data =
     (case data of
        JObj services \<Rightarrow> Inr (map (\<lambda>(name, raw).
          (name, \<lparr>so_Present = True, so_Running = snd (serviceInstancesValue raw),
                  so_Instances = fst (serviceInstancesValue raw)\<rparr>)) services)
      | _ \<Rightarrow> Inl (Errorf ''provider service list is malformed'' []))"

end
