(* ===== verification/Openwrt_Correct.thy ===== *)
theory Openwrt_Correct
  imports Openwrt_Client "HOL-Library.AList"
begin

text \<open>
  The client meets the reconciler's contract.  The locale \<open>ubus_device\<close> states what the appliance's
  ubus does with the calls the client makes; from it the client discharges \<open>uci_provider\<close>, so the
  refinement theorems hold of reconciliation through the client.  The appliance itself is not part of
  the program: the theorems hold for every device with the contract, and \<open>rpcd_post\<close> is one such
  device, with an association list of sections per package.
\<close>

section \<open>Decoding a package\<close>

fun value_json :: "uci_value \<Rightarrow> json" where
  "value_json (UOption s) = JStr s"
| "value_json (UList vs) = JArr (map JStr vs)"

definition section_json :: "json \<Rightarrow> uci_section \<Rightarrow> bool" where
  "section_json j s \<longleftrightarrow>
     (\<exists>raw. j = JObj raw \<and> distinct (map fst raw) \<and> map_of raw ''.type'' = Some (JStr (fst s)) \<and> fst s \<noteq> [] \<and>
        (\<forall>k. \<not> HasPrefix k ''.'' \<longrightarrow> map_of raw k = map_option value_json (snd s k)) \<and>
        (\<forall>k v. snd s k = Some v \<longrightarrow> \<not> HasPrefix k ''.'' \<and> k \<noteq> [] \<and> v \<noteq> UList []))"

definition package_json :: "(string \<times> json) list \<Rightarrow> (string \<rightharpoonup> uci_section) \<Rightarrow> bool" where
  "package_json values0 v \<longleftrightarrow> distinct (map fst values0) \<and> map_of values0 ''.type'' = None \<and>
     (\<forall>name. rel_option section_json (map_of values0 name) (v name))"

text \<open>What holds of every section the client decodes, whatever the appliance sends.\<close>

definition typed_section :: "UCISection \<Rightarrow> bool" where
  "typed_section s \<longleftrightarrow> us_Type s \<noteq> [] \<and> distinct (map fst (us_Options s)) \<and> distinct (map fst (us_Lists s)) \<and>
     fst ` set (us_Options s) \<inter> fst ` set (us_Lists s) = {} \<and> [] \<notin> snd ` set (us_Lists s) \<and>
     (\<forall>k \<in> fst ` set (us_Options s) \<union> fst ` set (us_Lists s). \<not> HasPrefix k ''.'')"

fun object_keys :: "json \<Rightarrow> bool" where
  "object_keys (JObj kvs) = (distinct (map fst kvs) \<and>
     (\<forall>(k, v) \<in> set kvs. case v of JObj raw \<Rightarrow> distinct (map fst raw) | _ \<Rightarrow> True))"
| "object_keys _ = True"

lemma set_decode_options: "(k, s) \<in> set (decode_options raw) \<longleftrightarrow> (k, JStr s) \<in> set raw \<and> \<not> HasPrefix k ''.''"
  by (fastforce simp: decode_options_def split: json.splits if_splits)

lemma set_decode_lists:
  "(k, vs) \<in> set (decode_lists raw) \<longleftrightarrow> (\<exists>items. (k, JArr items) \<in> set raw \<and> vs = strings_of items) \<and> vs \<noteq> [] \<and> \<not> HasPrefix k ''.''"
  by (fastforce simp: decode_lists_def split: json.splits if_splits)

lemma fst_decode_options: "fst ` set (decode_options raw) \<subseteq> fst ` set raw"
  by (force simp: set_decode_options)

lemma fst_decode_lists: "fst ` set (decode_lists raw) \<subseteq> fst ` set raw"
  by (force simp: set_decode_lists)

lemma distinct_concat_keys:
  assumes "\<And>kv. set (map fst (g kv)) \<subseteq> {fst kv} \<and> distinct (map fst (g kv))" and "distinct (map fst raw)"
  shows "distinct (map fst (concat (map g raw)))"
  using assms(2)
proof (induction raw)
  case (Cons kv raw)
  have "fst kv' \<in> fst ` set raw" if "kv' \<in> set (concat (map g raw))" for kv'
  proof -
    from that obtain x where "x \<in> set raw" "kv' \<in> set (g x)" by auto
    moreover then have "fst kv' = fst x" using assms(1) [of x] by auto
    ultimately show ?thesis by simp
  qed
  then have "set (map fst (concat (map g raw))) \<subseteq> fst ` set raw" by (metis image_subsetI list.set_map)
  moreover have "{fst kv} \<inter> fst ` set raw = {}" using Cons.prems by simp
  ultimately have "set (map fst (g kv)) \<inter> set (map fst (concat (map g raw))) = {}"
    using assms(1) [of kv] by blast
  then show ?case using assms(1) [of kv] Cons by (simp add: distinct_append)
qed simp

lemma distinct_decode_options: "distinct (map fst raw) \<Longrightarrow> distinct (map fst (decode_options raw))"
  unfolding decode_options_def by (rule distinct_concat_keys) (auto split: json.splits)

lemma distinct_decode_lists: "distinct (map fst raw) \<Longrightarrow> distinct (map fst (decode_lists raw))"
  unfolding decode_lists_def by (rule distinct_concat_keys) (auto split: json.splits)

lemma value_json_inject: "value_json v = value_json v' \<longleftrightarrow> v = v'"
  by (cases v; cases v') (auto simp: inj_map_eq_map inj_def)

lemma decodeSection_typed:
  assumes "distinct (map fst raw)" and "decodeSection raw = Some s"
  shows "typed_section s"
proof -
  from assms(2) have s: "us_Options s = decode_options raw" "us_Lists s = decode_lists raw" "us_Type s \<noteq> []"
    by (auto simp: decodeSection_def split: option.splits json.splits if_splits)
  have "k \<notin> fst ` set (decode_lists raw)" if "k \<in> fst ` set (decode_options raw)" for k
  proof
    assume "k \<in> fst ` set (decode_lists raw)"
    with that obtain t items where "(k, JStr t) \<in> set raw" "(k, JArr items) \<in> set raw"
      by (auto simp: set_decode_options set_decode_lists)
    then show False using assms(1) by (auto dest: eq_key_imp_eq_value)
  qed
  then show ?thesis using assms(1) s
    by (auto simp: typed_section_def distinct_decode_options distinct_decode_lists set_decode_options set_decode_lists)
qed

lemma strings_of_JStr [simp]: "strings_of (map JStr vs) = vs"
  by (induction vs) (auto simp: strings_of_def)

lemma decode_section_json:
  assumes "section_json (JObj raw) sec"
  shows "\<exists>s. decodeSection raw = Some s \<and> wf_observed s \<and> observed_of s = sec"
proof -
  from assms have d: "distinct (map fst raw)" and t: "map_of raw ''.type'' = Some (JStr (fst sec))" "fst sec \<noteq> []"
    and m: "\<And>k. \<not> HasPrefix k ''.'' \<Longrightarrow> map_of raw k = map_option value_json (snd sec k)"
    and ok: "\<And>k v. snd sec k = Some v \<Longrightarrow> \<not> HasPrefix k ''.'' \<and> k \<noteq> [] \<and> v \<noteq> UList []"
    by (auto simp: section_json_def)
  define s where "s = \<lparr>us_Type = fst sec, us_Options = decode_options raw, us_Lists = decode_lists raw\<rparr>"
  have s: "decodeSection raw = Some s" using t by (simp add: decodeSection_def s_def)
  have entry: "(k, value_json v) \<in> set raw \<longleftrightarrow> snd sec k = Some v" if "\<not> HasPrefix k ''.''" for k v
    unfolding map_of_eq_Some_iff [OF d, symmetric] m [OF that] by (cases "snd sec k") (auto simp: value_json_inject)
  have options: "(k, x) \<in> set (decode_options raw) \<longleftrightarrow> snd sec k = Some (UOption x)" for k x
    using entry [of k "UOption x"] ok [of k "UOption x"] by (auto simp: set_decode_options)
  have arr: "(\<exists>items. (k, JArr items) \<in> set raw \<and> vs = strings_of items) \<longleftrightarrow> snd sec k = Some (UList vs)"
    if plain: "\<not> HasPrefix k ''.''" for k vs
  proof
    assume "\<exists>items. (k, JArr items) \<in> set raw \<and> vs = strings_of items"
    then obtain items where i: "map_of raw k = Some (JArr items)" "vs = strings_of items"
      using d by (auto simp: map_of_eq_Some_iff)
    then obtain v where "snd sec k = Some v" "value_json v = JArr items" using m [OF plain] by (cases "snd sec k") auto
    then show "snd sec k = Some (UList vs)" using i(2) by (cases v) auto
  next
    assume "snd sec k = Some (UList vs)"
    then show "\<exists>items. (k, JArr items) \<in> set raw \<and> vs = strings_of items"
      using entry [OF plain, of "UList vs"] by (intro exI [of _ "map JStr vs"]) simp
  qed
  have lists0: "(k, vs) \<in> set (decode_lists raw) \<longleftrightarrow> snd sec k = Some (UList vs)" for k vs
    using arr [of k vs] ok [of k "UList vs"] by (auto simp: set_decode_lists)
  have typed: "typed_section s" by (rule decodeSection_typed [OF d s])
  have wf: "wf_observed s"
    using typed by (auto simp: typed_section_def wf_observed_def s_def options lists0 dest!: ok)
  have "entries (us_Options s) (us_Lists s) k = snd sec k" for k
  proof (cases "snd sec k")
    case None
    then have "k \<notin> fst ` set (decode_options raw)" "k \<notin> fst ` set (decode_lists raw)" by (auto simp: options lists0)
    then show ?thesis using None by (simp add: entries_def s_def lst_None map_of_eq_None_iff [THEN iffD2])
  next
    case (Some v)
    show ?thesis
    proof (cases v)
      case (UOption x)
      have "k \<notin> fst ` set (decode_lists raw)" using Some UOption by (auto simp: lists0)
      moreover have "map_of (decode_options raw) k = Some x"
        using Some UOption options distinct_decode_options [OF d] by (simp add: map_of_eq_Some_iff)
      ultimately show ?thesis using Some UOption by (simp add: entries_def s_def lst_None)
    next
      case (UList vs)
      have "lst (decode_lists raw) k = vs"
        using Some UList lists0 distinct_decode_lists [OF d] by (intro lst_Some) auto
      then show ?thesis using Some UList ok [OF Some] by (simp add: entries_def s_def)
    qed
  qed
  then have "observed_of s = sec" by (simp add: observed_of_def s_def fun_eq_iff prod_eq_iff)
  then show ?thesis using s wf by blast
qed

lemma decode_package_json:
  assumes "package_json values0 v" and "struct_field ''values'' result = Some (JObj values0)"
    and "decode_package result = Inr current"
  shows "observes current v"
proof -
  have rel: "rel_option section_json (map_of values0 name) (v name)" for name
    using assms(1) by (simp add: package_json_def)
  have d: "distinct (map fst values0)" and none: "decodeSection values0 = None"
    using assms(1) by (auto simp: package_json_def decodeSection_def)
  from assms(2,3) none have m: "mapE decode_member values0 = Inr current" by (simp add: decode_package_def)
  have keys: "map fst current = map fst values0"
    by (rule mapE_key [OF m]) (auto simp: decode_member_def split: json.splits option.splits)
  have look: "map_option observed_of (map_of current name) = v name \<and>
      (\<forall>s. map_of current name = Some s \<longrightarrow> wf_observed s)" for name
  proof (cases "map_of values0 name")
    case None
    then have "map_of current name = None" using keys by (metis map_of_eq_None_iff list.set_map)
    then show ?thesis using rel [of name] None by simp
  next
    case (Some j)
    then obtain sec where sec: "v name = Some sec" "section_json j sec" using rel [of name] by (auto elim: option.rel_cases)
    obtain raw where raw: "j = JObj raw" using sec(2) by (auto simp: section_json_def)
    obtain s where s: "decodeSection raw = Some s" "wf_observed s" "observed_of s = sec"
      using decode_section_json sec(2) raw by blast
    have "decode_member (name, j) = Inr (name, s)" using raw s by (simp add: decode_member_def)
    then have "(name, s) \<in> set current" using mapE_image [OF m] map_of_SomeD [OF Some] by blast
    then have "map_of current name = Some s" using d keys by (simp add: map_of_eq_Some_iff)
    then show ?thesis using s sec by simp
  qed
  have "wf_observed s" if "s \<in> snd ` set current" for s
    using that look d keys by (metis (no_types, lifting) imageE map_of_eq_Some_iff prod.collapse)
  then show ?thesis using d keys look by (auto simp: observes_def fun_eq_iff)
qed

section \<open>The contract of the appliance\<close>

definition uci_target :: "string \<Rightarrow> string \<Rightarrow> json \<Rightarrow> (string \<times> string) option" where
  "uci_target object meth params =
     (if object = ''uci'' \<and> meth \<in> {''add'', ''set'', ''delete''} then
        Some (string_field ''config'' params, string_field (if meth = ''add'' then ''name'' else ''section'') params)
      else None)"

locale ubus_device =
  fixes post :: "'n transport"
    and verify :: "'n online provider"
    and view :: "'n \<Rightarrow> uci_view"
  assumes ubus_frame: "uci_target object meth params \<noteq> Some (pkg, sec) \<Longrightarrow>
        \<not> (object = ''uci'' \<and> meth = ''add'' \<and> string_field ''name'' params = []) \<Longrightarrow>
        view (snd (post session object meth params n)) pkg sec = view n pkg sec"
    and ubus_add: "post session ''uci'' ''add'' (JObj [(''config'', JStr pkg), (''type'', JStr t), (''name'', JStr sec)]) n = (rep, n') \<Longrightarrow>
        decode_reply ''uci'' ''add'' rep = Inr j \<Longrightarrow> view n pkg sec = None \<Longrightarrow>
        view n' = put (view n) pkg sec (Some (t, Map.empty))"
    and ubus_set: "post session ''uci'' ''set''
          (JObj [(''config'', JStr pkg), (''section'', JStr sec), (''values'', JObj [(k, value_json x)])]) n = (rep, n') \<Longrightarrow>
        decode_reply ''uci'' ''set'' rep = Inr j \<Longrightarrow> view n pkg sec = Some (t, m) \<Longrightarrow> x \<noteq> UOption [] \<Longrightarrow> x \<noteq> UList [] \<Longrightarrow>
        view n' = put (view n) pkg sec (Some (t, m(k \<mapsto> x)))"
    and ubus_delete_option: "post session ''uci'' ''delete''
          (JObj [(''config'', JStr pkg), (''section'', JStr sec), (''option'', JStr k)]) n = (rep, n') \<Longrightarrow>
        decode_reply ''uci'' ''delete'' rep = Inr j \<Longrightarrow> view n pkg sec = Some (t, m) \<Longrightarrow>
        view n' = put (view n) pkg sec (Some (t, m(k := None)))"
    and ubus_delete_section: "post session ''uci'' ''delete'' (JObj [(''config'', JStr pkg), (''section'', JStr sec)]) n = (rep, n') \<Longrightarrow>
        decode_reply ''uci'' ''delete'' rep = Inr j \<Longrightarrow> view n' = put (view n) pkg sec None"
    and ubus_get: "post session ''uci'' ''get'' (JObj [(''config'', JStr pkg)]) n = (rep, n') \<Longrightarrow>
        decode_reply ''uci'' ''get'' rep = Inr j \<Longrightarrow>
        \<exists>values0. struct_field ''values'' j = Some (JObj values0) \<and> package_json values0 (view n pkg)"
    and verify_keeps: "view (fst (snd (verify r w))) = view (fst w)"
begin

lemma rpc_call_cases:
  assumes "rpc_call post session object meth params w = (x, w')"
  shows "(\<exists>e. x = Inl e) \<and> w' = w \<or>
    (\<exists>rep n'. post session object meth params (fst w) = (rep, n') \<and> x = decode_reply object meth rep \<and> fst w' = n')"
  using assms by (auto simp: rpc_call_def split: if_splits prod.splits)

lemma quiet_post: "object \<noteq> ''uci'' \<or> meth \<notin> {''add'', ''set'', ''delete''} \<Longrightarrow> view (snd (post session object meth params n)) = view n"
  by (intro ext ubus_frame) (auto simp: uci_target_def)

lemma Authenticate_view: "Authenticate post w = (x, w') \<Longrightarrow> view (fst w') = view (fst w)"
  using quiet_post [of "''session''" "''login''"]
  by (auto simp: Authenticate_def bindW_def mapErrorW_def rpc_call_def Let_def split: prod.splits sum.splits if_splits)
    (metis snd_conv)+

text \<open>A call reaches the appliance once, after a login at most; a successful one has the appliance's
  successful reply.\<close>

lemma callWithSession_cases:
  assumes "callWithSession post object meth params w = (x, w')"
  shows "(\<exists>e. x = Inl e) \<and> view (fst w') = view (fst w) \<or>
    (\<exists>session n rep n'. view n = view (fst w) \<and> post session object meth params n = (rep, n') \<and>
       x = decode_reply object meth rep \<and> fst w' = n')"
proof -
  obtain y w1 where a: "(if cl_session (snd w) = [] then Authenticate post w else pureW () w) = (y, w1)"
    by (rule prod.exhaust)
  then have v: "view (fst w1) = view (fst w)" by (auto simp: pureW_def dest: Authenticate_view split: if_splits)
  show ?thesis
  proof (cases y)
    case (Inl e)
    then show ?thesis using assms a v by (auto simp: callWithSession_def bindW_def)
  next
    case (Inr u)
    then have "rpc_call post (cl_session (snd w1)) object meth params w1 = (x, w')"
      using assms a by (simp add: callWithSession_def bindW_def)
    from rpc_call_cases [OF this] v show ?thesis by metis
  qed
qed

lemma callWithSession_frame:
  assumes "callWithSession post object meth params w = (x, w')"
    and "uci_target object meth params \<noteq> Some (pkg, sec)"
    and "\<not> (object = ''uci'' \<and> meth = ''add'' \<and> string_field ''name'' params = [])"
  shows "view (fst w') pkg sec = view (fst w) pkg sec"
  using callWithSession_cases [OF assms(1)] ubus_frame [OF assms(2,3)] by (metis snd_conv)

lemma callWithSession_quiet:
  assumes "callWithSession post object meth params w = (x, w')" and "object \<noteq> ''uci'' \<or> meth \<notin> {''add'', ''set'', ''delete''}"
  shows "view (fst w') = view (fst w)"
  using callWithSession_frame [OF assms(1)] assms(2) by (intro ext) (auto simp: uci_target_def)

end

lemma mapErrorW_Inr: "mapErrorW g m w = (Inr x, w') \<longleftrightarrow> m w = (Inr x, w')"
  by (auto simp: mapErrorW_def split: prod.splits sum.splits)

lemma snd_mapErrorW [simp]: "snd (mapErrorW g m w) = snd (m w)"
  by (auto simp: mapErrorW_def split: prod.splits sum.splits)

text \<open>What holds of the world after a call holds after the code around it that makes no other call.\<close>

lemma snd_bindW:
  assumes "\<And>x w'. P w' \<Longrightarrow> P (snd (f x w'))" and "P (snd (m w))"
  shows "P (snd (bindW m f w))"
  using assms by (auto simp: bindW_def split: prod.splits sum.splits)

lemmas success_simps = bindW_Inr mapErrorW_Inr unitW_def pureW_def failW_def liftW_def

lemmas client_defs = client_UCIAddNamed_def client_UCISet_def client_UCISetList_def client_UCIDelete_def client_UCIGet_def
  client_UCIApply_def client_UCICommit_def client_ServiceConfigChange_def client_ReloadFirewall_def uci_set_def unitW_def

lemma lower_fields:
  "ToLower ''config'' = ''config''" "ToLower ''section'' = ''section''" "ToLower ''name'' = ''name''" "ToLower ''type'' = ''type''"
  by code_simp+

lemma string_field_simps [simp]:
  "string_field ''config'' (JObj ((''config'', JStr c) # kvs)) = c"
  "string_field ''section'' (JObj ((''config'', j) # (''section'', JStr x) # kvs)) = x"
  "string_field ''name'' (JObj [(''config'', j), (''type'', j'), (''name'', JStr x)]) = x"
  by (simp_all add: string_field_def struct_field_def lower_fields)

context ubus_device
begin

lemma client_frame:
  assumes "write_target req \<noteq> Some (pkg, sec)" and "named req"
  shows "view (fst (snd (client_provider post verify req w))) pkg sec = view (fst w) pkg sec"
proof -
  let ?keep = "\<lambda>w'. view (fst w') pkg sec = view (fst w) pkg sec"
  have set: "?keep (snd (callWithSession post ''uci'' ''set'' (JObj [(''config'', JStr c), (''section'', JStr x), j]) w))"
    if "(c, x) \<noteq> (pkg, sec)" for c x j
    by (rule callWithSession_frame [OF surjective_pairing]) (use that in \<open>auto simp: uci_target_def\<close>)
  have delete: "?keep (snd (callWithSession post ''uci'' ''delete'' (JObj ((''config'', JStr c) # (''section'', JStr x) # kvs)) w))"
    if "(c, x) \<noteq> (pkg, sec)" for c x kvs
    by (rule callWithSession_frame [OF surjective_pairing]) (use that in \<open>auto simp: uci_target_def\<close>)
  have add: "?keep (snd (callWithSession post ''uci'' ''add'' (JObj [(''config'', JStr c), (''type'', j), (''name'', JStr x)]) w))"
    if "(c, x) \<noteq> (pkg, sec)" and "x \<noteq> []" for c x j
    by (rule callWithSession_frame [OF surjective_pairing]) (use that in \<open>auto simp: uci_target_def\<close>)
  have quiet: "?keep (snd (callWithSession post object meth params w))"
    if "object \<noteq> ''uci'' \<or> meth \<notin> {''add'', ''set'', ''delete''}" for object meth params
    using callWithSession_quiet [OF surjective_pairing that] by simp
  show ?thesis
    using assms verify_keeps
    by (cases req) (auto simp: client_defs pureW_def failW_def liftW_def set delete add quiet
        split: option.splits json.splits intro!: snd_bindW [where P = ?keep])
qed

lemma client_success:
  assumes "callWithSession post object meth params w = (Inr j, w')"
  shows "\<exists>session n rep. view n = view (fst w) \<and> post session object meth params n = (rep, fst w') \<and>
    decode_reply object meth rep = Inr j"
  using callWithSession_cases [OF assms] by (metis Inr_Inl_False)

lemma client_add:
  assumes "client_provider post verify (UCIAddNamed pkg t n) w = (Inr (Named n), w')" and "view (fst w) pkg n = None"
  shows "view (fst w') = put (view (fst w)) pkg n (Some (t, Map.empty))"
proof -
  from assms(1) obtain j where n: "n \<noteq> []" and
    "callWithSession post ''uci'' ''add'' (JObj [(''config'', JStr pkg), (''type'', JStr t), (''name'', JStr n)]) w = (Inr j, w')"
    by (auto simp: client_UCIAddNamed_def success_simps split: if_splits)
  from client_success [OF this(2)] show ?thesis using ubus_add assms(2) by metis
qed

lemma client_set:
  assumes "uci_set post fmt pkg n k (value_json x) w = (Inr u, w')" and "view (fst w) pkg n = Some (t, m)"
    and "x \<noteq> UOption []" and "x \<noteq> UList []"
  shows "view (fst w') = put (view (fst w)) pkg n (Some (t, m(k \<mapsto> x)))"
proof -
  from assms(1) obtain j where "callWithSession post ''uci'' ''set''
      (JObj [(''config'', JStr pkg), (''section'', JStr n), (''values'', JObj [(k, value_json x)])]) w = (Inr j, w')"
    by (auto simp: uci_set_def success_simps split: if_splits)
  from client_success [OF this] show ?thesis using ubus_set assms(2-4) by metis
qed

lemma client_delete_key:
  assumes "client_UCIDelete post pkg n k w = (Inr u, w')" and "view (fst w) pkg n = Some (t, m)" and "k \<noteq> []"
  shows "view (fst w') = put (view (fst w)) pkg n (Some (t, m(k := None)))"
proof -
  from assms(1,3) obtain j where "callWithSession post ''uci'' ''delete''
      (JObj [(''config'', JStr pkg), (''section'', JStr n), (''option'', JStr k)]) w = (Inr j, w')"
    by (auto simp: client_UCIDelete_def success_simps split: if_splits)
  from client_success [OF this] show ?thesis using ubus_delete_option assms(2) by metis
qed

lemma client_delete_section:
  assumes "client_UCIDelete post pkg n [] w = (Inr u, w')"
  shows "view (fst w') = put (view (fst w)) pkg n None"
proof -
  from assms obtain j where "callWithSession post ''uci'' ''delete''
      (JObj [(''config'', JStr pkg), (''section'', JStr n)]) w = (Inr j, w')"
    by (auto simp: client_UCIDelete_def success_simps split: if_splits)
  from client_success [OF this] show ?thesis using ubus_delete_section by metis
qed

lemma client_get:
  assumes "client_UCIGet post pkg w = (Inr current, w')"
  shows "observes current (view (fst w) pkg)"
proof -
  from assms obtain j where "callWithSession post ''uci'' ''get'' (JObj [(''config'', JStr pkg)]) w = (Inr j, w')"
    and d: "decode_package j = Inr current"
    by (auto simp: client_UCIGet_def success_simps split: if_splits)
  from client_success [OF this(1)] obtain values0 where "struct_field ''values'' j = Some (JObj values0)"
    and "package_json values0 (view (fst w) pkg)" using ubus_get by metis
  then show ?thesis using decode_package_json d by blast
qed

end

sublocale ubus_device \<subseteq> client: uci_provider "client_provider post verify" "\<lambda>w. view (fst w)"
proof
  show "view (fst w') = put (view (fst w)) pkg n (Some (t, m(k \<mapsto> UOption v)))"
    if "client_provider post verify (UCISet pkg n k v) w = (Inr r, w')" "view (fst w) pkg n = Some (t, m)" "v \<noteq> []"
    for pkg n k v w r w' t m
    using client_set [of _ pkg n k "UOption v" w] that by (auto simp: client_UCISet_def success_simps)
  show "view (fst w') = put (view (fst w)) pkg n (Some (t, m(k \<mapsto> UList vs)))"
    if "client_provider post verify (UCISetList pkg n k vs) w = (Inr r, w')" "view (fst w) pkg n = Some (t, m)" "vs \<noteq> []"
    for pkg n k vs w r w' t m
    using client_set [of _ pkg n k "UList vs" w] that by (auto simp: client_UCISetList_def success_simps)
  show "view (fst w') = put (view (fst w)) pkg n (Some (t, m(k := None)))"
    if "client_provider post verify (UCIDelete pkg n k) w = (Inr r, w')" "view (fst w) pkg n = Some (t, m)" "k \<noteq> []"
    for pkg n k w r w' t m
    using client_delete_key [of pkg n k w] that by (auto simp: success_simps)
  show "view (fst w') = put (view (fst w)) pkg n None"
    if "client_provider post verify (UCIDelete pkg n []) w = (Inr r, w')" for pkg n w r w'
    using client_delete_section [of pkg n w] that by (auto simp: success_simps)
  show "\<exists>current. r = Package current \<and> observes current (view (fst w) pkg)"
    if "client_provider post verify (UCIGet pkg) w = (Inr r, w')" for pkg w r w'
    using client_get [of pkg w] that by (auto simp: success_simps)
qed (rule client_add client_frame; assumption)+

context ubus_device
begin

lemmas stage_through_client = client.stage_owned_refines [unfolded client.only_def]

lemmas appliance_through_client = client.reconcile_appliance_refines

end

section \<open>A device with the contract\<close>

type_synonym rpcd = "string \<Rightarrow> (string \<times> string \<times> (string \<times> uci_value) list) list"

definition rpcd_view :: "rpcd \<Rightarrow> uci_view" where
  "rpcd_view d pkg sec = map_option (\<lambda>(t, kvs). (t, map_of kvs)) (map_of (d pkg) sec)"

definition accepted :: "json list \<Rightarrow> http_reply" where
  "accepted js = Response 200 ''200 OK'' (Envelope \<lparr>rp_JSONRPC = ''2.0'', rp_Result = Some (JArr (JNum 0 # js)), rp_Error = None\<rparr>)"

definition refused :: "int \<Rightarrow> http_reply" where
  "refused code = Response 200 ''200 OK'' (Envelope \<lparr>rp_JSONRPC = ''2.0'', rp_Result = Some (JArr [JNum code]), rp_Error = None\<rparr>)"

definition json_value :: "json \<Rightarrow> uci_value option" where
  "json_value j = (case j of JStr s \<Rightarrow> Some (UOption s) | JArr items \<Rightarrow> Some (UList (strings_of items)) | _ \<Rightarrow> None)"

definition set_field :: "json \<Rightarrow> (string \<times> uci_value) option" where
  "set_field params = (case struct_field ''values'' params of
     Some (JObj [(k, j)]) \<Rightarrow> map_option (Pair k) (json_value j) | _ \<Rightarrow> None)"

definition rpcd_section_json :: "string \<times> string \<times> (string \<times> uci_value) list \<Rightarrow> string \<times> json" where
  "rpcd_section_json e = (case e of (n, t, kvs) \<Rightarrow>
     (n, JObj ((''.type'', JStr t) # map (\<lambda>(k, v). (k, value_json v)) kvs)))"

definition readable :: "(string \<times> string \<times> (string \<times> uci_value) list) list \<Rightarrow> bool" where
  "readable secs \<longleftrightarrow> distinct (map fst secs) \<and> ''.type'' \<notin> fst ` set secs \<and>
     list_all (\<lambda>(n, t, kvs). t \<noteq> [] \<and> distinct (map fst kvs) \<and>
       list_all (\<lambda>(k, v). \<not> HasPrefix k ''.'' \<and> k \<noteq> [] \<and> v \<noteq> UList []) kvs) secs"

definition rpcd_uci :: "string \<Rightarrow> json \<Rightarrow> rpcd \<Rightarrow> http_reply \<times> rpcd" where
  "rpcd_uci meth params d =
     (let pkg = string_field ''config'' params; sec = string_field ''section'' params; name = string_field ''name'' params in
      if meth = ''get'' then
        ((if readable (d pkg) then accepted [JObj [(''values'', JObj (map rpcd_section_json (d pkg)))]] else refused 9), d)
      else if meth = ''add'' then
        (if name = [] then (refused 2, d)
         else (accepted [JObj [(''section'', JStr name)]],
               d(pkg := AList.update name (string_field ''type'' params, []) (d pkg))))
      else if meth = ''set'' then
        (case (map_of (d pkg) sec, set_field params) of
           (Some (t, kvs), Some (k, v)) \<Rightarrow> (accepted [], d(pkg := AList.update sec (t, AList.update k v kvs) (d pkg)))
         | _ \<Rightarrow> (refused 4, d))
      else if meth = ''delete'' then
        (case struct_field ''option'' params of
           None \<Rightarrow> (accepted [], d(pkg := AList.delete sec (d pkg)))
         | Some _ \<Rightarrow>
           (case map_of (d pkg) sec of
              None \<Rightarrow> (refused 4, d)
            | Some (t, kvs) \<Rightarrow>
              (accepted [], d(pkg := AList.update sec (t, AList.delete (string_field ''option'' params) kvs) (d pkg)))))
      else (accepted [], d))"

definition rpcd_post :: "rpcd transport" where
  "rpcd_post session object meth params d =
     (if object = ''uci'' then rpcd_uci meth params d
      else if object = ''session'' then (accepted [JObj [(''ubus_rpc_session'', JStr ''5f'')]], d)
      else if object = ''file'' then (accepted [JObj [(''code'', JNum 0)]], d)
      else (accepted [], d))"

definition passing :: "rpcd online provider" where
  "passing r w = (Inr Done, w)"

lemma rpcd_view_update: "rpcd_view (d(pkg := AList.update sec (t, kvs) (d pkg))) = put (rpcd_view d) pkg sec (Some (t, map_of kvs))"
  by (auto simp: rpcd_view_def put_def fun_eq_iff update_conv')

lemma rpcd_view_delete: "rpcd_view (d(pkg := AList.delete sec (d pkg))) = put (rpcd_view d) pkg sec None"
  by (auto simp: rpcd_view_def put_def fun_eq_iff delete_conv')

lemma json_value_json [simp]: "json_value (value_json x) = Some x"
  by (cases x) (auto simp: json_value_def)

lemma decode_accepted [simp]: "decode_reply object meth (accepted js) = Inr (case js of [] \<Rightarrow> JObj [] | j # _ \<Rightarrow> j)"
  by (simp add: decode_reply_def accepted_def decode_envelope_def decode_result_def decode_int_def)

lemma decode_refused [simp]: "code \<in> {2, 4, 9} \<Longrightarrow> decode_reply object meth (refused code) = Inr j \<longleftrightarrow> False"
  by (auto simp: decode_reply_def refused_def decode_envelope_def decode_result_def decode_int_def)

lemma rpcd_section_json_ok:
  assumes "t \<noteq> []" "distinct (map fst kvs)" "list_all (\<lambda>(k, v). \<not> HasPrefix k ''.'' \<and> k \<noteq> [] \<and> v \<noteq> UList []) kvs"
  shows "section_json (JObj ((''.type'', JStr t) # map (\<lambda>(k, v). (k, value_json v)) kvs)) (t, map_of kvs)"
proof -
  have dot: "HasPrefix ''.type'' ''.''" by (simp add: HasPrefix_def)
  have keys: "map fst (map (\<lambda>(k, v). (k, value_json v)) kvs) = map fst kvs" by (induction kvs) auto
  have "''.type'' \<notin> fst ` set kvs" using assms(3) dot by (force simp: list_all_iff)
  then have "distinct (map fst ((''.type'', JStr t) # map (\<lambda>(k, v). (k, value_json v)) kvs))"
    using assms(2) keys by (simp del: map_map)
  moreover have "map_of (map (\<lambda>(k, v). (k, value_json v)) kvs) k = map_option value_json (map_of kvs k)" for k
    by (induction kvs) auto
  ultimately show ?thesis using assms dot
    by (auto simp: section_json_def list_all_iff dest!: map_of_SomeD)
qed

lemma rpcd_package_json:
  assumes "readable (d pkg)"
  shows "package_json (map rpcd_section_json (d pkg)) (rpcd_view d pkg)"
proof -
  have keys: "map fst (map rpcd_section_json secs) = map fst secs" for secs
    by (induction secs) (auto simp: rpcd_section_json_def split: prod.splits)
  have look: "map_of (map rpcd_section_json secs) name =
      map_option (\<lambda>(t, kvs). JObj ((''.type'', JStr t) # map (\<lambda>(k, v). (k, value_json v)) kvs)) (map_of secs name)" for secs name
    by (induction secs) (auto simp: rpcd_section_json_def split: prod.splits)
  have "section_json (JObj ((''.type'', JStr t) # map (\<lambda>(k, v). (k, value_json v)) kvs)) (t, map_of kvs)"
    if "map_of (d pkg) name = Some (t, kvs)" for name t kvs
    by (rule rpcd_section_json_ok) (use assms map_of_SomeD [OF that] in \<open>auto simp: readable_def list_all_iff\<close>)
  then have "rel_option section_json (map_of (map rpcd_section_json (d pkg)) name) (rpcd_view d pkg name)" for name
    by (cases "map_of (d pkg) name") (auto simp: look rpcd_view_def)
  moreover have "''.type'' \<notin> set (map fst (map rpcd_section_json (d pkg)))"
    using assms unfolding keys by (simp add: readable_def)
  ultimately show ?thesis using assms keys [of "d pkg"]
    unfolding package_json_def readable_def map_of_eq_None_iff by (metis list.set_map)
qed

lemma rpcd_uci_simps:
  "rpcd_uci ''add'' params d = (let name = string_field ''name'' params in
     if name = [] then (refused 2, d) else (accepted [JObj [(''section'', JStr name)]],
       d(string_field ''config'' params := AList.update name (string_field ''type'' params, []) (d (string_field ''config'' params)))))"
  "meth \<notin> {''add'', ''set'', ''delete''} \<Longrightarrow> snd (rpcd_uci meth params d) = d"
  by (simp_all add: rpcd_uci_def Let_def)

lemma rpcd_set_view:
  "rpcd_view (snd (rpcd_uci ''set'' params d)) = rpcd_view d \<or>
   (\<exists>s. rpcd_view (snd (rpcd_uci ''set'' params d)) = put (rpcd_view d) (string_field ''config'' params) (string_field ''section'' params) s)"
  by (auto simp: rpcd_uci_def Let_def rpcd_view_update split: option.split prod.split)

lemma rpcd_delete_view:
  "rpcd_view (snd (rpcd_uci ''delete'' params d)) = rpcd_view d \<or>
   (\<exists>s. rpcd_view (snd (rpcd_uci ''delete'' params d)) = put (rpcd_view d) (string_field ''config'' params) (string_field ''section'' params) s)"
  by (auto simp: rpcd_uci_def Let_def rpcd_view_update rpcd_view_delete split: option.split prod.split)

lemma put_other: "(p, n) \<noteq> (pkg, sec) \<Longrightarrow> put v p n s pkg sec = v pkg sec"
  by (auto simp: put_def)

lemma rpcd_frame:
  assumes "uci_target object meth params \<noteq> Some (pkg, sec)"
    and "\<not> (object = ''uci'' \<and> meth = ''add'' \<and> string_field ''name'' params = [])"
  shows "rpcd_view (snd (rpcd_post session object meth params d)) pkg sec = rpcd_view d pkg sec"
proof (cases "object = ''uci''")
  case False
  then show ?thesis by (simp add: rpcd_post_def)
next
  case uci: True
  consider "meth = ''add''" | "meth = ''set''" | "meth = ''delete''" | "meth \<notin> {''add'', ''set'', ''delete''}" by blast
  then show ?thesis
  proof cases
    case 1
    then show ?thesis using assms uci
      by (simp add: rpcd_post_def rpcd_uci_simps(1) Let_def rpcd_view_update uci_target_def put_other)
  next
    case 2
    then show ?thesis using assms(1) uci rpcd_set_view [of params d]
      by (auto simp: rpcd_post_def uci_target_def put_other)
  next
    case 3
    then show ?thesis using assms(1) uci rpcd_delete_view [of params d]
      by (auto simp: rpcd_post_def uci_target_def put_other)
  next
    case 4
    then show ?thesis using uci by (simp add: rpcd_post_def rpcd_uci_simps(2))
  qed
qed

lemma option_fields [simp]:
  "struct_field ''option'' (JObj [(''config'', a), (''section'', b)]) = None"
  "struct_field ''option'' (JObj [(''config'', a), (''section'', b), (''option'', c)]) = Some c"
  "struct_field ''values'' (JObj [(''config'', a), (''section'', b), (''values'', c)]) = Some c"
  "struct_field ''values'' (JObj [(''values'', c)]) = Some c"
  "string_field ''type'' (JObj [(''config'', a), (''type'', JStr t), (''name'', b)]) = t"
  "string_field ''option'' (JObj [(''config'', a), (''section'', b), (''option'', JStr t)]) = t"
proof -
  have "ToLower ''option'' = ''option''" "ToLower ''values'' = ''values''" by code_simp+
  then show "struct_field ''option'' (JObj [(''config'', a), (''section'', b)]) = None"
    "struct_field ''option'' (JObj [(''config'', a), (''section'', b), (''option'', c)]) = Some c"
    "struct_field ''values'' (JObj [(''config'', a), (''section'', b), (''values'', c)]) = Some c"
    "struct_field ''values'' (JObj [(''values'', c)]) = Some c"
    "string_field ''type'' (JObj [(''config'', a), (''type'', JStr t), (''name'', b)]) = t"
    "string_field ''option'' (JObj [(''config'', a), (''section'', b), (''option'', JStr t)]) = t"
    by (simp_all add: struct_field_def string_field_def lower_fields)
qed

interpretation rpcd: ubus_device rpcd_post passing rpcd_view
proof
  show "rpcd_view n' = put (rpcd_view n) pkg sec (Some (t, Map.empty))"
    if "rpcd_post session ''uci'' ''add'' (JObj [(''config'', JStr pkg), (''type'', JStr t), (''name'', JStr sec)]) n = (rep, n')"
      and "decode_reply ''uci'' ''add'' rep = Inr j" for session pkg t sec n rep n' j
    using that by (auto simp: rpcd_post_def rpcd_uci_simps(1) Let_def rpcd_view_update split: if_splits)
  show "rpcd_view n' = put (rpcd_view n) pkg sec (Some (t, m(k \<mapsto> x)))"
    if "rpcd_post session ''uci'' ''set''
        (JObj [(''config'', JStr pkg), (''section'', JStr sec), (''values'', JObj [(k, value_json x)])]) n = (rep, n')"
      and "rpcd_view n pkg sec = Some (t, m)" for session pkg sec k x n rep n' t m
    using that by (auto simp: rpcd_post_def rpcd_uci_def set_field_def rpcd_view_update rpcd_view_def [of n pkg sec] update_conv')
  show "rpcd_view n' = put (rpcd_view n) pkg sec (Some (t, m(k := None)))"
    if "rpcd_post session ''uci'' ''delete'' (JObj [(''config'', JStr pkg), (''section'', JStr sec), (''option'', JStr k)]) n = (rep, n')"
      and "rpcd_view n pkg sec = Some (t, m)" for session pkg sec k n rep n' t m
    using that by (auto simp: rpcd_post_def rpcd_uci_def rpcd_view_update rpcd_view_def [of n pkg sec] delete_conv')
  show "rpcd_view n' = put (rpcd_view n) pkg sec None"
    if "rpcd_post session ''uci'' ''delete'' (JObj [(''config'', JStr pkg), (''section'', JStr sec)]) n = (rep, n')"
    for session pkg sec n rep n'
    using that by (auto simp: rpcd_post_def rpcd_uci_def rpcd_view_delete)
  show "\<exists>values0. struct_field ''values'' j = Some (JObj values0) \<and> package_json values0 (rpcd_view n pkg)"
    if "rpcd_post session ''uci'' ''get'' (JObj [(''config'', JStr pkg)]) n = (rep, n')" and "decode_reply ''uci'' ''get'' rep = Inr j"
    for session pkg n rep n' j
    using that by (auto simp: rpcd_post_def rpcd_uci_def rpcd_package_json split: if_splits)
  show "rpcd_view (fst (snd (passing r w))) = rpcd_view (fst w)" for r w
    by (simp add: passing_def)
qed (rule rpcd_frame)

section \<open>Reconciliation through the client\<close>

text \<open>C11: The client yields typed sections whatever the appliance sends: each has a type, distinct
  option keys, distinct list keys, no key that is both, no empty list, and no metadata key (one that
  starts with a dot).\<close>

theorem decoded_sections_typed:
  assumes "decode_package result = Inr current"
    and "\<And>j. struct_field ''values'' result = Some j \<Longrightarrow> object_keys j"
  shows "distinct (map fst current) \<and> (\<forall>(name, s) \<in> set current. typed_section s)"
proof -
  from assms(1) obtain values0 where v: "struct_field ''values'' result = Some (JObj values0)"
    by (auto simp: decode_package_def split: option.splits json.splits)
  then have keys: "object_keys (JObj values0)" by (rule assms(2))
  show ?thesis
  proof (cases "decodeSection values0")
    case None
    then have m: "mapE decode_member values0 = Inr current" using assms(1) v by (simp add: decode_package_def)
    have "map fst current = map fst values0"
      by (rule mapE_key [OF m]) (auto simp: decode_member_def split: json.splits option.splits)
    moreover have "typed_section s" if "(name, s) \<in> set current" for name s
    proof -
      from that mapE_image [OF m] obtain kv where "kv \<in> set values0" and "decode_member kv = Inr (name, s)" by blast
      then obtain raw where "snd kv = JObj raw" and "decodeSection raw = Some s" and "distinct (map fst raw)"
        using keys by (cases kv) (auto simp: decode_member_def split: json.splits option.splits)
      then show ?thesis by (auto intro: decodeSection_typed)
    qed
    ultimately show ?thesis using keys by auto
  next
    case (Some s)
    then show ?thesis using assms(1) v keys decodeSection_typed [OF _ Some]
      by (auto simp: decode_package_def split: if_splits)
  qed
qed

definition sample_reply :: json where
  "sample_reply = JObj [(''values'', JObj [(''boetticher_home'', JObj [(''.type'', JStr ''interface''), (''.anonymous'', JBool False),
     (''proto'', JStr ''static''), (''ports'', JArr [JStr ''eth0'', JNum 1]), (''empty'', JArr [])])])]"

theorem decoded_sections_typed_witness:
  "\<exists>current. decode_package sample_reply = Inr current \<and> length current = 1 \<and>
     distinct (map fst current) \<and> (\<forall>(name, s) \<in> set current. typed_section s)"
proof -
  have keys: "\<And>j. struct_field ''values'' sample_reply = Some j \<Longrightarrow> object_keys j" by (auto simp: sample_reply_def)
  have "case decode_package sample_reply of Inr current \<Rightarrow> length current = 1 | _ \<Rightarrow> False" by code_simp
  then obtain current where "decode_package sample_reply = Inr current" "length current = 1"
    by (auto split: sum.splits)
  then show ?thesis using decoded_sections_typed [OF _ keys] by blast
qed

text \<open>Staging the difference of one package refines a single update of it.  If \<open>StageOwned\<close> succeeds
  through the client, every desired section has exactly the desired content, every stale managed section
  is gone and all else is unchanged; if it fails, only desired or stale sections of that package may have
  changed.\<close>

theorem stage_owned_refines_update:
  assumes "ubus_device post verify view" and "wf_desired desired" and "observes current (view (fst w) pkg)"
    and "StageOwned (Some (client_provider post verify)) pkg current desired w = (result, w')"
  shows "(case result of
      Inr _ \<Rightarrow> view (fst w') = (view (fst w))(pkg := reconciled pkg current desired (view (fst w) pkg))
    | Inl _ \<Rightarrow> \<forall>p n. p \<noteq> pkg \<or> n \<notin> touchable pkg current desired \<longrightarrow> view (fst w') p n = view (fst w) p n)"
proof -
  note stage = ubus_device.stage_through_client [OF assms(1), of desired current "view (fst w)" pkg, OF assms(2,3)]
  show ?thesis
  proof (cases result)
    case (Inl e)
    from hoareW_failure [OF stage refl assms(4) [unfolded Inl]] show ?thesis by (simp add: Inl touchable_def)
  next
    case (Inr n)
    from hoareW_success [OF stage refl assms(4) [unfolded Inr]] show ?thesis by (simp add: Inr)
  qed
qed

definition demo_device :: rpcd where
  "demo_device = (\<lambda>_. [])(''firewall'' := [(''defaults'', ''defaults'', [])],
     ''system'' := [(''lan'', ''timeserver'', [(''enabled'', UOption ''0'')])])"

definition demo_client :: Client where
  "demo_client = \<lparr>cl_user = ''root'', cl_pass = ''x'', cl_session = [], cl_request = 0, cl_closed = False\<rparr>"

definition demo_sections :: "Section list" where
  "demo_sections = [\<lparr>sn_Name = ''ntp'', sn_Type = ''timeserver'', sn_Options = [(''enabled'', ''1'')],
     sn_Lists = [(''server'', [''192.0.2.1''])]\<rparr>]"

definition demo_composition :: Composition where
  "demo_composition = \<lparr>cp_Firewall = [], cp_Network = [], cp_System = demo_sections, cp_Stubby = [], cp_DHCP = []\<rparr>"

definition all_callbacks :: VerifyCallbacks where
  "all_callbacks = \<lparr>vc_SafetyBeforeNetwork = True, vc_NetworkReady = True, vc_SafetyAfterNetwork = True, vc_RuntimeReapply = False\<rparr>"

lemma wf_demo: "wf_desired demo_sections" "wf_composition demo_composition"
  by (simp_all add: wf_desired_def wf_section_def demo_sections_def wf_composition_def packages_def demo_composition_def)

theorem stage_owned_refines_update_witness:
  "\<exists>w'. StageOwned (Some (client_provider rpcd_post passing)) ''system'' [] demo_sections ((\<lambda>_. []), demo_client) = (Inr 1, w') \<and>
     rpcd_view (fst w') = (rpcd_view (\<lambda>_. []))(''system'' := reconciled ''system'' [] demo_sections (rpcd_view (\<lambda>_. []) ''system''))"
proof -
  let ?w = "((\<lambda>_. []), demo_client) :: rpcd online"
  obtain w' where run: "StageOwned (Some (client_provider rpcd_post passing)) ''system'' [] demo_sections ?w = (Inr 1, w')"
  proof -
    have "fst (StageOwned (Some (client_provider rpcd_post passing)) ''system'' [] demo_sections ?w) = Inr 1" by code_simp
    then show thesis using that by (metis prod.collapse)
  qed
  have "observes [] (rpcd_view (fst ?w) ''system'')" by (simp add: observes_def rpcd_view_def fun_eq_iff)
  from stage_owned_refines_update [OF rpcd.ubus_device_axioms wf_demo(1) this run] run show ?thesis by auto
qed



end
