(* ===== verification/Bifrost_Config.thy ===== *)
theory Bifrost_Config
  imports Site_Config
begin

text \<open>
  The configuration of the Bifrost router, \<^verbatim>\<open>Config.Validate\<close> of
  \<^verbatim>\<open>internal/bifrost/router.go\<close>, with the name checks it uses.  The router itself is in
  \<^verbatim>\<open>Bifrost_Router\<close>.  The name checks of the Go code range over runes and accept only
  ASCII letters, digits and a few marks, so on bytes they read the same.
\<close>

abbreviation "DefaultListen \<equiv> ''127.0.0.1:4000''"
abbreviation "MaxModels \<equiv> (32::nat)"

record BifrostUpstream =
  bfu_Name :: string
  bfu_BaseURL :: string
  bfu_Credential :: string

record BifrostModel =
  bfm_Alias :: string
  bfm_Upstream :: string
  bfm_Model :: string

record BifrostConfig =
  bfc_Listen :: string
  bfc_ClientCredential :: string
  bfc_Upstreams :: "BifrostUpstream list"
  bfc_Models :: "BifrostModel list"

definition safeToken :: "string \<Rightarrow> bool" where
  "safeToken v = class_token is_alnum (\<lambda>c. is_alnum c \<or> c \<in> set ''-_.'') 253 v"

definition safeCredentialName :: "string \<Rightarrow> bool" where
  "safeCredentialName v \<longleftrightarrow>
     \<not> (v = [] \<or> length v > 128 \<or> v = ''.'' \<or> v = ''..'' \<or> CHR ''/'' \<in> set v \<or> CHR 0x5C \<in> set v) \<and>
     safeToken v"

definition safeProviderModel :: "string \<Rightarrow> bool" where
  "safeProviderModel v \<longleftrightarrow>
     v \<noteq> [] \<and> length v \<le> 256 \<and> list_all (\<lambda>c. is_alnum c \<or> c \<in> set ''._:/-'') v"

definition router_base_url :: "url_parser \<Rightarrow> string \<Rightarrow> bool" where
  "router_base_url urlParse s =
     (case urlParse s of
        None \<Rightarrow> False
      | Some u \<Rightarrow> u_Scheme u = ''https'' \<and> u_Hostname u \<noteq> [] \<and> \<not> u_HasUser u \<and>
                  u_RawQuery u = [] \<and> u_Fragment u = [])"

text \<open>State of the upstream loop: the names seen and each credential with the upstream using it.\<close>

definition router_upstream_step ::
  "url_parser \<Rightarrow> BifrostUpstream \<Rightarrow> string list \<times> (string \<times> string) list
   \<Rightarrow> gerror + string list \<times> (string \<times> string) list" where
  "router_upstream_step urlParse u st =
     (case st of (upstreams, credentials) \<Rightarrow>
        if \<not> safeToken (bfu_Name u) \<or> bfu_Name u = ''dns'' then
          Inl (Errorf ''Bifrost upstream name %q is invalid'' [bfu_Name u])
        else if bfu_Name u \<in> set upstreams then
          Inl (Errorf ''Bifrost has duplicate upstream %q'' [bfu_Name u])
        else if \<not> router_base_url urlParse (bfu_BaseURL u) then
          Inl (Errorf ''Bifrost upstream %s requires a valid HTTPS base URL'' [bfu_Name u])
        else if \<not> safeCredentialName (bfu_Credential u) then
          Inl (Errorf ''Bifrost upstream %s has an invalid credential name'' [bfu_Name u])
        else if map_of credentials (bfu_Credential u) \<notin> {None, Some (bfu_Name u)} then
          Inl (Errorf ''Bifrost credential %q is shared by multiple upstreams'' [bfu_Credential u])
        else Inr (bfu_Name u # upstreams, (bfu_Credential u, bfu_Name u) # credentials))"

definition router_model_step :: "string list \<Rightarrow> BifrostModel \<Rightarrow> string list \<Rightarrow> gerror + string list" where
  "router_model_step upstreams m aliases =
     (if \<not> safeToken (bfm_Alias m) \<or> bfm_Alias m = ''health'' then
        Inl (Errorf ''Bifrost model alias %q is invalid'' [bfm_Alias m])
      else if bfm_Alias m \<in> set aliases then
        Inl (Errorf ''Bifrost has duplicate model alias %q'' [bfm_Alias m])
      else if bfm_Upstream m \<notin> set upstreams then
        Inl (Errorf ''Bifrost model alias %s references unknown upstream %q'' [bfm_Alias m, bfm_Upstream m])
      else if \<not> safeProviderModel (bfm_Model m) then
        Inl (Errorf ''Bifrost model alias %s has an invalid provider model'' [bfm_Alias m])
      else Inr (bfm_Alias m # aliases))"

definition BifrostValidate :: "url_parser \<Rightarrow> BifrostConfig \<Rightarrow> gerror + unit" where
  "BifrostValidate urlParse c =
     (let listen = (if bfc_Listen c = [] then DefaultListen else bfc_Listen c) in
      if listen \<noteq> DefaultListen then
        Inl (Errorf ''Bifrost listen address must be %s'' [DefaultListen])
      else if bfc_Upstreams c = [] \<or> length (bfc_Upstreams c) > 16 then
        Inl (Errorf ''Bifrost requires 1-16 configured upstreams'' [])
      else if bfc_ClientCredential c \<noteq> [] \<and> \<not> safeCredentialName (bfc_ClientCredential c) then
        Inl (Errorf ''Bifrost client credential name is invalid'' [])
      else if bfc_Models c = [] \<or> length (bfc_Models c) > MaxModels then
        Inl (Errorf ''Bifrost requires 1-32 configured model aliases'' [])
      else bindE (foldE (router_upstream_step urlParse) (bfc_Upstreams c) ([], []))
        (\<lambda>(upstreams, _). bindE (foldE (router_model_step upstreams) (bfc_Models c) [])
        (\<lambda>_. Inr ())))"

section \<open>What a validated configuration guarantees\<close>

lemma upstream_step_ok:
  assumes "router_upstream_step p u (names, creds) = Inr (names', creds')"
    and "\<forall>c \<in> set creds. snd c \<in> set names"
  shows "bfu_Name u \<notin> set names" "names' = bfu_Name u # names"
    "bfu_Credential u \<notin> fst ` set creds" "creds' = (bfu_Credential u, bfu_Name u) # creds"
    "router_base_url p (bfu_BaseURL u) \<and> safeCredentialName (bfu_Credential u)"
proof -
  from assms(1) show fresh: "bfu_Name u \<notin> set names"
    and "names' = bfu_Name u # names" "creds' = (bfu_Credential u, bfu_Name u) # creds"
    and "router_base_url p (bfu_BaseURL u) \<and> safeCredentialName (bfu_Credential u)"
    by (simp_all add: router_upstream_step_def split: if_splits)
  from assms(1) have "map_of creds (bfu_Credential u) \<in> {None, Some (bfu_Name u)}"
    by (simp add: router_upstream_step_def split: if_splits)
  moreover have "map_of creds (bfu_Credential u) \<noteq> Some (bfu_Name u)"
    using assms(2) fresh by (auto dest!: map_of_SomeD)
  ultimately show "bfu_Credential u \<notin> fst ` set creds" by (simp add: map_of_eq_None_iff)
qed

lemma model_step_ok:
  assumes "router_model_step ups m as = Inr as'"
  shows "bfm_Alias m \<notin> set as" "as' = bfm_Alias m # as"
    "bfm_Upstream m \<in> set ups \<and> safeToken (bfm_Alias m) \<and> safeProviderModel (bfm_Model m)"
  using assms by (simp_all add: router_model_step_def split: if_splits)

text \<open>A configuration the router accepts: upstream names, credentials and aliases each occur
  once, every model names a declared upstream, and every base URL is plain HTTPS.\<close>

definition router_config_ok :: "url_parser \<Rightarrow> BifrostConfig \<Rightarrow> bool" where
  "router_config_ok p c \<longleftrightarrow>
     distinct (map bfu_Name (bfc_Upstreams c)) \<and> distinct (map bfu_Credential (bfc_Upstreams c)) \<and>
     distinct (map bfm_Alias (bfc_Models c)) \<and>
     list_all (\<lambda>u. router_base_url p (bfu_BaseURL u) \<and> safeCredentialName (bfu_Credential u)) (bfc_Upstreams c) \<and>
     list_all (\<lambda>m. bfm_Upstream m \<in> bfu_Name ` set (bfc_Upstreams c) \<and> safeToken (bfm_Alias m) \<and>
        safeProviderModel (bfm_Model m)) (bfc_Models c)"

lemma BifrostValidate_ok:
  assumes "BifrostValidate p c = Inr ()"
  shows "router_config_ok p c"
proof -
  from assms obtain names creds as where
    u: "foldE (router_upstream_step p) (bfc_Upstreams c) ([], []) = Inr (names, creds)"
    and m: "foldE (router_model_step names) (bfc_Models c) [] = Inr as"
    unfolding BifrostValidate_def Let_def by (auto split: if_splits)
  define inv where "inv st \<longleftrightarrow> (\<forall>c \<in> set (snd st). snd c \<in> set (fst st))"
    for st :: "string list \<times> (string \<times> string) list"
  have step: "inv v \<and> bfu_Name x \<notin> set (fst w) \<and> set (fst v) = insert (bfu_Name x) (set (fst w)) \<and>
      bfu_Credential x \<notin> fst ` set (snd w) \<and> fst ` set (snd v) = insert (bfu_Credential x) (fst ` set (snd w)) \<and>
      router_base_url p (bfu_BaseURL x) \<and> safeCredentialName (bfu_Credential x)"
    if "inv w" "router_upstream_step p x w = Inr v" for x w v
  proof -
    obtain ns cs ns' cs' where st: "w = (ns, cs)" "v = (ns', cs')" by (cases w, cases v) blast
    note facts = upstream_step_ok [of p x ns cs ns' cs']
    from that have "router_upstream_step p x (ns, cs) = Inr (ns', cs')" "\<forall>c \<in> set cs. snd c \<in> set ns"
      by (simp_all add: st inv_def)
    with facts show ?thesis by (auto simp: st inv_def)
  qed
  have names: "set (fst (names, creds)) = set (fst ([], [] :: (string \<times> string) list)) \<union> bfu_Name ` set (bfc_Upstreams c)"
    by (rule foldE_keys [OF u, where I = inv and K = "\<lambda>st. set (fst st)"]) (simp add: inv_def, drule (1) step, blast)
  have "distinct (map bfu_Name (bfc_Upstreams c))"
    by (rule foldE_distinct [OF u, where I = inv and K = "\<lambda>st. set (fst st)"]) (simp add: inv_def, drule (1) step, blast)
  moreover have "distinct (map bfu_Credential (bfc_Upstreams c))"
    by (rule foldE_distinct [OF u, where I = inv and K = "\<lambda>st. fst ` set (snd st)"])
      (simp add: inv_def, drule (1) step, blast)
  moreover have "\<forall>x \<in> set (bfc_Upstreams c). router_base_url p (bfu_BaseURL x) \<and> safeCredentialName (bfu_Credential x)"
    by (rule foldE_each [OF u, where I = inv]) (simp add: inv_def, drule (1) step, blast)
  moreover have "distinct (map bfm_Alias (bfc_Models c))"
    by (rule foldE_distinct [OF m, where I = "\<lambda>_. True" and K = set]) (auto dest: model_step_ok)
  moreover have "\<forall>x \<in> set (bfc_Models c).
      bfm_Upstream x \<in> set names \<and> safeToken (bfm_Alias x) \<and> safeProviderModel (bfm_Model x)"
    by (rule foldE_each [OF m, where I = "\<lambda>_. True"]) (auto dest: model_step_ok)
  ultimately show ?thesis
    using names by (simp add: router_config_ok_def list_all_iff)
qed

end
