(* ===== verification/Netip.thy ===== *)
theory Netip
  imports Site_Validate
begin

unbundle bit_operations_syntax

text \<open>
  The parts of Go's \<^verbatim>\<open>net/netip\<close> the client-service and firewall code calls.  An
  \<open>Addr\<close> is the four bytes of an IPv4 address, or the sixteen bytes and the zone of an IPv6
  one; a \<open>Prefix\<close> is an address and a number of bits.  The octets are those of
  \<^verbatim>\<open>Go_Std\<close>; the lemmas at the end connect a canonical literal, its octets and the
  prefixes that contain it.
\<close>

section \<open>Addresses\<close>

datatype Addr = Addr4 IP | Addr6 IP string

fun Is4 :: "Addr \<Rightarrow> bool" where
  "Is4 (Addr4 _) = True"
| "Is4 (Addr6 _ _) = False"

fun octets :: "Addr \<Rightarrow> IP" where
  "octets (Addr4 q) = q"
| "octets (Addr6 b _) = b"

fun addr_zone :: "Addr \<Rightarrow> string" where
  "addr_zone (Addr4 _) = []"
| "addr_zone (Addr6 _ z) = z"

text \<open>\<open>parseIPv6\<close> of netip: an optional zone after the first \<open>%\<close>, never empty.\<close>

definition parseIPv6Zone :: "string \<Rightarrow> Addr option" where
  "parseIPv6Zone s =
     (let body = takeWhile (\<lambda>c. c \<noteq> CHR ''%'') s; rest = dropWhile (\<lambda>c. c \<noteq> CHR ''%'') s
      in if rest = ''%'' then None
         else map_option (\<lambda>b. Addr6 b (drop 1 rest)) (parseIPv6 body))"

definition ParseAddr :: "string \<Rightarrow> Addr option" where
  "ParseAddr s =
     (case dropWhile (\<lambda>c. c \<notin> {CHR ''.'', CHR '':'', CHR ''%''}) s of
        [] \<Rightarrow> None
      | c # _ \<Rightarrow>
          if c = CHR ''.'' then map_option Addr4 (parseIPv4Fields s)
          else if c = CHR '':'' then parseIPv6Zone s
          else None)"

definition zone_suffix :: "string \<Rightarrow> string" where
  "zone_suffix z = (if z = [] then [] else ''%'' @ z)"

fun AddrString :: "Addr \<Rightarrow> string" where
  "AddrString (Addr4 q) = ip4_string q"
| "AddrString (Addr6 b z) =
     (if take 12 b = v4InV6Prefix then ''::ffff:'' @ ip4_string (drop 12 b) @ zone_suffix z
      else ip6_string b @ zone_suffix z)"

definition ip_num :: "IP \<Rightarrow> int" where
  "ip_num q = foldl (\<lambda>n b. 256 * n + uint b) 0 q"

text \<open>\<open>Addr.Compare(x) \<le> 0\<close>: shorter addresses first, then by value; the code compares IPv4
  addresses only, so the zone tie-break is not needed.\<close>

definition addr_le :: "Addr \<Rightarrow> Addr \<Rightarrow> bool" where
  "addr_le a b \<longleftrightarrow> length (octets a) < length (octets b) \<or>
     length (octets a) = length (octets b) \<and> ip_num (octets a) \<le> ip_num (octets b)"

text \<open>\<open>Addr.IsPrivate\<close> for IPv4: 10/8, 172.16/12 and 192.168/16; for IPv6: fc00::/7.\<close>

fun IsPrivate :: "Addr \<Rightarrow> bool" where
  "IsPrivate (Addr4 q) \<longleftrightarrow>
     (case q of a # b # _ \<Rightarrow>
        a = 10 \<or> (a = 172 \<and> b AND 0xf0 = 16) \<or> (a = 192 \<and> b = 168)
      | _ \<Rightarrow> False)"
| "IsPrivate (Addr6 bs _) \<longleftrightarrow> (case bs of b # _ \<Rightarrow> b AND 0xfe = 0xfc | [] \<Rightarrow> False)"

section \<open>Prefixes\<close>

record Prefix =
  pf_Addr :: Addr
  pf_Bits :: nat

definition after_last :: "char \<Rightarrow> string \<Rightarrow> string" where
  "after_last c s = rev (takeWhile (\<lambda>x. x \<noteq> c) (rev s))"

definition before_last :: "char \<Rightarrow> string \<Rightarrow> string" where
  "before_last c s = rev (drop 1 (dropWhile (\<lambda>x. x \<noteq> c) (rev s)))"

definition ParsePrefix :: "string \<Rightarrow> Prefix option" where
  "ParsePrefix s =
     (if CHR ''/'' \<notin> set s then None
      else case ParseAddr (before_last CHR ''/'' s) of
        None \<Rightarrow> None
      | Some ip \<Rightarrow>
          if addr_zone ip \<noteq> [] then None
          else let bitsStr = after_last CHR ''/'' s in
            if length bitsStr > 1 \<and> \<not> (CHR ''1'' \<le> hd bitsStr \<and> hd bitsStr \<le> CHR ''9'') then None
            else case Atoi bitsStr of
              None \<Rightarrow> None
            | Some bits \<Rightarrow>
                if bits < 0 \<or> bits > (if Is4 ip then 32 else 128) then None
                else Some \<lparr>pf_Addr = ip, pf_Bits = nat bits\<rparr>)"

definition PrefixString :: "Prefix \<Rightarrow> string" where
  "PrefixString p = AddrString (pf_Addr p) @ ''/'' @ nat_digits (pf_Bits p)"

definition mask_octets :: "nat \<Rightarrow> IP \<Rightarrow> IP" where
  "mask_octets bits q = and_bytes q (CIDRMask bits (length q))"

fun mask_addr :: "nat \<Rightarrow> Addr \<Rightarrow> Addr" where
  "mask_addr bits (Addr4 q) = Addr4 (mask_octets bits q)"
| "mask_addr bits (Addr6 b z) = Addr6 (mask_octets bits b) []"

definition Masked :: "Prefix \<Rightarrow> Prefix" where
  "Masked p = p\<lparr>pf_Addr := mask_addr (pf_Bits p) (pf_Addr p)\<rparr>"

definition PrefixContains :: "Prefix \<Rightarrow> Addr \<Rightarrow> bool" where
  "PrefixContains p a \<longleftrightarrow>
     addr_zone a = [] \<and> Is4 (pf_Addr p) = Is4 a \<and>
     mask_octets (pf_Bits p) (octets a) = mask_octets (pf_Bits p) (octets (pf_Addr p))"

definition Overlaps :: "Prefix \<Rightarrow> Prefix \<Rightarrow> bool" where
  "Overlaps p o' \<longleftrightarrow>
     p = o' \<or>
     (Is4 (pf_Addr p) = Is4 (pf_Addr o') \<and>
      (let minBits = min (pf_Bits p) (pf_Bits o')
       in mask_octets minBits (octets (pf_Addr p)) = mask_octets minBits (octets (pf_Addr o'))))"

text \<open>The test every caller makes: a literal that parses, is IPv4 and is written canonically.\<close>

definition canonical_addr4 :: "string \<Rightarrow> Addr option" where
  "canonical_addr4 v =
     (case ParseAddr v of None \<Rightarrow> None
      | Some a \<Rightarrow> if \<not> Is4 a \<or> AddrString a \<noteq> v then None else Some a)"

section \<open>Octets of IPv4 literals\<close>

lemma ParseAddr_Addr4_length: "ParseAddr s = Some (Addr4 q) \<Longrightarrow> length q = 4"
  by (auto simp: ParseAddr_def parseIPv4Fields_def parseIPv6Zone_def Let_def
        split: list.splits if_splits dest!: ipv4_loop_length)

lemma Is4_octets: "Is4 a \<longleftrightarrow> a = Addr4 (octets a)"
  by (cases a) auto

lemma canonical_addr4_Some:
  "canonical_addr4 v = Some a \<longleftrightarrow> ParseAddr v = Some a \<and> Is4 a \<and> AddrString a = v"
  by (auto simp: canonical_addr4_def split: option.splits)

lemma canonical_addr4_octets:
  assumes "canonical_addr4 v = Some a"
  shows "a = Addr4 (octets a)" "length (octets a) = 4" "ip4_string (octets a) = v"
proof -
  from assms have p: "ParseAddr v = Some a" "Is4 a" "AddrString a = v"
    by (simp_all add: canonical_addr4_Some)
  then show a: "a = Addr4 (octets a)" by (simp add: Is4_octets)
  with p(1) show "length (octets a) = 4" by (metis ParseAddr_Addr4_length)
  from a p(3) show "ip4_string (octets a) = v" by (metis AddrString.simps(1))
qed

text \<open>Two canonical literals with the same octets are the same text: addresses compare like the
  strings the configuration holds.\<close>

lemma canonical_addr4_inj:
  assumes "canonical_addr4 v = Some a" "canonical_addr4 w = Some a"
  shows "v = w"
  using canonical_addr4_octets(3) [OF assms(1)] canonical_addr4_octets(3) [OF assms(2)] by simp

lemma length4_cases:
  assumes "length (q :: 'a list) = 4"
  obtains a b c d where "q = [a, b, c, d]"
  using assms by (auto simp: numeral_eq_Suc length_Suc_conv)

lemma PrefixContains_octets:
  "PrefixContains p (Addr4 q) \<longleftrightarrow> Is4 (pf_Addr p) \<and>
     mask_octets (pf_Bits p) q = mask_octets (pf_Bits p) (octets (pf_Addr p))"
  by (auto simp: PrefixContains_def)

lemma byte_and_ones [simp]: "(x :: 8 word) AND 255 = x"
proof -
  have ones: "(255 :: 8 word) = - 1" by simp
  show ?thesis unfolding ones by (rule and.right_neutral)
qed

lemma mask_octets_24: "mask_octets 24 [a, b, c, d] = [a, b, c, 0]"
  by (simp add: mask_octets_def and_bytes_def CIDRMask_def mask_byte_def upt_rec)

lemma mask_octets_28: "mask_octets 28 [a, b, c, d] = [a, b, c, d AND 0xf0]"
  by (simp add: mask_octets_def and_bytes_def CIDRMask_def mask_byte_def upt_rec)

lemma upper_sixteenth:
  assumes "224 \<le> (d :: 8 word)" "d \<le> 239"
  shows "d AND 0xf0 = 0xe0"
proof -
  have "224 \<le> unat d" "unat d \<le> 239"
    using assms by (simp_all add: word_le_nat_alt)
  then have "unat d \<in> set [224..<240]" unfolding set_upt by auto
  moreover have "d = of_nat (unat d)" by simp
  ultimately obtain k where "k \<in> set [224..<240]" "d = of_nat k" by blast
  moreover have "\<forall>k \<in> set [224..<240]. (of_nat k :: 8 word) AND 0xf0 = 0xe0"
    by (simp add: upt_rec)
  ultimately show ?thesis by blast
qed

lemma ip_num4: "ip_num [a, b, c, d] = ((uint a * 256 + uint b) * 256 + uint c) * 256 + uint d"
  by (simp add: ip_num_def algebra_simps)

end
