(* ===== verification/Client_Services.thy ===== *)
theory Client_Services
  imports Bifrost_Config Netip Complex_Main
begin

text \<open>
  The service intent of an installation, \<^verbatim>\<open>internal/clientservices/config.go\<close>: registered
  systems, Tailnet, DNS, DHCP, VPN, observability and media, with the defaults that
  \<open>Normalize\<close> fills in and everything \<open>Validate\<close> checks.  A nilable pointer is an option; a
  copy that Go makes so that two structs do not share a slice is the value itself.  A map built
  and then ranged over (the alias targets) is an association list whose order stands for the
  order Go happens to take.  A \<open>float64\<close> is a rational number or one of the three values that
  are not numbers, because comparisons with them decide a check.
\<close>

abbreviation "LeaseDuration12Hours \<equiv> ''12h''"
abbreviation "ScopeReservationsOnly \<equiv> ''reservations-only''"
abbreviation "ScopePool \<equiv> ''pool''"
abbreviation "DNSResolverPort \<equiv> (853::int)"
abbreviation "StubbyListenAddress \<equiv> ''127.0.0.1#5453''"
abbreviation "LeaseFilePath \<equiv> ''/etc/boetticher/dhcp.leases''"
abbreviation "ProbeAddressStart \<equiv> (250 :: 8 word)"
abbreviation "ProbeAddressEnd \<equiv> (254 :: 8 word)"

section \<open>Structs\<close>

datatype float64 = NaN | NegInf | PosInf | Fin rat

fun float_less :: "float64 \<Rightarrow> float64 \<Rightarrow> bool" where
  "float_less NaN _ = False"
| "float_less _ NaN = False"
| "float_less (Fin a) (Fin b) = (a < b)"
| "float_less NegInf b = (b \<noteq> NegInf)"
| "float_less PosInf _ = False"
| "float_less (Fin _) b = (b = PosInf)"

record MediaAliases =
  al_Radarr :: string
  al_Sonarr :: string
  al_Bazarr :: string
  al_Prowlarr :: string
  al_Trailarr :: string

record MediaConfig =
  me_Enabled :: bool
  me_MediaGiB :: int
  me_ApplicationDomain :: string
  me_Aliases :: MediaAliases

record System =
  sy_Name :: string
  sy_VMID :: int
  sy_Kind :: string
  sy_GuestName :: string
  sy_MAC :: string
  sy_Address :: string
  sy_Port :: int
  sy_HomePort :: int
  sy_DNSName :: string
  sy_Monitoring :: bool

record ObservabilityCollectionBindings =
  ob_Controller :: string
  ob_ProxmoxHost :: string
  ob_Runtime :: string

record PushoverConfig =
  pu_Enabled :: "bool option"
  pu_Title :: string
  pu_Priority :: int

record HolmesUpstream =
  hu_Name :: string
  hu_BaseURL :: string
  hu_SecretRef :: string

record HolmesModel =
  hm_Alias :: string
  hm_Upstream :: string
  hm_Model :: string

record HolmesConfig =
  ho_Enabled :: "bool option"
  ho_ModelAlias :: string
  ho_DailyBudgetUSD :: float64
  ho_InvestigationBudgetUSD :: float64
  ho_InvestigationDeadlineSecs :: int
  ho_MaxRounds :: int
  ho_MaxQueue :: int
  ho_RetentionDays :: int
  ho_ClientCredential :: string
  ho_Upstreams :: "HolmesUpstream list"
  ho_Models :: "HolmesModel list"

record ObservabilityConfig =
  obs_Enabled :: "bool option"
  obs_PublicDomain :: string
  obs_Collection :: ObservabilityCollectionBindings
  obs_LoggingRetentionDays :: int
  obs_MonitoringRetentionDays :: int
  obs_Holmes :: "HolmesConfig option"
  obs_Pushover :: "PushoverConfig option"

record VPNForward =
  fw_Name :: string
  fw_Reservation :: string
  fw_Protocols :: "string list"
  fw_Port :: int

record VPNConfig =
  vpn_Enabled :: "bool option"
  vpn_Location :: string
  vpn_Clients :: "string list"
  vpn_Forwards :: "VPNForward list"

record DNSUpstream =
  du_Address :: string
  du_Port :: int
  du_TLSName :: string
  du_ECS :: bool

record ServiceRecord =
  sr_Name :: string
  sr_Type :: string
  sr_Value :: string

record DNSConfig =
  dns_Enabled :: "bool option"
  dns_Upstreams :: "DNSUpstream list"
  dns_Records :: "ServiceRecord list"
  dns_Infrastructure :: "ServiceRecord list"

record DHCPScope =
  sc_Zone :: string
  sc_Mode :: string
  sc_PoolStart :: string
  sc_PoolEnd :: string
  sc_PublishNames :: "bool option"

record Reservation =
  rv_Name :: string
  rv_Zone :: string
  rv_MAC :: string
  rv_Address :: string

record DHCPConfig =
  dh_Enabled :: "bool option"
  dh_LeaseDuration :: string
  dh_Scopes :: "DHCPScope list"
  dh_Reservations :: "Reservation list"
  dh_TimeUpstreams :: "string list"
  dh_TimeServe :: "bool option"

text \<open>\<open>TailnetConfig\<close> has one field, \<open>Enabled\<close>.\<close>

record Modules =
  m_Systems :: "System list"
  m_Tailnet :: "bool option"
  m_DNS :: "DNSConfig option"
  m_DHCP :: "DHCPConfig option"
  m_VPN :: "VPNConfig option"
  m_Observability :: "ObservabilityConfig option"
  m_Media :: "MediaConfig option"
  m_Arrstack :: "MediaConfig option"

section \<open>Defaults and normalization\<close>

definition DefaultDNSUpstreams :: "DNSUpstream list" where
  "DefaultDNSUpstreams =
     [\<lparr>du_Address = ''9.9.9.9'', du_Port = DNSResolverPort, du_TLSName = ''dns.quad9.net'', du_ECS = False\<rparr>,
      \<lparr>du_Address = ''149.112.112.112'', du_Port = DNSResolverPort, du_TLSName = ''dns.quad9.net'', du_ECS = False\<rparr>]"

definition DefaultTimeUpstreams :: "string list" where
  "DefaultTimeUpstreams = [''162.159.200.1'', ''17.253.34.125'', ''129.6.15.28'']"

definition reservation_scope :: "string \<Rightarrow> DHCPScope" where
  "reservation_scope zone = \<lparr>sc_Zone = zone, sc_Mode = ScopeReservationsOnly, sc_PoolStart = [],
     sc_PoolEnd = [], sc_PublishNames = None\<rparr>"

definition pool_scope :: "string \<Rightarrow> string \<Rightarrow> string \<Rightarrow> bool option \<Rightarrow> DHCPScope" where
  "pool_scope zone start end' publish = \<lparr>sc_Zone = zone, sc_Mode = ScopePool, sc_PoolStart = start,
     sc_PoolEnd = end', sc_PublishNames = publish\<rparr>"

definition DefaultScopes :: "DHCPScope list" where
  "DefaultScopes =
     [reservation_scope ''TRANSIT'', reservation_scope ''INFRA'',
      pool_scope ''SERVERS'' ''10.10.20.100'' ''10.10.20.199'' None,
      pool_scope ''TRUSTED'' ''10.10.30.100'' ''10.10.30.199'' None,
      pool_scope ''SANDBOX'' ''10.10.40.100'' ''10.10.40.199'' (Some False),
      reservation_scope ''MGMT'']"

definition Enabled :: "bool option \<Rightarrow> bool" where
  "Enabled p \<longleftrightarrow> p = Some True"

definition lookup_key :: "string \<Rightarrow> string" where
  "lookup_key name = ToLower (TrimSpace name)"

definition ResolveReservation :: "Modules \<Rightarrow> string \<Rightarrow> Reservation option" where
  "ResolveReservation modules name =
     (case m_DHCP modules of None \<Rightarrow> None
      | Some dhcp \<Rightarrow> find (\<lambda>r. lookup_key (rv_Name r) = lookup_key name) (dh_Reservations dhcp))"

definition normalize_media :: "MediaConfig \<Rightarrow> MediaConfig" where
  "normalize_media c = (if me_MediaGiB c = 0 then c\<lparr>me_MediaGiB := 256\<rparr> else c)"

definition normalize_dns :: "DNSConfig \<Rightarrow> DNSConfig" where
  "normalize_dns c =
     (if Enabled (dns_Enabled c) \<and> dns_Upstreams c = [] then c\<lparr>dns_Upstreams := DefaultDNSUpstreams\<rparr> else c)"

definition normalize_dhcp :: "DHCPConfig \<Rightarrow> DHCPConfig" where
  "normalize_dhcp c =
     (if Enabled (dh_Enabled c) then
        c\<lparr>dh_LeaseDuration := (if dh_LeaseDuration c = [] then LeaseDuration12Hours else dh_LeaseDuration c),
          dh_Scopes := (if dh_Scopes c = [] then DefaultScopes else dh_Scopes c),
          dh_TimeUpstreams := (if dh_TimeUpstreams c = [] then DefaultTimeUpstreams else dh_TimeUpstreams c),
          dh_TimeServe := (if dh_TimeServe c = None then Some True else dh_TimeServe c)\<rparr>
      else c)"

definition Normalize :: "Modules \<Rightarrow> Modules" where
  "Normalize m =
     (let media = map_option normalize_media (if m_Media m = None then m_Arrstack m else m_Media m)
      in m\<lparr>m_Media := media,
           m_Arrstack := (if media = None then m_Arrstack m else media),
           m_DNS := map_option normalize_dns (m_DNS m),
           m_DHCP := map_option normalize_dhcp (m_DHCP m)\<rparr>)"

text \<open>\<open>Clone\<close> copies every field but \<open>Arrstack\<close>, the alias that is never persisted.\<close>

definition Clone :: "Modules \<Rightarrow> Modules" where
  "Clone m = m\<lparr>m_Arrstack := None\<rparr>"

definition system_reservation :: "System \<Rightarrow> Reservation" where
  "system_reservation s = \<lparr>rv_Name = ToLower (sy_Name s), rv_Zone = ''SERVERS'', rv_MAC = sy_MAC s,
     rv_Address = sy_Address s\<rparr>"

definition SystemsExpanded :: "Modules \<Rightarrow> Modules" where
  "SystemsExpanded modules =
     (let result = Clone modules in
      case m_DHCP result of None \<Rightarrow> result
      | Some dhcp \<Rightarrow> result\<lparr>m_DHCP := Some (dhcp\<lparr>dh_Reservations :=
          dh_Reservations dhcp @ map system_reservation (m_Systems result)\<rparr>)\<rparr>)"

definition sorted_records :: "Modules \<Rightarrow> ServiceRecord list" where
  "sorted_records m = (case m_DNS m of None \<Rightarrow> [] | Some dns \<Rightarrow> sort_key sr_Name (dns_Records dns))"

definition dns_enabled :: "Modules \<Rightarrow> bool" where
  "dns_enabled m \<longleftrightarrow> (case m_DNS m of None \<Rightarrow> False | Some c \<Rightarrow> Enabled (dns_Enabled c))"

definition dhcp_enabled :: "Modules \<Rightarrow> bool" where
  "dhcp_enabled m \<longleftrightarrow> (case m_DHCP m of None \<Rightarrow> False | Some c \<Rightarrow> Enabled (dh_Enabled c))"

definition vpn_enabled :: "Modules \<Rightarrow> bool" where
  "vpn_enabled m \<longleftrightarrow> (case m_VPN m of None \<Rightarrow> False | Some c \<Rightarrow> Enabled (vpn_Enabled c))"

definition observability_enabled :: "Modules \<Rightarrow> bool" where
  "observability_enabled m \<longleftrightarrow> (case m_Observability m of None \<Rightarrow> False | Some c \<Rightarrow> Enabled (obs_Enabled c))"

definition tailnet_enabled :: "Modules \<Rightarrow> bool" where
  "tailnet_enabled m \<longleftrightarrow> m_Tailnet m = Some True"

section \<open>Names, addresses and pools\<close>

definition label_char :: "char \<Rightarrow> bool" where
  "label_char c \<longleftrightarrow> is_lower c \<or> is_digit c \<or> c = CHR ''-''"

definition validLabel :: "string \<Rightarrow> bool" where
  "validLabel v \<longleftrightarrow> v \<noteq> [] \<and> length v \<le> 63 \<and> hd v \<noteq> CHR ''-'' \<and> last v \<noteq> CHR ''-'' \<and>
     list_all label_char (ToLower v)"

definition contains_dots :: "string \<Rightarrow> bool" where
  "contains_dots s \<longleftrightarrow> list_ex (\<lambda>i. HasPrefix (drop i s) ''..'') [0..<length s]"

definition domain_part :: "string \<Rightarrow> bool" where
  "domain_part part \<longleftrightarrow> part \<noteq> [] \<and> length part \<le> 63 \<and> hd part \<noteq> CHR ''-'' \<and> last part \<noteq> CHR ''-'' \<and>
     list_all label_char part"

definition ValidPublicDomain :: "string \<Rightarrow> bool" where
  "ValidPublicDomain raw =
     (let v = TrimSuffix (ToLower (TrimSpace raw)) ''.'' in
      \<not> (v = [] \<or> CHR ''.'' \<notin> set v \<or> length v > 253 \<or> contains_dots v) \<and>
      list_all domain_part (SplitChar CHR ''.'' v))"

definition validPushoverTitle :: "string \<Rightarrow> bool" where
  "validPushoverTitle v \<longleftrightarrow> v \<noteq> [] \<and> length v \<le> 250 \<and> list_all (\<lambda>c. is_alnum c \<or> c \<in> set '' ._-'') v"

definition canonicalName :: "string \<Rightarrow> string \<Rightarrow> gerror + string" where
  "canonicalName value0 domain0 =
     (let name0 = ToLower (TrimSuffix (TrimSpace value0) ''.'');
          domain = ToLower (TrimSuffix (TrimSpace domain0) ''.'')
      in if name0 = [] \<or> domain = [] then Inl (Errorf ''name and local domain are required'' [])
         else let name = (if CHR ''.'' \<notin> set name0 then name0 @ ''.'' @ domain else name0) in
           if name = domain \<or> \<not> HasSuffix name (''.'' @ domain) then
             Inl (Errorf ''name must be inside %s'' [domain])
           else case find (\<lambda>label. \<not> IsDNSLabel label) (SplitChar CHR ''.'' name) of
             Some label \<Rightarrow> Inl (Errorf ''name contains invalid label %q'' [label])
           | None \<Rightarrow> Inr name)"

definition canonicalMAC :: "string \<Rightarrow> gerror + string" where
  "canonicalMAC v =
     (case ParseMAC (TrimSpace v) of
        None \<Rightarrow> Inl (Errorf ''%q is not an Ethernet MAC address'' [v])
      | Some parsed \<Rightarrow>
          if length parsed \<noteq> 6 then Inl (Errorf ''%q is not an Ethernet MAC address'' [v])
          else Inr (ToLower (MACString parsed)))"

text \<open>The names platform components own: hostname and aliases, those that are canonical.\<close>

definition ok_value :: "'e + 'a \<Rightarrow> 'a list" where
  "ok_value r = (case r of Inl _ \<Rightarrow> [] | Inr x \<Rightarrow> [x])"

definition platform_names :: "Site \<Rightarrow> string list" where
  "platform_names site =
     concat (map (\<lambda>c. concat (map (\<lambda>n. ok_value (canonicalName n (nw_Domain (s_Network site))))
       (c_Hostname c # c_DNSAliases c))) (PlatformComponents site))"

definition addressInZone :: "IP \<Rightarrow> Site \<Rightarrow> bool" where
  "addressInZone address site =
     list_ex (\<lambda>z. case ParseCIDR (z_Network z) of None \<Rightarrow> False | Some (_, prefix) \<Rightarrow> Contains prefix address)
       (nw_Zones (s_Network site))"

definition zoneMap :: "Site \<Rightarrow> (string \<times> Zone) list" where
  "zoneMap site = foldl (\<lambda>m z. assoc_set (ToUpper (z_Name z)) z m) [] (nw_Zones (s_Network site))"

definition last_octet :: "Addr \<Rightarrow> 8 word" where
  "last_octet a = octets a ! 3"

definition usableAddress :: "Addr \<Rightarrow> Zone \<Rightarrow> bool" where
  "usableAddress address zone =
     (case ParsePrefix (z_Network zone) of
        None \<Rightarrow> False
      | Some prefix \<Rightarrow>
          PrefixContains prefix address \<and> AddrString address \<noteq> z_Gateway zone \<and>
          octets address \<noteq> (octets (pf_Addr (Masked prefix)))[3 := 255])"

definition usablePool :: "string \<Rightarrow> string \<Rightarrow> Zone \<Rightarrow> gerror + Addr \<times> Addr" where
  "usablePool startValue endValue zone =
     (case ParseAddr startValue of
        None \<Rightarrow> Inl (Errorf ''pool_start %q is not an IPv4 address'' [startValue])
      | Some start \<Rightarrow>
          if \<not> Is4 start then Inl (Errorf ''pool_start %q is not an IPv4 address'' [startValue])
          else case ParseAddr endValue of
            None \<Rightarrow> Inl (Errorf ''pool_end %q is not an IPv4 address'' [endValue])
          | Some end' \<Rightarrow>
              if \<not> Is4 end' then Inl (Errorf ''pool_end %q is not an IPv4 address'' [endValue])
              else if AddrString start \<noteq> startValue \<or> AddrString end' \<noteq> endValue \<or>
                  \<not> usableAddress start zone \<or> \<not> usableAddress end' zone \<or> \<not> addr_le start end' then
                Inl (Errorf ''pool %s-%s is not an ordered usable range in %s'' [startValue, endValue, z_Name zone])
              else Inr (start, end'))"

definition overlapsProbeRange :: "Addr \<Rightarrow> Addr \<Rightarrow> bool" where
  "overlapsProbeRange start end' \<longleftrightarrow>
     last_octet end' \<ge> ProbeAddressStart \<and> last_octet start \<le> ProbeAddressEnd"

section \<open>Registered systems\<close>

definition media_aliases :: "MediaConfig \<Rightarrow> string list" where
  "media_aliases c = (let a = me_Aliases c in [al_Radarr a, al_Sonarr a, al_Bazarr a, al_Prowlarr a, al_Trailarr a])"

definition observability_labels :: "string list" where
  "observability_labels = [''observability'', ''status'', ''lab'', ''labviewer'', ''ingest'', ''metrics'']"

definition systemReservedDNSNames :: "Site \<Rightarrow> Modules \<Rightarrow> string list" where
  "systemReservedDNSNames site modules =
     (case m_Media modules of None \<Rightarrow> []
      | Some media \<Rightarrow>
          if me_Enabled media then
            map (\<lambda>alias. alias @ ''.'' @ ToLower (TrimSuffix (me_ApplicationDomain media) ''.''))
              (media_aliases media @ [''qbittorrent'', ''jellyfin'', ''jellyseerr''])
          else []) @
     (case m_Observability modules of None \<Rightarrow> []
      | Some obs \<Rightarrow>
          if obs_Enabled obs = Some True \<and> ValidPublicDomain (obs_PublicDomain obs) then
            map (\<lambda>prefix. prefix @ ''.'' @ ToLower (TrimSuffix (obs_PublicDomain obs) ''.'')) observability_labels
          else []) @
     map (\<lambda>name. TrimSuffix name ''.'') (platform_names site)"

text \<open>State of the loop over systems: HOME ports and external DNS names with the system using
  each.\<close>

definition system_step ::
  "Site \<Rightarrow> Modules \<Rightarrow> System \<Rightarrow> (int \<times> string) list \<times> (string \<times> string) list
   \<Rightarrow> gerror + (int \<times> string) list \<times> (string \<times> string) list" where
  "system_step site modules s st =
     (case st of (homePorts, dnsNames) \<Rightarrow>
      let name = TrimSpace (sy_Name s); domain = nw_Domain (s_Network site);
          homePorts' = (if sy_HomePort s \<noteq> 0 then (sy_HomePort s, sy_Name s) # homePorts else homePorts)
      in if \<not> IsDNSLabel name \<or> name \<noteq> ToLower name then
           Inl (Errorf ''system name %q is invalid or non-canonical'' [sy_Name s])
         else case canonicalName name domain of
           Inl e \<Rightarrow> Inl (Wrapf ''system name %q is invalid: %w'' [sy_Name s] e)
         | Inr canonical \<Rightarrow>
           if canonical \<in> set (platform_names site) then
             Inl (Errorf ''system name %q conflicts with a platform name'' [sy_Name s])
           else if sy_HomePort s < 0 \<or> sy_HomePort s > 65535 \<or> sy_HomePort s = 443 then
             Inl (Errorf ''system %q home publication port is invalid or reserved'' [sy_Name s])
           else if sy_HomePort s \<noteq> 0 \<and> map_of homePorts (sy_HomePort s) \<noteq> None then
             Inl (Errorf ''home publication port %d is already used by system %s''
               [itoa (sy_HomePort s), owner_of homePorts (sy_HomePort s)])
           else if sy_DNSName s = [] then Inr (homePorts', dnsNames)
           else if sy_DNSName s \<noteq> ToLower (sy_DNSName s) \<or> \<not> ValidPublicDomain (sy_DNSName s) \<or>
               HasSuffix (sy_DNSName s) ''.'' then
             Inl (Errorf ''system %q dns_name must be a lowercase canonical external FQDN'' [sy_Name s])
           else let labDomain = ToLower (TrimSuffix domain ''.'') in
             if sy_DNSName s = labDomain \<or> HasSuffix (sy_DNSName s) (''.'' @ labDomain) then
               Inl (Errorf ''system %q dns_name must be outside the LAB domain'' [sy_Name s])
             else if map_of dnsNames (sy_DNSName s) \<noteq> None then
               Inl (Errorf ''system DNS name %s is already used by system %s''
                 [sy_DNSName s, owner_of dnsNames (sy_DNSName s)])
             else if sy_DNSName s \<in> set (systemReservedDNSNames site modules) then
               Inl (Errorf ''system DNS name %s conflicts with an existing owned name'' [sy_DNSName s])
             else if \<not> dns_enabled modules then
               Inl (Errorf ''system %q dns_name requires enabled DNS'' [sy_Name s])
             else Inr (homePorts', (sy_DNSName s, sy_Name s) # dnsNames))"

definition validateSystems :: "System list \<Rightarrow> Site \<Rightarrow> Modules \<Rightarrow> gerror + unit" where
  "validateSystems systems site modules =
     bindE (foldE (system_step site modules) systems ([], [])) (\<lambda>_. Inr ())"

section \<open>Observability\<close>

definition binding_step :: "string \<Rightarrow> string list \<Rightarrow> gerror + string list" where
  "binding_step address seen =
     (if canonical_addr4 address = None then
        Inl (Errorf ''modules.observability.collection bindings must be canonical IPv4 addresses'' [])
      else if address \<in> set seen then
        Inl (Errorf ''modules.observability.collection bindings must use unique IPv4 addresses'' [])
      else Inr (address # seen))"

definition collection_check :: "ObservabilityCollectionBindings \<Rightarrow> gerror + unit" where
  "collection_check b =
     (if ob_Controller b \<noteq> [] \<or> ob_ProxmoxHost b \<noteq> [] \<or> ob_Runtime b \<noteq> [] then
        bindE (foldE binding_step [ob_Controller b, ob_ProxmoxHost b, ob_Runtime b] []) (\<lambda>_. Inr ())
      else Inr ())"

definition outside_unless_zero :: "int \<Rightarrow> int \<Rightarrow> int \<Rightarrow> bool" where
  "outside_unless_zero v low high \<longleftrightarrow> v \<noteq> 0 \<and> (v < low \<or> v > high)"

definition float_outside :: "float64 \<Rightarrow> rat \<Rightarrow> bool" where
  "float_outside v high \<longleftrightarrow> float_less v (Fin 0) \<or> float_less (Fin high) v"

definition holmes_router_config :: "HolmesConfig \<Rightarrow> BifrostConfig" where
  "holmes_router_config h =
     \<lparr>bfc_Listen = DefaultListen, bfc_ClientCredential = ho_ClientCredential h,
      bfc_Upstreams = map (\<lambda>u. \<lparr>bfu_Name = hu_Name u, bfu_BaseURL = hu_BaseURL u,
         bfu_Credential = hu_SecretRef u\<rparr>) (ho_Upstreams h),
      bfc_Models = map (\<lambda>m. \<lparr>bfm_Alias = hm_Alias m, bfm_Upstream = hm_Upstream m,
         bfm_Model = hm_Model m\<rparr>) (ho_Models h)\<rparr>"

definition holmes_check :: "url_parser \<Rightarrow> HolmesConfig \<Rightarrow> gerror + unit" where
  "holmes_check urlParse h =
     checks
      [fails (\<not> IsDNSLabel (ho_ModelAlias h))
         (Errorf ''modules.monitoring.holmes.model_alias must be a valid model alias when Holmes is enabled'' []),
       fails (float_outside (ho_DailyBudgetUSD h) 2)
         (Errorf ''modules.monitoring.holmes.daily_budget_usd must be between 0 and 2'' []),
       fails (float_outside (ho_InvestigationBudgetUSD h) (1 / 4))
         (Errorf ''modules.monitoring.holmes.investigation_budget_usd must be between 0 and 0.25'' []),
       fails (outside_unless_zero (ho_InvestigationDeadlineSecs h) 30 300)
         (Errorf ''modules.monitoring.holmes.investigation_deadline_seconds must be between 30 and 300'' []),
       fails (outside_unless_zero (ho_MaxRounds h) 1 6)
         (Errorf ''modules.monitoring.holmes.max_rounds must be between 1 and 6'' []),
       fails (outside_unless_zero (ho_MaxQueue h) 1 100)
         (Errorf ''modules.monitoring.holmes.max_queue must be between 1 and 100'' []),
       fails (outside_unless_zero (ho_RetentionDays h) 1 3650)
         (Errorf ''modules.monitoring.holmes.retention_days must be between 1 and 3650'' []),
       fails (ho_ClientCredential h \<noteq> ''holmes-client-token'')
         (Errorf ''modules.monitoring.holmes.bifrost.client_credential must be holmes-client-token'' []),
       allE (\<lambda>u. fails (\<not> IsDNSLabel (hu_SecretRef u))
         (Errorf ''modules.observability.monitoring.holmes.bifrost upstream %q has an invalid secret_ref'' [hu_Name u]))
         (ho_Upstreams h),
       (case BifrostValidate urlParse (holmes_router_config h) of
          Inl e \<Rightarrow> Inl (Wrapf ''modules.monitoring.holmes.bifrost: %w'' [] e)
        | Inr _ \<Rightarrow> Inr ())]"

definition pushover_check :: "PushoverConfig \<Rightarrow> gerror + unit" where
  "pushover_check p =
     checks
      [fails (pu_Priority p = 2 \<or> pu_Priority p < - 2 \<or> pu_Priority p > 1)
         (Errorf ''modules.observability.alerts.pushover.priority must be between -2 and 1'' []),
       fails (\<not> validPushoverTitle (pu_Title p))
         (Errorf ''modules.observability.alerts.pushover.title is invalid'' [])]"

definition validateObservability :: "url_parser \<Rightarrow> Modules \<Rightarrow> gerror + unit" where
  "validateObservability urlParse modules =
     (case m_Observability modules of None \<Rightarrow> Inr ()
      | Some obs \<Rightarrow>
          checks
           [collection_check (obs_Collection obs),
            fails (obs_PublicDomain obs \<noteq> [] \<and> \<not> ValidPublicDomain (obs_PublicDomain obs))
              (Errorf ''modules.observability.public_domain must be a valid public DNS domain'' []),
            fails (outside_unless_zero (obs_LoggingRetentionDays obs) 1 3650)
              (Errorf ''modules.logging.retention_days must be between 1 and 3650 days'' []),
            fails (outside_unless_zero (obs_MonitoringRetentionDays obs) 1 3650)
              (Errorf ''modules.monitoring.retention_days must be between 1 and 3650 days'' []),
            (case obs_Pushover obs of None \<Rightarrow> Inr () | Some p \<Rightarrow> pushover_check p),
            (case obs_Holmes obs of None \<Rightarrow> Inr ()
             | Some h \<Rightarrow> if Enabled (ho_Enabled h) then holmes_check urlParse h else Inr ())])"

end
