(* ===== verification/Client_Validate.thy ===== *)
theory Client_Validate
  imports Client_Services
begin

text \<open>
  \<^verbatim>\<open>Validate\<close> of \<^verbatim>\<open>internal/clientservices/config.go\<close> with the checks of VPN, DNS,
  DHCP and shared names.  As in \<^verbatim>\<open>Site_Validate\<close>, a loop is a fold over the same slice
  whose state is the maps it fills.
\<close>

section \<open>VPN\<close>

definition vpn_subnet :: "string \<Rightarrow> string" where
  "vpn_subnet zone =
     (if zone = ''SERVERS'' then ''10.10.20.0/24''
      else if zone = ''TRUSTED'' then ''10.10.30.0/24''
      else if zone = ''SANDBOX'' then ''10.10.40.0/24'' else [])"

text \<open>The later of two reservations with one key wins, as it overwrites the map entry.\<close>

definition reservations_by_name :: "DHCPConfig option \<Rightarrow> string \<rightharpoonup> Reservation" where
  "reservations_by_name dhcp =
     (case dhcp of None \<Rightarrow> Map.empty
      | Some d \<Rightarrow> map_of (rev (map (\<lambda>r. (lookup_key (rv_Name r), r)) (dh_Reservations d))))"

definition vpn_client_address :: "string \<Rightarrow> Reservation \<Rightarrow> gerror + unit" where
  "vpn_client_address ref r =
     (let zone = ToUpper (rv_Zone r) in
      if zone \<noteq> ''SERVERS'' \<and> zone \<noteq> ''TRUSTED'' \<and> zone \<noteq> ''SANDBOX'' then
        Inl (Errorf ''modules.vpn client %q uses unsupported zone %q'' [ref, rv_Zone r])
      else case canonical_addr4 (rv_Address r) of
        None \<Rightarrow> Inl (Errorf ''modules.vpn client %q uses a non-canonical IPv4 address'' [ref])
      | Some address \<Rightarrow>
          (case ParsePrefix (vpn_subnet zone) of
             None \<Rightarrow> Inl (Errorf ''modules.vpn client %q must be inside the %s .224-.239 range'' [ref, zone])
           | Some prefix \<Rightarrow>
               if \<not> PrefixContains prefix address \<or> last_octet address < 224 \<or> last_octet address > 239 then
                 Inl (Errorf ''modules.vpn client %q must be inside the %s .224-.239 range'' [ref, zone])
               else Inr ()))"

definition vpn_client_step ::
  "(string \<rightharpoonup> Reservation) \<Rightarrow> string \<Rightarrow> string list \<Rightarrow> gerror + string list" where
  "vpn_client_step reservations ref clients =
     (let name = lookup_key ref in
      if name = [] then Inl (Errorf ''modules.vpn client reference %q is empty'' [ref])
      else if name \<in> set clients then
        Inl (Errorf ''modules.vpn.clients contains duplicate reservation %q'' [ref])
      else if \<not> IsDNSLabel name then
        Inl (Errorf ''modules.vpn client %q is not a valid reservation name'' [ref])
      else if ref \<noteq> name then Inl (Errorf ''modules.vpn client %q is not canonical'' [ref])
      else case reservations name of
        None \<Rightarrow> Inl (Errorf ''modules.vpn client %q does not reference a DHCP reservation'' [ref])
      | Some r \<Rightarrow> bindE (vpn_client_address ref r) (\<lambda>_. Inr (name # clients)))"

definition protocol_step ::
  "VPNForward \<Rightarrow> string \<Rightarrow> string list \<Rightarrow> gerror + string list" where
  "protocol_step f protocol seen =
     (let key = protocol @ ''/'' @ itoa (fw_Port f) in
      if protocol \<noteq> lookup_key protocol then
        Inl (Errorf ''modules.vpn forward %q has non-canonical protocol %q'' [fw_Name f, protocol])
      else if protocol \<noteq> ''tcp'' \<and> protocol \<noteq> ''udp'' then
        Inl (Errorf ''modules.vpn forward %q has unsupported protocol %q'' [fw_Name f, protocol])
      else if key \<in> set seen then Inl (Errorf ''modules.vpn contains duplicate %s forward'' [key])
      else Inr (key # seen))"

definition vpn_forward_step ::
  "string list \<Rightarrow> VPNForward \<Rightarrow> string list \<times> string list \<Rightarrow> gerror + string list \<times> string list" where
  "vpn_forward_step clients f st =
     (case st of (seen, seenNames) \<Rightarrow>
      let name = lookup_key (fw_Name f); reservation = lookup_key (fw_Reservation f) in
      if name = [] \<or> reservation = [] then
        Inl (Errorf ''modules.vpn forwards require name and reservation'' [])
      else if \<not> IsDNSLabel name then Inl (Errorf ''modules.vpn forward %q has invalid name'' [fw_Name f])
      else if fw_Name f \<noteq> name \<or> fw_Reservation f \<noteq> reservation then
        Inl (Errorf ''modules.vpn forward %q has non-canonical name or reservation'' [fw_Name f])
      else if name \<in> set seenNames then
        Inl (Errorf ''modules.vpn contains duplicate forward name %q'' [fw_Name f])
      else if reservation \<notin> set clients then
        Inl (Errorf ''modules.vpn forward %q references a non-VPN client %q'' [fw_Name f, fw_Reservation f])
      else if fw_Port f < 1 \<or> fw_Port f > 65535 then
        Inl (Errorf ''modules.vpn forward %q has invalid port %d'' [fw_Name f, itoa (fw_Port f)])
      else if fw_Protocols f = [] then
        Inl (Errorf ''modules.vpn forward %q requires at least one protocol'' [fw_Name f])
      else bindE (foldE (protocol_step f) (fw_Protocols f) seen) (\<lambda>seen'. Inr (seen', name # seenNames)))"

definition validateVPN :: "VPNConfig \<Rightarrow> DHCPConfig option \<Rightarrow> gerror + unit" where
  "validateVPN config dhcp =
     (if Enabled (vpn_Enabled config) \<and> TrimSpace (vpn_Location config) = [] then
        Inl (Errorf ''modules.vpn.location is required when VPN is enabled'' [])
      else if dhcp = None \<and> (vpn_Clients config \<noteq> [] \<or> vpn_Forwards config \<noteq> []) then
        Inl (Errorf ''VPN references require DHCP reservations'' [])
      else bindE (foldE (vpn_client_step (reservations_by_name dhcp)) (vpn_Clients config) [])
        (\<lambda>clients. bindE (foldE (vpn_forward_step clients) (vpn_Forwards config) ([], []))
        (\<lambda>_. Inr ())))"

section \<open>DNS\<close>

definition upstream_check :: "DNSUpstream \<Rightarrow> gerror + unit" where
  "upstream_check u =
     checks
      [fails (canonical_ip4 (du_Address u) = None)
         (Errorf ''modules.dns upstream address %q must be canonical IPv4'' [du_Address u]),
       fails (du_Port u \<noteq> DNSResolverPort)
         (Errorf ''modules.dns upstream %s must use TCP %d'' [du_Address u, itoa DNSResolverPort]),
       fails (du_TLSName u \<noteq> ''dns.quad9.net'')
         (Errorf ''modules.dns upstream %s must verify dns.quad9.net'' [du_Address u]),
       fails (du_ECS u) (Errorf ''modules.dns upstream ECS must remain disabled'' [])]"

definition record_value_check :: "Site \<Rightarrow> string \<Rightarrow> ServiceRecord \<Rightarrow> gerror + unit" where
  "record_value_check site name r =
     (if sr_Type r = ''A'' then
        (case canonical_ip4 (sr_Value r) of
           None \<Rightarrow> Inl (Errorf ''A record %s must contain a canonical IPv4 address'' [name])
         | Some ip \<Rightarrow>
             if addressInZone (drop 12 ip) site then Inr ()
             else Inl (Errorf ''A record %s must contain a canonical IPv4 address'' [name]))
      else case canonicalName (sr_Value r) (nw_Domain (s_Network site)) of
        Inl e \<Rightarrow> Inl (Wrapf ''CNAME record %s: %w'' [name] e)
      | Inr target \<Rightarrow>
          if target = name then Inl (Errorf ''CNAME record %s cannot target itself'' [name]) else Inr ())"

definition service_record_step ::
  "Site \<Rightarrow> ServiceRecord \<Rightarrow> (string \<times> string) list \<Rightarrow> gerror + (string \<times> string) list" where
  "service_record_step site r seenNames =
     (case canonicalName (sr_Name r) (nw_Domain (s_Network site)) of
        Inl e \<Rightarrow> Inl (Wrapf ''modules.dns record %q: %w'' [sr_Name r] e)
      | Inr name \<Rightarrow>
          if sr_Type r \<noteq> ''A'' \<and> sr_Type r \<noteq> ''CNAME'' then
            Inl (Errorf ''modules.dns record %s has unsupported type %q'' [name, sr_Type r])
          else if (name, sr_Type r) \<in> set seenNames then
            Inl (Errorf ''duplicate DNS record %s %s'' [name, sr_Type r])
          else if map_of seenNames name \<noteq> None then
            Inl (Errorf ''DNS name %s cannot contain both %s and %s records''
              [name, owner_of seenNames name, sr_Type r])
          else if name \<in> set (platform_names site) then
            Inl (Errorf ''DNS record %s collides with a platform name'' [name])
          else bindE (record_value_check site name r) (\<lambda>_. Inr ((name, sr_Type r) # seenNames)))"

definition validateDNS :: "DNSConfig \<Rightarrow> Site \<Rightarrow> gerror + unit" where
  "validateDNS config site =
     (if \<not> Enabled (dns_Enabled config) then Inr ()
      else if dns_Upstreams config = [] then
        Inl (Errorf ''modules.dns.upstreams must contain at least one encrypted resolver'' [])
      else bindE (allE upstream_check (dns_Upstreams config))
        (\<lambda>_. bindE (foldE (service_record_step site) (dns_Records config) []) (\<lambda>_. Inr ())))"

section \<open>DHCP\<close>

definition scope_pool_check :: "DHCPScope \<Rightarrow> Zone \<Rightarrow> gerror + unit" where
  "scope_pool_check scope zone =
     (if sc_Mode scope = ScopePool then
        (case usablePool (sc_PoolStart scope) (sc_PoolEnd scope) zone of
           Inl e \<Rightarrow> Inl (Wrapf ''modules.dhcp scope %s: %w'' [z_Name zone] e)
         | Inr (start, end') \<Rightarrow>
             if start = end' then Inl (Errorf ''modules.dhcp scope %s pool is empty'' [z_Name zone])
             else if overlapsProbeRange start end' then
               Inl (Errorf ''modules.dhcp scope %s pool overlaps reserved probe addresses'' [z_Name zone])
             else Inr ())
      else Inr ())"

definition scope_step ::
  "(string \<times> Zone) list \<Rightarrow> DHCPScope \<Rightarrow> string list \<Rightarrow> gerror + string list" where
  "scope_step zones scope seenZones =
     (case map_of zones (ToUpper (sc_Zone scope)) of
        None \<Rightarrow> Inl (Errorf ''modules.dhcp scope %q is not a reference zone'' [sc_Zone scope])
      | Some zone \<Rightarrow>
          if z_Name zone \<in> set seenZones then Inl (Errorf ''duplicate DHCP scope %s'' [z_Name zone])
          else if sc_Mode scope \<noteq> ScopeReservationsOnly \<and> sc_Mode scope \<noteq> ScopePool then
            Inl (Errorf ''modules.dhcp scope %s has unsupported mode %q'' [z_Name zone, sc_Mode scope])
          else if sc_Mode scope = ScopeReservationsOnly \<and> (sc_PoolStart scope \<noteq> [] \<or> sc_PoolEnd scope \<noteq> []) then
            Inl (Errorf ''reservation-only scope %s must not define a pool'' [z_Name zone])
          else bindE (scope_pool_check scope zone) (\<lambda>_. Inr (z_Name zone # seenZones)))"

definition pool_collision :: "Addr \<Rightarrow> Zone \<Rightarrow> DHCPScope \<Rightarrow> bool" where
  "pool_collision address zone scope \<longleftrightarrow>
     EqualFold (sc_Zone scope) (z_Name zone) \<and> sc_Mode scope = ScopePool \<and>
     (case usablePool (sc_PoolStart scope) (sc_PoolEnd scope) zone of
        Inl _ \<Rightarrow> False
      | Inr (poolStart, poolEnd) \<Rightarrow> addr_le poolStart address \<and> addr_le address poolEnd)"

text \<open>State of the reservation loop: names, hardware addresses and addresses seen.\<close>

definition service_reservation_step ::
  "(string \<times> Zone) list \<Rightarrow> DHCPScope list \<Rightarrow> Reservation \<Rightarrow> string list \<times> string list \<times> string list
   \<Rightarrow> gerror + string list \<times> string list \<times> string list" where
  "service_reservation_step zones scopes r st =
     (case st of (seenNames, seenMACs, seenAddresses) \<Rightarrow>
      let name = lookup_key (rv_Name r) in
      if \<not> IsDNSLabel name then
        Inl (Errorf ''DHCP reservation name %q is not a valid DNS label'' [rv_Name r])
      else if name \<in> set seenNames then Inl (Errorf ''duplicate DHCP reservation name %q'' [name])
      else case map_of zones (ToUpper (rv_Zone r)) of
        None \<Rightarrow> Inl (Errorf ''DHCP reservation %s uses unknown zone %q'' [name, rv_Zone r])
      | Some zone \<Rightarrow>
        (case canonical_addr4 (rv_Address r) of
           None \<Rightarrow> Inl (Errorf ''DHCP reservation %s address %q is outside usable %s addresses'' [name, rv_Address r, z_Name zone])
         | Some address \<Rightarrow>
           if \<not> usableAddress address zone then
             Inl (Errorf ''DHCP reservation %s address %q is outside usable %s addresses'' [name, rv_Address r, z_Name zone])
           else if last_octet address \<ge> ProbeAddressStart \<and> last_octet address \<le> ProbeAddressEnd then
             Inl (Errorf ''DHCP reservation %s uses a reserved probe address'' [name])
           else case canonicalMAC (rv_MAC r) of
             Inl e \<Rightarrow> Inl (Wrapf ''DHCP reservation %s: %w'' [name] e)
           | Inr mac \<Rightarrow>
             if mac \<in> set seenMACs then Inl (Errorf ''duplicate DHCP reservation MAC %s'' [mac])
             else if rv_Address r \<in> set seenAddresses then
               Inl (Errorf ''duplicate DHCP reservation address %s'' [rv_Address r])
             else if list_ex (pool_collision address zone) scopes then
               Inl (Errorf ''DHCP reservation %s address %s collides with dynamic pool %s'' [name, rv_Address r, z_Name zone])
             else Inr (name # seenNames, mac # seenMACs, rv_Address r # seenAddresses)))"

definition validateDHCP :: "DHCPConfig \<Rightarrow> Site \<Rightarrow> gerror + unit" where
  "validateDHCP config site =
     (let zones = zoneMap site in
      if \<not> Enabled (dh_Enabled config) then Inr ()
      else if dh_LeaseDuration config = [] then Inl (Errorf ''modules.dhcp.lease_duration is required'' [])
      else if length (dh_Scopes config) \<noteq> 6 then
        Inl (Errorf ''modules.dhcp.scopes must contain the six reference zones'' [])
      else bindE (foldE (scope_step zones) (dh_Scopes config) []) (\<lambda>seenZones.
        if length seenZones \<noteq> length zones then
          Inl (Errorf ''modules.dhcp.scopes must cover TRANSIT, INFRA, SERVERS, TRUSTED, SANDBOX, and MGMT'' [])
        else bindE (foldE (service_reservation_step zones (dh_Scopes config)) (dh_Reservations config) ([], [], []))
          (\<lambda>_. if dh_TimeUpstreams config = [] then
             Inl (Errorf ''modules.dhcp.time.upstreams must contain at least one IPv4 NTP endpoint'' [])
           else allE (\<lambda>upstream. fails (canonical_ip4 upstream = None)
             (Errorf ''modules.dhcp.time upstream %q must be canonical IPv4'' [upstream])) (dh_TimeUpstreams config))))"

section \<open>Shared names\<close>

definition shared_record_step ::
  "string \<Rightarrow> ServiceRecord \<Rightarrow> string list \<times> (string \<times> string) list
   \<Rightarrow> gerror + string list \<times> (string \<times> string) list" where
  "shared_record_step domain r st =
     (case st of (seen, cnameTargets) \<Rightarrow>
        bindE (canonicalName (sr_Name r) domain) (\<lambda>name.
          if name \<in> set seen then
            Inl (Errorf ''DNS record %s conflicts with a reservation-derived name'' [name])
          else if sr_Type r = ''A'' then Inr (name # seen, cnameTargets)
          else bindE (canonicalName (sr_Value r) domain) (\<lambda>target.
            Inr (name # seen, assoc_set name target cnameTargets))))"

text \<open>Following one alias.  The names on the path are aliases and the path only grows, so the
  walk ends; the entry \<open>delete(path, name)\<close> removes on the way back is not read again.\<close>

function alias_walk :: "string list \<Rightarrow> (string \<times> string) list \<Rightarrow> string list \<Rightarrow> string \<Rightarrow> gerror + unit" where
  "alias_walk seen targets path name =
     (if name \<in> set path then Inl (Errorf ''CNAME alias cycle includes %s'' [name])
      else case map_of targets name of
        None \<Rightarrow>
          if name \<in> set seen then Inr ()
          else Inl (Errorf ''CNAME target %s is not a local record, reservation, or platform name'' [name])
      | Some target \<Rightarrow> alias_walk seen targets (name # path) target)"
  by pat_completeness auto
termination
proof (relation "measure (\<lambda>(_, targets, path, _). card (fst ` set targets - set path))", goal_cases)
  case (2 seen targets path name target)
  then have "name \<in> fst ` set targets - set path"
    by (auto dest: map_of_SomeD intro: rev_image_eqI)
  then have "fst ` set targets - set (name # path) \<subset> fst ` set targets - set path" by auto
  then show ?case
    by (simp only: in_measure prod.case) (rule psubset_card_mono, simp_all)
qed simp

declare alias_walk.simps [simp del]

definition reservation_names :: "Reservation list \<Rightarrow> Site \<Rightarrow> string list" where
  "reservation_names reservations site =
     map (\<lambda>r. ToLower (rv_Name r) @ ''.'' @ ToLower (TrimSuffix (nw_Domain (s_Network site)) ''.'')) reservations"

definition validateSharedNames :: "DNSConfig \<Rightarrow> Reservation list \<Rightarrow> Site \<Rightarrow> gerror + unit" where
  "validateSharedNames dns reservations site =
     bindE (foldE (shared_record_step (nw_Domain (s_Network site))) (dns_Records dns)
              (platform_names site @ reservation_names reservations site, []))
       (\<lambda>(seen, cnameTargets). allE (\<lambda>(name, _). alias_walk seen cnameTargets [] name) cnameTargets)"

section \<open>The whole configuration\<close>

definition media_reservation :: "Reservation \<Rightarrow> bool" where
  "media_reservation r \<longleftrightarrow> rv_Name r = ''lab-media-01'' \<and> rv_Zone r = ''SERVERS'' \<and>
     rv_Address r = ''10.10.20.230'' \<and> rv_MAC r = ''02:00:00:00:20:e6''"

definition media_forward :: "VPNForward \<Rightarrow> bool" where
  "media_forward f \<longleftrightarrow> fw_Name f = ''media-qbittorrent'' \<and> fw_Reservation f = ''lab-media-01'' \<and>
     fw_Port f \<ge> 1 \<and> fw_Protocols f = [''tcp'', ''udp'']"

definition alias_step :: "string \<Rightarrow> string list \<Rightarrow> gerror + string list" where
  "alias_step alias seen =
     (if \<not> validLabel alias \<or> alias \<in> set seen then
        Inl (Errorf ''modules.media.aliases must be unique valid labels'' [])
      else Inr (alias # seen))"

definition media_check :: "Modules \<Rightarrow> MediaConfig \<Rightarrow> gerror + unit" where
  "media_check modules media =
     (case (m_DHCP modules, m_VPN modules) of
        (Some dhcp, Some vpn) \<Rightarrow>
          if \<not> dns_enabled modules \<or> \<not> dhcp_enabled modules then
            Inl (Errorf ''enabled arrstack requires enabled DNS, DHCP, and configured VPN client intent'' [])
          else if me_MediaGiB media < 1 then
            Inl (Errorf ''modules.media.media_gib must be positive'' [])
          else if \<not> ValidPublicDomain (me_ApplicationDomain media) then
            Inl (Errorf ''modules.media.application_domain must be a valid DNS domain'' [])
          else bindE (foldE alias_step (media_aliases media) []) (\<lambda>_.
            if \<not> list_ex media_reservation (dh_Reservations dhcp) \<or> ''lab-media-01'' \<notin> set (vpn_Clients vpn) then
              Inl (Errorf ''enabled arrstack requires its fixed DHCP reservation and VPN client intent'' [])
            else if \<not> list_ex media_forward (vpn_Forwards vpn) then
              Inl (Errorf ''enabled arrstack requires the media-qbittorrent TCP/UDP forward'' [])
            else Inr ())
      | _ \<Rightarrow> Inl (Errorf ''enabled arrstack requires enabled DNS, DHCP, and configured VPN client intent'' []))"

definition expanded_checks :: "url_parser \<Rightarrow> Modules \<Rightarrow> Site \<Rightarrow> gerror + unit" where
  "expanded_checks urlParse n site =
     checks
      [fails (m_Systems n \<noteq> [] \<and> \<not> dhcp_enabled n) (Errorf ''registered systems require enabled DHCP'' []),
       fails (list_ex sy_Monitoring (m_Systems n) \<and> \<not> observability_enabled n)
         (Errorf ''monitored systems require enabled observability'' []),
       validateObservability urlParse n,
       (case m_Media n of None \<Rightarrow> Inr () | Some media \<Rightarrow> if me_Enabled media then media_check n media else Inr ()),
       fails (tailnet_enabled n \<and> (\<not> dns_enabled n \<or> \<not> dhcp_enabled n))
         (Errorf ''enabled Tailnet requires enabled DNS and DHCP; teardown Tailnet first'' []),
       (case m_DNS n of None \<Rightarrow> Inr () | Some dns \<Rightarrow> validateDNS dns site),
       (case m_DHCP n of None \<Rightarrow> Inr ()
        | Some dhcp \<Rightarrow>
            if Enabled (dh_Enabled dhcp) \<and> \<not> dns_enabled n then
              Inl (Errorf ''enabled DHCP requires an enabled local DNS capability'' [])
            else validateDHCP dhcp site),
       (case m_VPN n of None \<Rightarrow> Inr () | Some vpn \<Rightarrow> validateVPN vpn (m_DHCP n)),
       (case m_DNS n of None \<Rightarrow> Inr ()
        | Some dns \<Rightarrow> if \<not> dhcp_enabled n then validateSharedNames dns [] site else Inr ()),
       (case (m_DNS n, m_DHCP n) of
          (Some dns, Some dhcp) \<Rightarrow>
            if dns_enabled n \<and> dhcp_enabled n then validateSharedNames dns (dh_Reservations dhcp) site else Inr ()
        | _ \<Rightarrow> Inr ())]"

definition Validate :: "url_parser \<Rightarrow> Modules \<Rightarrow> Site \<Rightarrow> gerror + unit" where
  "Validate urlParse modules site =
     (let normalized = Normalize modules in
      bindE (validateSystems (m_Systems normalized) site normalized) (\<lambda>_.
        expanded_checks urlParse (SystemsExpanded normalized) site))"

end
