(* ===== verification/Appliance_Safety.thy ===== *)
theory Appliance_Safety
  imports Client_Validate Uci_Reconcile
begin

text \<open>
  The permanent VPN safety sets of the appliance, \<^verbatim>\<open>internal/firewallmodule/safety.go\<close>:
  which address ranges are protected, which clients and forwards are admitted, and the native
  ipset sections and text that project them.  A port is the \<open>uint16\<close> the code converts to.
\<close>

abbreviation "SafetyProtectedSet \<equiv> ''boetticher_vpn_protected4''"
abbreviation "SafetyClientSet \<equiv> ''boetticher_vpn_clients4''"
abbreviation "SafetyForwardTCPSet \<equiv> ''boetticher_vpn_forwards_tcp4''"
abbreviation "SafetyForwardUDPSet \<equiv> ''boetticher_vpn_forwards_udp4''"
abbreviation "SafetyHomeSet \<equiv> ''boetticher_home4''"
abbreviation "SafetyLabSet \<equiv> ''boetticher_lab4''"

record ForwardTuple =
  ft_Address :: string
  ft_Protocol :: string
  ft_Port :: "16 word"

record SafetyConfig =
  sf_ProtectedIPv4 :: "string list"
  sf_ClientIPv4 :: "string list"
  sf_HomeIPv4 :: "string list"
  sf_LabIPv4 :: "string list"
  sf_ForwardTuples :: "ForwardTuple list"

definition DefaultSafetyConfig :: SafetyConfig where
  "DefaultSafetyConfig =
     \<lparr>sf_ProtectedIPv4 = [''10.10.10.224/28'', ''10.10.20.224/28'', ''10.10.30.224/28'', ''10.10.40.224/28''],
      sf_ClientIPv4 = [], sf_HomeIPv4 = [''192.168.4.0/22''],
      sf_LabIPv4 = [''10.10.5.0/24'', ''10.10.10.0/24'', ''10.10.20.0/24'', ''10.10.30.0/24'', ''10.10.40.0/24'', ''10.10.99.0/24''],
      sf_ForwardTuples = []\<rparr>"

definition containsAddress :: "Prefix list \<Rightarrow> Addr \<Rightarrow> bool" where
  "containsAddress prefixes address = list_ex (\<lambda>p. PrefixContains p address) prefixes"

definition protected_step :: "string \<Rightarrow> Prefix list \<Rightarrow> gerror + Prefix list" where
  "protected_step raw protected =
     (case ParsePrefix raw of
        None \<Rightarrow> Inl (Errorf ''protected IPv4 range %q must be canonical /28'' [raw])
      | Some prefix \<Rightarrow>
          if \<not> Is4 (pf_Addr prefix) \<or> pf_Bits prefix \<noteq> 28 \<or> prefix \<noteq> Masked prefix \<or> PrefixString prefix \<noteq> raw then
            Inl (Errorf ''protected IPv4 range %q must be canonical /28'' [raw])
          else case find (\<lambda>existing. Overlaps existing prefix) protected of
            Some existing \<Rightarrow>
              Inl (Errorf ''protected IPv4 ranges %q and %q overlap'' [PrefixString existing, raw])
          | None \<Rightarrow> Inr (protected @ [prefix]))"

definition prefix_check :: "string \<Rightarrow> gerror + unit" where
  "prefix_check raw =
     fails (case ParsePrefix raw of None \<Rightarrow> True
            | Some prefix \<Rightarrow> \<not> Is4 (pf_Addr prefix) \<or> prefix \<noteq> Masked prefix \<or> PrefixString prefix \<noteq> raw)
       (Errorf ''IPv4 prefix %q must be canonical'' [raw])"

definition safety_client_check :: "Prefix list \<Rightarrow> string \<Rightarrow> gerror + unit" where
  "safety_client_check protected raw =
     (case canonical_addr4 raw of
        None \<Rightarrow> Inl (Errorf ''VPN client address %q must be canonical IPv4'' [raw])
      | Some address \<Rightarrow>
          fails (\<not> containsAddress protected address)
            (Errorf ''VPN client address %q is outside a protected range'' [raw]))"

definition safety_forward_check :: "string list \<Rightarrow> ForwardTuple \<Rightarrow> gerror + unit" where
  "safety_forward_check clients t =
     checks
      [fails (canonical_addr4 (ft_Address t) = None)
         (Errorf ''forward destination %q must be canonical IPv4'' [ft_Address t]),
       fails (ft_Address t \<notin> set clients)
         (Errorf ''forward destination %q is not a declared VPN client'' [ft_Address t]),
       fails (ft_Protocol t \<noteq> ''tcp'' \<and> ft_Protocol t \<noteq> ''udp'')
         (Errorf ''forward destination %s has unsupported protocol %q'' [ft_Address t, ft_Protocol t]),
       fails (ft_Port t = 0) (Errorf ''forward destination %s has an invalid port'' [ft_Address t])]"

definition SafetyValidate :: "SafetyConfig \<Rightarrow> gerror + unit" where
  "SafetyValidate c =
     (if sf_ProtectedIPv4 c = [] \<or> sf_HomeIPv4 c = [] \<or> sf_LabIPv4 c = [] then
        Inl (Errorf ''protected, HOME, and LAB IPv4 sets must not be empty'' [])
      else bindE (foldE protected_step (sf_ProtectedIPv4 c) []) (\<lambda>protected.
        checks
         [allE prefix_check (sf_HomeIPv4 c),
          allE prefix_check (sf_LabIPv4 c),
          allE (safety_client_check protected) (sf_ClientIPv4 c),
          allE (safety_forward_check (sf_ClientIPv4 c)) (sf_ForwardTuples c)]))"

definition ipset_section :: "string \<Rightarrow> string list \<Rightarrow> string list \<Rightarrow> Section" where
  "ipset_section name matches entries =
     \<lparr>sn_Name = name, sn_Type = ''ipset'', sn_Options = [(''name'', name), (''family'', ''ipv4'')],
      sn_Lists = [(''match'', matches), (''entry'', entries)]\<rparr>"

definition tuple_entry :: "ForwardTuple \<Rightarrow> string" where
  "tuple_entry t = ft_Address t @ '' '' @ nat_digits (unat (ft_Port t))"

text \<open>\<open>sort.Strings\<close>: the order of \<open>string\<close> is the lexicographic order of its bytes.\<close>

definition forward_entries :: "bool \<Rightarrow> SafetyConfig \<Rightarrow> string list" where
  "forward_entries tcp c =
     sort (map tuple_entry (filter (\<lambda>t. (ft_Protocol t = ''tcp'') = tcp) (sf_ForwardTuples c)))"

definition SafetySections :: "SafetyConfig \<Rightarrow> gerror + Section list" where
  "SafetySections c =
     bindE (SafetyValidate c) (\<lambda>_. Inr
       [ipset_section SafetyProtectedSet [''src_net''] (sf_ProtectedIPv4 c),
        ipset_section SafetyClientSet [''src_ip''] (sf_ClientIPv4 c),
        ipset_section SafetyHomeSet [''dest_net''] (sf_HomeIPv4 c),
        ipset_section SafetyLabSet [''dest_net''] (sf_LabIPv4 c),
        ipset_section SafetyForwardTCPSet [''dest_ip'', ''dest_port''] (forward_entries True c),
        ipset_section SafetyForwardUDPSet [''dest_ip'', ''dest_port''] (forward_entries False c)])"

definition quoted_line :: "string \<Rightarrow> string \<Rightarrow> string" where
  "quoted_line key v = [CHR 0x09] @ key @ '' '' @ [CHR 0x27] @ v @ [CHR 0x27, CHR 0x0A]"

definition render_section :: "Section \<Rightarrow> string" where
  "render_section s =
     ''config ipset '' @ [CHR 0x27] @ sn_Name s @ [CHR 0x27, CHR 0x0A] @
     quoted_line ''option name'' (opt (sn_Options s) ''name'') @
     quoted_line ''option family'' (opt (sn_Options s) ''family'') @
     concat (map (quoted_line ''list match'') (lst (sn_Lists s) ''match'')) @
     concat (map (quoted_line ''list entry'') (lst (sn_Lists s) ''entry'')) @ [CHR 0x0A]"

definition RenderSafetyUCI :: "SafetyConfig \<Rightarrow> gerror + string" where
  "RenderSafetyUCI c =
     bindE (SafetySections c) (\<lambda>sections. Inr (concat (map render_section sections)))"

definition safetyAssetPaths :: "string list" where
  "safetyAssetPaths =
     [''/usr/share/nftables.d/chain-pre/input/10-boetticher-safety.nft'',
      ''/usr/share/nftables.d/chain-pre/forward/10-boetticher-safety.nft'',
      ''/usr/share/nftables.d/chain-pre/output/10-boetticher-safety.nft'']"

definition RenderSafetyAssetManifest :: string where
  "RenderSafetyAssetManifest = joinWith [CHR 0x0A] safetyAssetPaths @ [CHR 0x0A]"

end
