(* ===== verification/Appliance_Services.thy ===== *)
theory Appliance_Services
  imports Appliance_Safety "HOL-Library.Product_Lexorder"
begin

text \<open>
  The native sections the service modules project onto the appliance,
  \<^verbatim>\<open>internal/firewallmodule/services.go\<close>: dnsmasq with its scopes and reservations,
  infrastructure and user DNS records, Stubby, time, and the service firewall.  The option and
  list maps of a section are association lists with the keys in the order the code sets them.
\<close>

definition mk_section :: "string \<Rightarrow> string \<Rightarrow> (string \<times> string) list \<Rightarrow> (string \<times> string list) list \<Rightarrow> Section" where
  "mk_section name kind options lists' = \<lparr>sn_Name = name, sn_Type = kind, sn_Options = options, sn_Lists = lists'\<rparr>"

record ServiceState =
  ss_DHCP :: "Section list"
  ss_Stubby :: "Section list"
  ss_System :: "Section list"
  ss_Firewall :: "Section list"

definition service_check :: "string \<Rightarrow> Section list \<Rightarrow> string \<times> UCISection \<Rightarrow> gerror + unit" where
  "service_check packageName desired ns =
     (case ns of (name, s) \<Rightarrow>
        if packageName = ''dhcp'' then
          checks
           [fails (us_Type s = ''dnsmasq'' \<and> name \<noteq> ''boetticher_dnsmasq'')
              (Errorf ''provider has an unowned dnsmasq instance %s'' [name]),
            fails (us_Type s = ''dhcp'' \<and> name \<noteq> ''boetticher_home'' \<and> \<not> HasPrefix name ''boetticher_dhcp_'' \<and>
                   opt (us_Options s) ''ignore'' \<noteq> ''1'')
              (Errorf ''provider has an active unowned DHCP scope %s'' [name])]
        else if packageName = ''stubby'' then
          checks
           [fails (us_Type s = ''resolver'' \<and> name \<notin> sn_Name ` set desired)
              (Errorf ''provider has an unowned Stubby resolver %s'' [name]),
            fails (us_Type s = ''resolver'' \<and> lst (us_Lists s) ''spki'' \<noteq> [])
              (Errorf ''provider Stubby resolver %s contains an unsupported leaf certificate pin'' [name]),
            fails (us_Type s = ''stubby'' \<and> name \<noteq> ''global'')
              (Errorf ''provider has an unowned Stubby global section %s'' [name])]
        else if packageName = ''system'' then
          fails (us_Type s = ''timeserver'' \<and> name \<noteq> ''ntp'' \<and> opt (us_Options s) ''enabled'' \<noteq> ''0'')
            (Errorf ''provider has an active unowned time source %s'' [name])
        else Inr ())"

definition ValidateServicePackage :: "string \<Rightarrow> uci_package \<Rightarrow> Section list \<Rightarrow> gerror + unit" where
  "ValidateServicePackage packageName current desired = allE (service_check packageName desired) current"

definition serviceZoneByName :: "Site \<Rightarrow> string \<Rightarrow> Zone option" where
  "serviceZoneByName site name = find (\<lambda>z. EqualFold (z_Name z) name) (nw_Zones (s_Network site))"

section \<open>DNS records\<close>

definition systemDNSSections :: "Site \<Rightarrow> System list \<Rightarrow> Section list" where
  "systemDNSSections site systems =
     concat (map (\<lambda>s.
       if sy_DNSName s = [] then []
       else case canonicalName (sy_Name s) (nw_Domain (s_Network site)) of
         Inl _ \<Rightarrow> []
       | Inr target \<Rightarrow>
           (let name = ToLower (TrimSuffix (sy_DNSName s) ''.'') in
            [mk_section (systemDNSSectionName name target) ''cname'' [(''cname'', name), (''target'', target)] []])) systems)"

definition mediaDNSSections :: "Site \<Rightarrow> MediaConfig \<Rightarrow> Section list" where
  "mediaDNSSections site config =
     (if \<not> me_Enabled config then []
      else map (\<lambda>alias. mk_section (''boetticher_media_cname_'' @ alias) ''cname''
             [(''cname'', alias @ ''.'' @ me_ApplicationDomain config),
              (''target'', ''lab-media-01.'' @ nw_Domain (s_Network site))] [])
        (media_aliases config @ [''qbittorrent'', ''jellyfin'', ''jellyseerr'']))"

definition observabilityDNSSections :: "string \<Rightarrow> Section list" where
  "observabilityDNSSections publicDomain =
     map (\<lambda>name. let fqdn = name @ ''.'' @ publicDomain in
       mk_section (''boetticher_observability_record_'' @ nativeRecordSuffix fqdn) ''hostrecord''
         [(''name'', fqdn), (''ip'', ''10.10.10.20'')] []) observability_labels"

record dnsBinding =
  db_name :: string
  db_ip :: string
  db_role :: nat
  db_aliases :: "string list"

definition component_binding :: "Component \<Rightarrow> gerror + dnsBinding list" where
  "component_binding c =
     (if TrimSpace (c_Hostname c) = [] \<or> TrimSpace (c_Address c) = [] then Inr []
      else if canonical_ip4 (c_Address c) = None then
        Inl (Errorf ''infrastructure DNS binding %q has malformed IPv4 address %q'' [c_Hostname c, c_Address c])
      else Inr [\<lparr>db_name = c_Hostname c, db_ip = c_Address c, db_role = 0, db_aliases = c_DNSAliases c\<rparr>])"

definition zone_binding :: "Zone \<Rightarrow> gerror + dnsBinding list" where
  "zone_binding z =
     (if TrimSpace (z_Name z) = [] \<or> TrimSpace (z_Gateway z) = [] then Inr []
      else if canonical_ip4 (z_Gateway z) = None then
        Inl (Errorf ''infrastructure DNS binding for zone %q has malformed IPv4 gateway %q'' [z_Name z, z_Gateway z])
      else Inr [\<lparr>db_name = ToLower (z_Name z) @ ''-gateway'', db_ip = z_Gateway z, db_role = 1, db_aliases = []\<rparr>])"

definition dns_bindings :: "Site \<Rightarrow> gerror + dnsBinding list" where
  "dns_bindings site =
     bindE (mapE component_binding (s_Components site)) (\<lambda>components.
     bindE (mapE zone_binding (nw_Zones (s_Network site))) (\<lambda>zones.
       let home = gw_ManagementAddress (s_Gateway site);
           homes = (if canonical_ip4 home = None then []
                    else [\<lparr>db_name = ''home-gateway'', db_ip = home, db_role = 2, db_aliases = []\<rparr>])
       in Inr (sort_key (\<lambda>b. (db_role b, db_ip b, db_name b)) (concat components @ concat zones @ homes))))"

definition canonicalBindingTarget :: "string \<Rightarrow> dnsBinding list \<Rightarrow> string \<Rightarrow> string" where
  "canonicalBindingTarget ip bindings domain =
     (case concat (map (\<lambda>b. if db_ip b = ip then ok_value (canonicalName (db_name b) domain) else []) bindings) of
        [] \<Rightarrow> [] | name # _ \<Rightarrow> name)"

text \<open>State of the binding loop: the sections so far, each name with its address, and the
  addresses that have a PTR owner.\<close>

type_synonym binding_state = "Section list \<times> (string \<times> string) list \<times> string list"

definition binding_alias_step ::
  "string \<Rightarrow> string \<Rightarrow> string \<Rightarrow> string \<Rightarrow> Section list \<times> (string \<times> string) list
   \<Rightarrow> gerror + Section list \<times> (string \<times> string) list" where
  "binding_alias_step domain name ip alias st =
     (case st of (sections, seenName) \<Rightarrow>
      case canonicalName alias domain of
        Inl _ \<Rightarrow> Inr (sections, seenName)
      | Inr aliasName \<Rightarrow>
          if aliasName = name then Inr (sections, seenName)
          else case map_of seenName aliasName of
            Some previous \<Rightarrow>
              if previous \<noteq> ip then
                Inl (Errorf ''infrastructure DNS alias %s collides between %s and %s'' [aliasName, previous, ip])
              else Inr (sections, seenName)
          | None \<Rightarrow>
              Inr (sections @ [mk_section (''boetticher_binding_cname_'' @ nativeRecordSuffix (TrimSuffix aliasName ''.''))
                     ''cname'' [(''cname'', aliasName), (''target'', name)] []],
                   (aliasName, ip) # seenName))"

definition binding_dns_step ::
  "string \<Rightarrow> dnsBinding list \<Rightarrow> dnsBinding \<Rightarrow> binding_state \<Rightarrow> gerror + binding_state" where
  "binding_dns_step domain bindings item st =
     (case st of (sections, seenName, seenAddress) \<Rightarrow>
      case canonicalName (db_name item) domain of
        Inl _ \<Rightarrow> Inr st
      | Inr name \<Rightarrow>
        (case map_of seenName name of
           Some previous \<Rightarrow>
             if previous \<noteq> db_ip item then
               Inl (Errorf ''infrastructure DNS name %s collides between %s and %s'' [name, previous, db_ip item])
             else Inr st
         | None \<Rightarrow>
           let seenName' = (name, db_ip item) # seenName; suffix = nativeRecordSuffix (TrimSuffix name ''.'') in
           if db_ip item \<in> set seenAddress then
             Inr (sections @ [mk_section (''boetticher_binding_cname_'' @ suffix) ''cname''
                    [(''cname'', name), (''target'', canonicalBindingTarget (db_ip item) bindings domain)] []],
                  seenName', seenAddress)
           else bindE (foldE (binding_alias_step domain name (db_ip item)) (db_aliases item)
               (sections @ [mk_section (''boetticher_binding_record_'' @ suffix) ''hostrecord''
                  [(''name'', name), (''ip'', db_ip item)] []], seenName'))
             (\<lambda>(sections', seenName''). Inr (sections', seenName'', db_ip item # seenAddress))))"

definition bindingDNSSections :: "Site \<Rightarrow> gerror + Section list" where
  "bindingDNSSections site =
     bindE (dns_bindings site) (\<lambda>bindings.
     bindE (foldE (binding_dns_step (nw_Domain (s_Network site)) bindings) bindings ([], [], []))
       (\<lambda>(sections, _). Inr sections))"

definition owned_dns_names :: "Section list \<Rightarrow> string list" where
  "owned_dns_names sections =
     concat (map (\<lambda>s. filter (\<lambda>n. n \<noteq> []) [opt (sn_Options s) ''name'', opt (sn_Options s) ''cname'']) sections)"

definition owned_dns_addresses :: "Section list \<Rightarrow> (string \<times> string) list" where
  "owned_dns_addresses sections =
     rev (map (\<lambda>s. (opt (sn_Options s) ''ip'', opt (sn_Options s) ''name''))
       (filter (\<lambda>s. sn_Type s = ''hostrecord'') sections))"

definition address_owner :: "(string \<times> string) list \<Rightarrow> string \<Rightarrow> (string \<times> string) option" where
  "address_owner ownedAddresses literal =
     (case ParseIP literal of None \<Rightarrow> None
      | Some ip \<Rightarrow> (case To4 ip of None \<Rightarrow> None
          | Some q \<Rightarrow> map_option (Pair (IPString ip)) (map_of ownedAddresses (IPString q))))"

definition user_record_section ::
  "Site \<Rightarrow> string list \<Rightarrow> (string \<times> string) list \<Rightarrow> ServiceRecord \<Rightarrow> gerror + Section list" where
  "user_record_section site ownedNames ownedAddresses r =
     (let domain = nw_Domain (s_Network site) in
      case canonicalName (sr_Name r) domain of
        Inl _ \<Rightarrow> Inr []
      | Inr name \<Rightarrow>
          if name \<in> set ownedNames then
            Inl (Errorf ''user DNS record %s collides with infrastructure-owned name'' [name])
          else let safe = TrimPrefix (nativeRecordSectionName name) ''boetticher_record_'' in
            if sr_Type r = ''A'' then
              (case address_owner ownedAddresses (sr_Value r) of
                 Some (address, owner) \<Rightarrow>
                   Inl (Errorf ''user DNS A record %s collides with infrastructure address %s owned by %s; use a CNAME alias''
                     [name, address, owner])
               | None \<Rightarrow> Inr [mk_section (''boetticher_record_'' @ safe) ''hostrecord''
                   [(''name'', name), (''ip'', sr_Value r)] []])
            else if sr_Type r = ''CNAME'' then
              (case canonicalName (sr_Value r) domain of
                 Inl _ \<Rightarrow> Inr []
               | Inr target \<Rightarrow> Inr [mk_section (''boetticher_cname_'' @ nativeRecordSuffix (TrimSuffix name ''.'')) ''cname''
                   [(''cname'', name), (''target'', target)] []])
            else Inr [])"

definition dnsRecordSections :: "Site \<Rightarrow> ServiceRecord list \<Rightarrow> gerror + Section list" where
  "dnsRecordSections site records =
     bindE (bindingDNSSections site) (\<lambda>bindings.
     bindE (mapE (user_record_section site (owned_dns_names bindings) (owned_dns_addresses bindings)) records)
       (\<lambda>generated. Inr (bindings @ concat generated)))"

definition InfrastructureDNSRecords :: "Site \<Rightarrow> gerror + DNSRecord list" where
  "InfrastructureDNSRecords site =
     bindE (bindingDNSSections site) (\<lambda>sections. Inr (concat (map (\<lambda>s.
       if sn_Type s = ''hostrecord'' then
         [\<lparr>dr_Name = opt (sn_Options s) ''name'', dr_Type = ''A'', dr_Address = opt (sn_Options s) ''ip'', dr_Owner = ''infrastructure''\<rparr>]
       else if sn_Type s = ''cname'' then
         [\<lparr>dr_Name = opt (sn_Options s) ''cname'', dr_Type = ''CNAME'', dr_Address = opt (sn_Options s) ''target'', dr_Owner = ''infrastructure''\<rparr>]
       else []) sections)))"

section \<open>dnsmasq, Stubby and time\<close>

definition iface :: "string \<Rightarrow> string" where
  "iface zone = ''boetticher_iface_'' @ ToLower zone"

definition dnsmasq_section :: "Site \<Rightarrow> bool \<Rightarrow> bool \<Rightarrow> Section" where
  "dnsmasq_section site dnsEnabled dhcpEnabled =
     (let domain = nw_Domain (s_Network site) in
      mk_section ''boetticher_dnsmasq'' ''dnsmasq''
       (override_options
         [(''disabled'', ''1''), (''port'', ''0''), (''domainneeded'', ''1''), (''boguspriv'', ''1''), (''noresolv'', ''1''),
          (''localservice'', ''1''), (''rebind_protection'', ''1''), (''leasefile'', LeaseFilePath), (''domain'', domain)]
         ((if dnsEnabled then
             [(''disabled'', ''0''), (''local'', ''/'' @ domain @ ''/''), (''port'', ''53'')] @
             (if dhcpEnabled then [(''extraconftext'', ''dhcp-ignore-names=tag:boetticher_sandbox'')] else [])
           else []) @
          (if dhcpEnabled then [(''disabled'', ''0''), (''port'', ''53'')] else [])))
       (if dnsEnabled then
          (''server'', [StubbyListenAddress]) #
          (if nw_Zones (s_Network site) = [] then []
           else [(''interface'', map (\<lambda>z. iface (z_Name z)) (nw_Zones (s_Network site)))])
        else []))"

definition home_dhcp_section :: Section where
  "home_dhcp_section = mk_section ''boetticher_home'' ''dhcp''
     [(''interface'', ''boetticher_home''), (''ignore'', ''1''), (''ra'', ''disabled''), (''dhcpv6'', ''disabled''), (''ndp'', ''disabled'')] []"

definition pool_options :: "DHCPScope \<Rightarrow> (string \<times> string) list" where
  "pool_options scope =
     (if sc_Mode scope = ScopePool then
        (case (ParseIP (sc_PoolStart scope), ParseIP (sc_PoolEnd scope)) of
           (Some a, Some b) \<Rightarrow>
             (case (To4 a, To4 b) of
                (Some start, Some end') \<Rightarrow>
                  [(''start'', nat_digits (unat (start ! 3))),
                   (''limit'', nat_digits (unat (end' ! 3 - start ! 3 + 1))),
                   (''dynamicdhcp'', ''1'')]
              | _ \<Rightarrow> [])
         | _ \<Rightarrow> [])
      else [])"

definition scope_section :: "Site \<Rightarrow> DHCPConfig \<Rightarrow> DHCPScope \<Rightarrow> Section list" where
  "scope_section site dhcp scope =
     (case serviceZoneByName site (sc_Zone scope) of
        None \<Rightarrow> []
      | Some zone \<Rightarrow>
          [mk_section (''boetticher_dhcp_'' @ ToLower (z_Name zone)) ''dhcp''
            (override_options
              [(''interface'', iface (z_Name zone)), (''leasetime'', dh_LeaseDuration dhcp), (''start'', ''2''),
               (''limit'', ''253''), (''dynamicdhcp'', ''0''), (''force'', ''1'')]
              (pool_options scope @
               (if sc_PublishNames scope = Some False \<and> z_Type zone = ZoneTypeSandbox
                then [(''networkid'', ''boetticher_sandbox'')] else [])))
            [(''dhcp_option'',
              [''3,'' @ z_Gateway zone,
               ''121,10.10.0.0/16,'' @ z_Gateway zone @ '',0.0.0.0/0,'' @ z_Gateway zone,
               ''6,'' @ z_Gateway zone, ''15,'' @ nw_Domain (s_Network site), ''42,'' @ z_Gateway zone])]])"

definition host_section :: "Reservation \<Rightarrow> Section" where
  "host_section r =
     (let name = ToLower (rv_Name r) in
      mk_section (nativeHostSectionName name) ''host''
        [(''name'', name), (''mac'', rv_MAC r), (''ip'', rv_Address r), (''dns'', ''1'')] [])"

definition dnsmasqSections :: "Site \<Rightarrow> Modules \<Rightarrow> Section list" where
  "dnsmasqSections site modules =
     [dnsmasq_section site (dns_enabled modules) (dhcp_enabled modules), home_dhcp_section] @
     (if \<not> dhcp_enabled modules then []
      else case m_DHCP modules of None \<Rightarrow> []
      | Some dhcp \<Rightarrow>
          concat (map (scope_section site dhcp) (dh_Scopes dhcp)) @ map host_section (dh_Reservations dhcp))"

definition stubby_global :: Section where
  "stubby_global = mk_section ''global'' ''stubby''
     [(''manual'', ''0''), (''trigger'', ''boetticher_home''), (''tls_authentication'', ''1''), (''tls_min_version'', ''1.2''),
      (''edns_client_subnet_private'', ''1''), (''round_robin_upstreams'', ''1''), (''appdata_dir'', ''/var/lib/stubby''),
      (''tls_query_padding_blocksize'', ''128''), (''idle_timeout'', ''10000'')]
     [(''listen_address'', [''127.0.0.1@5453'']), (''dns_transport'', [''GETDNS_TRANSPORT_TLS''])]"

definition resolver_section :: "DNSUpstream \<Rightarrow> Section" where
  "resolver_section u =
     mk_section (''boetticher_resolver_'' @ TrimPrefix (nativeResolverSectionName (du_Address u)) ''boetticher_resolver_'') ''resolver''
       [(''address'', du_Address u), (''tls_auth_name'', du_TLSName u), (''tls_port'', itoa (du_Port u))] []"

definition stubbySections :: "DNSUpstream list \<Rightarrow> Section list" where
  "stubbySections upstreams = stubby_global # map resolver_section upstreams"

definition ntpSections :: "string list \<Rightarrow> bool option \<Rightarrow> Section list" where
  "ntpSections upstreams serve =
     [mk_section ''ntp'' ''timeserver''
       [(''enabled'', ''1''), (''use_dhcp'', ''0''), (''enable_server'', if serve = Some True then ''1'' else ''0'')]
       [(''server'', upstreams)]]"

section \<open>Service firewall\<close>

definition system_rule :: "System \<Rightarrow> string \<Rightarrow> string \<Rightarrow> (string \<times> string) list \<Rightarrow> Section" where
  "system_rule s kind source extra =
     rule_section (''boetticher_system_'' @ nativeIdentifier (ToLower (sy_Name s)) @ ''_'' @ kind)
       ([(''name'', ''Boetticher system '' @ sy_Name s @ '' '' @ kind), (''src'', source), (''dest'', ''servers''),
         (''dest_ip'', sy_Address s), (''proto'', ''tcp''), (''dest_port'', itoa (sy_Port s)), (''family'', ''ipv4''),
         (''target'', ''ACCEPT'')] @ extra)"

definition systemFirewallSections :: "System list \<Rightarrow> Section list" where
  "systemFirewallSections systems =
     concat (map (\<lambda>s. system_rule s ''trusted'' ''trusted'' [] #
       (if sy_Monitoring s then [system_rule s ''monitoring'' ''infra'' [(''src_ip'', ''10.10.10.20'')]] else [])) systems)"

definition home_network :: "Site \<Rightarrow> string" where
  "home_network site = override (gw_ManagementNetwork (s_Gateway site)) GatewayManagementNetwork"

definition publication_section :: "Site \<Rightarrow> System \<Rightarrow> Section" where
  "publication_section site s =
     mk_section (''boetticher_system_'' @ nativeIdentifier (ToLower (sy_Name s)) @ ''_home_publication'') ''redirect''
       [(''name'', ''Boetticher system '' @ sy_Name s @ '' HOME publication''), (''src'', ''home_wan''),
        (''src_ip'', home_network site), (''src_dport'', itoa (sy_HomePort s)), (''dest'', ''servers''),
        (''dest_ip'', sy_Address s), (''dest_port'', itoa (sy_Port s)), (''target'', ''DNAT''), (''family'', ''ipv4''),
        (''reflection'', ''0'')]
       [(''proto'', [''tcp''])]"

definition systemHomePublicationSections :: "Site \<Rightarrow> System list \<Rightarrow> Section list" where
  "systemHomePublicationSections site systems =
     map (publication_section site) (filter (\<lambda>s. sy_HomePort s \<noteq> 0) systems)"

definition media_enabled :: "Modules \<Rightarrow> bool" where
  "media_enabled m \<longleftrightarrow> (case m_Media m of None \<Rightarrow> False | Some c \<Rightarrow> me_Enabled c)"

definition mediaMonitoringFirewallSections :: "Modules \<Rightarrow> Section list" where
  "mediaMonitoringFirewallSections modules =
     (if \<not> media_enabled modules \<or> \<not> observability_enabled modules then []
      else [rule_section ''boetticher_media_monitoring''
        [(''name'', ''Boetticher media monitoring''), (''src'', ''infra''), (''src_ip'', ''10.10.10.20/32''),
         (''dest'', ''servers''), (''dest_ip'', ''10.10.20.230/32''), (''proto'', ''tcp''), (''dest_port'', ''9110''),
         (''family'', ''ipv4''), (''target'', ''ACCEPT'')]])"

definition hasExactTailnetReservation :: "Modules \<Rightarrow> bool" where
  "hasExactTailnetReservation modules =
     (case m_DHCP modules of None \<Rightarrow> False
      | Some dhcp \<Rightarrow> list_ex (\<lambda>r. rv_Name r = ''lab-tailnet-01'' \<and> rv_Zone r = ''TRANSIT'' \<and>
          EqualFold (rv_MAC r) tailnet_GuestMAC \<and> rv_Address r = tailnet_GuestAddress) (dh_Reservations dhcp))"

definition observability_rule ::
  "string \<Rightarrow> string \<Rightarrow> string \<Rightarrow> string \<Rightarrow> string \<Rightarrow> string \<Rightarrow> (string \<times> string) list \<Rightarrow> Section" where
  "observability_rule name src srcIP dest destIP port extra =
     rule_section (''boetticher_observability_'' @ name)
       ([(''name'', ''Boetticher Observability '' @ name), (''src'', src), (''src_ip'', srcIP), (''dest'', dest),
         (''dest_ip'', destIP), (''proto'', ''tcp''), (''dest_port'', port), (''family'', ''ipv4''), (''target'', ''ACCEPT'')] @ extra)"

definition role_check :: "Site \<Rightarrow> string \<times> string \<times> string \<Rightarrow> gerror + unit" where
  "role_check site role =
     (case role of (name, address, zoneName) \<Rightarrow>
      case serviceZoneByName site zoneName of
        None \<Rightarrow> Inl (Errorf ''%s zone is required for observability firewall projection'' [zoneName])
      | Some zone \<Rightarrow>
          fails (case (ParseAddr address, ParsePrefix (z_Network zone)) of
              (Some a, Some prefix) \<Rightarrow> \<not> Is4 a \<or> \<not> PrefixContains prefix a
            | _ \<Rightarrow> True)
            (Errorf ''observability %s binding is outside %s'' [name, zoneName]))"

definition host32 :: "string \<Rightarrow> string" where
  "host32 a = a @ ''/32''"

definition observabilityFirewallSections :: "Site \<Rightarrow> Modules \<Rightarrow> gerror + Section list" where
  "observabilityFirewallSections site modules =
     (case m_Observability modules of None \<Rightarrow> Inr []
      | Some obs \<Rightarrow>
        if \<not> Enabled (obs_Enabled obs) then Inr []
        else let b = obs_Collection obs; c = ob_Controller b; h = ob_ProxmoxHost b; r = ob_Runtime b in
          if c = [] \<or> h = [] \<or> r = [] then
            Inl (Errorf ''enabled observability requires complete collection bindings'' [])
          else bindE (allE (role_check site)
              [(''controller'', c, ''SERVERS''), (''proxmox host'', h, ''MGMT''), (''runtime'', r, ''INFRA'')]) (\<lambda>_.
            case serviceZoneByName site ''TRUSTED'' of
              None \<Rightarrow> Inl (Errorf ''TRUSTED zone is required for observability firewall projection'' [])
            | Some trusted \<Rightarrow> Inr
                ([observability_rule ''controller_exporter'' ''infra'' (host32 r) ''servers'' (host32 c) ''9100'' [],
                  observability_rule ''controller_portal'' ''infra'' (host32 r) ''servers'' (host32 c) ''8090'' [],
                  observability_rule ''host_exporter'' ''infra'' (host32 r) ''mgmt'' (host32 h) ''9100'' [],
                  observability_rule ''controller_ingress'' ''servers'' (host32 c) ''infra'' (host32 r) ''443'' [],
                  observability_rule ''host_ingress'' ''mgmt'' (host32 h) ''infra'' (host32 r) ''443'' [],
                  observability_rule ''runtime_ingress'' ''infra'' (host32 r) ''infra'' (host32 r) ''443'' [],
                  observability_rule ''trusted_ingress'' ''trusted'' (z_Network trusted) ''infra'' (host32 r) ''443'' []] @
                 (if tailnet_enabled modules \<and> hasExactTailnetReservation modules then
                    [observability_rule ''tailnet_ingress'' ''transit'' (host32 tailnet_GuestAddress) ''infra'' (host32 r) ''443''
                      [(''src_mac'', tailnet_GuestMAC)]]
                  else []))))"

section \<open>The service state\<close>

definition time_settings :: "Modules \<Rightarrow> string list \<times> bool option" where
  "time_settings modules =
     (case m_DHCP modules of
        None \<Rightarrow> (DefaultTimeUpstreams, None)
      | Some dhcp \<Rightarrow>
          if dh_TimeUpstreams dhcp = [] then (DefaultTimeUpstreams, None)
          else (dh_TimeUpstreams dhcp, if Enabled (dh_Enabled dhcp) then dh_TimeServe dhcp else Some False))"

definition dns_service_sections :: "Site \<Rightarrow> Modules \<Rightarrow> gerror + Section list \<times> Section list" where
  "dns_service_sections site n =
     (case m_DNS n of
        None \<Rightarrow> Inr ([], [])
      | Some dns \<Rightarrow>
          bindE (dnsRecordSections site (dns_Records dns)) (\<lambda>generated. Inr
            (generated @ systemDNSSections site (m_Systems n) @
             (case m_Media n of None \<Rightarrow> [] | Some media \<Rightarrow> if me_Enabled media then mediaDNSSections site media else []),
             stubbySections (if dns_Upstreams dns = [] then DefaultDNSUpstreams else dns_Upstreams dns))))"

definition observability_dns :: "Modules \<Rightarrow> Section list" where
  "observability_dns n =
     (case m_Observability n of None \<Rightarrow> []
      | Some obs \<Rightarrow> if ValidPublicDomain (obs_PublicDomain obs) then observabilityDNSSections (obs_PublicDomain obs) else [])"

definition ServiceStateFromModules :: "url_parser \<Rightarrow> Site \<Rightarrow> Modules \<Rightarrow> gerror + ServiceState" where
  "ServiceStateFromModules urlParse site modules =
     (let normalized = Normalize modules in
      bindE (Validate urlParse normalized site) (\<lambda>_.
      let n = SystemsExpanded normalized in
      bindE (dns_service_sections site n) (\<lambda>(records, stubby).
      bindE (observabilityFirewallSections site n) (\<lambda>observability. Inr
        \<lparr>ss_DHCP = dnsmasqSections site n @ records @ observability_dns n,
         ss_Stubby = stubby,
         ss_System = (case time_settings n of (upstreams, serve) \<Rightarrow> ntpSections upstreams serve),
         ss_Firewall = serviceFirewallSections site (dns_enabled n) (dhcp_enabled n) (vpn_enabled n) @
           systemFirewallSections (m_Systems n) @ systemHomePublicationSections site (m_Systems n) @
           mediaMonitoringFirewallSections n @ observability\<rparr>))))"

definition ValidateServiceState :: "ServiceState \<Rightarrow> gerror + unit" where
  "ValidateServiceState state =
     fails (ss_Stubby state \<noteq> [] \<and> ss_DHCP state = [])
       (Errorf ''stubby configuration requires the shared dnsmasq scope'' [])"

end
