(* ===== verification/Appliance_Compose.thy ===== *)
theory Appliance_Compose
  imports Appliance_Services
begin

text \<open>
  The complete desired state of the appliance: network and firewall sections of
  \<^verbatim>\<open>internal/firewallmodule/desired.go\<close>, the VPN projection of \<^verbatim>\<open>vpn.go\<close>, and
  the composition of all packages with the safety sets in \<^verbatim>\<open>composer.go\<close>.
\<close>

section \<open>Network and firewall of the zones\<close>

definition zoneOrder :: "ZoneType list" where
  "zoneOrder = [ZoneTypeTransit, ZoneTypeInfrastructure, ZoneTypeServers, ZoneTypeTrusted, ZoneTypeSandbox,
     ZoneTypeManagement]"

text \<open>The package's own \<open>Zone\<close>: name, type, VLAN, subnet and gateway of the site's zone.\<close>

record ApplianceZone =
  az_Name :: string
  az_Type :: ZoneType
  az_VLAN :: int
  az_Subnet :: string
  az_Gateway :: string

record DesiredState =
  ds_ManagementAddress :: string
  ds_ManagementNetwork :: string
  ds_ManagementNetmask :: string
  ds_ManagementGateway :: string
  ds_ControllerAddress :: string
  ds_Zones :: "ApplianceZone list"
  ds_Network :: "Section list"
  ds_Firewall :: "Section list"

record CompositionPolicy =
  po_ProtectedIPv4 :: "string list option"
  po_ControllerLABAddress :: string
  po_ControllerLABMAC :: string

definition prefixNetmask :: "Prefix \<Rightarrow> gerror + string" where
  "prefixNetmask p =
     (if pf_Bits p > 32 then Inl (Errorf ''gateway.management_network must be an IPv4 prefix'' [])
      else Inr (ip4_string (CIDRMask (pf_Bits p) 4)))"

definition zone_network_sections :: "ApplianceZone \<Rightarrow> Section list" where
  "zone_network_sections z =
     (let name = ToLower (az_Name z); vlan = itoa (az_VLAN z) in
      [mk_section (''boetticher_vlan_'' @ name) ''bridge-vlan'' [(''device'', ''br-lab''), (''vlan'', vlan)]
         [(''ports'', [''eth1:t''])],
       mk_section (''boetticher_iface_'' @ name) ''interface''
         [(''device'', ''br-lab.'' @ vlan), (''proto'', ''static''), (''ipaddr'', az_Gateway z),
          (''netmask'', ''255.255.255.0''), (''delegate'', ''0''), (''ipv6'', ''0'')] []])"

definition networkSections :: "ApplianceZone list \<Rightarrow> string \<Rightarrow> string \<Rightarrow> string \<Rightarrow> Section list" where
  "networkSections zones managementAddress managementNetmask managementGateway =
     [mk_section ''boetticher_home'' ''interface''
        [(''device'', ''eth0''), (''proto'', ''static''), (''ipaddr'', managementAddress), (''netmask'', managementNetmask),
         (''gateway'', managementGateway), (''delegate'', ''0''), (''ipv6'', ''0'')] [],
      mk_section ''boetticher_lab_trunk'' ''device'' [(''name'', ''br-lab''), (''type'', ''bridge''), (''ipv6'', ''0'')]
        [(''ports'', [''eth1''])]] @
     concat (map zone_network_sections zones)"

definition zone_section :: "string \<Rightarrow> string \<Rightarrow> string \<Rightarrow> bool \<Rightarrow> Section" where
  "zone_section section_name name network masq =
     mk_section section_name ''zone''
       ([(''name'', name), (''input'', ''DROP''), (''output'', ''ACCEPT''), (''forward'', ''DROP''), (''family'', ''ipv4'')] @
        (if masq then [(''masq'', ''1''), (''mtu_fix'', ''1'')] else []))
       [(''network'', [network])]"

definition forwarding_section :: "string \<Rightarrow> string \<Rightarrow> string \<Rightarrow> Section" where
  "forwarding_section name src dest =
     mk_section name ''forwarding'' [(''src'', src), (''dest'', dest), (''family'', ''ipv4'')] []"

definition zone_base_sections :: "ApplianceZone \<Rightarrow> Section list" where
  "zone_base_sections z =
     (let name = ToLower (az_Name z) in
      [zone_section (''boetticher_zone_'' @ name) name (''boetticher_iface_'' @ name) False,
       rule_section (''boetticher_allow_'' @ name @ ''_ping'')
         [(''name'', ''Boetticher '' @ az_Name z @ '' gateway ping''), (''src'', name), (''proto'', ''icmp''),
          (''icmp_type'', ''echo-request''), (''family'', ''ipv4''), (''target'', ''ACCEPT'')]])"

definition zone_policy_sections :: "ApplianceZone list \<Rightarrow> string \<Rightarrow> ApplianceZone \<Rightarrow> Section list" where
  "zone_policy_sections zones managementNetwork z =
     (let name = ToLower (az_Name z) in
      (if az_Type z \<noteq> ZoneTypeTransit then
         [rule_section (''boetticher_deny_'' @ name @ ''_home_management'')
            [(''name'', ''Boetticher '' @ az_Name z @ '' deny HOME management''), (''src'', name), (''dest'', ''home_wan''),
             (''dest_ip'', managementNetwork), (''family'', ''ipv4''), (''target'', ''DROP'')],
          forwarding_section (''boetticher_forward_'' @ name @ ''_home_wan'') name ''home_wan'']
       else []) @
      (if az_Type z = ZoneTypeTrusted then
         rule_section ''boetticher_allow_trusted_proxmox_ssh''
           [(''name'', ''Boetticher TRUSTED Proxmox SSH''), (''src'', name), (''dest'', ''mgmt''),
            (''dest_ip'', host32 ProxmoxManagementAddress), (''proto'', ''tcp''), (''dest_port'', ''22''), (''family'', ''ipv4''),
            (''target'', ''ACCEPT'')] #
         map (\<lambda>(zone, _). forwarding_section (''boetticher_forward_trusted_'' @ ToLower zone) name (ToLower zone))
           TrustedRoutedDestinations
       else []) @
      (if az_Type z = ZoneTypeManagement then
         map (\<lambda>t. forwarding_section (''boetticher_forward_mgmt_'' @ ToLower (az_Name t)) name (ToLower (az_Name t)))
           (filter (\<lambda>t. az_Type t \<noteq> az_Type z) zones)
       else []))"

definition firewallSections :: "ApplianceZone list \<Rightarrow> string \<Rightarrow> string \<Rightarrow> Section list" where
  "firewallSections zones managementNetwork controllerAddress =
     zone_section ''boetticher_home_wan'' ''home_wan'' ''boetticher_home'' True #
     concat (map zone_base_sections zones) @
     concat (map (zone_policy_sections zones managementNetwork) zones) @
     [rule_section ''boetticher_allow_home_api''
        [(''name'', ''Boetticher Controller management API''), (''src'', ''home_wan''), (''src_ip'', host32 controllerAddress),
         (''proto'', ''tcp''), (''dest_port'', ''443''), (''family'', ''ipv4''), (''target'', ''ACCEPT'')]]"

section \<open>Desired state\<close>

definition broadcast_octets :: "Prefix \<Rightarrow> IP" where
  "broadcast_octets p =
     map2 (\<lambda>a m. a OR NOT m) (octets (pf_Addr (Masked p))) (CIDRMask (pf_Bits p) 4)"

definition management_check :: "string \<Rightarrow> string \<Rightarrow> string \<Rightarrow> string \<Rightarrow> gerror + string" where
  "management_check management managementNetwork managementGateway controllerAddress =
     (case ParsePrefix managementNetwork of
        None \<Rightarrow> Inl (Errorf ''gateway.management_network must be a canonical IPv4 CIDR'' [])
      | Some prefix \<Rightarrow>
        if \<not> Is4 (pf_Addr prefix) \<or> PrefixString prefix \<noteq> managementNetwork then
          Inl (Errorf ''gateway.management_network must be a canonical IPv4 CIDR'' [])
        else bindE (prefixNetmask prefix) (\<lambda>managementNetmask.
          case canonical_addr4 management of
            None \<Rightarrow> Inl (Errorf ''gateway.management_address must be a canonical IPv4 address'' [])
          | Some managementIP \<Rightarrow>
            if \<not> IsPrivate managementIP \<or> \<not> PrefixContains prefix managementIP then
              Inl (Errorf ''gateway.management_address must be a HOME private IPv4 address'' [])
            else if managementIP = pf_Addr (Masked prefix) \<or> managementIP = Addr4 (broadcast_octets prefix) \<or>
                Some managementIP \<in> {ParseAddr GatewayManagementGateway, ParseAddr GatewayControllerAddress, ParseAddr ''192.168.4.5''} then
              Inl (Errorf ''gateway.management_address must be a usable HOME address without reserved bindings'' [])
            else if (case ParseAddr managementGateway of None \<Rightarrow> True
                | Some g \<Rightarrow> \<not> Is4 g \<or> \<not> PrefixContains prefix g \<or> g = managementIP) then
              Inl (Errorf ''gateway.management_gateway must be a distinct IPv4 address in management_network'' [])
            else if (case ParseAddr controllerAddress of None \<Rightarrow> True
                | Some c \<Rightarrow> \<not> Is4 c \<or> \<not> PrefixContains prefix c) then
              Inl (Errorf ''gateway.controller_address must be an IPv4 address in management_network'' [])
            else Inr managementNetmask))"

text \<open>State of the zone loop: zones by type, and VLANs and subnets with the zone using each.\<close>

definition appliance_zone_step ::
  "Zone \<Rightarrow> (ZoneType \<times> Zone) list \<times> (int \<times> string) list \<times> (string \<times> string) list
   \<Rightarrow> gerror + (ZoneType \<times> Zone) list \<times> (int \<times> string) list \<times> (string \<times> string) list" where
  "appliance_zone_step z st =
     (case st of (byType, seenVLAN, seenSubnet) \<Rightarrow>
      if map_of byType (z_Type z) \<noteq> None then Inl (Errorf ''duplicate network zone type %q'' [z_Type z])
      else case ParsePrefix (z_Network z) of
        None \<Rightarrow> Inl (Errorf ''zone %s has malformed IPv4 subnet %q'' [z_Name z, z_Network z])
      | Some prefix \<Rightarrow>
        if \<not> Is4 (pf_Addr prefix) \<or> pf_Bits prefix \<noteq> 24 \<or> PrefixString prefix \<noteq> z_Network z then
          Inl (Errorf ''zone %s has malformed IPv4 subnet %q'' [z_Name z, z_Network z])
        else if (case ParseAddr (z_Gateway z) of None \<Rightarrow> True
            | Some gateway \<Rightarrow> \<not> Is4 gateway \<or> \<not> PrefixContains prefix gateway) then
          Inl (Errorf ''zone %s gateway %q is outside subnet %q'' [z_Name z, z_Gateway z, z_Network z])
        else case map_of seenVLAN (z_VLAN z) of
          Some previous \<Rightarrow> Inl (Errorf ''zones %s and %s share VLAN %d'' [previous, z_Name z, itoa (z_VLAN z)])
        | None \<Rightarrow>
          (case map_of seenSubnet (z_Network z) of
             Some previous \<Rightarrow> Inl (Errorf ''zones %s and %s share subnet %s'' [previous, z_Name z, z_Network z])
           | None \<Rightarrow> Inr ((z_Type z, z) # byType, (z_VLAN z, z_Name z) # seenVLAN,
                          (z_Network z, z_Name z) # seenSubnet)))"

definition appliance_zone :: "(ZoneType \<times> Zone) list \<Rightarrow> ZoneType \<Rightarrow> gerror + ApplianceZone" where
  "appliance_zone byType kind =
     (case map_of byType kind of
        None \<Rightarrow> Inl (Errorf ''required network zone %q is missing'' [kind])
      | Some z \<Rightarrow> Inr \<lparr>az_Name = z_Name z, az_Type = z_Type z, az_VLAN = z_VLAN z, az_Subnet = z_Network z,
          az_Gateway = z_Gateway z\<rparr>)"

definition controller_lab_rule ::
  "Modules \<Rightarrow> ApplianceZone \<Rightarrow> CompositionPolicy \<Rightarrow> gerror + Section list" where
  "controller_lab_rule services servers p =
     (if po_ControllerLABAddress p = [] then Inr []
      else case (ParseIP (po_ControllerLABAddress p), ParseMAC (po_ControllerLABMAC p)) of
        (Some ip, Some mac) \<Rightarrow>
          (case To4 ip of
             None \<Rightarrow> Inl (Errorf ''controller LAB binding is invalid'' [])
           | Some q \<Rightarrow>
             if length mac \<noteq> 6 then Inl (Errorf ''controller LAB binding is invalid'' [])
             else if (case ParsePrefix (az_Subnet servers) of None \<Rightarrow> True
                 | Some prefix \<Rightarrow> \<not> PrefixContains prefix (Addr4 q)) then
               Inl (Errorf ''controller LAB address must be in SERVERS'' [])
             else if \<not> (case m_DHCP services of None \<Rightarrow> False
                 | Some dhcp \<Rightarrow> list_ex (\<lambda>r. rv_Zone r = ''SERVERS'' \<and> rv_Address r = ip4_string q \<and>
                     EqualFold (rv_MAC r) (po_ControllerLABMAC p)) (dh_Reservations dhcp)) then
               Inl (Errorf ''controller LAB binding does not match a SERVERS reservation'' [])
             else Inr [rule_section ''boetticher_allow_controller_lab_ssh''
               [(''name'', ''Boetticher Controller LAB SSH''), (''src'', ''servers''), (''src_ip'', host32 (ip4_string q)),
                (''src_mac'', ToLower (po_ControllerLABMAC p)), (''dest'', ''mgmt''),
                (''dest_ip'', host32 ProxmoxManagementAddress), (''proto'', ''tcp''), (''dest_port'', ''22''), (''target'', ''ACCEPT'')]])
      | _ \<Rightarrow> Inl (Errorf ''controller LAB binding is invalid'' []))"

definition policy_sections ::
  "Modules \<Rightarrow> ApplianceZone list \<Rightarrow> CompositionPolicy option \<Rightarrow> gerror + Section list" where
  "policy_sections services zones policy =
     (case policy of None \<Rightarrow> Inr []
      | Some p \<Rightarrow>
        if (po_ControllerLABAddress p = []) \<noteq> (po_ControllerLABMAC p = []) then
          Inl (Errorf ''controller LAB address and MAC must be supplied together'' [])
        else bindE (controller_lab_rule services (zones ! 2) p) (\<lambda>ssh. Inr
          (rule_section ''boetticher_allow_trusted_proxmox_https''
             [(''name'', ''Boetticher TRUSTED Proxmox HTTPS''), (''src'', ''mgmt''), (''src_ip'', host32 ProxmoxManagementAddress),
              (''dest_ip'', host32 (az_Gateway (zones ! 5))), (''proto'', ''tcp''), (''dest_port'', ''443''), (''target'', ''ACCEPT'')] # ssh)))"

definition DesiredFromSiteWithServices ::
  "url_parser \<Rightarrow> Site \<Rightarrow> Modules \<Rightarrow> CompositionPolicy option \<Rightarrow> gerror + DesiredState" where
  "DesiredFromSiteWithServices urlParse site services policy =
     (let gw = s_Gateway site;
          management = override (gw_ManagementAddress gw) GatewayManagementAddress;
          managementNetwork = home_network site;
          managementGateway = override (gw_ManagementGateway gw) GatewayManagementGateway;
          controllerAddress = override (gw_ControllerAddress gw) GatewayControllerAddress
      in bindE (management_check management managementNetwork managementGateway controllerAddress) (\<lambda>managementNetmask.
         bindE (foldE appliance_zone_step (nw_Zones (s_Network site)) ([], [], [])) (\<lambda>(byType, _).
         bindE (mapE (appliance_zone byType) zoneOrder) (\<lambda>zones.
         bindE (policy_sections services zones policy) (\<lambda>policySections.
         bindE (ServiceStateFromModules urlParse site services) (\<lambda>serviceState. Inr
           \<lparr>ds_ManagementAddress = management, ds_ManagementNetwork = managementNetwork,
            ds_ManagementNetmask = managementNetmask, ds_ManagementGateway = managementGateway,
            ds_ControllerAddress = controllerAddress, ds_Zones = zones,
            ds_Network = networkSections zones management managementNetmask managementGateway,
            ds_Firewall = firewallSections zones managementNetwork controllerAddress @ policySections @
              ss_Firewall serviceState @
              (if tailnet_enabled services then tailnetFirewallSections managementNetwork else [])\<rparr>))))))"

definition zero_Modules :: Modules where
  "zero_Modules = \<lparr>m_Systems = [], m_Tailnet = None, m_DNS = None, m_DHCP = None, m_VPN = None,
     m_Observability = None, m_Media = None, m_Arrstack = None\<rparr>"

definition DesiredFromSite :: "url_parser \<Rightarrow> Site \<Rightarrow> gerror + DesiredState" where
  "DesiredFromSite urlParse site = DesiredFromSiteWithServices urlParse site zero_Modules None"

section \<open>VPN projection\<close>

record VPNProfile =
  vp_PrivateKey :: string
  vp_Address :: string
  vp_PeerPublicKey :: string
  vp_PresharedKey :: string
  vp_EndpointHost :: string
  vp_EndpointPort :: int
  vp_MTU :: int
  vp_PersistentKeepalive :: int

definition ValidateVPNProfile :: "VPNProfile \<Rightarrow> gerror + unit" where
  "ValidateVPNProfile p =
     checks
      [fails (vp_PrivateKey p = [] \<or> vp_PeerPublicKey p = [] \<or> vp_PresharedKey p = [])
         (Errorf ''VPN profile is missing required WireGuard key material'' []),
       fails (vp_Address p = [] \<or> CHR '':'' \<in> set (vp_Address p))
         (Errorf ''VPN profile must contain one IPv4 tunnel address'' []),
       fails (vp_EndpointHost p = [] \<or> vp_EndpointPort p \<le> 0 \<or> vp_MTU p < 576 \<or> vp_MTU p > 9000)
         (Errorf ''VPN profile has invalid endpoint or MTU'' []),
       fails (vp_PersistentKeepalive p < 0 \<or> vp_PersistentKeepalive p > 120)
         (Errorf ''VPN profile has invalid persistent keepalive'' [])]"

definition the_vpn :: "Modules \<Rightarrow> VPNConfig" where
  "the_vpn m = (case m_VPN m of Some vpn \<Rightarrow> vpn
     | None \<Rightarrow> \<lparr>vpn_Enabled = None, vpn_Location = [], vpn_Clients = [], vpn_Forwards = []\<rparr>)"

definition resolved_clients :: "Modules \<Rightarrow> Reservation list" where
  "resolved_clients m = List.map_filter (ResolveReservation m) (vpn_Clients (the_vpn m))"

definition vpn_tunnel_sections :: "VPNProfile \<Rightarrow> Section list" where
  "vpn_tunnel_sections p =
     [mk_section ''airvpn'' ''interface''
        [(''proto'', ''wireguard''), (''private_key'', vp_PrivateKey p), (''fwmark'', ''51820''), (''mtu'', itoa (vp_MTU p)),
         (''force_link'', ''1''), (''ipv6'', ''0''), (''delegate'', ''0'')]
        [(''addresses'', [vp_Address p])],
      mk_section ''boetticher_vpn_peer'' ''wireguard_airvpn''
        [(''public_key'', vp_PeerPublicKey p), (''preshared_key'', vp_PresharedKey p), (''endpoint_host'', vp_EndpointHost p),
         (''endpoint_port'', itoa (vp_EndpointPort p)), (''persistent_keepalive'', itoa (vp_PersistentKeepalive p)),
         (''route_allowed_ips'', ''0'')]
        [(''allowed_ips'', [''0.0.0.0/0''])],
      mk_section ''boetticher_vpn_default'' ''route''
        [(''interface'', ''airvpn''), (''target'', ''0.0.0.0''), (''netmask'', ''0.0.0.0''), (''table'', ''51820'')] []]"

definition vpn_lab_route :: "Zone \<Rightarrow> Section" where
  "vpn_lab_route z =
     mk_section (''boetticher_vpn_lab_'' @ ToLower (z_Name z)) ''route''
       [(''interface'', iface (z_Name z)), (''target'', hd (SplitChar CHR ''/'' (z_Network z))),
        (''netmask'', ''255.255.255.0''), (''table'', ''51820'')] []"

definition vpn_client_sections :: "VPNProfile \<Rightarrow> nat \<times> Reservation \<Rightarrow> Section list" where
  "vpn_client_sections p item =
     (case item of (index, r) \<Rightarrow>
        let address = rv_Address r in
        [mk_section (''boetticher_vpn_rule_'' @ nat_digits index) ''rule''
           [(''src'', host32 address), (''lookup'', ''51820''), (''priority'', nat_digits (10000 + index))] [],
         mk_section (''boetticher_vpn_block_'' @ nat_digits index) ''rule''
           [(''src'', host32 address), (''action'', ''unreachable''), (''priority'', nat_digits (10100 + index))] [],
         mk_section (nativeVPNClientMTUSectionName address) ''route''
           [(''interface'', iface (rv_Zone r)), (''target'', address), (''netmask'', ''255.255.255.255''),
            (''mtu'', itoa (vp_MTU p))] []])"

text \<open>The zone of a forward's destination; the last zone with the name wins, as in the loop.\<close>

definition forward_zone :: "Site \<Rightarrow> Reservation \<Rightarrow> string" where
  "forward_zone site r =
     (case filter (\<lambda>z. EqualFold (z_Name z) (rv_Zone r)) (nw_Zones (s_Network site)) of
        [] \<Rightarrow> [] | zs \<Rightarrow> ToLower (z_Name (last zs)))"

definition vpn_forward_section :: "Site \<Rightarrow> Modules \<Rightarrow> VPNForward \<Rightarrow> Section list" where
  "vpn_forward_section site modules f =
     (case ResolveReservation modules (fw_Reservation f) of
        None \<Rightarrow> []
      | Some r \<Rightarrow>
          if forward_zone site r = [] then []
          else [mk_section (nativeVPNForwardSectionName (fw_Name f)) ''redirect''
            [(''name'', ''Boetticher VPN '' @ fw_Name f), (''src'', ''vpn''), (''dest'', forward_zone site r),
             (''dest_ip'', rv_Address r), (''src_dport'', itoa (fw_Port f)), (''dest_port'', itoa (fw_Port f)),
             (''target'', ''DNAT''), (''family'', ''ipv4''), (''reflection'', ''0'')]
            [(''proto'', fw_Protocols f)]])"

definition vpnSections :: "Site \<Rightarrow> Modules \<Rightarrow> VPNProfile \<Rightarrow> Section list \<times> Section list" where
  "vpnSections site modules profile =
     (vpn_tunnel_sections profile @
      map vpn_lab_route (nw_Zones (s_Network site)) @
      concat (map (vpn_client_sections profile)
        (zip [0..<length (resolved_clients modules)] (resolved_clients modules))),
      zone_section ''boetticher_zone_vpn'' ''vpn'' ''airvpn'' True #
      map (\<lambda>z. forwarding_section (''boetticher_forward_'' @ ToLower (z_Name z) @ ''_vpn'') (ToLower (z_Name z)) ''vpn'')
        (filter (\<lambda>z. z_Type z \<noteq> ZoneTypeTransit \<and> z_Type z \<noteq> ZoneTypeManagement) (nw_Zones (s_Network site))) @
      concat (map (vpn_forward_section site modules) (vpn_Forwards (the_vpn modules))))"

definition DesiredFromSiteWithServicesAndVPN ::
  "url_parser \<Rightarrow> Site \<Rightarrow> Modules \<Rightarrow> VPNProfile \<Rightarrow> CompositionPolicy option \<Rightarrow> gerror + DesiredState" where
  "DesiredFromSiteWithServicesAndVPN urlParse site services profile policy =
     bindE (DesiredFromSiteWithServices urlParse site services policy) (\<lambda>state.
       if \<not> vpn_enabled services then Inr state
       else case vpnSections site services profile of (network, firewall) \<Rightarrow>
         Inr (state\<lparr>ds_Network := ds_Network state @ network, ds_Firewall := ds_Firewall state @ firewall\<rparr>))"

section \<open>Composition\<close>

record Ownership =
  ow_Sections :: "(string \<times> string list) list"
  ow_SafetySets :: "string list"

record VPNDeclaration =
  vd_Clients :: "string list"
  vd_Forwards :: "VPNForward list"

record ApplianceComposition =
  ac_Desired :: DesiredState
  ac_DHCP :: "Section list"
  ac_Stubby :: "Section list"
  ac_System :: "Section list"
  ac_Safety :: SafetyConfig
  ac_DeclaredVPN :: VPNDeclaration
  ac_Ownership :: Ownership

definition ownershipFor ::
  "Section list \<Rightarrow> Section list \<Rightarrow> Section list \<Rightarrow> Section list \<Rightarrow> Section list \<Rightarrow> Ownership" where
  "ownershipFor network firewall dhcp stubby system =
     \<lparr>ow_Sections =
        map (\<lambda>(pkg, values). (pkg, sortedSectionNames values))
          [(''network'', network), (''firewall'', firewall), (''dhcp'', dhcp), (''stubby'', stubby), (''system'', system)],
      ow_SafetySets = [SafetyProtectedSet, SafetyClientSet, SafetyForwardTCPSet, SafetyForwardUDPSet, SafetyHomeSet, SafetyLabSet]\<rparr>"

definition client_address :: "Modules \<Rightarrow> string \<Rightarrow> gerror + string" where
  "client_address modules name =
     (case ResolveReservation modules name of
        None \<Rightarrow> Inl (Errorf ''modules.vpn client %q does not reference a DHCP reservation'' [name])
      | Some r \<Rightarrow> Inr (rv_Address r))"

definition forward_tuples :: "Modules \<Rightarrow> VPNForward \<Rightarrow> gerror + ForwardTuple list" where
  "forward_tuples modules f =
     (case ResolveReservation modules (fw_Reservation f) of
        None \<Rightarrow> Inl (Errorf ''modules.vpn forward %q does not reference a DHCP reservation'' [fw_Name f])
      | Some r \<Rightarrow> Inr (map (\<lambda>protocol.
          \<lparr>ft_Address = rv_Address r, ft_Protocol = protocol, ft_Port = word_of_int (fw_Port f)\<rparr>) (fw_Protocols f)))"

text \<open>The clients and forwards the safety sets admit: none while the VPN is disabled.\<close>

definition active_vpn :: "Modules \<Rightarrow> gerror + string list \<times> ForwardTuple list" where
  "active_vpn modules =
     (if \<not> vpn_enabled modules then Inr ([], [])
      else bindE (mapE (client_address modules) (vpn_Clients (the_vpn modules))) (\<lambda>clients.
           bindE (mapE (forward_tuples modules) (vpn_Forwards (the_vpn modules))) (\<lambda>tuples.
           Inr (clients, concat tuples))))"

definition base_safety :: "CompositionPolicy option \<Rightarrow> DesiredState \<Rightarrow> SafetyConfig" where
  "base_safety policy desired =
     DefaultSafetyConfig\<lparr>
       sf_ProtectedIPv4 := (case policy of None \<Rightarrow> sf_ProtectedIPv4 DefaultSafetyConfig
         | Some p \<Rightarrow> (case po_ProtectedIPv4 p of None \<Rightarrow> sf_ProtectedIPv4 DefaultSafetyConfig | Some ranges \<Rightarrow> ranges)),
       sf_HomeIPv4 := [ds_ManagementNetwork desired],
       sf_LabIPv4 := map az_Subnet (ds_Zones desired)\<rparr>"

definition assemble ::
  "Modules \<Rightarrow> DesiredState \<Rightarrow> ServiceState \<Rightarrow> SafetyConfig \<Rightarrow> Section list \<Rightarrow> ApplianceComposition" where
  "assemble modules desired services safety safetySections =
     (let desired' = desired\<lparr>ds_Firewall := ds_Firewall desired @ safetySections\<rparr> in
      \<lparr>ac_Desired = desired', ac_DHCP = ss_DHCP services, ac_Stubby = ss_Stubby services, ac_System = ss_System services,
       ac_Safety = safety,
       ac_DeclaredVPN = \<lparr>vd_Clients = vpn_Clients (the_vpn modules), vd_Forwards = vpn_Forwards (the_vpn modules)\<rparr>,
       ac_Ownership = ownershipFor (ds_Network desired') (ds_Firewall desired') (ss_DHCP services) (ss_Stubby services)
         (ss_System services)\<rparr>)"

definition ComposeAppliance ::
  "url_parser \<Rightarrow> Site \<Rightarrow> Modules \<Rightarrow> CompositionPolicy option \<Rightarrow> gerror + ApplianceComposition" where
  "ComposeAppliance urlParse site modules policy =
     bindE (DesiredFromSiteWithServices urlParse site modules policy) (\<lambda>desired.
     bindE (ServiceStateFromModules urlParse site modules) (\<lambda>services.
     bindE (active_vpn modules) (\<lambda>vpn.
     let safety = (base_safety policy desired)\<lparr>sf_ClientIPv4 := fst vpn, sf_ForwardTuples := snd vpn\<rparr> in
     bindE (SafetyValidate safety) (\<lambda>_.
     bindE (SafetySections safety) (\<lambda>safetySections.
     Inr (assemble modules desired services safety safetySections))))))"

definition extend_with_vpn :: "Site \<Rightarrow> Modules \<Rightarrow> VPNProfile \<Rightarrow> ApplianceComposition \<Rightarrow> ApplianceComposition" where
  "extend_with_vpn site modules profile c =
     (case vpnSections site modules profile of (network, firewall) \<Rightarrow>
      let d = ac_Desired c;
          d' = d\<lparr>ds_Network := ds_Network d @ network, ds_Firewall := ds_Firewall d @ firewall\<rparr>
      in c\<lparr>ac_Desired := d',
           ac_Ownership := ownershipFor (ds_Network d') (ds_Firewall d') (ac_DHCP c) (ac_Stubby c) (ac_System c)\<rparr>)"

definition ComposeApplianceWithVPN ::
  "url_parser \<Rightarrow> Site \<Rightarrow> Modules \<Rightarrow> CompositionPolicy option \<Rightarrow> VPNProfile \<Rightarrow> gerror + ApplianceComposition" where
  "ComposeApplianceWithVPN urlParse site modules policy profile =
     (if \<not> vpn_enabled modules then ComposeAppliance urlParse site modules policy
      else bindE (ValidateVPNProfile profile) (\<lambda>_.
        bindE (ComposeAppliance urlParse site modules policy) (\<lambda>c. Inr (extend_with_vpn site modules profile c))))"

text \<open>The five packages of a composition, as reconciliation reads them.\<close>

definition composition_packages :: "ApplianceComposition \<Rightarrow> Composition" where
  "composition_packages c =
     \<lparr>cp_Firewall = ds_Firewall (ac_Desired c), cp_Network = ds_Network (ac_Desired c), cp_System = ac_System c,
      cp_Stubby = ac_Stubby c, cp_DHCP = ac_DHCP c\<rparr>"

end
