(* ===== verification/Site_Safety.thy ===== *)
theory Site_Safety
  imports Site_Validate
begin

text \<open>
  What a site that passes \<open>ValidateSite\<close> is guaranteed to be: the fixed six-zone network,
  guest names and VMIDs without clashes and inside their ownership ranges, collision-free DHCP
  reservations, an acyclic alias graph, and user firewall rules that stay out of the protected
  Core.  Each loop of the validator discharges the contract \<open>accumulating_loop\<close>.
\<close>

section \<open>Specifications\<close>

definition zone_contract :: "Zone \<Rightarrow> bool" where
  "zone_contract z \<longleftrightarrow>
     (\<exists>e. map_of expectedZones (z_Name z) = Some e \<and> z_Type z = ez_typ e \<and> z_VLAN z = ez_vlan e \<and>
        z_Network z = ez_network e \<and> z_Gateway z = ez_gateway e) \<and> zone_services_check z = Inr ()"

definition zones_seen :: "Zone list \<Rightarrow> string list \<times> (int \<times> string) list \<Rightarrow> bool" where
  "zones_seen L st \<longleftrightarrow> fst st = rev (map z_Name L) \<and> distinct (map z_Name L) \<and>
     map fst (snd st) = rev (map z_VLAN L) \<and> distinct (map z_VLAN L)"

text \<open>Names and non-zero VMIDs of the guests accepted so far.\<close>

definition used_vmids :: "Component list \<Rightarrow> int list" where
  "used_vmids L = filter (\<lambda>v. v \<noteq> 0) (map c_VMID L)"

definition guests_seen :: "Component list \<Rightarrow> string list \<times> (int \<times> string) list \<Rightarrow> bool" where
  "guests_seen L st \<longleftrightarrow> fst st = rev (map c_Name L) \<and> distinct (map c_Name L) \<and>
     map fst (snd st) = rev (used_vmids L) \<and> distinct (used_vmids L)"

definition vmid_owned :: "Component \<Rightarrow> bool" where
  "vmid_owned m \<longleftrightarrow> c_VMID m = 0 \<or>
     (if c_ProductOwned m then 100 \<le> c_VMID m \<and> c_VMID m \<le> 499 else 500 \<le> c_VMID m \<and> c_VMID m \<le> 899)"

definition component_accepted :: "string list \<Rightarrow> Component \<Rightarrow> bool" where
  "component_accepted zones m \<longleftrightarrow> ValidateComponent m = Inr () \<and> vmid_owned m \<and> c_Zone m \<in> set zones \<and>
     component_ip4 m \<noteq> None"

definition retained_accepted :: "RetainedModule \<Rightarrow> bool" where
  "retained_accepted r \<longleftrightarrow> \<not> rm_Active r \<and>
     (\<forall>g \<in> set (rm_Guests r). c_Module g = rm_Module r \<and> c_ProductOwned g \<and>
        100 \<le> c_VMID g \<and> c_VMID g \<le> 499 \<and> ModuleOwnershipTag (rm_Module r) \<in> set (c_Tags g))"

definition site_guests :: "Site \<Rightarrow> Component list" where
  "site_guests s = s_Components s @ concat (map rm_Guests (s_RetainedModules s))"

definition reservation_address :: "DHCPReservation \<Rightarrow> string" where
  "reservation_address r =
     (case Option.bind (ParseIP (res_Address r)) To4 of None \<Rightarrow> [] | Some q \<Rightarrow> IPString q)"

definition reservation_mac :: "DHCPReservation \<Rightarrow> string" where
  "reservation_mac r = (case ParseMAC (res_MAC r) of None \<Rightarrow> [] | Some m \<Rightarrow> ToLower (MACString m))"

definition reservations_seen ::
  "DHCPReservation list \<Rightarrow> string list \<times> string list \<times> string list \<Rightarrow> bool" where
  "reservations_seen L st \<longleftrightarrow> (case st of (hs, as, ms) \<Rightarrow>
     hs = rev (map (\<lambda>r. ToLower (res_Hostname r)) L) \<and> distinct (map (\<lambda>r. ToLower (res_Hostname r)) L) \<and>
     as = rev (map reservation_address L) \<and> distinct (map reservation_address L) \<and>
     ms = rev (map reservation_mac L) \<and> distinct (map reservation_mac L))"

definition reservation_ok :: "Site \<Rightarrow> Zone \<Rightarrow> DHCPReservation \<Rightarrow> bool" where
  "reservation_ok s servers r \<longleftrightarrow> res_Zone r = ''SERVERS'' \<and>
     (\<exists>ip. ParseIP (res_Address r) = Some ip \<and> usableIPInZone ip servers) \<and>
     reservation_address r \<noteq> z_Gateway servers \<and>
     (reservation_address r \<in> set (platformAddresses s) \<longrightarrow>
        owned_by_platform s (reservation_address r) r)"

definition rec_name :: "string \<Rightarrow> UserDNSRecord \<Rightarrow> string" where
  "rec_name d r = (case privateDNSName (udr_Name r) d of Inl _ \<Rightarrow> [] | Inr n \<Rightarrow> n)"

definition rec_target :: "string \<Rightarrow> UserDNSRecord \<Rightarrow> string" where
  "rec_target d r = (case privateDNSName (udr_Value r) d of Inl _ \<Rightarrow> [] | Inr n \<Rightarrow> n)"

definition cnames :: "string \<Rightarrow> UserDNSRecord list \<Rightarrow> (string \<times> string) list" where
  "cnames d L = map (\<lambda>r. (rec_name d r, rec_target d r)) (filter (\<lambda>r. udr_Type r = ''CNAME'') L)"

definition records_seen ::
  "string \<Rightarrow> UserDNSRecord list \<Rightarrow> string list \<times> (string \<times> string) list \<Rightarrow> bool" where
  "records_seen d L st \<longleftrightarrow> fst st = rev (map (rec_name d) L) \<and> distinct (map (rec_name d) L) \<and>
     snd st = rev (cnames d L)"

definition record_ok :: "string \<Rightarrow> string list \<Rightarrow> string list \<Rightarrow> UserDNSRecord \<Rightarrow> bool" where
  "record_ok d owned managed r \<longleftrightarrow> privateDNSName (udr_Name r) d = Inr (rec_name d r) \<and>
     rec_name d r \<notin> set owned \<and>
     (\<forall>zone \<in> set managed. rec_name d r \<noteq> zone \<and> \<not> HasSuffix (rec_name d r) (''.'' @ zone)) \<and>
     (udr_Type r = ''A'' \<or> udr_Type r = ''CNAME'' \<and> rec_target d r \<noteq> rec_name d r)"

definition site_domain :: "Site \<Rightarrow> string" where
  "site_domain s = ToLower (TrimSuffix (nw_Domain (s_Network s)) ''.'')"

definition alias_graph :: "Site \<Rightarrow> (string \<times> string) set" where
  "alias_graph s = set (cnames (site_domain s) (s_DNSRecords s))"

text \<open>The addresses a canonical selector stands for, and the addresses no user rule may touch.\<close>

definition selector_covers :: "Site \<Rightarrow> string \<Rightarrow> IP \<Rightarrow> bool" where
  "selector_covers s selector a =
     (let sel = ToUpper (TrimSpace selector) in
      case find (\<lambda>z. sel = z_Name z) (nw_Zones (s_Network s)) of
        Some z \<Rightarrow> (case ParseCIDR (z_Network z) of None \<Rightarrow> False | Some (_, n) \<Rightarrow> Contains n a)
      | None \<Rightarrow> (case ParseCIDR sel of None \<Rightarrow> False | Some (_, n) \<Rightarrow> Contains n a))"

definition core_address :: "Site \<Rightarrow> IP \<Rightarrow> bool" where
  "core_address s a \<longleftrightarrow>
     (\<exists>c \<in> set (PlatformComponents s). c_ProductOwned c \<and> component_ip4 c = Some a) \<or>
     (\<exists>z \<in> set (nw_Zones (s_Network s)).
        z_Type z \<in> {ZoneTypeInfrastructure, ZoneTypeManagement, ZoneTypeTransit} \<and>
        (\<exists>ip n. ParseCIDR (z_Network z) = Some (ip, n) \<and> Contains n a))"

definition rules_seen :: "UserFirewallRule list \<Rightarrow> string list \<times> string list \<Rightarrow> bool" where
  "rules_seen L st \<longleftrightarrow> fst st = rev (map ufr_ID L) \<and> distinct (map ufr_ID L)"

text \<open>What the rule loop establishes of one rule, before its meaning in addresses.\<close>

definition rule_checked :: "Site \<Rightarrow> UserFirewallRule \<Rightarrow> bool" where
  "rule_checked s rule \<longleftrightarrow>
     (\<exists>source destination ports.
        validateFirewallSelector (ufr_Source rule) = Inr source \<and>
        validateFirewallSelector (ufr_Destination rule) = Inr destination \<and>
        validateFirewallPorts (ufr_Ports rule) (ToLower (TrimSpace (ufr_Protocol rule))) = Inr ports \<and>
        (\<not> firewallSelectorProtected s source \<and> \<not> firewallSelectorProtected s destination \<or>
         IsReservedServersObservabilityRule s source destination
           (ToLower (TrimSpace (ufr_Protocol rule))) ports))"

text \<open>An IPv4 prefix as \<open>ParseCIDR\<close> builds it.\<close>

definition v4_prefix :: "IPNet \<Rightarrow> nat \<Rightarrow> bool" where
  "v4_prefix net n \<longleftrightarrow> net_Mask net = CIDRMask n 4 \<and> length (net_IP net) = 4 \<and>
     and_bytes (net_IP net) (net_Mask net) = net_IP net"

definition demo_site :: Site where
  "demo_site = (NewDefaultSite ''lab-1'' ''age1op'')
     \<lparr>s_DHCPReservations := [\<lparr>res_DNSOverride = [], res_NTPOverride = [], res_Zone = ''SERVERS'',
          res_Hostname = ''nas'', res_Address = ''10.10.20.70'', res_MAC = ''52:54:00:AA:00:01'', res_VMID = 500\<rparr>],
      s_DNSRecords := [\<lparr>udr_Name = ''nas.lab.home.arpa'', udr_Type = ''A'', udr_Value = ''10.10.20.70''\<rparr>,
                       \<lparr>udr_Name = ''files.lab.home.arpa.'', udr_Type = ''CNAME'', udr_Value = ''NAS.lab.home.arpa''\<rparr>],
      s_UserFirewallRules := [\<lparr>ufr_ID = ''ufr-1'', ufr_Source = ''trusted'', ufr_Destination = ''10.10.20.70/32'',
          ufr_Protocol = ''TCP'', ufr_Ports = [''53'', ''80-90'']\<rparr>]\<rparr>"

text \<open>A management network other than the default, with its broadcast address.\<close>

definition broadcast_config :: SiteConfig where
  "broadcast_config = demo_config\<lparr>sc_Gateway := (sc_Gateway demo_config)
     \<lparr>gw_ManagementAddress := ''10.0.0.255'', gw_ManagementNetwork := ''10.0.0.0/24'',
      gw_ManagementGateway := ''10.0.0.1'', gw_ControllerAddress := ''10.0.0.6''\<rparr>\<rparr>"

section \<open>Stages of a successful validation\<close>

lemma ValidateSite_stages:
  assumes "ValidateSite p s = Inr ()"
  obtains seenZones vlans st seenComponents vmids where
    "identity_checks s = Inr ()" "validateGatewayConfiguration s = Inr ()"
    "physical_checks s = Inr ()" "module_config_checks p s = Inr ()"
    "validateUSBExports s = Inr ()" "validateCompanion (s_Companion s) = Inr ()"
    "foldE zone_step (nw_Zones (s_Network s)) ([], []) = Inr (seenZones, vlans)"
    "foldE (component_step seenZones) (s_Components s) ([], []) = Inr st"
    "foldE retained_step (s_RetainedModules s) st = Inr (seenComponents, vmids)"
    "length seenZones = length expectedZones"
    "validateDHCPReservations s = Inr ()" "validateUserDNSRecords p s = Inr ()"
    "validateUserFirewallRules s = Inr ()"
    "\<forall>req \<in> set (requiredComponents s). required_check s seenComponents req = Inr ()"
    "validateDeclarations p s = Inr ()"
  using assms unfolding ValidateSite_def
  by (auto simp: checks_Inr allE_Inr simp del: checks_simps split: prod.splits)

section \<open>Zones\<close>

lemma zone_step_Inr:
  "zone_step z (ns, vs) = Inr st \<Longrightarrow>
     z_Name z \<notin> set ns \<and> z_VLAN z \<notin> fst ` set vs \<and> zone_contract z \<and>
     st = (z_Name z # ns, (z_VLAN z, z_Name z) # vs)"
  by (auto simp: zone_step_def zone_contract_def map_of_eq_None_iff split: if_split_asm option.split_asm)

interpretation zone_loop: accumulating_loop zone_step zones_seen "\<lambda>z. [z]" zone_contract
proof
  fix z :: Zone and s t L
  assume step: "zone_step z s = Inr t" and seen: "zones_seen L s"
  obtain ns vs where s: "s = (ns, vs)" by (cases s)
  note st = zone_step_Inr [OF step [unfolded s]]
  then show "zone_contract z" by simp
  have "fst ` set vs = set (map z_VLAN L)"
    using seen s by (simp add: zones_seen_def flip: set_map)
  then show "zones_seen (L @ [z]) t"
    using st seen s by (auto simp: zones_seen_def)
qed

lemma zone_contract_name: "zone_contract z \<Longrightarrow> z_Name z \<in> fst ` set expectedZones"
  by (auto simp: zone_contract_def) (metis map_of_eq_None_iff option.distinct(1))

text \<open>The accepted zones are exactly the six of the contract.\<close>

lemma zones_complete:
  assumes "foldE zone_step zs ([], []) = Inr (ns, vs)" and "length ns = length expectedZones"
  shows "set (map z_Name zs) = fst ` set expectedZones" and "distinct (map z_Name zs)"
    and "distinct (map z_VLAN zs)" and "\<forall>z \<in> set zs. zone_contract z" and "ns = rev (map z_Name zs)"
proof -
  have seen: "zones_seen zs (ns, vs)"
    using zone_loop.loop_seen [OF assms(1), of "[]"] by (simp add: zones_seen_def)
  then show dist: "distinct (map z_Name zs)" and "distinct (map z_VLAN zs)" and ns: "ns = rev (map z_Name zs)"
    by (auto simp: zones_seen_def)
  show all: "\<forall>z \<in> set zs. zone_contract z"
    using zone_loop.loop_ok [OF assms(1), of "[]"] by (auto simp: zones_seen_def)
  have sub: "set (map z_Name zs) \<subseteq> fst ` set expectedZones"
    using all zone_contract_name by auto
  have "card (set (map z_Name zs)) = card (fst ` set expectedZones)"
    using distinct_card [OF dist] assms(2) ns by (simp add: expectedZones_def)
  then show "set (map z_Name zs) = fst ` set expectedZones"
    using card_subset_eq [OF _ sub] by simp
qed

section \<open>Components and retained guests\<close>

lemma component_step_Inr:
  "component_step zones m (ns, vs) = Inr st \<Longrightarrow>
     c_Name m \<notin> set ns \<and> (c_VMID m \<noteq> 0 \<longrightarrow> c_VMID m \<notin> fst ` set vs) \<and> component_accepted zones m \<and>
     st = (c_Name m # ns, if c_VMID m \<noteq> 0 then (c_VMID m, c_Name m) # vs else vs)"
  unfolding component_step_def
  by (auto simp: checks_Inr component_accepted_def vmid_owned_def component_ip4_def map_of_eq_None_iff
      simp del: checks_simps)

lemma retained_guest_step_Inr:
  "retained_guest_step r g (ns, vs) = Inr st \<Longrightarrow>
     c_Name g \<notin> set ns \<and> c_VMID g \<notin> fst ` set vs \<and> c_Module g = rm_Module r \<and> c_ProductOwned g \<and>
     100 \<le> c_VMID g \<and> c_VMID g \<le> 499 \<and> ModuleOwnershipTag (rm_Module r) \<in> set (c_Tags g) \<and>
     st = (c_Name g # ns, (c_VMID g, c_Name g) # vs)"
  unfolding retained_guest_step_def
  by (auto simp: checks_Inr map_of_eq_None_iff Let_def simp del: checks_simps split: sum.split_asm)

lemma guests_seen_snoc:
  assumes "guests_seen L (ns, vs)" and "c_Name m \<notin> set ns"
    and "c_VMID m \<noteq> 0 \<longrightarrow> c_VMID m \<notin> fst ` set vs"
  shows "guests_seen (L @ [m]) (c_Name m # ns, if c_VMID m \<noteq> 0 then (c_VMID m, c_Name m) # vs else vs)"
proof -
  have "fst ` set vs = set (used_vmids L)"
    using assms(1) by (simp add: guests_seen_def flip: set_map)
  then show ?thesis using assms by (auto simp: guests_seen_def used_vmids_def)
qed

interpretation component_loop:
  accumulating_loop "component_step zones" guests_seen "\<lambda>m. [m]" "component_accepted zones" for zones
  by unfold_locales (auto dest!: component_step_Inr intro: guests_seen_snoc)

interpretation retained_guest_loop:
  accumulating_loop "retained_guest_step r" guests_seen "\<lambda>g. [g]"
    "\<lambda>g. c_Module g = rm_Module r \<and> c_ProductOwned g \<and> 100 \<le> c_VMID g \<and> c_VMID g \<le> 499 \<and>
         ModuleOwnershipTag (rm_Module r) \<in> set (c_Tags g)" for r
proof
  fix g s t L
  assume step: "retained_guest_step r g s = Inr t" and seen: "guests_seen L s"
  obtain ns vs where s: "s = (ns, vs)" by (cases s)
  note st = retained_guest_step_Inr [OF step [unfolded s]]
  then show "c_Module g = rm_Module r \<and> c_ProductOwned g \<and> 100 \<le> c_VMID g \<and> c_VMID g \<le> 499 \<and>
      ModuleOwnershipTag (rm_Module r) \<in> set (c_Tags g)" by simp
  show "guests_seen (L @ [g]) t"
    using guests_seen_snoc [of L ns vs g] seen st s by auto
qed

interpretation retained_loop: accumulating_loop retained_step guests_seen rm_Guests retained_accepted
proof
  fix r s t L
  assume "retained_step r s = Inr t" and seen: "guests_seen L s"
  then have active: "\<not> rm_Active r" and loop: "foldE (retained_guest_step r) (rm_Guests r) s = Inr t"
    by (auto simp: retained_step_def checks_Inr simp del: checks_simps)
  show "guests_seen (L @ rm_Guests r) t"
    using retained_guest_loop.loop_seen [OF loop seen] by simp
  show "retained_accepted r"
    using retained_guest_loop.loop_ok [OF loop seen] active by (simp add: retained_accepted_def)
qed

text \<open>C22: A validated site has exactly the six zones of the fixed network contract, each once and each with its fixed type, VLAN, network, gateway and address service, and no two zones share a VLAN.\<close>

theorem validated_site_network:
  assumes "ValidateSite p s = Inr ()"
  shows "set (map z_Name (nw_Zones (s_Network s))) =
      {''TRANSIT'', ''INFRA'', ''SERVERS'', ''TRUSTED'', ''SANDBOX'', ''MGMT''} \<and>
    distinct (map z_Name (nw_Zones (s_Network s))) \<and> distinct (map z_VLAN (nw_Zones (s_Network s))) \<and>
    (\<forall>z \<in> set (nw_Zones (s_Network s)). zone_contract z)"
  using assms
proof (cases rule: ValidateSite_stages)
  case (1 seenZones vlans st seenComponents vmids)
  note z = zones_complete [OF 1(7,10)]
  have "fst ` set expectedZones = {''TRANSIT'', ''INFRA'', ''SERVERS'', ''TRUSTED'', ''SANDBOX'', ''MGMT''}"
    by (simp add: expectedZones_def)
  then show ?thesis using z by simp
qed

lemma validated_guests:
  assumes "ValidateSite p s = Inr ()"
  obtains ns vs where "guests_seen (site_guests s) (ns, vs)"
    and "\<forall>req \<in> set (requiredComponents s). required_check s ns req = Inr ()"
    and "\<forall>m \<in> set (s_Components s). component_accepted (map z_Name (nw_Zones (s_Network s))) m"
    and "\<forall>r \<in> set (s_RetainedModules s). retained_accepted r"
  using assms
proof (cases rule: ValidateSite_stages)
  case (1 seenZones vlans st seenComponents vmids)
  note zones = zones_complete [OF 1(7,10)]
  have init: "guests_seen [] ([], [])" by (simp add: guests_seen_def used_vmids_def)
  have comps: "guests_seen (s_Components s) st"
    using component_loop.loop_seen [OF 1(8) init] by simp
  have all: "guests_seen (site_guests s) (seenComponents, vmids)"
    using retained_loop.loop_seen [OF 1(9) comps] by (simp add: site_guests_def)
  have "\<forall>m \<in> set (s_Components s). component_accepted (map z_Name (nw_Zones (s_Network s))) m"
    using component_loop.loop_ok [OF 1(8) init] zones(5) by (simp add: component_accepted_def)
  moreover have "\<forall>r \<in> set (s_RetainedModules s). retained_accepted r"
    using retained_loop.loop_ok [OF 1(9) comps] by simp
  ultimately show thesis using that [OF all 1(14)] by blast
qed

text \<open>C19: In a validated site no two guests, deployed or retained, share a name or a VMID; every VMID lies in the range its owner may use, every component stands in a declared zone with an IPv4 address, and a retained guest still carries its module's ownership tag.\<close>

theorem validated_site_guests:
  assumes "ValidateSite p s = Inr ()"
  shows "distinct (map c_Name (site_guests s)) \<and> distinct (used_vmids (site_guests s)) \<and>
    (\<forall>m \<in> set (s_Components s). component_accepted (map z_Name (nw_Zones (s_Network s))) m) \<and>
    (\<forall>r \<in> set (s_RetainedModules s). retained_accepted r)"
proof -
  obtain ns vs where "guests_seen (site_guests s) (ns, vs)"
    and ok: "\<forall>m \<in> set (s_Components s). component_accepted (map z_Name (nw_Zones (s_Network s))) m"
      "\<forall>r \<in> set (s_RetainedModules s). retained_accepted r"
    by (rule validated_guests [OF assms])
  then have "distinct (map c_Name (site_guests s))" "distinct (used_vmids (site_guests s))"
    by (simp_all add: guests_seen_def)
  then show ?thesis using ok by blast
qed

text \<open>A validated site that has been composed from modules contains its foundation: each required guest is declared by name, and a component of that name has the fixed address and VMID and is owned by the platform.\<close>

theorem validated_site_foundation:
  assumes "ValidateSite p s = Inr ()" and "(name, address, vmid) \<in> set (requiredComponents s)"
  shows "name \<in> set (map c_Name (site_guests s)) \<and>
    (\<forall>m \<in> set (s_Components s). c_Name m = name \<longrightarrow>
       c_Address m = address \<and> c_VMID m = vmid \<and> c_ProductOwned m)"
proof -
  obtain ns vs where seen: "guests_seen (site_guests s) (ns, vs)"
    and req: "\<forall>req \<in> set (requiredComponents s). required_check s ns req = Inr ()"
    by (rule validated_guests [OF assms(1)])
  have "required_check s ns (name, address, vmid) = Inr ()" using req assms(2) by blast
  then have "name \<in> set ns" and "\<forall>m \<in> set (s_Components s). c_Name m = name \<longrightarrow>
      c_Address m = address \<and> c_VMID m = vmid \<and> c_ProductOwned m"
    unfolding required_check_def prod.case checks_Inr by (simp_all add: allE_Inr)
  moreover have "set ns = set (map c_Name (site_guests s))"
    using seen by (simp add: guests_seen_def)
  ultimately show ?thesis by blast
qed

section \<open>DHCP reservations\<close>

lemma reservation_step_Inr:
  "reservation_step s z r (hs, as, ms) = Inr st \<Longrightarrow>
     reservation_ok s z r \<and> ToLower (res_Hostname r) \<notin> set hs \<and> reservation_address r \<notin> set as \<and>
     reservation_mac r \<notin> set ms \<and>
     st = (ToLower (res_Hostname r) # hs, reservation_address r # as, reservation_mac r # ms)"
  unfolding reservation_step_def
  by (auto simp: checks_Inr reservation_ok_def reservation_address_def reservation_mac_def Let_def
      simp del: checks_simps split: option.split_asm if_split_asm)

interpretation reservation_loop:
  accumulating_loop "reservation_step s z" reservations_seen "\<lambda>r. [r]" "reservation_ok s z" for s z
proof
  fix r st t L
  assume step: "reservation_step s z r st = Inr t" and seen: "reservations_seen L st"
  obtain hs as ms where st: "st = (hs, as, ms)" by (cases st)
  note r = reservation_step_Inr [OF step [unfolded st]]
  then show "reservation_ok s z r" by simp
  show "reservations_seen (L @ [r]) t"
    using r seen st by (simp add: reservations_seen_def)
qed

text \<open>C20: In a validated site no two DHCP reservations share a hostname (ignoring case), an address or a MAC; each lies in SERVERS on a usable address that is neither the gateway nor, unless it is that guest's own, the address of a platform guest.\<close>

theorem validated_site_reservations:
  assumes "ValidateSite p s = Inr ()"
  shows "\<exists>servers. zoneByName s ''SERVERS'' = Some servers \<and>
    (\<forall>r \<in> set (s_DHCPReservations s). reservation_ok s servers r) \<and>
    distinct (map (\<lambda>r. ToLower (res_Hostname r)) (s_DHCPReservations s)) \<and>
    distinct (map reservation_address (s_DHCPReservations s)) \<and>
    distinct (map reservation_mac (s_DHCPReservations s))"
  using assms
proof (cases rule: ValidateSite_stages)
  case (1 seenZones vlans st seenComponents vmids)
  then obtain servers hs as ms where servers: "zoneByName s ''SERVERS'' = Some servers"
    and loop: "foldE (reservation_step s servers) (s_DHCPReservations s) ([], [], []) = Inr (hs, as, ms)"
    by (auto simp: validateDHCPReservations_def split: option.splits)
  have init: "reservations_seen [] ([], [], [])" by (simp add: reservations_seen_def)
  have "reservations_seen (s_DHCPReservations s) (hs, as, ms)"
    using reservation_loop.loop_seen [OF loop init] by simp
  then show ?thesis
    using servers reservation_loop.loop_ok [OF loop init] by (auto simp: reservations_seen_def)
qed

section \<open>User DNS records\<close>

lemma find_None_all: "find P xs = None \<longleftrightarrow> (\<forall>x \<in> set xs. \<not> P x)"
  by (auto simp: find_None_iff)

lemma dns_record_step_Inr:
  "dns_record_step d owned managed zones r (seen, T) = Inr st \<Longrightarrow>
     record_ok d owned managed r \<and> rec_name d r \<notin> set seen \<and>
     st = (rec_name d r # seen,
           if udr_Type r = ''CNAME'' then (rec_name d r, rec_target d r) # T else T)"
  unfolding dns_record_step_def
  by (auto simp: record_ok_def rec_name_def rec_target_def find_None_all
      split: sum.split_asm option.split_asm if_split_asm)

interpretation dns_loop:
  accumulating_loop "dns_record_step d owned managed zones" "records_seen d" "\<lambda>r. [r]"
    "record_ok d owned managed" for d owned managed zones
proof
  fix r st t L
  assume step: "dns_record_step d owned managed zones r st = Inr t" and seen: "records_seen d L st"
  obtain ns T where st: "st = (ns, T)" by (cases st)
  note r = dns_record_step_Inr [OF step [unfolded st]]
  then show "record_ok d owned managed r" by simp
  show "records_seen d (L @ [r]) t"
    using r seen st by (auto simp: records_seen_def cnames_def)
qed

text \<open>A walk that returns without an error meets no name twice.\<close>

lemma cname_walk_acyclic:
  assumes "cname_walk T seen cur = Inr ()" and "(cur, x) \<in> {(a, b). map_of T a = Some b}\<^sup>*"
  shows "x \<notin> set seen \<and> (x, x) \<notin> {(a, b). map_of T a = Some b}\<^sup>+"
  using assms
proof (induction T seen cur arbitrary: x rule: cname_walk.induct)
  case (1 T seen cur)
  let ?E = "{(a, b). map_of T a = Some b}"
  have cur: "cur \<notin> set seen" using 1(2) by (subst (asm) cname_walk.simps) (auto split: if_split_asm)
  show ?case
  proof (cases "map_of T cur")
    case None
    then have "x = cur" and "(cur, cur) \<notin> ?E\<^sup>+"
      using 1(3) by (auto elim: converse_rtranclE dest: tranclD)
    then show ?thesis using cur by simp
  next
    case (Some nxt)
    then have walk: "cname_walk T (cur # seen) nxt = Inr ()"
      using 1(2) cur by (subst (asm) cname_walk.simps) simp
    note IH = "1.IH" [OF cur Some walk]
    have "(nxt, y) \<in> ?E\<^sup>*" if "(cur, y) \<in> ?E\<^sup>+" for y
      using that Some by (auto dest: tranclD)
    then show ?thesis
      using IH [of x] IH [of cur] cur 1(3) by (auto simp: rtrancl_eq_or_trancl)
  qed
qed

text \<open>C21: In a validated site the user's DNS names are unique, lie outside every Core, module and DHCP-owned name, and the alias records never form a cycle, so resolving an alias always ends.\<close>

theorem validated_site_dns:
  assumes "ValidateSite p s = Inr ()"
  shows "distinct (map (rec_name (site_domain s)) (s_DNSRecords s)) \<and>
    (\<forall>r \<in> set (s_DNSRecords s). record_ok (site_domain s) (owned_names p s (site_domain s))
       (managed_zones s (site_domain s)) r) \<and>
    acyclic (alias_graph s)"
  using assms
proof (cases rule: ValidateSite_stages)
  case (1 seenZones vlans st seenComponents vmids)
  let ?d = "site_domain s"
  obtain ns T where loop: "foldE (dns_record_step ?d (owned_names p s ?d) (managed_zones s ?d)
        (nw_Zones (s_Network s))) (s_DNSRecords s) ([], []) = Inr (ns, T)"
    and walks: "\<forall>e \<in> set T. cname_walk T [] (fst e) = Inr ()"
    using 1(12) by (auto simp: validateUserDNSRecords_def site_domain_def Let_def allE_Inr split: prod.splits)
      (metis prod.collapse)
  have init: "records_seen ?d [] ([], [])" by (simp add: records_seen_def cnames_def)
  have seen: "records_seen ?d (s_DNSRecords s) (ns, T)"
    using dns_loop.loop_seen [OF loop init] by simp
  have "distinct (map fst T)"
    using seen by (auto simp: records_seen_def cnames_def comp_def distinct_map_filter simp flip: rev_map)
  then have graph: "alias_graph s = {(a, b). map_of T a = Some b}"
    using seen by (auto simp: records_seen_def alias_graph_def map_of_eq_Some_iff)
  have "(x, x) \<notin> (alias_graph s)\<^sup>+" for x
  proof
    assume cyc: "(x, x) \<in> (alias_graph s)\<^sup>+"
    then obtain y where "(x, y) \<in> set T" by (auto simp: graph dest!: tranclD map_of_SomeD)
    then have "cname_walk T [] x = Inr ()" using walks by force
    then show False using cname_walk_acyclic [of T "[]" x x] cyc by (simp add: graph)
  qed
  then show ?thesis
    using seen dns_loop.loop_ok [OF loop init] by (auto simp: records_seen_def acyclic_def)
qed

section \<open>User firewall rules\<close>

subsection \<open>Prefixes that meet are nested\<close>

lemma mask_byte_nested:
  assumes "m \<le> n"
  shows "mask_byte m AND mask_byte n = mask_byte m"
proof -
  have *: "list_all (\<lambda>m. list_all (\<lambda>n. m \<le> n \<longrightarrow> mask_byte m AND mask_byte n = mask_byte m) [0..<9]) [0..<9]"
    by code_simp
  have cap: "mask_byte k = mask_byte (min k 8)" for k
    by (simp add: mask_byte_def min_def)
  have "min m 8 \<le> min n 8" using assms by simp
  then have "mask_byte (min m 8) AND mask_byte (min n 8) = mask_byte (min m 8)"
    using * by (simp add: list_all_iff)
  then show ?thesis by (simp flip: cap)
qed

lemma CIDRMask_nested:
  "m \<le> n \<Longrightarrow> and_bytes (CIDRMask n k) (CIDRMask m k) = CIDRMask m k"
  by (auto simp: and_bytes_def CIDRMask_def list_eq_iff_nth_eq mask_byte_nested and.commute
      intro!: nth_equalityI)

lemma length_and_bytes [simp]: "length (and_bytes a b) = min (length a) (length b)"
  by (simp add: and_bytes_def)

lemma length_CIDRMask [simp]: "length (CIDRMask n k) = k"
  by (simp add: CIDRMask_def)

lemma and_bytes_assoc:
  "and_bytes (and_bytes a b) c = and_bytes a (and_bytes b c)"
  by (auto simp: and_bytes_def and.assoc intro!: nth_equalityI)

lemma Contains_v4:
  assumes "v4_prefix net n" and "length a = 4"
  shows "Contains net a \<longleftrightarrow> and_bytes a (net_Mask net) = net_IP net"
  using assms by (auto simp: Contains_def networkNumberAndMask_def To4_def v4_prefix_def)

lemma overlapping_prefixes:
  assumes m: "v4_prefix A m" and n: "v4_prefix B n" and a: "length a = 4"
    and inA: "Contains A a" and inB: "Contains B a"
  shows "Contains A (net_IP B) \<or> Contains B (net_IP A)"
proof (cases "m \<le> n")
  case True
  have "and_bytes (net_IP B) (net_Mask A) = and_bytes a (and_bytes (net_Mask B) (net_Mask A))"
    using inB Contains_v4 [OF n a] by (simp flip: and_bytes_assoc)
  also have "\<dots> = net_IP A"
    using inA Contains_v4 [OF m a] m n True by (simp add: v4_prefix_def CIDRMask_nested)
  finally show ?thesis using Contains_v4 [OF m] n by (simp add: v4_prefix_def)
next
  case False
  have "and_bytes (net_IP A) (net_Mask B) = and_bytes a (and_bytes (net_Mask A) (net_Mask B))"
    using inA Contains_v4 [OF m a] by (simp flip: and_bytes_assoc)
  also have "\<dots> = net_IP B"
    using inB Contains_v4 [OF n a] m n False by (simp add: v4_prefix_def CIDRMask_nested)
  finally show ?thesis using Contains_v4 [OF n] m by (simp add: v4_prefix_def)
qed

subsection \<open>Selectors without a colon are IPv4\<close>

lemma ParseIP_v4:
  assumes "CHR '':'' \<notin> set s" and "ParseIP s = Some ip"
  obtains q where "ip = v4InV6Prefix @ q" and "length q = 4" and "parseIPv4Fields s = Some q"
    and "hd (dropWhile (\<lambda>c. c \<notin> {CHR ''.'', CHR '':''}) s @ '' '') = CHR ''.''"
proof -
  let ?P = "\<lambda>c. c \<notin> {CHR ''.'', CHR '':'', CHR ''%''}"
  have "dropWhile ?P s \<noteq> []"
    using assms(2) unfolding ParseIP_def by (metis list.simps(4) option.distinct(1))
  then obtain c r where d: "dropWhile ?P s = c # r" by (metis neq_Nil_conv)
  then have "c \<in> set s" by (metis list.set_intros(1) set_dropWhileD)
  moreover have "c \<in> {CHR ''.'', CHR '':'', CHR ''%''}"
    using hd_dropWhile [of ?P s, unfolded d] by simp
  ultimately have c: "c = CHR ''.''"
    using assms unfolding ParseIP_def d by (auto split: if_split_asm)
  then obtain q where q: "parseIPv4Fields s = Some q" and ip: "ip = v4InV6Prefix @ q"
    using assms(2) unfolding ParseIP_def d by auto
  let ?Q = "\<lambda>c. c \<notin> {CHR ''.'', CHR '':''}"
  have s: "s = takeWhile ?P s @ c # r" using takeWhile_dropWhile_id [of ?P s, unfolded d] by (rule sym)
  have "dropWhile ?Q (takeWhile ?P s @ c # r) = dropWhile ?Q (c # r)"
    by (rule dropWhile_append2) (auto dest: set_takeWhileD)
  then have "dropWhile ?Q s = c # r" using s c by simp
  then show thesis
    using that [OF ip _ q] q c by (auto simp: parseIPv4Fields_def dest: ipv4_loop_length)
qed

lemma ParseCIDR_v4:
  assumes "CHR '':'' \<notin> set s" and "ParseCIDR s = Some (ip, net)"
  shows "\<exists>n. v4_prefix net n"
proof -
  let ?addr = "takeWhile (\<lambda>c. c \<noteq> CHR ''/'') s"
  have colon: "CHR '':'' \<notin> set ?addr" using assms(1) by (meson set_takeWhileD)
  obtain ip' where "ParseIP ?addr = Some ip'"
    using assms(2) by (auto simp: ParseCIDR_def Let_def split: if_split_asm option.split_asm)
  then obtain q where "ParseIP ?addr = Some (v4InV6Prefix @ q)" "length q = 4"
    and "hd (dropWhile (\<lambda>c. c \<notin> {CHR ''.'', CHR '':''}) ?addr @ '' '') = CHR ''.''"
    using ParseIP_v4 [OF colon] by metis
  then obtain n where "net = \<lparr>net_IP = and_bytes q (CIDRMask n 4), net_Mask = CIDRMask n 4\<rparr>"
    using assms(2) by (auto simp: ParseCIDR_def Let_def v4InV6Prefix_def split: if_split_asm option.split_asm)
  then have "v4_prefix net n"
    using \<open>length q = 4\<close> by (simp add: v4_prefix_def and_bytes_assoc CIDRMask_nested)
  then show ?thesis ..
qed


lemma set_nat_digits: "set (nat_digits n) \<subseteq> set ''0123456789''"
proof (induction n rule: nat_digits.induct)
  case (1 n)
  have digit: "char_of (48 + d) \<in> set ''0123456789''" if "d < (10 :: nat)" for d
  proof -
    have "list_all (\<lambda>d. char_of (48 + d) \<in> set ''0123456789'') [0..<10 :: nat]" by code_simp
    then show ?thesis using that by (simp add: list_all_iff)
  qed
  show ?case
    using 1 digit [of n] digit [of "n mod 10"] by (subst nat_digits.simps) auto
qed

lemma set_joinWith: "set (joinWith sep xs) \<subseteq> set sep \<union> (\<Union>x \<in> set xs. set x)"
  by (auto simp: joinWith_def split: list.splits)

lemma upper_colon:
  assumes up: "upper_char c = CHR '':''"
  shows "c = CHR '':''"
proof (rule ccontr)
  assume "c \<noteq> CHR '':''"
  then have low: "is_lower c" and "char_of (of_char c - 32 :: nat) = CHR '':''"
    using up by (auto simp: upper_char_def split: if_split_asm)
  then have "(of_char c - 32 :: nat) mod 256 = of_char (CHR '':'')"
    by (metis of_char_of)
  moreover have "97 \<le> (of_char c :: nat)" "(of_char c :: nat) \<le> 122"
    using low by (simp_all add: is_lower_def less_eq_char_def)
  ultimately show False by simp
qed

lemma set_TrimSpace: "set (TrimSpace s) \<subseteq> set s"
  by (auto simp: TrimSpace_def dest!: set_dropWhileD)

lemma no_colon_normalised: "CHR '':'' \<notin> set s \<Longrightarrow> CHR '':'' \<notin> set (ToUpper (TrimSpace s))"
  using set_TrimSpace [of s] by (auto simp: ToUpper_def dest: upper_colon [OF sym])

lemma canonical_selector_no_colon:
  assumes "validateFirewallSelector v = Inr sel"
  shows "CHR '':'' \<notin> set sel"
proof -
  have digits: "CHR '':'' \<notin> set (nat_digits n)" for n using set_nat_digits [of n] by auto
  show ?thesis
    using assms set_joinWith [of "''.''"] digits
    by (fastforce simp: validateFirewallSelector_def Let_def IPNetString_def IPString_def ip4_string_def
        networkNumberAndMask_def To4_def split: if_split_asm option.split_asm prod.split_asm)
qed


subsection \<open>The guard is complete\<close>

lemma user_zone_network:
  "zone_contract z \<Longrightarrow> z_Type z \<in> {ZoneTypeServers, ZoneTypeTrusted, ZoneTypeSandbox} \<Longrightarrow>
   z_Network z \<in> set [''10.10.20.0/24'', ''10.10.30.0/24'', ''10.10.40.0/24'']"
  by (auto simp: zone_contract_def expectedZones_def split: if_split_asm)

lemma core_zone_network:
  "zone_contract z \<Longrightarrow> z_Type z \<in> {ZoneTypeInfrastructure, ZoneTypeManagement, ZoneTypeTransit} \<Longrightarrow>
   z_Network z \<in> set [''10.10.5.0/24'', ''10.10.10.0/24'', ''10.10.99.0/24'']"
  by (auto simp: zone_contract_def expectedZones_def split: if_split_asm)

lemma zone_network_no_colon: "zone_contract z \<Longrightarrow> CHR '':'' \<notin> set (z_Network z)"
  by (auto simp: zone_contract_def expectedZones_def split: if_split_asm)

lemma fixed_networks_apart:
  "list_all (\<lambda>u. list_all (\<lambda>v. case (ParseCIDR u, ParseCIDR v) of
       (Some (_, n), Some (_, n')) \<Rightarrow> \<not> Contains n (net_IP n') \<and> \<not> Contains n' (net_IP n)
     | _ \<Rightarrow> True) [''10.10.5.0/24'', ''10.10.10.0/24'', ''10.10.99.0/24''])
     [''10.10.20.0/24'', ''10.10.30.0/24'', ''10.10.40.0/24'']"
  by code_simp

lemma zone_networks_disjoint:
  assumes u: "zone_contract z" "z_Type z \<in> {ZoneTypeServers, ZoneTypeTrusted, ZoneTypeSandbox}"
    and c: "zone_contract z'" "z_Type z' \<in> {ZoneTypeInfrastructure, ZoneTypeManagement, ZoneTypeTransit}"
    and n: "ParseCIDR (z_Network z) = Some (i, n)" "ParseCIDR (z_Network z') = Some (i', n')"
    and a: "length a = 4" "Contains n a" "Contains n' a"
  shows False
proof -
  obtain k k' where "v4_prefix n k" "v4_prefix n' k'"
    using ParseCIDR_v4 n zone_network_no_colon u(1) c(1) by meson
  then have "Contains n (net_IP n') \<or> Contains n' (net_IP n)"
    using overlapping_prefixes a by blast
  moreover have "\<not> Contains n (net_IP n') \<and> \<not> Contains n' (net_IP n)"
    using fixed_networks_apart user_zone_network [OF u] core_zone_network [OF c] n
    unfolding list_all_iff by fastforce
  ultimately show False by blast
qed

lemma no_component_inside:
  "\<not> network_has_component cs n \<Longrightarrow> c \<in> set cs \<Longrightarrow> component_ip4 c = Some a \<Longrightarrow> \<not> Contains n a"
  by (auto simp: network_has_component_def list_ex_iff)

lemma unprotected_zone_selector:
  assumes zones: "\<forall>z \<in> set (nw_Zones (s_Network s)). zone_contract z"
    and found: "find (\<lambda>z. ToUpper (TrimSpace sel) = z_Name z) (nw_Zones (s_Network s)) = Some z"
    and free: "\<not> firewallSelectorProtected s sel"
    and a: "length a = 4" "selector_covers s sel a"
  shows "\<not> core_address s a"
proof
  assume core: "core_address s a"
  have z: "z \<in> set (nw_Zones (s_Network s))" using found by (auto simp: find_Some_iff)
  have ty: "z_Type z \<in> {ZoneTypeServers, ZoneTypeTrusted, ZoneTypeSandbox}"
    and "ParseCIDR (z_Network z) \<noteq> None"
    using free found
    by (auto simp: firewallSelectorProtected_def Let_def split: if_split_asm option.split_asm)
  then obtain i n where n: "ParseCIDR (z_Network z) = Some (i, n)" by auto
  have in_n: "Contains n a" using a(2) found n by (simp add: selector_covers_def Let_def)
  have "\<not> network_has_component (filter c_ProductOwned (PlatformComponents s)) n"
    using free found n ty by (simp add: firewallSelectorProtected_def Let_def split: if_split_asm)
  then have "\<not> (\<exists>c \<in> set (PlatformComponents s). c_ProductOwned c \<and> component_ip4 c = Some a)"
    using no_component_inside in_n by fastforce
  with core obtain z' i' n' where z': "z' \<in> set (nw_Zones (s_Network s))"
    "z_Type z' \<in> {ZoneTypeInfrastructure, ZoneTypeManagement, ZoneTypeTransit}"
    "ParseCIDR (z_Network z') = Some (i', n')" "Contains n' a"
    unfolding core_address_def by blast
  show False
    using zone_networks_disjoint [OF _ ty _ z'(2) n z'(3) a(1) in_n z'(4)] zones z z'(1) by blast
qed

lemma unprotected_prefix_selector:
  assumes zones: "\<forall>z \<in> set (nw_Zones (s_Network s)). zone_contract z"
    and "CHR '':'' \<notin> set sel"
    and nozone: "find (\<lambda>z. ToUpper (TrimSpace sel) = z_Name z) (nw_Zones (s_Network s)) = None"
    and free: "\<not> firewallSelectorProtected s sel"
    and a: "length a = 4" "selector_covers s sel a"
  shows "\<not> core_address s a"
proof
  assume core: "core_address s a"
  obtain i n where n: "ParseCIDR (ToUpper (TrimSpace sel)) = Some (i, n)" and in_n: "Contains n a"
    using a(2) nozone by (auto simp: selector_covers_def Let_def split: option.split_asm)
  have clear: "\<not> network_has_component (PlatformComponents s) n"
    "\<not> list_ex (overlaps_zone n) (filter (\<lambda>z. z_Type z \<in> {ZoneTypeInfrastructure, ZoneTypeManagement,
       ZoneTypeTransit}) (nw_Zones (s_Network s)))"
    using free nozone n by (simp_all add: firewallSelectorProtected_def Let_def)
  then have "\<not> (\<exists>c \<in> set (PlatformComponents s). c_ProductOwned c \<and> component_ip4 c = Some a)"
    using no_component_inside in_n by blast
  with core obtain z i' n' where z: "z \<in> set (nw_Zones (s_Network s))"
    "z_Type z \<in> {ZoneTypeInfrastructure, ZoneTypeManagement, ZoneTypeTransit}"
    and n': "ParseCIDR (z_Network z) = Some (i', n')" and in_n': "Contains n' a"
    unfolding core_address_def by blast
  have "\<not> overlaps_zone n z"
    using clear(2) z by (auto simp: list_ex_iff)
  then have apart: "\<not> Contains n (net_IP n')" "\<not> Contains n' (net_IP n)"
    using n' by (simp_all add: overlaps_zone_def)
  obtain k k' where "v4_prefix n k" "v4_prefix n' k'"
    using ParseCIDR_v4 n n' no_colon_normalised [OF assms(2)] zone_network_no_colon zones z(1) by meson
  then show False using overlapping_prefixes [OF _ _ a(1) in_n in_n'] apart by blast
qed

lemma firewall_rule_step_Inr:
  "firewall_rule_step s rule (ids, sem) = Inr st \<Longrightarrow>
     rule_checked s rule \<and> ufr_ID rule \<notin> set ids \<and> fst st = ufr_ID rule # ids"
  unfolding firewall_rule_step_def rule_checked_def
  by (auto simp: Let_def split: if_split_asm sum.split_asm)

interpretation rule_loop:
  accumulating_loop "firewall_rule_step s" rules_seen "\<lambda>r. [r]" "rule_checked s" for s
proof
  fix r st t L
  assume step: "firewall_rule_step s r st = Inr t" and seen: "rules_seen L st"
  obtain ids sem where st: "st = (ids, sem)" by (cases st)
  note r = firewall_rule_step_Inr [OF step [unfolded st]]
  then show "rule_checked s r" by simp
  show "rules_seen (L @ [r]) t" using r seen st by (simp add: rules_seen_def)
qed

text \<open>C18: In a validated site a user firewall rule never reaches the protected Core: unless it is the one reserved dashboard exception, no IPv4 address its source or destination stands for belongs to a platform guest or to the infrastructure, management or transit network.\<close>

theorem validated_site_firewall:
  assumes "ValidateSite p s = Inr ()" and "rule \<in> set (s_UserFirewallRules s)"
  shows "\<exists>source destination ports.
    validateFirewallSelector (ufr_Source rule) = Inr source \<and>
    validateFirewallSelector (ufr_Destination rule) = Inr destination \<and>
    validateFirewallPorts (ufr_Ports rule) (ToLower (TrimSpace (ufr_Protocol rule))) = Inr ports \<and>
    (IsReservedServersObservabilityRule s source destination
       (ToLower (TrimSpace (ufr_Protocol rule))) ports \<or>
     (\<forall>a. length a = 4 \<longrightarrow> selector_covers s source a \<or> selector_covers s destination a \<longrightarrow>
        \<not> core_address s a))"
proof -
  have zones: "\<forall>z \<in> set (nw_Zones (s_Network s)). zone_contract z"
    by (rule ValidateSite_stages [OF assms(1)]) (metis zones_complete(4))
  obtain st where loop: "foldE (firewall_rule_step s) (s_UserFirewallRules s) ([], []) = Inr st"
    by (rule ValidateSite_stages [OF assms(1)])
      (auto simp: validateUserFirewallRules_def split: if_split_asm)
  have checked: "rule_checked s rule"
    by (rule rule_loop.loop_ok [OF loop _ assms(2), of "[]"]) (simp add: rules_seen_def)
  have free: "\<not> core_address s a" if "validateFirewallSelector v = Inr sel"
    "\<not> firewallSelectorProtected s sel" "length a = 4" "selector_covers s sel a" for v sel a
  proof (cases "find (\<lambda>z. ToUpper (TrimSpace sel) = z_Name z) (nw_Zones (s_Network s))")
    case None
    then show ?thesis
      by (rule unprotected_prefix_selector [OF zones canonical_selector_no_colon [OF that(1)] _ that(2-4)])
  next
    case (Some z)
    then show ?thesis by (rule unprotected_zone_selector [OF zones _ that(2-4)])
  qed
  from checked obtain source destination ports where
    sel: "validateFirewallSelector (ufr_Source rule) = Inr source"
      "validateFirewallSelector (ufr_Destination rule) = Inr destination"
      "validateFirewallPorts (ufr_Ports rule) (ToLower (TrimSpace (ufr_Protocol rule))) = Inr ports"
    and guard: "\<not> firewallSelectorProtected s source \<and> \<not> firewallSelectorProtected s destination \<or>
      IsReservedServersObservabilityRule s source destination (ToLower (TrimSpace (ufr_Protocol rule))) ports"
    unfolding rule_checked_def by blast
  show ?thesis
  proof (intro exI conjI)
    show "IsReservedServersObservabilityRule s source destination
         (ToLower (TrimSpace (ufr_Protocol rule))) ports \<or>
       (\<forall>a. length a = 4 \<longrightarrow> selector_covers s source a \<or> selector_covers s destination a \<longrightarrow>
          \<not> core_address s a)"
    proof (rule disjE [OF guard], rule disjI2, intro allI impI, elim disjE conjE)
      fix a :: IP
      assume "\<not> firewallSelectorProtected s source" "length a = 4" "selector_covers s source a"
      then show "\<not> core_address s a" by (rule free [OF sel(1)])
    next
      fix a :: IP
      assume "\<not> firewallSelectorProtected s destination" "length a = 4" "selector_covers s destination a"
      then show "\<not> core_address s a" by (rule free [OF sel(2)])
    qed (rule disjI1)
  qed (fact sel)+
qed

section \<open>A concrete site\<close>

lemma demo_site_valid: "ValidateSite (\<lambda>_. None) demo_site = Inr ()"
  by code_simp

theorem validated_site_network_witness:
  "distinct (map z_VLAN (nw_Zones (s_Network demo_site)))"
  using validated_site_network [OF demo_site_valid] by blast

theorem validated_site_guests_witness:
  "distinct (used_vmids (site_guests demo_site)) \<and> used_vmids (site_guests demo_site) = [100, 110, 120]"
proof -
  have "used_vmids (site_guests demo_site) = [100, 110, 120]" by code_simp
  then show ?thesis using validated_site_guests [OF demo_site_valid] by blast
qed

theorem validated_site_foundation_witness:
  "''lab-dns-01'' \<in> set (map c_Name (site_guests demo_site))"
proof -
  have "(''lab-dns-01'', ''10.10.10.10'', 110) \<in> set (requiredComponents demo_site)" by code_simp
  from validated_site_foundation [OF demo_site_valid this] show ?thesis by blast
qed

theorem validated_site_reservations_witness:
  "distinct (map reservation_mac (s_DHCPReservations demo_site)) \<and>
   map reservation_mac (s_DHCPReservations demo_site) = [''52:54:00:aa:00:01'']"
proof -
  have "map reservation_mac (s_DHCPReservations demo_site) = [''52:54:00:aa:00:01'']" by code_simp
  then show ?thesis using validated_site_reservations [OF demo_site_valid] by blast
qed

theorem validated_site_dns_witness:
  "acyclic (alias_graph demo_site) \<and> (''files.lab.home.arpa'', ''nas.lab.home.arpa'') \<in> alias_graph demo_site"
proof -
  have "(''files.lab.home.arpa'', ''nas.lab.home.arpa'') \<in> alias_graph demo_site" by code_simp
  then show ?thesis using validated_site_dns [OF demo_site_valid] by blast
qed

theorem validated_site_firewall_witness:
  "selector_covers demo_site ''TRUSTED'' [10, 10, 30, 9] \<and> \<not> core_address demo_site [10, 10, 30, 9]"
proof -
  let ?rule = "\<lparr>ufr_ID = ''ufr-1'', ufr_Source = ''trusted'', ufr_Destination = ''10.10.20.70/32'',
      ufr_Protocol = ''TCP'', ufr_Ports = [''53'', ''80-90'']\<rparr>"
  have rule: "?rule \<in> set (s_UserFirewallRules demo_site)" by code_simp
  have src: "validateFirewallSelector ''trusted'' = Inr ''TRUSTED''"
    and ports: "validateFirewallPorts [''53'', ''80-90''] ''tcp'' = Inr [''53'', ''80-90'']"
    and tcp: "ToLower (TrimSpace ''TCP'') = ''tcp''"
    and covers: "selector_covers demo_site ''TRUSTED'' [10, 10, 30, 9]" by code_simp+
  have "\<not> IsReservedServersObservabilityRule demo_site ''TRUSTED'' d ''tcp'' [''53'', ''80-90'']" for d
    by (simp add: IsReservedServersObservabilityRule_def)
  then show ?thesis
    using validated_site_firewall [OF demo_site_valid rule] src ports tcp covers by auto
qed

section \<open>Gateway management address\<close>

text \<open>The guard that a management address be usable compares with the broadcast address of the default network only: with another management network the validator accepts that network's own broadcast address.\<close>

theorem gateway_broadcast_accepted:
  "validateGatewayConfiguration (BaseSite broadcast_config) = Inr () \<and>
   gw_ManagementNetwork (s_Gateway (BaseSite broadcast_config)) = ''10.0.0.0/24'' \<and>
   gw_ManagementAddress (s_Gateway (BaseSite broadcast_config)) = ''10.0.0.255''"
  by code_simp

end
