(* ===== verification/Client_Correct.thy ===== *)
theory Client_Correct
  imports Client_Validate Site_Safety Go_Text
begin

text \<open>
  What a service configuration that passes \<open>Validate\<close> guarantees: the DHCP plan is exactly the
  declarative \<open>dhcp_plan\<close>, reservations stay clear of every dynamic pool, every alias ends at a
  name that is served, and normalization is stable.
\<close>

section \<open>Normalization\<close>

lemma normalize_parts_idempotent [simp]:
  "normalize_media (normalize_media c) = normalize_media c"
  "normalize_dns (normalize_dns d) = normalize_dns d"
  "normalize_dhcp (normalize_dhcp h) = normalize_dhcp h"
  by (simp_all add: normalize_media_def normalize_dns_def normalize_dhcp_def DefaultDNSUpstreams_def
      DefaultScopes_def DefaultTimeUpstreams_def)

lemma Normalize_twice: "Normalize (Normalize m) = Normalize m"
  by (cases "m_Media m"; cases "m_Arrstack m")
    (simp_all add: Normalize_def Let_def option.map_comp comp_def)

lemma Normalize_simps [simp]:
  "m_Systems (Normalize m) = m_Systems m" "m_VPN (Normalize m) = m_VPN m"
  "m_Observability (Normalize m) = m_Observability m" "m_Tailnet (Normalize m) = m_Tailnet m"
  "m_DNS (Normalize m) = map_option normalize_dns (m_DNS m)"
  "m_DHCP (Normalize m) = map_option normalize_dhcp (m_DHCP m)"
  by (simp_all add: Normalize_def Let_def)

lemma normalize_keeps [simp]:
  "dns_Enabled (normalize_dns d) = dns_Enabled d" "dns_Records (normalize_dns d) = dns_Records d"
  "dh_Enabled (normalize_dhcp h) = dh_Enabled h" "dh_Reservations (normalize_dhcp h) = dh_Reservations h"
  by (simp_all add: normalize_dns_def normalize_dhcp_def)

section \<open>The expanded configuration\<close>

abbreviation effective :: "Modules \<Rightarrow> Modules" where
  "effective m \<equiv> SystemsExpanded (Normalize m)"

lemma SystemsExpanded_simps [simp]:
  "m_Systems (SystemsExpanded m) = m_Systems m" "m_VPN (SystemsExpanded m) = m_VPN m"
  "m_DNS (SystemsExpanded m) = m_DNS m" "m_Media (SystemsExpanded m) = m_Media m"
  "m_Observability (SystemsExpanded m) = m_Observability m" "m_Tailnet (SystemsExpanded m) = m_Tailnet m"
  "m_DHCP (SystemsExpanded m) = map_option (\<lambda>d. d\<lparr>dh_Reservations :=
     dh_Reservations d @ map system_reservation (m_Systems m)\<rparr>) (m_DHCP m)"
  by (simp_all add: SystemsExpanded_def Clone_def Let_def split: option.split)

lemma enabled_expanded [simp]:
  "dns_enabled (SystemsExpanded m) = dns_enabled m" "vpn_enabled (SystemsExpanded m) = vpn_enabled m"
  "dhcp_enabled (SystemsExpanded m) = dhcp_enabled m" "tailnet_enabled (SystemsExpanded m) = tailnet_enabled m"
  "observability_enabled (SystemsExpanded m) = observability_enabled m"
  by (simp_all add: dns_enabled_def vpn_enabled_def dhcp_enabled_def tailnet_enabled_def observability_enabled_def
      split: option.split)

lemma enabled_normalized [simp]:
  "dns_enabled (Normalize m) = dns_enabled m" "vpn_enabled (Normalize m) = vpn_enabled m"
  "dhcp_enabled (Normalize m) = dhcp_enabled m" "tailnet_enabled (Normalize m) = tailnet_enabled m"
  "observability_enabled (Normalize m) = observability_enabled m"
  by (simp_all add: dns_enabled_def vpn_enabled_def dhcp_enabled_def tailnet_enabled_def observability_enabled_def
      split: option.split)

lemma Validate_stages:
  assumes "Validate p m site = Inr ()"
  shows "validateSystems (m_Systems m) site (Normalize m) = Inr ()"
    and "expanded_checks p (effective m) site = Inr ()"
  using assms by (simp_all add: Validate_def Let_def)

lemma expanded_stages:
  assumes "expanded_checks p n site = Inr ()"
  shows "m_Systems n \<noteq> [] \<Longrightarrow> dhcp_enabled n"
    and "validateObservability p n = Inr ()"
    and "\<And>c. m_Media n = Some c \<Longrightarrow> me_Enabled c \<Longrightarrow> media_check n c = Inr ()"
    and "tailnet_enabled n \<Longrightarrow> dns_enabled n \<and> dhcp_enabled n"
    and "\<And>d. m_DNS n = Some d \<Longrightarrow> validateDNS d site = Inr ()"
    and "\<And>h. m_DHCP n = Some h \<Longrightarrow> Enabled (dh_Enabled h) \<Longrightarrow> dns_enabled n \<and> validateDHCP h site = Inr ()"
    and "\<And>v. m_VPN n = Some v \<Longrightarrow> validateVPN v (m_DHCP n) = Inr ()"
    and "\<And>d. m_DNS n = Some d \<Longrightarrow> \<not> dhcp_enabled n \<Longrightarrow> validateSharedNames d [] site = Inr ()"
    and "\<And>d h. m_DNS n = Some d \<Longrightarrow> m_DHCP n = Some h \<Longrightarrow> dns_enabled n \<Longrightarrow> dhcp_enabled n \<Longrightarrow>
      validateSharedNames d (dh_Reservations h) site = Inr ()"
  using assms unfolding expanded_checks_def checks_Inr
  by (auto split: if_split_asm)

section \<open>The DHCP plan\<close>

text \<open>The declarative specification: what each scope and each reservation must be on its own, and
  that zones, names, hardware addresses and addresses are used once.\<close>

definition scope_zone :: "(string \<times> Zone) list \<Rightarrow> DHCPScope \<Rightarrow> string" where
  "scope_zone zones scope = (case map_of zones (ToUpper (sc_Zone scope)) of None \<Rightarrow> [] | Some z \<Rightarrow> z_Name z)"

definition pool_ok :: "Zone \<Rightarrow> DHCPScope \<Rightarrow> bool" where
  "pool_ok zone scope =
     (case usablePool (sc_PoolStart scope) (sc_PoolEnd scope) zone of
        Inl _ \<Rightarrow> False | Inr (a, b) \<Rightarrow> a \<noteq> b \<and> \<not> overlapsProbeRange a b)"

definition scope_ok :: "(string \<times> Zone) list \<Rightarrow> DHCPScope \<Rightarrow> bool" where
  "scope_ok zones scope =
     (case map_of zones (ToUpper (sc_Zone scope)) of
        None \<Rightarrow> False
      | Some zone \<Rightarrow>
          sc_Mode scope = ScopeReservationsOnly \<and> sc_PoolStart scope = [] \<and> sc_PoolEnd scope = [] \<or>
          sc_Mode scope = ScopePool \<and> pool_ok zone scope)"

definition service_mac :: "Reservation \<Rightarrow> string" where
  "service_mac r = (case canonicalMAC (rv_MAC r) of Inl _ \<Rightarrow> [] | Inr mac \<Rightarrow> mac)"

definition reservation_key :: "Reservation \<Rightarrow> string" where
  "reservation_key r = lookup_key (rv_Name r)"

definition probe_address :: "Addr \<Rightarrow> bool" where
  "probe_address a \<longleftrightarrow> ProbeAddressStart \<le> last_octet a \<and> last_octet a \<le> ProbeAddressEnd"

definition reservation_ok :: "(string \<times> Zone) list \<Rightarrow> DHCPScope list \<Rightarrow> Reservation \<Rightarrow> bool" where
  "reservation_ok zones scopes r \<longleftrightarrow>
     IsDNSLabel (reservation_key r) \<and> is_ok (canonicalMAC (rv_MAC r)) \<and>
     (case (map_of zones (ToUpper (rv_Zone r)), canonical_addr4 (rv_Address r)) of
        (Some zone, Some a) \<Rightarrow>
          usableAddress a zone \<and> \<not> probe_address a \<and> list_all (\<lambda>scope. \<not> pool_collision a zone scope) scopes
      | _ \<Rightarrow> False)"

definition dhcp_plan :: "DHCPConfig \<Rightarrow> Site \<Rightarrow> bool" where
  "dhcp_plan c site \<longleftrightarrow>
     dh_LeaseDuration c \<noteq> [] \<and>
     length (dh_Scopes c) = 6 \<and> length (zoneMap site) = 6 \<and>
     list_all (scope_ok (zoneMap site)) (dh_Scopes c) \<and> distinct (map (scope_zone (zoneMap site)) (dh_Scopes c)) \<and>
     list_all (reservation_ok (zoneMap site) (dh_Scopes c)) (dh_Reservations c) \<and>
     distinct (map reservation_key (dh_Reservations c)) \<and> distinct (map service_mac (dh_Reservations c)) \<and>
     distinct (map rv_Address (dh_Reservations c)) \<and>
     dh_TimeUpstreams c \<noteq> [] \<and> list_all (\<lambda>u. canonical_ip4 u \<noteq> None) (dh_TimeUpstreams c)"

lemma scope_step_iff:
  "scope_step zones scope seen = Inr seen' \<longleftrightarrow>
     scope_ok zones scope \<and> scope_zone zones scope \<notin> set seen \<and> seen' = scope_zone zones scope # seen"
  by (auto simp: scope_step_def scope_ok_def scope_zone_def pool_ok_def scope_pool_check_def
      split: option.split sum.split if_split_asm)

lemma scope_fold_iff:
  "foldE (scope_step zones) scopes seen = Inr seen' \<longleftrightarrow>
     list_all (scope_ok zones) scopes \<and> distinct (map (scope_zone zones) scopes) \<and>
     scope_zone zones ` set scopes \<inter> set seen = {} \<and> seen' = rev (map (scope_zone zones) scopes) @ seen"
proof (induction scopes arbitrary: seen)
  case (Cons scope scopes)
  show ?case unfolding foldE_Cons_Inr scope_step_iff Cons.IH by auto
qed auto

lemma reservation_step_iff:
  "service_reservation_step zones scopes r (ns, ms, as) = Inr st \<longleftrightarrow>
     reservation_ok zones scopes r \<and> reservation_key r \<notin> set ns \<and> service_mac r \<notin> set ms \<and>
     rv_Address r \<notin> set as \<and> st = (reservation_key r # ns, service_mac r # ms, rv_Address r # as)"
  by (auto simp: service_reservation_step_def reservation_ok_def reservation_key_def service_mac_def probe_address_def
      list_ex_iff list_all_iff Let_def is_ok_iff split: option.split sum.split if_split_asm)

lemma reservation_fold_iff:
  "(\<exists>st. foldE (service_reservation_step zones scopes) rs (ns, ms, as) = Inr st) \<longleftrightarrow>
     list_all (reservation_ok zones scopes) rs \<and>
     distinct (map reservation_key rs) \<and> reservation_key ` set rs \<inter> set ns = {} \<and>
     distinct (map service_mac rs) \<and> service_mac ` set rs \<inter> set ms = {} \<and>
     distinct (map rv_Address rs) \<and> rv_Address ` set rs \<inter> set as = {}"
proof (induction rs arbitrary: ns ms as)
  case (Cons r rs)
  have "(\<exists>st. foldE (service_reservation_step zones scopes) (r # rs) (ns, ms, as) = Inr st) \<longleftrightarrow>
      reservation_ok zones scopes r \<and> reservation_key r \<notin> set ns \<and> service_mac r \<notin> set ms \<and> rv_Address r \<notin> set as \<and>
      (\<exists>st. foldE (service_reservation_step zones scopes) rs
         (reservation_key r # ns, service_mac r # ms, rv_Address r # as) = Inr st)"
    unfolding foldE_Cons_Inr reservation_step_iff by blast
  also have "\<dots> \<longleftrightarrow> list_all (reservation_ok zones scopes) (r # rs) \<and>
      distinct (map reservation_key (r # rs)) \<and> reservation_key ` set (r # rs) \<inter> set ns = {} \<and>
      distinct (map service_mac (r # rs)) \<and> service_mac ` set (r # rs) \<inter> set ms = {} \<and>
      distinct (map rv_Address (r # rs)) \<and> rv_Address ` set (r # rs) \<inter> set as = {}"
    unfolding Cons.IH by auto
  finally show ?case .
qed simp

lemma validateDHCP_iff:
  "validateDHCP config site = Inr () \<longleftrightarrow> \<not> Enabled (dh_Enabled config) \<or> dhcp_plan config site"
proof -
  have "(\<exists>seen. foldE (scope_step (zoneMap site)) (dh_Scopes config) [] = Inr seen \<and> Q seen) \<longleftrightarrow>
      list_all (scope_ok (zoneMap site)) (dh_Scopes config) \<and>
      distinct (map (scope_zone (zoneMap site)) (dh_Scopes config)) \<and>
      Q (rev (map (scope_zone (zoneMap site)) (dh_Scopes config)))" for Q
    by (simp add: scope_fold_iff)
  note scopes = this
  have upstreams: "allE (\<lambda>u. fails (canonical_ip4 u = None) (e u)) us = Inr () \<longleftrightarrow>
      list_all (\<lambda>u. canonical_ip4 u \<noteq> None) us" for e us
    by (simp add: allE_Inr list_all_iff)
  show ?thesis
    using reservation_fold_iff [of "zoneMap site" "dh_Scopes config" "dh_Reservations config" "[]" "[]" "[]"]
    unfolding validateDHCP_def dhcp_plan_def Let_def
    by (auto simp: scopes upstreams)
qed


section \<open>Addresses of the fixed zones\<close>

lemma zones_of_valid_site:
  assumes "ValidateSite p site = Inr ()"
  shows "\<forall>z \<in> set (nw_Zones (s_Network site)). zone_contract z"
    and "distinct (map z_Name (nw_Zones (s_Network site)))" "distinct (map z_VLAN (nw_Zones (s_Network site)))"
    and "set (map z_Name (nw_Zones (s_Network site))) = fst ` set expectedZones"
proof -
  from assms obtain ns vs where "foldE zone_step (nw_Zones (s_Network site)) ([], []) = Inr (ns, vs)"
    "length ns = length expectedZones"
    by (cases rule: ValidateSite_stages)
  note z = zones_complete [OF this]
  show "\<forall>z \<in> set (nw_Zones (s_Network site)). zone_contract z"
    "distinct (map z_Name (nw_Zones (s_Network site)))" "distinct (map z_VLAN (nw_Zones (s_Network site)))"
    "set (map z_Name (nw_Zones (s_Network site))) = fst ` set expectedZones"
    by (fact z)+
qed

lemma zoneMap_Some:
  "map_of (zoneMap site) k = Some z \<Longrightarrow> z \<in> set (nw_Zones (s_Network site)) \<and> ToUpper (z_Name z) = k"
proof -
  have "map_of m0 k = Some z \<or> z \<in> set zs \<and> ToUpper (z_Name z) = k"
    if "map_of (foldl (\<lambda>m z. assoc_set (ToUpper (z_Name z)) z m) m0 zs) k = Some z" for m0 zs
    using that
  proof (induction zs arbitrary: m0)
    case (Cons y zs)
    from Cons.IH [of "assoc_set (ToUpper (z_Name y)) y m0"] Cons.prems show ?case
      by (auto split: if_split_asm)
  qed simp
  from this [of "[]"] show "map_of (zoneMap site) k = Some z \<Longrightarrow> ?thesis" by (simp add: zoneMap_def)
qed

lemma fixed_prefixes:
  "ParsePrefix ''10.10.5.0/24'' = Some \<lparr>pf_Addr = Addr4 [10, 10, 5, 0], pf_Bits = 24\<rparr>"
  "ParsePrefix ''10.10.10.0/24'' = Some \<lparr>pf_Addr = Addr4 [10, 10, 10, 0], pf_Bits = 24\<rparr>"
  "ParsePrefix ''10.10.20.0/24'' = Some \<lparr>pf_Addr = Addr4 [10, 10, 20, 0], pf_Bits = 24\<rparr>"
  "ParsePrefix ''10.10.30.0/24'' = Some \<lparr>pf_Addr = Addr4 [10, 10, 30, 0], pf_Bits = 24\<rparr>"
  "ParsePrefix ''10.10.40.0/24'' = Some \<lparr>pf_Addr = Addr4 [10, 10, 40, 0], pf_Bits = 24\<rparr>"
  "ParsePrefix ''10.10.99.0/24'' = Some \<lparr>pf_Addr = Addr4 [10, 10, 99, 0], pf_Bits = 24\<rparr>"
  by code_simp+

text \<open>The third octet of a zone's network is its VLAN.\<close>

lemma zone_prefix:
  assumes "zone_contract z"
  shows "ParsePrefix (z_Network z) = Some \<lparr>pf_Addr = Addr4 [10, 10, of_int (z_VLAN z), 0], pf_Bits = 24\<rparr>"
    and "0 < z_VLAN z" "z_VLAN z < 256"
proof -
  from assms have "(z_Network z, z_VLAN z) \<in> {(''10.10.5.0/24'', 5), (''10.10.10.0/24'', 10), (''10.10.20.0/24'', 20),
      (''10.10.30.0/24'', 30), (''10.10.40.0/24'', 40), (''10.10.99.0/24'', 99)}"
    by (auto simp: zone_contract_def expectedZones_def split: if_split_asm)
  then show "ParsePrefix (z_Network z) = Some \<lparr>pf_Addr = Addr4 [10, 10, of_int (z_VLAN z), 0], pf_Bits = 24\<rparr>"
    and "0 < z_VLAN z" "z_VLAN z < 256"
    by (auto simp: fixed_prefixes)
qed

lemma usable_octets:
  assumes "zone_contract z" "canonical_addr4 v = Some a" "usableAddress a z"
  shows "\<exists>d. octets a = [10, 10, of_int (z_VLAN z), d] \<and> d \<noteq> 255"
proof -
  note a = canonical_addr4_octets [OF assms(2)]
  obtain w x y d where q: "octets a = [w, x, y, d]" using a(2) by (rule length4_cases)
  have "PrefixContains \<lparr>pf_Addr = Addr4 [10, 10, of_int (z_VLAN z), 0], pf_Bits = 24\<rparr> (Addr4 [w, x, y, d])"
    "[w, x, y, d] \<noteq> [10, 10, of_int (z_VLAN z), 255]"
    using assms(3) a(1) q zone_prefix [OF assms(1)]
    by (auto simp: usableAddress_def Masked_def mask_octets_24)
  then show ?thesis by (auto simp: PrefixContains_octets mask_octets_24 q)
qed

lemma same_zone_number:
  assumes "0 < i" "i < 256" "0 < j" "j < 256"
    and "addr_le (Addr4 [10, 10, of_int i, s]) (Addr4 [10, 10, of_int j, a])"
    and "addr_le (Addr4 [10, 10, of_int j, a]) (Addr4 [10, 10, of_int i, e])"
  shows "i = j"
proof -
  have num: "uint (of_int i :: 8 word) = i" "uint (of_int j :: 8 word) = j"
    using assms by (simp_all add: unsigned_of_int take_bit_eq_mod)
  have bound: "0 \<le> uint w" "uint w < 256" for w :: "8 word"
    using uint_lt2p [of w] by simp_all
  from assms(5,6) num have "i * 256 + uint s \<le> j * 256 + uint a" "j * 256 + uint a \<le> i * 256 + uint e"
    by (simp_all add: addr_le_def ip_num4)
  then have "i < j + 1" "j < i + 1" using bound [of s] bound [of a] bound [of e] by linarith+
  then show ?thesis by linarith
qed

section \<open>Reservations and pools\<close>

lemma pool_scope_ok:
  assumes "scope_ok (zoneMap site) scope" "sc_Mode scope = ScopePool"
  obtains zone s e where "map_of (zoneMap site) (ToUpper (sc_Zone scope)) = Some zone"
    "usablePool (sc_PoolStart scope) (sc_PoolEnd scope) zone = Inr (s, e)"
    "canonical_addr4 (sc_PoolStart scope) = Some s" "canonical_addr4 (sc_PoolEnd scope) = Some e"
    "usableAddress s zone" "usableAddress e zone" "addr_le s e"
  using assms
  by (auto simp: scope_ok_def pool_ok_def usablePool_def canonical_addr4_Some split: option.split_asm sum.split_asm if_split_asm)

lemma plan_outside_pools:
  assumes site: "ValidateSite p site = Inr ()" and plan: "dhcp_plan h site"
    and r: "r \<in> set (dh_Reservations h)" and scope: "scope \<in> set (dh_Scopes h)" "sc_Mode scope = ScopePool"
  obtains a s e where "canonical_addr4 (rv_Address r) = Some a"
    "canonical_addr4 (sc_PoolStart scope) = Some s" "canonical_addr4 (sc_PoolEnd scope) = Some e"
    "\<not> (addr_le s a \<and> addr_le a e)"
proof -
  note zones = zones_of_valid_site [OF site]
  from plan r have "reservation_ok (zoneMap site) (dh_Scopes h) r" by (simp add: dhcp_plan_def list_all_iff)
  then obtain zone a where zone: "map_of (zoneMap site) (ToUpper (rv_Zone r)) = Some zone"
    and a: "canonical_addr4 (rv_Address r) = Some a" "usableAddress a zone"
    and free: "\<not> pool_collision a zone scope"
    using scope by (auto simp: reservation_ok_def list_all_iff split: option.split_asm)
  from plan scope have "scope_ok (zoneMap site) scope" by (simp add: dhcp_plan_def list_all_iff)
  then obtain zone' s e where zone': "map_of (zoneMap site) (ToUpper (sc_Zone scope)) = Some zone'"
    and pool: "usablePool (sc_PoolStart scope) (sc_PoolEnd scope) zone' = Inr (s, e)"
    and s: "canonical_addr4 (sc_PoolStart scope) = Some s" "usableAddress s zone'"
    and e: "canonical_addr4 (sc_PoolEnd scope) = Some e" "usableAddress e zone'"
    using scope(2) by (rule pool_scope_ok)
  have c: "zone_contract zone" "zone_contract zone'"
    using zoneMap_Some [OF zone] zoneMap_Some [OF zone'] zones(1) by auto
  have "\<not> (addr_le s a \<and> addr_le a e)"
  proof
    assume between: "addr_le s a \<and> addr_le a e"
    obtain d1 d2 d3 where o: "octets a = [10, 10, of_int (z_VLAN zone), d1]"
      "octets s = [10, 10, of_int (z_VLAN zone'), d2]" "octets e = [10, 10, of_int (z_VLAN zone'), d3]"
      using usable_octets [OF c(1) a] usable_octets [OF c(2) s] usable_octets [OF c(2) e] by blast
    have "z_VLAN zone' = z_VLAN zone"
      using same_zone_number [OF zone_prefix(2,3) [OF c(2)] zone_prefix(2,3) [OF c(1)], of d2 d1 d3] between
        canonical_addr4_octets(1) [OF a(1)] canonical_addr4_octets(1) [OF s(1)] canonical_addr4_octets(1) [OF e(1)] o
      by metis
    then have "zone' = zone"
      using zones(3) zoneMap_Some [OF zone] zoneMap_Some [OF zone'] by (auto simp: distinct_map inj_on_def)
    moreover have "EqualFold (sc_Zone scope) (z_Name zone')"
      using zoneMap_Some [OF zone'] by (metis EqualFold_def ToLower_ToUpper)
    ultimately have "pool_collision a zone scope"
      using pool between scope(2) by (simp add: pool_collision_def)
    then show False using free by simp
  qed
  then show ?thesis using that a(1) s(1) e(1) by blast
qed

text \<open>For a valid site and a valid service configuration with DHCP enabled, no fixed reservation, written by the operator or derived from a registered system, lies inside the dynamic pool of any scope, whichever zone the scope serves; so a lease can never take a reserved address.\<close>

theorem reservations_outside_pools:
  assumes "ValidateSite p site = Inr ()" and "Validate q m site = Inr ()"
    and "m_DHCP (effective m) = Some h" "Enabled (dh_Enabled h)"
    and "r \<in> set (dh_Reservations h)" and "scope \<in> set (dh_Scopes h)" "sc_Mode scope = ScopePool"
  shows "\<exists>a s e. canonical_addr4 (rv_Address r) = Some a \<and>
    canonical_addr4 (sc_PoolStart scope) = Some s \<and> canonical_addr4 (sc_PoolEnd scope) = Some e \<and>
    \<not> (addr_le s a \<and> addr_le a e)"
proof -
  have "dhcp_plan h site"
    using expanded_stages(6) [OF Validate_stages(2) [OF assms(2)] assms(3,4)] assms(4)
    by (simp add: validateDHCP_iff)
  then show ?thesis using plan_outside_pools [OF assms(1) _ assms(5-7)] by metis
qed

section \<open>Aliases\<close>

text \<open>A name is served, or an alias of a name that resolves: the chain of aliases is finite.\<close>

inductive resolves :: "string set \<Rightarrow> (string \<rightharpoonup> string) \<Rightarrow> string \<Rightarrow> bool" for served targets where
  served: "targets n = None \<Longrightarrow> n \<in> served \<Longrightarrow> resolves served targets n"
| chained: "targets n = Some t \<Longrightarrow> resolves served targets t \<Longrightarrow> resolves served targets n"

inductive_simps resolves_alias: "resolves served targets n"

lemma resolves_no_cycle:
  assumes "resolves served targets n"
  shows "(n, n) \<notin> {(a, b). targets a = Some b}\<^sup>+"
  using assms
proof induction
  case (served n)
  then show ?case by (auto dest: tranclD)
next
  case (chained n t)
  show ?case
  proof
    assume "(n, n) \<in> {(a, b). targets a = Some b}\<^sup>+"
    then obtain u where "targets n = Some u" "(u, n) \<in> {(a, b). targets a = Some b}\<^sup>*"
      by (auto dest: tranclD)
    with chained.hyps(1) have "(t, t) \<in> {(a, b). targets a = Some b}\<^sup>+"
      by (auto intro: rtrancl_into_trancl1)
    with chained.IH show False by simp
  qed
qed

lemma alias_walk_resolves:
  "alias_walk seen targets path name = Inr () \<Longrightarrow> resolves (set seen) (map_of targets) name"
proof (induction seen targets path name rule: alias_walk.induct)
  case (1 seen targets path name)
  from 1(2) show ?case
    by (subst (asm) alias_walk.simps)
      (auto split: if_split_asm option.split_asm intro: resolves.intros dest: 1(1))
qed

lemma resolves_alias_walk:
  assumes "resolves (set seen) (map_of targets) name"
    and "\<forall>x \<in> set path. (x, name) \<in> {(a, b). map_of targets a = Some b}\<^sup>+"
  shows "alias_walk seen targets path name = Inr ()"
  using assms
proof (induction arbitrary: path)
  case (served n)
  then have "n \<notin> set path" using resolves_no_cycle [OF resolves.served [of "map_of targets" n "set seen"]] by blast
  then show ?case using served by (subst alias_walk.simps) simp
next
  case (chained n t)
  have "n \<notin> set path" using resolves_no_cycle [OF resolves.chained [OF chained.hyps]] chained.prems by blast
  moreover have "alias_walk seen targets (n # path) t = Inr ()"
  proof (rule chained.IH, simp, intro conjI ballI)
    show "(n, t) \<in> {(a, b). map_of targets a = Some b}\<^sup>+" using chained.hyps(1) by auto
    fix x assume "x \<in> set path"
    then show "(x, t) \<in> {(a, b). map_of targets a = Some b}\<^sup>+"
      using chained.prems chained.hyps(1) by (auto intro: trancl_into_trancl)
  qed
  ultimately show ?case using chained.hyps(1) by (subst alias_walk.simps) simp
qed

lemma alias_walk_iff: "alias_walk seen targets [] name = Inr () \<longleftrightarrow> resolves (set seen) (map_of targets) name"
  using alias_walk_resolves resolves_alias_walk [of seen targets name "[]"] by auto

definition record_name :: "Site \<Rightarrow> ServiceRecord \<Rightarrow> string" where
  "record_name site r = (case canonicalName (sr_Name r) (nw_Domain (s_Network site)) of Inl _ \<Rightarrow> [] | Inr n \<Rightarrow> n)"

definition record_target :: "Site \<Rightarrow> ServiceRecord \<Rightarrow> string" where
  "record_target site r = (case canonicalName (sr_Value r) (nw_Domain (s_Network site)) of Inl _ \<Rightarrow> [] | Inr n \<Rightarrow> n)"

definition is_alias :: "ServiceRecord \<Rightarrow> bool" where
  "is_alias r \<longleftrightarrow> sr_Type r \<noteq> ''A''"

definition alias_map :: "Site \<Rightarrow> ServiceRecord list \<Rightarrow> string \<rightharpoonup> string" where
  "alias_map site rs = map_of (map (\<lambda>r. (record_name site r, record_target site r)) (filter is_alias rs))"

lemma shared_step_iff:
  "shared_record_step (nw_Domain (s_Network site)) r (seen, T) = Inr st \<longleftrightarrow>
     (\<exists>n. canonicalName (sr_Name r) (nw_Domain (s_Network site)) = Inr n \<and> n \<notin> set seen) \<and>
     (is_alias r \<longrightarrow> is_ok (canonicalName (sr_Value r) (nw_Domain (s_Network site)))) \<and>
     st = (record_name site r # seen, if is_alias r then assoc_set (record_name site r) (record_target site r) T else T)"
  by (auto simp: shared_record_step_def is_alias_def record_name_def record_target_def is_ok_iff split: if_split_asm)

lemma shared_fold:
  assumes "foldE (shared_record_step (nw_Domain (s_Network site))) rs (seen, T) = Inr (seen', T')"
    and "fst ` set T \<subseteq> set seen"
  shows "distinct (map (record_name site) rs) \<and> record_name site ` set rs \<inter> set seen = {} \<and>
    set seen' = set seen \<union> record_name site ` set rs \<and> map_of T' = map_of T ++ alias_map site rs"
  using assms
proof (induction rs arbitrary: seen T)
  case Nil
  then show ?case by (simp add: alias_map_def)
next
  case (Cons r rs)
  let ?T = "if is_alias r then assoc_set (record_name site r) (record_target site r) T else T"
  from Cons.prems(1) have name: "record_name site r \<notin> set seen"
    and rest: "foldE (shared_record_step (nw_Domain (s_Network site))) rs (record_name site r # seen, ?T) = Inr (seen', T')"
    unfolding foldE_Cons_Inr shared_step_iff by (auto simp: record_name_def)
  have "fst ` set ?T \<subseteq> set (record_name site r # seen)"
    using Cons.prems(2) keys_assoc_set [of "record_name site r" "record_target site r" T] by auto
  note IH = Cons.IH [OF rest this]
  have "alias_map site (r # rs) = (if is_alias r then (alias_map site rs)(record_name site r \<mapsto> record_target site r)
      else alias_map site rs)"
    by (simp add: alias_map_def)
  moreover have "alias_map site rs (record_name site r) = None"
    using IH by (auto simp: alias_map_def map_of_eq_None_iff)
  moreover have "map_of T (record_name site r) = None"
    using Cons.prems(2) name by (auto simp: map_of_eq_None_iff)
  ultimately have "map_of T' = map_of T ++ alias_map site (r # rs)"
    using IH by (auto simp: fun_eq_iff map_add_def split: option.split)
  then show ?case using IH name by auto
qed

text \<open>The names that answer without an alias: platform names, reservations and A records.\<close>

definition served_names :: "Modules \<Rightarrow> Site \<Rightarrow> string set" where
  "served_names m site =
     set (platform_names site) \<union>
     set (reservation_names (if dhcp_enabled m then (case m_DHCP m of None \<Rightarrow> [] | Some h \<Rightarrow> dh_Reservations h) else []) site) \<union>
     record_name site ` {r. \<exists>d. m_DNS m = Some d \<and> r \<in> set (dns_Records d) \<and> \<not> is_alias r}"

lemma resolves_mono:
  assumes "resolves A T n" and "\<And>x. x \<in> A \<Longrightarrow> T x = None \<Longrightarrow> x \<in> B"
  shows "resolves B T n"
  using assms by induction (auto intro: resolves.intros)

lemma shared_names_resolve:
  assumes "validateSharedNames dns rs site = Inr ()"
  shows "distinct (map (record_name site) (dns_Records dns))"
    and "record_name site ` set (dns_Records dns) \<inter> set (platform_names site @ reservation_names rs site) = {}"
    and "r \<in> set (dns_Records dns) \<Longrightarrow>
      resolves (set (platform_names site @ reservation_names rs site) \<union>
        record_name site ` {r \<in> set (dns_Records dns). \<not> is_alias r}) (alias_map site (dns_Records dns)) (record_name site r)"
proof -
  let ?base = "platform_names site @ reservation_names rs site"
  from assms obtain seen T where
    fold: "foldE (shared_record_step (nw_Domain (s_Network site))) (dns_Records dns) (?base, []) = Inr (seen, T)"
    and walks: "\<And>n t. (n, t) \<in> set T \<Longrightarrow> alias_walk seen T [] n = Inr ()"
    by (fastforce simp: validateSharedNames_def allE_Inr)
  note facts = shared_fold [OF fold]
  then show "distinct (map (record_name site) (dns_Records dns))"
    and "record_name site ` set (dns_Records dns) \<inter> set ?base = {}" by simp_all
  have T: "map_of T = alias_map site (dns_Records dns)" and seen: "set seen = set ?base \<union> record_name site ` set (dns_Records dns)"
    using facts by simp_all
  assume r: "r \<in> set (dns_Records dns)"
  have known: "x \<in> set ?base \<union> record_name site ` {r \<in> set (dns_Records dns). \<not> is_alias r}"
    if "x \<in> set seen" "alias_map site (dns_Records dns) x = None" for x
    using that by (auto simp: seen alias_map_def map_of_eq_None_iff image_image)
  have "resolves (set seen) (map_of T) (record_name site r)"
  proof (cases "map_of T (record_name site r)")
    case None
    then show ?thesis using r by (auto simp: seen intro: resolves.served)
  next
    case (Some t)
    then have "alias_walk seen T [] (record_name site r) = Inr ()" using walks by (blast dest: map_of_SomeD)
    then show ?thesis by (simp add: alias_walk_iff)
  qed
  then show "resolves (set ?base \<union> record_name site ` {r \<in> set (dns_Records dns). \<not> is_alias r})
      (alias_map site (dns_Records dns)) (record_name site r)"
    unfolding T using known by (rule resolves_mono)
qed

definition effective_reservations :: "Modules \<Rightarrow> Reservation list" where
  "effective_reservations n =
     (if dhcp_enabled n then (case m_DHCP n of None \<Rightarrow> [] | Some h \<Rightarrow> dh_Reservations h) else [])"

lemma valid_shared_names:
  assumes "Validate p m site = Inr ()" "m_DNS m = Some dns"
  shows "validateSharedNames (normalize_dns dns) (effective_reservations (effective m)) site = Inr ()"
proof -
  let ?n = "effective m"
  note stages = expanded_stages [OF Validate_stages(2) [OF assms(1)]]
  have dns: "m_DNS ?n = Some (normalize_dns dns)" using assms(2) by simp
  show ?thesis
  proof (cases "dhcp_enabled ?n")
    case True
    then obtain h where h: "m_DHCP ?n = Some h" "Enabled (dh_Enabled h)"
      by (auto simp: dhcp_enabled_def simp del: SystemsExpanded_simps enabled_expanded split: option.split_asm)
    from stages(9) [OF dns h(1) _ True] stages(6) [OF h] show ?thesis
      by (simp add: effective_reservations_def h True del: SystemsExpanded_simps enabled_expanded)
  next
    case False
    then show ?thesis using stages(8) [OF dns False] by (simp add: effective_reservations_def)
  qed
qed

text \<open>C10: In a valid service configuration every user DNS record has a name of its own that no platform component and no reservation carries, and resolves: following its aliases ends, after finitely many steps and without a cycle, at a platform name, a reservation or an A record.\<close>

theorem user_names_resolve:
  assumes "Validate p m site = Inr ()" and "m_DNS m = Some dns"
  shows "distinct (map (record_name site) (dns_Records dns)) \<and>
    (\<forall>r \<in> set (dns_Records dns). record_name site r \<notin> set (platform_names site) \<and>
       resolves (served_names (effective m) site) (alias_map site (dns_Records dns)) (record_name site r))"
proof -
  let ?n = "effective m"
  have dns: "m_DNS ?n = Some (normalize_dns dns)" using assms(2) by simp
  note facts = shared_names_resolve [OF valid_shared_names [OF assms], unfolded normalize_keeps]
  have "served_names ?n site = set (platform_names site @ reservation_names (effective_reservations ?n) site) \<union>
      record_name site ` {r \<in> set (dns_Records dns). \<not> is_alias r}"
    using dns by (simp add: served_names_def effective_reservations_def del: SystemsExpanded_simps enabled_expanded)
  then show ?thesis using facts by auto
qed

text \<open>Normalization is idempotent: applying the defaults to a normalized configuration changes nothing, so validating, composing and storing may each normalize.\<close>

theorem normalize_idempotent: "Normalize (Normalize m) = Normalize m"
  by (rule Normalize_twice)

section \<open>A concrete configuration\<close>

definition demo_services :: Modules where
  "demo_services =
     \<lparr>m_Systems = [\<lparr>sy_Name = ''wiki'', sy_VMID = 500, sy_Kind = ''vm'', sy_GuestName = ''wiki'', sy_MAC = ''02:00:00:00:20:28'',
        sy_Address = ''10.10.20.40'', sy_Port = 80, sy_HomePort = 91, sy_DNSName = ''wiki.example.org'', sy_Monitoring = False\<rparr>],
      m_Tailnet = None,
      m_DNS = Some \<lparr>dns_Enabled = Some True, dns_Upstreams = [],
        dns_Records = [\<lparr>sr_Name = ''files'', sr_Type = ''CNAME'', sr_Value = ''store''\<rparr>,
                       \<lparr>sr_Name = ''store'', sr_Type = ''CNAME'', sr_Value = ''nas''\<rparr>,
                       \<lparr>sr_Name = ''printer'', sr_Type = ''A'', sr_Value = ''10.10.30.9''\<rparr>],
        dns_Infrastructure = []\<rparr>,
      m_DHCP = Some \<lparr>dh_Enabled = Some True, dh_LeaseDuration = [], dh_Scopes = [],
        dh_Reservations = [\<lparr>rv_Name = ''nas'', rv_Zone = ''SERVERS'', rv_MAC = ''02:00:00:00:20:e1'', rv_Address = ''10.10.20.225''\<rparr>],
        dh_TimeUpstreams = [], dh_TimeServe = None\<rparr>,
      m_VPN = Some \<lparr>vpn_Enabled = Some True, vpn_Location = ''nl'', vpn_Clients = [''nas''],
        vpn_Forwards = [\<lparr>fw_Name = ''torrent'', fw_Reservation = ''nas'', fw_Protocols = [''tcp'', ''udp''], fw_Port = 81\<rparr>]\<rparr>,
      m_Observability = None, m_Media = None, m_Arrstack = None\<rparr>"

lemma demo_services_valid: "Validate (\<lambda>_. None) demo_services demo_site = Inr ()"
  by code_simp

definition demo_dhcp :: DHCPConfig where
  "demo_dhcp = the (m_DHCP (effective demo_services))"

lemma demo_dhcp_simps:
  "m_DHCP (effective demo_services) = Some demo_dhcp" "Enabled (dh_Enabled demo_dhcp)"
  "dh_Scopes demo_dhcp = DefaultScopes" "map rv_Address (dh_Reservations demo_dhcp) = [''10.10.20.225'', ''10.10.20.40'']"
  by (simp_all add: demo_dhcp_def demo_services_def normalize_dhcp_def Enabled_def system_reservation_def)

theorem reservations_outside_pools_witness:
  "\<exists>a s e. canonical_addr4 ''10.10.20.40'' = Some a \<and> canonical_addr4 ''10.10.20.100'' = Some s \<and>
     canonical_addr4 ''10.10.20.199'' = Some e \<and> \<not> (addr_le s a \<and> addr_le a e)"
proof -
  let ?scope = "pool_scope ''SERVERS'' ''10.10.20.100'' ''10.10.20.199'' None"
  have "''10.10.20.40'' \<in> set (map rv_Address (dh_Reservations demo_dhcp))"
    unfolding demo_dhcp_simps(4) by simp
  then obtain r where r: "r \<in> set (dh_Reservations demo_dhcp)" "rv_Address r = ''10.10.20.40''" by auto
  have scope: "?scope \<in> set (dh_Scopes demo_dhcp)" "sc_Mode ?scope = ScopePool"
    by (simp_all add: demo_dhcp_simps DefaultScopes_def pool_scope_def)
  show ?thesis
    using reservations_outside_pools [OF demo_site_valid demo_services_valid demo_dhcp_simps(1,2) r(1) scope]
    unfolding r(2) by (simp only: pool_scope_def DHCPScope.simps)
qed

theorem user_names_resolve_witness:
  "resolves (served_names (effective demo_services) demo_site)
     (alias_map demo_site (dns_Records (the (m_DNS demo_services)))) ''files.lab.home.arpa''"
proof -
  have dns: "m_DNS demo_services = Some (the (m_DNS demo_services))" by (simp add: demo_services_def)
  have "record_name demo_site (hd (dns_Records (the (m_DNS demo_services)))) = ''files.lab.home.arpa''" by code_simp
  moreover have "hd (dns_Records (the (m_DNS demo_services))) \<in> set (dns_Records (the (m_DNS demo_services)))"
    by (simp add: demo_services_def)
  ultimately show ?thesis using user_names_resolve [OF demo_services_valid dns] by metis
qed

end
