(* ===== verification/Appliance_Correct.thy ===== *)
theory Appliance_Correct
  imports Appliance_Compose Client_Correct
begin

text \<open>
  What a composed appliance guarantees: the VPN safety sets admit exactly the validated clients
  and forwards inside the protected ranges, zones are closed by default and connected only by the
  fixed forwarding matrix, and the management zone is reached through single-port rules only.
\<close>

section \<open>Stages of a successful composition\<close>

lemma ComposeAppliance_stages:
  assumes "ComposeAppliance p site m policy = Inr c"
  obtains desired services clients tuples sections where
    "DesiredFromSiteWithServices p site m policy = Inr desired"
    "ServiceStateFromModules p site m = Inr services"
    "active_vpn m = Inr (clients, tuples)"
    "ac_Safety c = (base_safety policy desired)\<lparr>sf_ClientIPv4 := clients, sf_ForwardTuples := tuples\<rparr>"
    "SafetyValidate (ac_Safety c) = Inr ()" "SafetySections (ac_Safety c) = Inr sections"
    "ac_Desired c = desired\<lparr>ds_Firewall := ds_Firewall desired @ sections\<rparr>"
    "ac_DHCP c = ss_DHCP services" "ac_Stubby c = ss_Stubby services" "ac_System c = ss_System services"
proof -
  from assms obtain desired services clients tuples u sections where
    1: "DesiredFromSiteWithServices p site m policy = Inr desired" "ServiceStateFromModules p site m = Inr services"
      "active_vpn m = Inr (clients, tuples)"
    and 2: "SafetyValidate ((base_safety policy desired)\<lparr>sf_ClientIPv4 := clients, sf_ForwardTuples := tuples\<rparr>) = Inr u"
      "SafetySections ((base_safety policy desired)\<lparr>sf_ClientIPv4 := clients, sf_ForwardTuples := tuples\<rparr>) = Inr sections"
    and c: "assemble m desired services ((base_safety policy desired)\<lparr>sf_ClientIPv4 := clients, sf_ForwardTuples := tuples\<rparr>)
      sections = c"
    unfolding ComposeAppliance_def Let_def bindE_Inr sum.inject split_paired_Ex fst_conv snd_conv by blast
  show ?thesis
    by (rule that [OF 1]) (use 2 in \<open>simp_all add: assemble_def Let_def flip: c\<close>)
qed

lemma Desired_stages:
  assumes "DesiredFromSiteWithServices p site m policy = Inr desired"
  obtains netmask byType rest zones policySections services where
    "management_check (ds_ManagementAddress desired) (home_network site) (ds_ManagementGateway desired)
       (ds_ControllerAddress desired) = Inr netmask"
    "foldE appliance_zone_step (nw_Zones (s_Network site)) ([], [], []) = Inr (byType, rest)"
    "mapE (appliance_zone byType) zoneOrder = Inr zones"
    "policy_sections m zones policy = Inr policySections"
    "ServiceStateFromModules p site m = Inr services"
    "ds_Zones desired = zones" "ds_ManagementNetwork desired = home_network site"
    "ds_Network desired = networkSections zones (ds_ManagementAddress desired) netmask (ds_ManagementGateway desired)"
    "ds_Firewall desired = firewallSections zones (home_network site) (ds_ControllerAddress desired) @ policySections @
       ss_Firewall services @ (if tailnet_enabled m then tailnetFirewallSections (home_network site) else [])"
    "ds_ManagementAddress desired = override (gw_ManagementAddress (s_Gateway site)) GatewayManagementAddress"
    "ds_ManagementGateway desired = override (gw_ManagementGateway (s_Gateway site)) GatewayManagementGateway"
    "ds_ControllerAddress desired = override (gw_ControllerAddress (s_Gateway site)) GatewayControllerAddress"
  using assms unfolding DesiredFromSiteWithServices_def Let_def by clarsimp

section \<open>The reference zones\<close>

definition reference_zones :: "ApplianceZone list" where
  "reference_zones =
     [\<lparr>az_Name = ''TRANSIT'', az_Type = ZoneTypeTransit, az_VLAN = 5, az_Subnet = ''10.10.5.0/24'', az_Gateway = ''10.10.5.1''\<rparr>,
      \<lparr>az_Name = ''INFRA'', az_Type = ZoneTypeInfrastructure, az_VLAN = 10, az_Subnet = ''10.10.10.0/24'', az_Gateway = ''10.10.10.1''\<rparr>,
      \<lparr>az_Name = ''SERVERS'', az_Type = ZoneTypeServers, az_VLAN = 20, az_Subnet = ''10.10.20.0/24'', az_Gateway = ''10.10.20.1''\<rparr>,
      \<lparr>az_Name = ''TRUSTED'', az_Type = ZoneTypeTrusted, az_VLAN = 30, az_Subnet = ''10.10.30.0/24'', az_Gateway = ''10.10.30.1''\<rparr>,
      \<lparr>az_Name = ''SANDBOX'', az_Type = ZoneTypeSandbox, az_VLAN = 40, az_Subnet = ''10.10.40.0/24'', az_Gateway = ''10.10.40.1''\<rparr>,
      \<lparr>az_Name = ''MGMT'', az_Type = ZoneTypeManagement, az_VLAN = 99, az_Subnet = ''10.10.99.0/24'', az_Gateway = ''10.10.99.1''\<rparr>]"

definition of_zone :: "Zone \<Rightarrow> ApplianceZone" where
  "of_zone z = \<lparr>az_Name = z_Name z, az_Type = z_Type z, az_VLAN = z_VLAN z, az_Subnet = z_Network z, az_Gateway = z_Gateway z\<rparr>"

lemma zone_fold_types:
  assumes "foldE appliance_zone_step zs (bt, vs, ss) = Inr (byType, rest)"
  shows "set byType \<subseteq> set bt \<union> (\<lambda>z. (z_Type z, z)) ` set zs"
  using assms
proof (induction zs arbitrary: bt vs ss)
  case (Cons z zs)
  from Cons.prems obtain vs' ss' where
    "foldE appliance_zone_step zs ((z_Type z, z) # bt, vs', ss') = Inr (byType, rest)"
    unfolding foldE_Cons_Inr by (auto simp: appliance_zone_step_def split: if_split_asm option.split_asm)
  from Cons.IH [OF this] show ?case by auto
qed simp

lemma reference_zone_of_type:
  assumes "zone_contract z"
  shows "of_zone z \<in> set reference_zones"
  using assms by (auto simp: zone_contract_def expectedZones_def of_zone_def reference_zones_def split: if_split_asm)

lemma reference_types: "map az_Type reference_zones = zoneOrder"
  by (simp add: reference_zones_def zoneOrder_def)

lemma zones_are_reference:
  assumes "ValidateSite q site = Inr ()"
    and "foldE appliance_zone_step (nw_Zones (s_Network site)) ([], [], []) = Inr (byType, rest)"
    and "mapE (appliance_zone byType) zoneOrder = Inr zones"
  shows "zones = reference_zones"
proof -
  have sub: "set byType \<subseteq> (\<lambda>z. (z_Type z, z)) ` set (nw_Zones (s_Network site))"
    using zone_fold_types [OF assms(2)] by simp
  have one: "a \<in> set reference_zones \<and> az_Type a = kind" if "appliance_zone byType kind = Inr a" for kind a
  proof -
    from that obtain z where z: "map_of byType kind = Some z" and a: "a = of_zone z"
      by (auto simp: appliance_zone_def of_zone_def split: option.split_asm)
    from map_of_SomeD [OF z] sub have "z \<in> set (nw_Zones (s_Network site))" "z_Type z = kind" by auto
    then show ?thesis
      using reference_zone_of_type zones_of_valid_site(1) [OF assms(1)] by (auto simp: a of_zone_def)
  qed
  have "list_all2 (\<lambda>kind a. a \<in> set reference_zones \<and> az_Type a = kind) zoneOrder zones"
    using assms(3) unfolding mapE_Inr by (rule list_all2_mono) (rule one)
  then have types: "map az_Type zones = zoneOrder" and mem: "set zones \<subseteq> set reference_zones"
    by (induction rule: list_all2_induct) auto
  have inj: "inj_on az_Type (set reference_zones)"
    by (simp add: reference_zones_def inj_on_def)
  have "set zones \<union> set reference_zones = set reference_zones" using mem by auto
  then show ?thesis using types inj by (simp add: inj_on_map_eq_map flip: reference_types)
qed

section \<open>The VPN safety sets\<close>

lemma protected_fold:
  assumes "foldE protected_step raws acc = Inr prefixes" and "pf \<in> set prefixes"
  shows "pf \<in> set acc \<or> (\<exists>raw \<in> set raws. ParsePrefix raw = Some pf \<and> pf_Bits pf = 28)"
  using assms
proof (induction raws arbitrary: acc)
  case (Cons raw raws)
  from Cons.prems obtain x where x: "ParsePrefix raw = Some x" "pf_Bits x = 28"
    and rest: "foldE protected_step raws (acc @ [x]) = Inr prefixes"
    unfolding foldE_Cons_Inr by (auto simp: protected_step_def split: option.split_asm if_split_asm)
  from Cons.IH [OF rest Cons.prems(2)] x show ?case by auto
qed simp

lemma SafetyValidate_ok:
  assumes "SafetyValidate s = Inr ()"
  shows "\<And>v. v \<in> set (sf_ClientIPv4 s) \<Longrightarrow> \<exists>a raw pf. canonical_addr4 v = Some a \<and>
      raw \<in> set (sf_ProtectedIPv4 s) \<and> ParsePrefix raw = Some pf \<and> pf_Bits pf = 28 \<and> PrefixContains pf a"
    and "\<And>t. t \<in> set (sf_ForwardTuples s) \<Longrightarrow>
      ft_Address t \<in> set (sf_ClientIPv4 s) \<and> ft_Protocol t \<in> {''tcp'', ''udp''} \<and> ft_Port t \<noteq> 0"
proof -
  from assms obtain prefixes where fold: "foldE protected_step (sf_ProtectedIPv4 s) [] = Inr prefixes"
    and clients: "\<forall>v \<in> set (sf_ClientIPv4 s). safety_client_check prefixes v = Inr ()"
    and tuples: "\<forall>t \<in> set (sf_ForwardTuples s). safety_forward_check (sf_ClientIPv4 s) t = Inr ()"
    unfolding SafetyValidate_def by (auto simp: checks_Inr allE_Inr simp del: checks_simps split: if_split_asm)
  fix v assume "v \<in> set (sf_ClientIPv4 s)"
  then obtain a x where "canonical_addr4 v = Some a" "x \<in> set prefixes" "PrefixContains x a"
    using clients by (fastforce simp: safety_client_check_def containsAddress_def list_ex_iff split: option.split_asm)
  moreover from protected_fold [OF fold this(2)] obtain raw where
    "raw \<in> set (sf_ProtectedIPv4 s)" "ParsePrefix raw = Some x" "pf_Bits x = 28" by auto
  ultimately show "\<exists>a raw pf. canonical_addr4 v = Some a \<and>
      raw \<in> set (sf_ProtectedIPv4 s) \<and> ParsePrefix raw = Some pf \<and> pf_Bits pf = 28 \<and> PrefixContains pf a" by blast
next
  fix t assume "t \<in> set (sf_ForwardTuples s)"
  then have "safety_forward_check (sf_ClientIPv4 s) t = Inr ()"
    using assms unfolding SafetyValidate_def by (auto simp: checks_Inr allE_Inr simp del: checks_simps split: if_split_asm)
  then show "ft_Address t \<in> set (sf_ClientIPv4 s) \<and> ft_Protocol t \<in> {''tcp'', ''udp''} \<and> ft_Port t \<noteq> 0"
    by (auto simp: safety_forward_check_def checks_Inr simp del: checks_simps)
qed

lemma ServiceState_validated:
  assumes "ServiceStateFromModules p site m = Inr services"
  shows "Validate p m site = Inr ()"
  using assms by (auto simp: ServiceStateFromModules_def Let_def Validate_def Normalize_twice)

lemma vpn_forward_ports:
  assumes "Validate p m site = Inr ()" "m_VPN m = Some v" "f \<in> set (vpn_Forwards v)"
  shows "1 \<le> fw_Port f \<and> fw_Port f \<le> 65535 \<and> fw_Reservation f \<in> set (vpn_Clients v) \<and>
    set (fw_Protocols f) \<subseteq> {''tcp'', ''udp''}"
proof -
  let ?n = "effective m"
  have "validateVPN v (m_DHCP ?n) = Inr ()"
    using expanded_stages(7) [OF Validate_stages(2) [OF assms(1)]] assms(2) by simp
  then obtain clients st where
    cl: "foldE (vpn_client_step (reservations_by_name (m_DHCP ?n))) (vpn_Clients v) [] = Inr clients"
    and fo: "foldE (vpn_forward_step clients) (vpn_Forwards v) ([], []) = Inr st"
    unfolding validateVPN_def by (auto split: if_split_asm)
  have sub: "set clients \<subseteq> set (vpn_Clients v)"
    by (rule foldE_invariant [OF cl, where P = "\<lambda>st. set st \<subseteq> set (vpn_Clients v)"])
      (auto simp: vpn_client_step_def Let_def split: if_split_asm option.split_asm)
  have protocols: "set (fw_Protocols f) \<subseteq> {''tcp'', ''udp''}"
    if "foldE (protocol_step f) (fw_Protocols f) seen = Inr seen'" for f seen seen'
  proof -
    have "\<forall>x \<in> set (fw_Protocols f). x \<in> {''tcp'', ''udp''}"
      by (rule foldE_each [OF that, where I = "\<lambda>_. True"]) (auto simp: protocol_step_def Let_def split: if_split_asm)
    then show ?thesis by blast
  qed
  have step: "1 \<le> fw_Port f \<and> fw_Port f \<le> 65535 \<and> fw_Reservation f \<in> set clients \<and>
      set (fw_Protocols f) \<subseteq> {''tcp'', ''udp''}" if "vpn_forward_step clients f u = Inr w" for f u w
  proof -
    obtain seen names where u: "u = (seen, names)" by (cases u)
    from that have "\<exists>seen'. foldE (protocol_step f) (fw_Protocols f) seen = Inr seen'"
      and "1 \<le> fw_Port f \<and> fw_Port f \<le> 65535 \<and> fw_Reservation f \<in> set clients"
      unfolding vpn_forward_step_def u Let_def prod.case by (simp_all split: if_split_asm) blast
    then show ?thesis using protocols by blast
  qed
  have "\<forall>f \<in> set (vpn_Forwards v). 1 \<le> fw_Port f \<and> fw_Port f \<le> 65535 \<and> fw_Reservation f \<in> set clients \<and>
      set (fw_Protocols f) \<subseteq> {''tcp'', ''udp''}"
    by (rule foldE_each [OF fo, where I = "\<lambda>_. True"]) (rule TrueI, rule conjI [OF TrueI], erule step)
  then show ?thesis using assms(3) sub by auto
qed

text \<open>C7: Whatever policy is supplied, a composition that succeeds admits no VPN client and no forward while the VPN is disabled; otherwise every admitted client address is canonical and lies in one of the protected /28 ranges, every forward leads to an admitted client with the operator's port unchanged by the conversion to 16 bits, and the firewall package contains the ipset sections of exactly these safety sets.\<close>

theorem composed_vpn_guarded:
  assumes "ComposeAppliance p site m policy = Inr c"
  shows "(\<not> vpn_enabled m \<longrightarrow> sf_ClientIPv4 (ac_Safety c) = [] \<and> sf_ForwardTuples (ac_Safety c) = []) \<and>
    (\<forall>v \<in> set (sf_ClientIPv4 (ac_Safety c)). \<exists>a raw pf. canonical_addr4 v = Some a \<and>
       raw \<in> set (sf_ProtectedIPv4 (ac_Safety c)) \<and> ParsePrefix raw = Some pf \<and> pf_Bits pf = 28 \<and> PrefixContains pf a) \<and>
    (\<forall>t \<in> set (sf_ForwardTuples (ac_Safety c)). ft_Address t \<in> set (sf_ClientIPv4 (ac_Safety c)) \<and>
       (\<exists>f \<in> set (vpn_Forwards (the_vpn m)). uint (ft_Port t) = fw_Port f \<and> ft_Protocol t \<in> set (fw_Protocols f))) \<and>
    (\<exists>sections. SafetySections (ac_Safety c) = Inr sections \<and> set sections \<subseteq> set (ds_Firewall (ac_Desired c)))"
  using assms
proof (cases rule: ComposeAppliance_stages)
  case (1 desired services clients tuples sections)
  note safe = SafetyValidate_ok [OF 1(5)]
  have off: "\<not> vpn_enabled m \<Longrightarrow> sf_ClientIPv4 (ac_Safety c) = [] \<and> sf_ForwardTuples (ac_Safety c) = []"
    using 1(3,4) by (simp add: active_vpn_def)
  have port: "\<exists>f \<in> set (vpn_Forwards (the_vpn m)). uint (ft_Port t) = fw_Port f \<and> ft_Protocol t \<in> set (fw_Protocols f)"
    if "t \<in> set (sf_ForwardTuples (ac_Safety c))" for t
  proof -
    have "t \<in> set tuples" using that 1(4) by simp
    then obtain tss ts where enabled: "vpn_enabled m"
      and tss: "mapE (forward_tuples m) (vpn_Forwards (the_vpn m)) = Inr tss" "ts \<in> set tss" "t \<in> set ts"
      using 1(3) by (auto simp: active_vpn_def split: if_split_asm)
    from mapE_image [OF tss(1), THEN iffD1, OF tss(2)] obtain f where
      f: "f \<in> set (vpn_Forwards (the_vpn m))" and ts: "forward_tuples m f = Inr ts" by blast
    obtain v where v: "m_VPN m = Some v" using enabled by (auto simp: vpn_enabled_def split: option.split_asm)
    have "1 \<le> fw_Port f \<and> fw_Port f \<le> 65535"
      using vpn_forward_ports [OF ServiceState_validated [OF 1(2)] v] f v by (simp add: the_vpn_def)
    then have "uint (word_of_int (fw_Port f) :: 16 word) = fw_Port f"
      by (simp add: unsigned_of_int take_bit_eq_mod)
    then show ?thesis using ts tss(3) f by (intro bexI [of _ f]) (auto simp: forward_tuples_def split: option.split_asm)
  qed
  have "\<exists>sections. SafetySections (ac_Safety c) = Inr sections \<and> set sections \<subseteq> set (ds_Firewall (ac_Desired c))"
    using 1(6,7) by auto
  then show ?thesis using off safe port by blast
qed

section \<open>Validated clients are admitted\<close>

lemma default_protected:
  "foldE protected_step (sf_ProtectedIPv4 DefaultSafetyConfig) [] = Inr
     (map (\<lambda>n. \<lparr>pf_Addr = Addr4 [10, 10, n, 224], pf_Bits = 28\<rparr>) [10, 20, 30, 40])"
  by code_simp

text \<open>An address in the upper sixteenth of a client zone lies in the protected range of the zone.\<close>

lemma vpn_client_protected:
  assumes "vpn_client_address ref r = Inr ()"
  obtains a where "canonical_addr4 (rv_Address r) = Some a"
    "containsAddress (map (\<lambda>n. \<lparr>pf_Addr = Addr4 [10, 10, n, 224], pf_Bits = 28\<rparr>) [10, 20, 30, 40]) a"
proof -
  define zone where "zone = ToUpper (rv_Zone r)"
  from assms obtain a pf where zone: "zone = ''SERVERS'' \<or> zone = ''TRUSTED'' \<or> zone = ''SANDBOX''"
    and a: "canonical_addr4 (rv_Address r) = Some a" and pf: "ParsePrefix (vpn_subnet zone) = Some pf"
    and inside: "PrefixContains pf a" "224 \<le> last_octet a" "last_octet a \<le> 239"
    unfolding vpn_client_address_def Let_def zone_def [symmetric]
    by (auto split: if_split_asm option.split_asm simp: not_less)
  obtain w x y d where q: "octets a = [w, x, y, d]"
    using canonical_addr4_octets(2) [OF a] by (rule length4_cases)
  have d: "224 \<le> d" "d \<le> 239" using inside by (simp_all add: last_octet_def q)
  have "w = 10 \<and> x = 10 \<and> y \<in> {20, 30, 40}"
    using zone pf inside(1) canonical_addr4_octets(1) [OF a]
    by (auto simp: vpn_subnet_def fixed_prefixes PrefixContains_octets mask_octets_24 q)
  then have "containsAddress (map (\<lambda>n. \<lparr>pf_Addr = Addr4 [10, 10, n, 224], pf_Bits = 28\<rparr>) [10, 20, 30, 40]) (Addr4 (octets a))"
    using upper_sixteenth [OF d]
    by (auto simp: containsAddress_def PrefixContains_octets mask_octets_28 q)
  then show ?thesis using that a canonical_addr4_octets(1) [OF a] by metis
qed

text \<open>With DHCP enabled, looking a client up in the operator's reservations finds the reservation
  that validation looked at.\<close>

lemma resolve_matches_validation:
  assumes "Validate p m site = Inr ()" "dhcp_enabled m"
    and "ResolveReservation m name = Some r"
  shows "reservations_by_name (m_DHCP (effective m)) (lookup_key name) = Some r"
proof -
  obtain h where h: "m_DHCP m = Some h" "Enabled (dh_Enabled h)"
    using assms(2) by (auto simp: dhcp_enabled_def split: option.split_asm)
  define h' where "h' = the (m_DHCP (effective m))"
  have h': "m_DHCP (effective m) = Some h'" "Enabled (dh_Enabled h')"
    "dh_Reservations h' = dh_Reservations h @ map system_reservation (m_Systems m)"
    using h by (simp_all add: h'_def)
  have "dhcp_plan h' site"
    using expanded_stages(6) [OF Validate_stages(2) [OF assms(1)] h'(1,2)] h'(2) by (simp add: validateDHCP_iff)
  then have dist: "distinct (map reservation_key (dh_Reservations h'))" by (simp add: dhcp_plan_def)
  from assms(3) h have r: "r \<in> set (dh_Reservations h')" "reservation_key r = lookup_key name"
    by (auto simp: ResolveReservation_def h'(3) reservation_key_def find_Some_iff)
  have "map_of (rev (map (\<lambda>r. (lookup_key (rv_Name r), r)) (dh_Reservations h'))) (lookup_key name) = Some r"
  proof (rule map_of_is_SomeI)
    show "distinct (map fst (rev (map (\<lambda>r. (lookup_key (rv_Name r), r)) (dh_Reservations h'))))"
      using dist by (simp add: comp_def reservation_key_def [abs_def] flip: rev_map)
    show "(lookup_key name, r) \<in> set (rev (map (\<lambda>r. (lookup_key (rv_Name r), r)) (dh_Reservations h')))"
      using r by (auto simp: reservation_key_def intro: rev_image_eqI)
  qed
  then show ?thesis by (simp only: reservations_by_name_def h'(1) option.case)
qed

lemma vpn_clients_checked:
  assumes "Validate p m site = Inr ()" "m_VPN m = Some v" "name \<in> set (vpn_Clients v)"
  obtains r where "reservations_by_name (m_DHCP (effective m)) (lookup_key name) = Some r"
    "vpn_client_address name r = Inr ()"
proof -
  have "validateVPN v (m_DHCP (effective m)) = Inr ()"
    using expanded_stages(7) [OF Validate_stages(2) [OF assms(1)]] assms(2) by simp
  then obtain clients where
    cl: "foldE (vpn_client_step (reservations_by_name (m_DHCP (effective m)))) (vpn_Clients v) [] = Inr clients"
    unfolding validateVPN_def by (auto split: if_split_asm)
  have "\<forall>x \<in> set (vpn_Clients v). \<exists>r. reservations_by_name (m_DHCP (effective m)) (lookup_key x) = Some r \<and>
      vpn_client_address x r = Inr ()"
    by (rule foldE_each [OF cl, where I = "\<lambda>_. True"])
      (auto simp: vpn_client_step_def Let_def split: if_split_asm option.split_asm)
  then show ?thesis using assms(3) that by blast
qed

lemma lab_prefixes_ok: "allE prefix_check (map az_Subnet reference_zones) = Inr ()"
  by code_simp

lemma mapE_clients:
  assumes "\<forall>name \<in> set names. ResolveReservation m name \<noteq> None"
  shows "mapE (client_address m) names = Inr (map (\<lambda>n. rv_Address (the (ResolveReservation m n))) names)"
  using assms by (induction names) (auto simp: client_address_def)

lemma mapE_forwards:
  assumes "\<forall>f \<in> set fs. ResolveReservation m (fw_Reservation f) \<noteq> None"
  shows "\<exists>tss. mapE (forward_tuples m) fs = Inr tss"
  by (rule mapE_total) (use assms in \<open>auto simp: forward_tuples_def\<close>)

text \<open>The admitted clients and forwards of a validated configuration pass the safety checks.\<close>

lemma validated_clients_safe:
  assumes valid: "Validate p m site = Inr ()" and dhcp: "dhcp_enabled m" and v: "m_VPN m = Some v"
    and r: "ResolveReservation m name = Some r" and name: "name \<in> set (vpn_Clients v)"
  shows "canonical_addr4 (rv_Address r) \<noteq> None"
    and "safety_client_check (map (\<lambda>n. \<lparr>pf_Addr = Addr4 [10, 10, n, 224], pf_Bits = 28\<rparr>) [10, 20, 30, 40]) (rv_Address r) = Inr ()"
proof -
  obtain r' where r': "reservations_by_name (m_DHCP (effective m)) (lookup_key name) = Some r'"
    "vpn_client_address name r' = Inr ()" by (rule vpn_clients_checked [OF valid v name])
  with resolve_matches_validation [OF valid dhcp r] have "vpn_client_address name r = Inr ()" by simp
  then obtain a where "canonical_addr4 (rv_Address r) = Some a"
    "containsAddress (map (\<lambda>n. \<lparr>pf_Addr = Addr4 [10, 10, n, 224], pf_Bits = 28\<rparr>) [10, 20, 30, 40]) a"
    by (rule vpn_client_protected)
  then show "canonical_addr4 (rv_Address r) \<noteq> None"
    "safety_client_check (map (\<lambda>n. \<lparr>pf_Addr = Addr4 [10, 10, n, 224], pf_Bits = 28\<rparr>) [10, 20, 30, 40]) (rv_Address r) = Inr ()"
    by (simp_all add: safety_client_check_def del: list.map)
qed

lemma active_vpn_safe:
  assumes valid: "Validate p m site = Inr ()" and dhcp: "dhcp_enabled m"
    and own: "\<forall>name \<in> set (vpn_Clients (the_vpn m)). ResolveReservation m name \<noteq> None"
  obtains clients tuples where "active_vpn m = Inr (clients, tuples)"
    "\<forall>x \<in> set clients. safety_client_check (map (\<lambda>n. \<lparr>pf_Addr = Addr4 [10, 10, n, 224], pf_Bits = 28\<rparr>) [10, 20, 30, 40]) x = Inr ()"
    "\<forall>t \<in> set tuples. safety_forward_check clients t = Inr ()"
proof (cases "vpn_enabled m")
  case False
  then show ?thesis using that [of "[]" "[]"] by (simp add: active_vpn_def)
next
  case True
  then obtain v where v: "m_VPN m = Some v" "the_vpn m = v"
    by (auto simp: vpn_enabled_def the_vpn_def split: option.split_asm)
  define clients where "clients = map (\<lambda>n. rv_Address (the (ResolveReservation m n))) (vpn_Clients v)"
  note client = validated_clients_safe [OF valid dhcp v(1)]
  have forwards: "fw_Reservation f \<in> set (vpn_Clients v)" "1 \<le> fw_Port f" "fw_Port f \<le> 65535"
    "set (fw_Protocols f) \<subseteq> {''tcp'', ''udp''}" if "f \<in> set (vpn_Forwards v)" for f
    using vpn_forward_ports [OF valid v(1) that] by auto
  obtain tss where tss: "mapE (forward_tuples m) (vpn_Forwards v) = Inr tss"
    using mapE_forwards [of "vpn_Forwards v" m] forwards(1) own v(2) by auto
  have "safety_forward_check clients t = Inr ()" if ts: "ts \<in> set tss" and t0: "t \<in> set ts" for t ts
  proof -
    from mapE_image [OF tss, THEN iffD1, OF ts] obtain f r where f: "f \<in> set (vpn_Forwards v)"
      and r: "ResolveReservation m (fw_Reservation f) = Some r"
      and t: "ft_Address t = rv_Address r" "ft_Protocol t \<in> set (fw_Protocols f)" "ft_Port t = word_of_int (fw_Port f)"
      using t0 by (auto simp: forward_tuples_def split: option.split_asm)
    have "rv_Address r \<in> set clients"
      using forwards(1) [OF f] r by (auto simp: clients_def intro!: rev_image_eqI)
    moreover have "canonical_addr4 (rv_Address r) \<noteq> None" by (rule client(1) [OF r forwards(1) [OF f]])
    moreover have "(word_of_int (fw_Port f) :: 16 word) \<noteq> 0"
      using forwards(2,3) [OF f] by (simp add: word_of_int_eq_0_iff zdvd_not_zless)
    ultimately show ?thesis
      using t forwards(4) [OF f] by (auto simp: safety_forward_check_def checks_Inr simp del: checks_simps)
  qed
  moreover have "active_vpn m = Inr (clients, concat tss)"
    using True mapE_clients [OF own] tss by (simp add: active_vpn_def v(2) clients_def)
  moreover have "\<forall>x \<in> set clients. safety_client_check
      (map (\<lambda>n. \<lparr>pf_Addr = Addr4 [10, 10, n, 224], pf_Bits = 28\<rparr>) [10, 20, 30, 40]) x = Inr ()"
    using own v(2) client(2) by (auto simp: clients_def simp del: list.map)
  ultimately show ?thesis by (intro that) auto
qed

lemma vpn_composes:
  assumes site: "ValidateSite q site = Inr ()"
    and desired: "DesiredFromSiteWithServices p site m None = Inr desired"
    and home: "prefix_check (home_network site) = Inr ()" and dhcp: "dhcp_enabled m"
    and own: "\<forall>name \<in> set (vpn_Clients (the_vpn m)). ResolveReservation m name \<noteq> None"
  shows "\<exists>c. ComposeAppliance p site m None = Inr c"
  using desired
proof (cases rule: Desired_stages)
  case (1 netmask byType rest zones policySections services)
  have zones: "ds_Zones desired = reference_zones" using zones_are_reference [OF site 1(2,3)] 1(6) by simp
  obtain clients tuples where vpn: "active_vpn m = Inr (clients, tuples)"
    "\<forall>x \<in> set clients. safety_client_check (map (\<lambda>n. \<lparr>pf_Addr = Addr4 [10, 10, n, 224], pf_Bits = 28\<rparr>) [10, 20, 30, 40]) x = Inr ()"
    "\<forall>t \<in> set tuples. safety_forward_check clients t = Inr ()"
    by (rule active_vpn_safe [OF ServiceState_validated [OF 1(5)] dhcp own])
  define safety where "safety = (base_safety None desired)\<lparr>sf_ClientIPv4 := clients, sf_ForwardTuples := tuples\<rparr>"
  have parts: "sf_ProtectedIPv4 safety = sf_ProtectedIPv4 DefaultSafetyConfig" "sf_HomeIPv4 safety = [home_network site]"
    "sf_LabIPv4 safety = map az_Subnet reference_zones" "sf_ClientIPv4 safety = clients" "sf_ForwardTuples safety = tuples"
    by (simp_all add: safety_def base_safety_def 1(7) zones)
  have "SafetyValidate safety = Inr ()"
    unfolding SafetyValidate_def parts default_protected
    using home vpn(2,3) lab_prefixes_ok
    by (simp add: checks_Inr allE_Inr DefaultSafetyConfig_def reference_zones_def del: checks_simps list.map)
  then show ?thesis
    using desired 1(5) vpn(1) by (simp add: ComposeAppliance_def SafetySections_def flip: safety_def)
qed


section \<open>A client that is a registered system\<close>

lemma unresolved_client_fails:
  assumes "vpn_enabled m" "name \<in> set (vpn_Clients (the_vpn m))" "ResolveReservation m name = None"
  shows "is_err (ComposeAppliance p site m policy)"
proof (cases "ComposeAppliance p site m policy")
  case (Inr c)
  then show ?thesis
  proof (cases rule: ComposeAppliance_stages)
    case (1 desired services clients tuples sections)
    from 1(3) assms(1) obtain xs where "mapE (client_address m) (vpn_Clients (the_vpn m)) = Inr xs"
      by (auto simp: active_vpn_def split: if_split_asm)
    then have "\<exists>x. client_address m name = Inr x"
      using assms(2) by (auto simp: mapE_Inr list_all2_conv_all_nth in_set_conv_nth)
    then show ?thesis using assms(3) by (simp add: client_address_def)
  qed
qed simp

definition system_client_services :: Modules where
  "system_client_services = demo_services
     \<lparr>m_Systems := [\<lparr>sy_Name = ''seedbox'', sy_VMID = 501, sy_Kind = ''vm'', sy_GuestName = ''seedbox'',
        sy_MAC = ''02:00:00:00:20:e3'', sy_Address = ''10.10.20.227'', sy_Port = 80, sy_HomePort = 0, sy_DNSName = [],
        sy_Monitoring = False\<rparr>],
      m_VPN := Some \<lparr>vpn_Enabled = Some True, vpn_Location = ''nl'', vpn_Clients = [''seedbox''], vpn_Forwards = []\<rparr>\<rparr>"

text \<open>Validation resolves VPN clients against the reservations derived from registered systems, the composer against the operator's own reservations only: a configuration whose VPN client is a registered system is valid, and yet no policy and no further input lets the appliance be composed from it.\<close>

theorem registered_vpn_client_refused:
  "Validate (\<lambda>_. None) system_client_services demo_site = Inr () \<and>
   (\<forall>p policy. is_err (ComposeAppliance p demo_site system_client_services policy))"
proof
  show "Validate (\<lambda>_. None) system_client_services demo_site = Inr ()" by code_simp
  have "vpn_enabled system_client_services" "''seedbox'' \<in> set (vpn_Clients (the_vpn system_client_services))"
    by (simp_all add: system_client_services_def vpn_enabled_def the_vpn_def Enabled_def)
  moreover have "ResolveReservation system_client_services ''seedbox'' = None" by code_simp
  ultimately show "\<forall>p policy. is_err (ComposeAppliance p demo_site system_client_services policy)"
    using unresolved_client_fails by blast
qed

section \<open>Isolation of the zones\<close>

definition forwardings :: "Section list \<Rightarrow> (string \<times> string) list" where
  "forwardings sections =
     map (\<lambda>s. (opt (sn_Options s) ''src'', opt (sn_Options s) ''dest'')) (filter (\<lambda>s. sn_Type s = ''forwarding'') sections)"

definition forwarding_matrix :: "(string \<times> string) list" where
  "forwarding_matrix =
     [(''infra'', ''home_wan''), (''servers'', ''home_wan''), (''trusted'', ''home_wan''), (''trusted'', ''servers''),
      (''sandbox'', ''home_wan''), (''mgmt'', ''home_wan''), (''mgmt'', ''transit''), (''mgmt'', ''infra''),
      (''mgmt'', ''servers''), (''mgmt'', ''trusted''), (''mgmt'', ''sandbox'')]"

lemma forwardings_append [simp]: "forwardings (a @ b) = forwardings a @ forwardings b"
  by (simp add: forwardings_def)

lemma forwardings_none:
  "list_all (\<lambda>s. sn_Type s \<noteq> ''forwarding'') sections \<Longrightarrow> forwardings sections = []"
  by (simp add: forwardings_def list_all_iff filter_empty_conv)

lemma zone_names_lower:
  "ToLower ''TRANSIT'' = ''transit''" "ToLower ''INFRA'' = ''infra''" "ToLower ''SERVERS'' = ''servers''"
  "ToLower ''TRUSTED'' = ''trusted''" "ToLower ''SANDBOX'' = ''sandbox''" "ToLower ''MGMT'' = ''mgmt''"
  by code_simp+

lemmas zone_section_defs = firewallSections_def zone_base_sections_def zone_policy_sections_def reference_zones_def
  zone_section_def rule_section_def forwarding_section_def mk_section_def TrustedRoutedDestinations_def
  zone_names_lower Let_def

lemma reference_forwardings:
  "forwardings (firewallSections reference_zones home controller) = forwarding_matrix"
  by (simp add: forwardings_def forwarding_matrix_def opt_def zone_section_defs)

text \<open>A section that does not open the appliance: a zone drops by default, and a rule that
  accepts traffic into the management zone is for one TCP port of one host.\<close>

definition closed_section :: "Section \<Rightarrow> bool" where
  "closed_section s \<longleftrightarrow>
     (sn_Type s = ''zone'' \<longrightarrow> opt (sn_Options s) ''input'' = ''DROP'' \<and> opt (sn_Options s) ''forward'' = ''DROP'') \<and>
     (sn_Type s = ''rule'' \<and> opt (sn_Options s) ''target'' = ''ACCEPT'' \<and> opt (sn_Options s) ''dest'' = ''mgmt'' \<longrightarrow>
        opt (sn_Options s) ''proto'' = ''tcp'' \<and> opt (sn_Options s) ''dest_port'' \<in> {''22'', ''9100''} \<and>
        HasSuffix (opt (sn_Options s) ''dest_ip'') ''/32'')"

lemma reference_closed: "list_all closed_section (firewallSections reference_zones home controller)"
  by (simp add: closed_section_def opt_def zone_section_defs host32_def HasSuffix_def HasPrefix_def)

definition plain_section :: "Section \<Rightarrow> bool" where
  "plain_section s \<longleftrightarrow> sn_Type s \<noteq> ''forwarding'' \<and> closed_section s"

lemmas plain_defs = plain_section_def closed_section_def rule_section_def mk_section_def opt_def

lemma HasSuffix_host32 [simp]: "HasSuffix (host32 a) ''/32''"
  by (simp add: host32_def HasSuffix_iff)

lemma list_all_concat_map: "list_all P (concat (map f xs)) \<longleftrightarrow> (\<forall>x \<in> set xs. list_all P (f x))"
  by (auto simp: list_all_iff)

lemma service_rule_plain:
  "map_of middle ''dest'' \<noteq> Some ''mgmt'' \<Longrightarrow> plain_section (service_rule name title zone middle port target)"
  by (auto simp: service_rule_def plain_defs map_add_def split: option.split)

lemma service_sections_plain: "list_all plain_section (serviceFirewallSections site d h v)"
  by (simp add: serviceFirewallSections_def zone_service_sections_def dns_deny_sections_def service_rule_plain
      list_all_concat_map Let_def)

lemma system_sections_plain:
  "list_all plain_section (systemFirewallSections systems @ systemHomePublicationSections site systems)"
  by (auto simp: systemFirewallSections_def systemHomePublicationSections_def system_rule_def publication_section_def
      plain_defs list_all_iff)

lemma media_sections_plain: "list_all plain_section (mediaMonitoringFirewallSections m)"
  by (simp add: mediaMonitoringFirewallSections_def plain_defs)

lemma observability_sections_plain:
  "observabilityFirewallSections site m = Inr sections \<Longrightarrow> list_all plain_section sections"
  by (auto simp: observabilityFirewallSections_def observability_rule_def plain_defs Let_def
      split: option.split_asm if_split_asm)

lemma tailnet_sections_plain: "list_all plain_section (tailnetFirewallSections home)"
  by (simp add: tailnetFirewallSections_def tailnet_rule_def override_options_def TrustedRoutedDestinations_def
      zone_names_lower plain_defs HasSuffix_def HasPrefix_def)

lemma policy_sections_plain:
  "policy_sections m zones policy = Inr sections \<Longrightarrow> list_all plain_section sections"
  by (auto simp: policy_sections_def controller_lab_rule_def plain_defs split: option.split_asm if_split_asm)

lemma safety_sections_plain: "SafetySections s = Inr sections \<Longrightarrow> list_all plain_section sections"
  by (auto simp: SafetySections_def ipset_section_def plain_defs)

lemma service_state_plain:
  assumes "ServiceStateFromModules p site m = Inr services"
  shows "list_all plain_section (ss_Firewall services)"
proof -
  let ?n = "effective m"
  from assms obtain observability where "observabilityFirewallSections site ?n = Inr observability"
    "ss_Firewall services = serviceFirewallSections site (dns_enabled ?n) (dhcp_enabled ?n) (vpn_enabled ?n) @
       systemFirewallSections (m_Systems ?n) @ systemHomePublicationSections site (m_Systems ?n) @
       mediaMonitoringFirewallSections ?n @ observability"
    unfolding ServiceStateFromModules_def Let_def by (fastforce simp del: SystemsExpanded_simps enabled_expanded enabled_normalized)
  then show ?thesis
    using service_sections_plain system_sections_plain media_sections_plain observability_sections_plain
    by (simp del: SystemsExpanded_simps enabled_expanded enabled_normalized)
qed


section \<open>A concrete composition\<close>

lemma demo_service_state: "\<exists>services. ServiceStateFromModules (\<lambda>_. None) demo_site demo_services = Inr services"
proof -
  have "Validate (\<lambda>_. None) (Normalize demo_services) demo_site = Inr ()"
    using demo_services_valid by (simp add: Validate_def Normalize_twice)
  moreover have "is_ok (dns_service_sections demo_site (effective demo_services))" by code_simp
  moreover have "observabilityFirewallSections demo_site (effective demo_services) = Inr []"
    by (simp add: observabilityFirewallSections_def demo_services_def)
  ultimately show ?thesis
    by (auto simp: ServiceStateFromModules_def Let_def is_ok_iff simp del: SystemsExpanded_simps)
qed

lemma demo_zone_fold:
  "\<exists>byType rest zones. foldE appliance_zone_step (nw_Zones (s_Network demo_site)) ([], [], []) = Inr (byType, rest) \<and>
     mapE (appliance_zone byType) zoneOrder = Inr zones"
proof -
  have "is_ok (bindE (foldE appliance_zone_step (nw_Zones (s_Network demo_site)) ([], [], [])) (\<lambda>(byType, _).
      mapE (appliance_zone byType) zoneOrder))" by code_simp
  then show ?thesis by (auto simp: is_ok_iff)
qed

lemma demo_desired: "\<exists>desired. DesiredFromSiteWithServices (\<lambda>_. None) demo_site demo_services None = Inr desired"
proof -
  obtain services where "ServiceStateFromModules (\<lambda>_. None) demo_site demo_services = Inr services"
    using demo_service_state by blast
  moreover obtain byType rest zones where
    "foldE appliance_zone_step (nw_Zones (s_Network demo_site)) ([], [], []) = Inr (byType, rest)"
    "mapE (appliance_zone byType) zoneOrder = Inr zones" using demo_zone_fold by blast
  moreover have "is_ok (let gw = s_Gateway demo_site in management_check
      (override (gw_ManagementAddress gw) GatewayManagementAddress) (home_network demo_site)
      (override (gw_ManagementGateway gw) GatewayManagementGateway)
      (override (gw_ControllerAddress gw) GatewayControllerAddress))" by code_simp
  ultimately show ?thesis
    by (auto simp: DesiredFromSiteWithServices_def policy_sections_def is_ok_iff Let_def)
qed

lemma demo_compose_inputs:
  "prefix_check (home_network demo_site) = Inr ()" "dhcp_enabled demo_services"
  "\<forall>name \<in> set (vpn_Clients (the_vpn demo_services)). ResolveReservation demo_services name \<noteq> None"
  by code_simp+

lemma demo_composes: "\<exists>c. ComposeAppliance (\<lambda>_. None) demo_site demo_services None = Inr c"
  using vpn_composes [OF demo_site_valid _ demo_compose_inputs] demo_desired by blast


theorem composed_vpn_guarded_witness:
  "\<exists>c. ComposeAppliance (\<lambda>_. None) demo_site demo_services None = Inr c \<and>
     (\<exists>sections. SafetySections (ac_Safety c) = Inr sections \<and> set sections \<subseteq> set (ds_Firewall (ac_Desired c)))"
  using demo_composes composed_vpn_guarded by blast


end
