(* ===== verification/Native_Names.thy ===== *)
theory Native_Names
  imports Client_Correct Uci_Model
begin

text \<open>
  The names of native sections: the codes that write a host name, a DNS name or an address into
  the UCI identifier alphabet do not confuse two different validated names.
\<close>

section \<open>Characters of validated names\<close>

definition name_char :: "char \<Rightarrow> bool" where
  "name_char c \<longleftrightarrow> label_char c \<or> c = CHR ''.''"

lemma label_not_special:
  "label_char c \<Longrightarrow> c \<noteq> CHR ''.'' \<and> c \<noteq> CHR ''_'' \<and> \<not> is_space c"
  by (auto simp: label_char_def is_space_def is_lower_def is_digit_def less_eq_char_def)

lemma IsDNSLabel_chars: "IsDNSLabel s \<Longrightarrow> c \<in> set (ToLower s) \<Longrightarrow> label_char c"
  by (auto simp: IsDNSLabel_def dnsLabelPattern_def label_char_def list_all_iff)

lemma SplitChar_nonempty [simp]: "SplitChar c s \<noteq> []"
  by (cases s) (auto split: list.split)

lemma SplitChar_cover: "x \<in> set s \<Longrightarrow> x = c \<or> (\<exists>w \<in> set (SplitChar c s). x \<in> set w)"
  by (induction c s rule: SplitChar.induct) (auto split: list.split if_split_asm)

lemma SplitChar_snoc: "SplitChar c (s @ [c]) = SplitChar c s @ [[]]"
  by (induction s) (auto split: list.split)

lemma ToLower_Cons_dot: "ToLower (CHR ''.'' # s) = CHR ''.'' # ToLower s"
  by (simp add: ToLower_def lower_char_def is_upper_def less_eq_char_def)

lemma canonicalName_chars:
  assumes "canonicalName v d = Inr n"
  shows "list_all name_char n" "TrimSuffix n ''.'' = n" "n \<noteq> []"
proof -
  from assms have labels: "\<forall>w \<in> set (SplitChar CHR ''.'' n). IsDNSLabel w" and low: "ToLower n = n" and "n \<noteq> []"
    by (auto simp: canonicalName_def Let_def ToLower_append ToLower_Cons_dot find_None_iff split: if_split_asm option.split_asm)
  show "list_all name_char n"
    unfolding list_all_iff
  proof
    fix c assume c: "c \<in> set n"
    have "\<forall>x \<in> set n. lower_char x = x" using low by (simp add: ToLower_def map_eq_conv [where g = "\<lambda>x. x", simplified])
    then have "lower_char c = c" using c by blast
    with SplitChar_cover [OF c, of "CHR ''.''"] labels show "name_char c"
      by (force simp: name_char_def ToLower_def dest!: IsDNSLabel_chars)
  qed
  have "last n \<noteq> CHR ''.''"
  proof
    assume "last n = CHR ''.''"
    then have "n = butlast n @ [CHR ''.'']" using \<open>n \<noteq> []\<close> by (metis append_butlast_last_id)
    then have "[] \<in> set (SplitChar CHR ''.'' n)" by (metis SplitChar_snoc in_set_conv_decomp)
    with labels show False by (auto simp: IsDNSLabel_def dnsLabelPattern_def)
  qed
  then show "TrimSuffix n ''.'' = n" by (simp add: TrimSuffix_not HasSuffix_last)
  show "n \<noteq> []" by fact
qed

section \<open>Codes\<close>

definition record_word :: "char \<Rightarrow> string" where
  "record_word c = (if is_lower c \<or> is_digit c then [c] else if c = CHR ''-'' then ''_h''
     else if c = CHR ''.'' then ''_d'' else ''_x'')"

lemma record_suffix_words: "nativeRecordSuffix s = ''n'' @ concat (map record_word s)"
  by (simp add: nativeRecordSuffix_def record_word_def [abs_def])

lemma record_word_cases:
  assumes "name_char x"
  obtains "record_word x = [x]" "x \<noteq> CHR ''_''" | "record_word x = ''_h''" "x = CHR ''-''" | "record_word x = ''_d''" "x = CHR ''.''"
proof -
  have "\<not> is_lower CHR ''_''" "\<not> is_digit CHR ''_''" by (simp_all add: is_lower_code is_digit_code)
  then have "record_word x = [x] \<and> x \<noteq> CHR ''_'' \<or> record_word x = ''_h'' \<and> x = CHR ''-'' \<or> record_word x = ''_d'' \<and> x = CHR ''.''"
    using assms by (auto simp: name_char_def label_char_def record_word_def is_lower_code is_digit_code)
  then show ?thesis using that by blast
qed

lemma record_word_code:
  assumes "name_char x" "name_char y" "x \<noteq> y"
  shows "\<not> (\<exists>t. record_word x = record_word y @ t) \<and> \<not> (\<exists>t. record_word y = record_word x @ t)"
  using assms(3) by (cases rule: record_word_cases [OF assms(1)]; cases rule: record_word_cases [OF assms(2)]) auto

lemma record_word_nonempty: "record_word x \<noteq> []"
  by (simp add: record_word_def)

lemma record_suffix_inj:
  assumes "list_all name_char s" "list_all name_char t" "nativeRecordSuffix s = nativeRecordSuffix t"
  shows "s = t"
proof (rule concat_code_inj [of "{c. name_char c}" record_word])
  show "concat (map record_word s) = concat (map record_word t)" using assms(3) by (simp add: record_suffix_words)
qed (use assms(1,2) record_word_code in \<open>auto simp: list_all_iff record_word_nonempty\<close>)

text \<open>A system's DNS section is named after both ends of its alias.  The alias may carry spaces,
  which all have the same code word.\<close>

definition collapse :: "char \<Rightarrow> char" where
  "collapse c = (if is_space c then CHR '' '' else c)"

definition alias_word :: "char option \<Rightarrow> string" where
  "alias_word c = (case c of None \<Rightarrow> ''_to_n'' | Some x \<Rightarrow> record_word x)"

lemma record_word_space: "is_space c \<Longrightarrow> record_word c = ''_x''"
  by (auto simp: record_word_def is_space_def is_lower_code is_digit_code)

lemma record_word_collapse: "record_word (collapse c) = record_word c"
  by (simp add: collapse_def record_word_space is_space_def [of "CHR '' ''"])

lemma spaced_word_cases:
  assumes "name_char x \<or> x = CHR '' ''"
  obtains "record_word x = [x]" "x \<noteq> CHR ''_''" | "record_word x = ''_h''" "x = CHR ''-''" |
    "record_word x = ''_d''" "x = CHR ''.''" | "record_word x = ''_x''" "x = CHR '' ''"
  using assms
proof
  assume "name_char x"
  then show ?thesis by (rule record_word_cases) (use that in blast)+
qed (use that record_word_space in \<open>auto simp: is_space_def\<close>)

abbreviation "alias_alphabet \<equiv> insert None (Some ` {c. name_char c \<or> c = CHR '' ''})"

lemma alias_word_code:
  assumes "x \<in> alias_alphabet" "y \<in> alias_alphabet" "x \<noteq> y"
  shows "\<not> (\<exists>t. alias_word x = alias_word y @ t) \<and> \<not> (\<exists>t. alias_word y = alias_word x @ t)"
proof -
  have one: "\<not> (\<exists>t. ''_to_n'' = record_word c @ t) \<and> \<not> (\<exists>t. record_word c = ''_to_n'' @ t)"
    if "name_char c \<or> c = CHR '' ''" for c
    by (cases rule: spaced_word_cases [OF that]) auto
  have two: "\<not> (\<exists>t. record_word c = record_word d @ t) \<and> \<not> (\<exists>t. record_word d = record_word c @ t)"
    if "name_char c \<or> c = CHR '' ''" "name_char d \<or> d = CHR '' ''" "c \<noteq> d" for c d
    using that(3) by (cases rule: spaced_word_cases [OF that(1)]; cases rule: spaced_word_cases [OF that(2)]) auto
  show ?thesis
  proof (cases x; cases y)
    fix c d assume "x = Some c" "y = Some d"
    then show ?thesis using two [of c d] assms by (auto simp: alias_word_def)
  qed (use assms one in \<open>auto simp: alias_word_def\<close>)
qed

lemma marked_split:
  "map Some a @ None # map Some s = map Some b @ None # map Some t \<Longrightarrow> a = b \<and> s = t"
proof (induction a arbitrary: b)
  case Nil
  then show ?case by (cases b) (auto simp: inj_map_eq_map)
next
  case (Cons x a)
  then show ?case by (cases b) auto
qed

lemma system_dns_name_inj:
  assumes names: "\<And>c. c \<in> set a \<union> set b \<Longrightarrow> name_char c \<or> is_space c" "list_all name_char s" "list_all name_char t"
    and eq: "nativeRecordSuffix a @ ''_to_'' @ nativeRecordSuffix s = nativeRecordSuffix b @ ''_to_'' @ nativeRecordSuffix t"
  shows "s = t"
proof -
  have words: "nativeRecordSuffix x @ ''_to_'' @ nativeRecordSuffix y =
      ''n'' @ concat (map alias_word (map Some (map collapse x) @ None # map Some y))" for x y
    by (simp add: record_suffix_words alias_word_def comp_def record_word_collapse)
  have "map Some (map collapse a) @ None # map Some s = map Some (map collapse b) @ None # map Some t"
  proof (rule concat_code_inj [of alias_alphabet alias_word])
    show "concat (map alias_word (map Some (map collapse a) @ None # map Some s)) =
        concat (map alias_word (map Some (map collapse b) @ None # map Some t))"
      using eq unfolding words by simp
    show "alias_word x \<noteq> []" for x by (simp add: alias_word_def record_word_nonempty split: option.split)
    have "Some (collapse c) \<in> alias_alphabet" if "c \<in> set a \<union> set b" for c
      using names(1) [OF that] by (auto simp: collapse_def)
    then show "set (map Some (map collapse a) @ None # map Some s) \<subseteq> alias_alphabet"
      "set (map Some (map collapse b) @ None # map Some t) \<subseteq> alias_alphabet"
      using names(2,3) by (auto simp: list_all_iff)
  qed (rule alias_word_code)
  then show ?thesis by (blast dest: marked_split)
qed

section \<open>Host identifiers\<close>

text \<open>A reservation may carry spaces around its name: the identifier is made from the untrimmed
  name, the uniqueness check from the trimmed one.\<close>

lemma filter_TrimSpace: "list_all (\<lambda>c. \<not> is_space c) (TrimSpace s) \<Longrightarrow> filter (\<lambda>c. \<not> is_space c) s = TrimSpace s"
proof -
  have drop: "filter (\<lambda>c. \<not> is_space c) (dropWhile is_space u) = filter (\<lambda>c. \<not> is_space c) u" for u
    by (induction u) auto
  have "filter (\<lambda>c. \<not> is_space c) (TrimSpace s) = filter (\<lambda>c. \<not> is_space c) s"
    by (simp add: TrimSpace_def rev_filter [symmetric] drop)
  then show "list_all (\<lambda>c. \<not> is_space c) (TrimSpace s) \<Longrightarrow> ?thesis" by (simp add: list_all_iff)
qed

definition host_word :: "char \<Rightarrow> string" where
  "host_word c = (if is_alnum c then [c] else if c = CHR ''_'' then ''_u'' else if c = CHR ''-'' then ''_h''
     else if c = CHR ''.'' then ''_d'' else ''_x'')"

lemma host_word_collapse: "host_word (collapse c) = host_word c"
  by (auto simp: host_word_def collapse_def is_space_def is_alnum_def is_lower_code is_upper_code is_digit_code)

lemma host_word_cases:
  assumes "label_char x \<or> x = CHR '' ''"
  obtains "host_word x = [x]" "x \<noteq> CHR ''_''" | "host_word x = ''_h''" "x = CHR ''-''" | "host_word x = ''_x''" "x = CHR '' ''"
proof -
  have "host_word x = [x] \<and> x \<noteq> CHR ''_'' \<or> host_word x = ''_h'' \<and> x = CHR ''-'' \<or> host_word x = ''_x'' \<and> x = CHR '' ''"
    using assms by (auto simp: label_char_def host_word_def is_alnum_def is_lower_code is_upper_code is_digit_code)
  then show ?thesis using that by blast
qed

lemma host_word_code:
  assumes "label_char x \<or> x = CHR '' ''" "label_char y \<or> y = CHR '' ''" "x \<noteq> y"
  shows "\<not> (\<exists>t. host_word x = host_word y @ t) \<and> \<not> (\<exists>t. host_word y = host_word x @ t)"
  using assms(3) by (cases rule: host_word_cases [OF assms(1)]; cases rule: host_word_cases [OF assms(2)]) auto

lemma is_space_lower: "is_space (lower_char c) = is_space c"
proof (cases "is_upper c")
  case True
  define n where "n = (of_char c :: nat)"
  have n: "65 \<le> n" "n \<le> 90" using True by (simp_all add: is_upper_code n_def)
  have "of_char (lower_char c) = n + 32" using n True by (simp add: lower_char_def of_char_of n_def)
  then show ?thesis using n by (auto simp: is_space_def n_def)
qed (simp add: lower_char_def)

lemma TrimSpace_ToLower: "TrimSpace (ToLower s) = ToLower (TrimSpace s)"
proof -
  have "is_space \<circ> lower_char = is_space" by (simp add: fun_eq_iff is_space_lower)
  then show ?thesis by (simp add: TrimSpace_def ToLower_def dropWhile_map rev_map)
qed

lemma lookup_key_filter:
  assumes "IsDNSLabel (lookup_key s)"
  shows "lookup_key s = filter (\<lambda>c. \<not> is_space c) (ToLower s)"
    and "c \<in> set (ToLower s) \<Longrightarrow> label_char c \<or> is_space c"
proof -
  have label: "label_char c" if "c \<in> set (lookup_key s)" for c
    using IsDNSLabel_chars [OF assms, of c] that by (simp add: lookup_key_def)
  have low: "ToLower (filter (\<lambda>c. \<not> is_space c) u) = filter (\<lambda>c. \<not> is_space c) (ToLower u)" for u
    by (simp add: ToLower_def filter_map comp_def is_space_lower)
  have "list_all (\<lambda>c. \<not> is_space c) (TrimSpace s)"
    unfolding list_all_iff
  proof
    fix c assume "c \<in> set (TrimSpace s)"
    then have "label_char (lower_char c)" by (intro label) (simp add: lookup_key_def ToLower_def)
    then show "\<not> is_space c" using label_not_special is_space_lower by blast
  qed
  from filter_TrimSpace [OF this] show key: "lookup_key s = filter (\<lambda>c. \<not> is_space c) (ToLower s)"
    by (metis lookup_key_def low)
  show "c \<in> set (ToLower s) \<Longrightarrow> label_char c \<or> is_space c" using label [of c] by (auto simp: key)
qed

lemma host_identifier_inj:
  assumes "IsDNSLabel (lookup_key s)" "IsDNSLabel (lookup_key t)"
    and "nativeIdentifier (ToLower s) = nativeIdentifier (ToLower t)"
  shows "lookup_key s = lookup_key t"
proof -
  have words: "nativeIdentifier u = concat (map host_word (map collapse u))" for u
    by (simp add: nativeIdentifier_def host_word_def [abs_def, symmetric] host_word_collapse comp_def)
  have "map collapse (ToLower s) = map collapse (ToLower t)"
  proof (rule concat_code_inj [of "{c. label_char c \<or> c = CHR '' ''}" host_word])
    show "concat (map host_word (map collapse (ToLower s))) = concat (map host_word (map collapse (ToLower t)))"
      using assms(3) unfolding words .
    show "set (map collapse (ToLower s)) \<subseteq> {c. label_char c \<or> c = CHR '' ''}"
      "set (map collapse (ToLower t)) \<subseteq> {c. label_char c \<or> c = CHR '' ''}"
      using lookup_key_filter(2) [OF assms(1)] lookup_key_filter(2) [OF assms(2)] by (auto simp: collapse_def)
  qed (use host_word_code in \<open>auto simp: host_word_def\<close>)
  then have "filter (\<lambda>c. \<not> is_space c) (map collapse (ToLower s)) = filter (\<lambda>c. \<not> is_space c) (map collapse (ToLower t))"
    by simp
  moreover have "filter (\<lambda>c. \<not> is_space c) (map collapse u) = filter (\<lambda>c. \<not> is_space c) u" for u
    by (induction u) (auto simp: collapse_def is_space_def)
  ultimately show ?thesis using lookup_key_filter(1) [OF assms(1)] lookup_key_filter(1) [OF assms(2)] by simp
qed

section \<open>Resolver addresses\<close>

lemma resolver_name_inj:
  assumes "CHR ''_'' \<notin> set s" "CHR ''_'' \<notin> set t" "ReplaceChar CHR ''.'' ''_'' s = ReplaceChar CHR ''.'' ''_'' t"
  shows "s = t"
proof (rule map_inj_on)
  have "ReplaceChar c [d] u = map (\<lambda>x. if x = c then d else x) u" for c d u
    by (induction u) (simp_all add: ReplaceChar_def)
  with assms(3) show "map (\<lambda>x. if x = CHR ''.'' then CHR ''_'' else x) s = map (\<lambda>x. if x = CHR ''.'' then CHR ''_'' else x) t"
    by simp
  show "inj_on (\<lambda>x. if x = CHR ''.'' then CHR ''_'' else x) (set s \<union> set t)"
    using assms(1,2) by (auto simp: inj_on_def)
qed

end
