(* ===== verification/Appliance_Names.thy ===== *)
theory Appliance_Names
  imports Appliance_Correct Native_Names Openwrt_Correct "HOL-Library.Multiset"
begin

text \<open>
  Names of the composed sections: families of names told apart by their prefixes, the fixed names
  of the firewall package, and the names of registered systems.
\<close>

section \<open>Families of names\<close>

text \<open>Names are told apart by their prefixes.\<close>

definition apart :: "string list \<Rightarrow> string list \<Rightarrow> bool" where
  "apart ps qs \<longleftrightarrow> list_all (\<lambda>p. list_all (\<lambda>q. \<not> HasPrefix p q \<and> \<not> HasPrefix q p) qs) ps"

definition family :: "string list \<times> string list \<Rightarrow> bool" where
  "family f \<longleftrightarrow> distinct (snd f) \<and> list_all (\<lambda>n. list_ex (HasPrefix n) (fst f)) (snd f)"

lemma common_prefix: "HasPrefix n p \<Longrightarrow> HasPrefix n q \<Longrightarrow> HasPrefix p q \<or> HasPrefix q p"
  by (auto simp: HasPrefix_iff append_eq_append_conv2)

lemma apart_disjoint:
  assumes "apart ps qs" "list_ex (HasPrefix n) ps" "list_ex (HasPrefix n) qs"
  shows False
  using assms common_prefix unfolding apart_def list_all_iff list_ex_iff by blast

lemma families_distinct:
  assumes "list_all family fs" "sorted_wrt apart (map fst fs)"
  shows "distinct (concat (map snd fs))"
  using assms
proof (induction fs)
  case (Cons f fs)
  have "set (snd f) \<inter> set (concat (map snd fs)) = {}"
    using Cons.prems apart_disjoint [of "fst f"] by (fastforce simp: family_def list_all_iff)
  with Cons show ?case by (simp add: family_def)
qed simp

lemma family_single [simp]: "family ([p], [p])"
  by (simp add: family_def HasPrefix_def)

lemma family_Nil [simp]: "family (ps, [])"
  by (simp add: family_def)

lemma HasPrefix_append_same [simp]: "HasPrefix (p @ a) (p @ b) \<longleftrightarrow> HasPrefix a b"
  by (auto simp: HasPrefix_iff)

lemma distinct_by_key:
  assumes "distinct (map key xs)" and "\<And>x y. x \<in> set xs \<Longrightarrow> y \<in> set xs \<Longrightarrow> f x = f y \<Longrightarrow> key x = key y"
  shows "distinct (map f xs)"
proof -
  have "distinct xs" "inj_on key (set xs)" using assms(1) by (simp_all add: distinct_map)
  then show ?thesis using assms(2) by (auto simp: distinct_map intro!: inj_onI dest: inj_onD)
qed

lemma distinct_concat_key:
  assumes "distinct zs" and "\<And>z. z \<in> set zs \<Longrightarrow> distinct (f z)" and "\<And>z n. z \<in> set zs \<Longrightarrow> n \<in> set (f z) \<Longrightarrow> key n = z"
  shows "distinct (concat (map f zs))"
  using assms
proof (induction zs)
  case (Cons z zs)
  have "n \<notin> set (concat (map f zs))" if "n \<in> set (f z)" for n
    using Cons.prems(1) Cons.prems(3) [OF _ that] Cons.prems(3) [of _ n] by force
  with Cons show ?case by auto
qed simp

lemma subset_concat_map:
  "(\<And>x. x \<in> set xs \<Longrightarrow> mset (f x) \<subseteq># mset (g x)) \<Longrightarrow> mset (concat (map f xs)) \<subseteq># mset (concat (map g xs))"
  by (induction xs) (auto intro: subset_mset.add_mono)

lemma distinct_subset_mset:
  assumes "distinct xs" "set xs \<subseteq> set ys" "distinct ys"
  shows "mset xs \<subseteq># mset ys"
  using subset_imp_msubset_mset_set [OF assms(2)] assms by (simp add: mset_set_set)

lemma distinct_below: "mset xs \<subseteq># mset ys \<Longrightarrow> distinct ys \<Longrightarrow> distinct xs"
proof (rule distinct_count_atmost_1 [THEN iffD2], rule allI)
  fix a assume sub: "mset xs \<subseteq># mset ys" and ys: "distinct ys"
  have "count (mset xs) a \<le> count (mset ys) a" using sub by (rule mset_subset_eq_count)
  also have "\<dots> \<le> 1" using ys by (simp add: distinct_count_atmost_1)
  finally show "count (mset xs) a = (if a \<in> set xs then 1 else 0)"
    by (metis One_nat_def count_mset_0_iff le_Suc_eq le_zero_eq set_mset_mset count_eq_zero_iff)
qed

section \<open>The firewall package\<close>

definition service_names :: "bool \<Rightarrow> bool \<Rightarrow> bool \<Rightarrow> string \<Rightarrow> string list" where
  "service_names d h v zone =
     (let allow = ''boetticher_allow_'' @ ToLower zone; deny = ''boetticher_deny_'' @ ToLower zone @ ''_external_'' in
      (if h then [allow @ ''_dhcp'', deny @ ''dhcp''] else []) @
      (if d then [allow @ ''_dns_tcp'', allow @ ''_dns_udp''] @
         concat (map (\<lambda>s. (deny @ s) # (if v then [deny @ s @ ''_vpn''] else [])) [''dns_udp'', ''dns_tcp'', ''dot_tcp'']) else []) @
      (if h then [allow @ ''_ntp'', deny @ ''ntp''] @ (if v then [deny @ ''ntp_vpn''] else []) else []))"

lemma zone_service_names: "map sn_Name (zone_service_sections d h v z) = service_names d h v (z_Name z)"
  by (simp add: zone_service_sections_def service_names_def dns_deny_sections_def service_rule_def rule_section_def Let_def)

definition zone_of_name :: "string \<Rightarrow> string" where
  "zone_of_name n = takeWhile (\<lambda>c. c \<noteq> CHR ''_'') (drop (if HasPrefix n ''boetticher_allow_'' then 17 else 16) n)"

definition service_name :: "string \<Rightarrow> bool" where
  "service_name n \<longleftrightarrow> (HasPrefix n ''boetticher_allow_'' \<or> HasPrefix n ''boetticher_deny_'') \<and>
     list_ex (HasSuffix n) [''_dhcp'', ''_ntp'', ''_tcp'', ''_udp'', ''_vpn'']"

lemma service_names_zone:
  assumes "CHR ''_'' \<notin> set (ToLower zone)"
  shows "distinct (service_names True True True zone)"
    and "n \<in> set (service_names True True True zone) \<Longrightarrow> zone_of_name n = ToLower zone \<and> service_name n"
proof -
  show "distinct (service_names True True True zone)" by (simp add: service_names_def)
  have "takeWhile (\<lambda>c. c \<noteq> CHR ''_'') (ToLower zone @ CHR ''_'' # rest) = ToLower zone" for rest
    using assms by (subst takeWhile_append2) auto
  then show "n \<in> set (service_names True True True zone) \<Longrightarrow> zone_of_name n = ToLower zone \<and> service_name n"
    by (auto simp: service_names_def zone_of_name_def service_name_def HasPrefix_def HasSuffix_def)
qed

lemma all_service_names_distinct:
  "distinct (concat (map (service_names True True True) (map fst expectedZones)))"
proof (rule distinct_concat_key [where key = "\<lambda>n. ToUpper (zone_of_name n)"])
  show "distinct (map fst expectedZones)" by code_simp
  have "list_all (\<lambda>z. CHR ''_'' \<notin> set (ToLower z) \<and> ToUpper (ToLower z) = z) (map fst expectedZones)" by code_simp
  moreover fix z assume "z \<in> set (map fst expectedZones)"
  ultimately have z: "CHR ''_'' \<notin> set (ToLower z)" "ToUpper (ToLower z) = z" by (auto simp: list_all_iff)
  from z(1) show "distinct (service_names True True True z)" by (rule service_names_zone)
  fix n assume "n \<in> set (service_names True True True z)"
  then show "ToUpper (zone_of_name n) = z" using service_names_zone(2) [OF z(1)] z(2) by simp
qed

text \<open>The other names of the firewall package that do not depend on the configuration.\<close>

definition fixed_firewall_names :: "string list" where
  "fixed_firewall_names =
     map sn_Name (firewallSections reference_zones [] []) @
     [''boetticher_allow_trusted_proxmox_https'', ''boetticher_allow_controller_lab_ssh''] @
     [''boetticher_media_monitoring''] @
     map (\<lambda>n. ''boetticher_observability_'' @ n)
       [''controller_exporter'', ''controller_portal'', ''host_exporter'', ''controller_ingress'', ''host_ingress'',
        ''runtime_ingress'', ''trusted_ingress'', ''tailnet_ingress''] @
     map sn_Name (tailnetFirewallSections []) @
     [SafetyProtectedSet, SafetyClientSet, SafetyHomeSet, SafetyLabSet, SafetyForwardTCPSet, SafetyForwardUDPSet]"

lemma fixed_firewall_names_distinct: "distinct (map (drop 11) fixed_firewall_names)"
  by code_simp

lemma fixed_firewall_names_apart:
  "list_all (\<lambda>n. \<not> HasPrefix n ''boetticher_system_'' \<and> \<not> service_name n)
     fixed_firewall_names"
  by code_simp

section \<open>Names of registered systems\<close>

definition system_id :: "System \<Rightarrow> string" where
  "system_id s = nativeIdentifier (ToLower (sy_Name s))"

definition system_name :: "string \<Rightarrow> System \<Rightarrow> string" where
  "system_name kind s = ''boetticher_system_'' @ system_id s @ kind"

definition system_names :: "System list \<Rightarrow> string list" where
  "system_names systems =
     concat (map (\<lambda>kind. map (system_name kind) systems) [''_trusted'', ''_monitoring'', ''_home_publication''])"

lemma system_section_names [simp]:
  "sn_Name (system_rule s ''trusted'' src extra) = system_name ''_trusted'' s"
  "sn_Name (system_rule s ''monitoring'' src extra) = system_name ''_monitoring'' s"
  "sn_Name (publication_section site s) = system_name ''_home_publication'' s"
  by (simp_all add: system_rule_def rule_section_def publication_section_def mk_section_def system_name_def system_id_def)

lemma system_name_eq:
  "system_name k s = system_name k' s' \<Longrightarrow> k \<noteq> [] \<Longrightarrow> k' \<noteq> [] \<Longrightarrow> last k = last k'"
proof -
  have ending: "last (system_name k s) = last k" if "k \<noteq> []" for k s using that by (simp add: system_name_def)
  show "system_name k s = system_name k' s' \<Longrightarrow> k \<noteq> [] \<Longrightarrow> k' \<noteq> [] \<Longrightarrow> last k = last k'"
    using ending [of k s] ending [of k' s'] by simp
qed

lemma system_name_inj: "system_name k s = system_name k s' \<Longrightarrow> system_id s = system_id s'"
  by (simp add: system_name_def)

lemma system_names_distinct:
  assumes "distinct (map system_id systems)"
  shows "distinct (system_names systems)"
proof -
  have "distinct (map (system_name kind) systems)" for kind
    using assms system_name_inj by (rule distinct_by_key)
  then show ?thesis by (auto simp: system_names_def dest: system_name_eq)
qed

lemma system_names_below:
  "mset (map sn_Name (systemFirewallSections systems @ systemHomePublicationSections site systems)) \<subseteq>#
     mset (system_names systems)"
proof -
  have "mset (map sn_Name (systemFirewallSections systems)) \<subseteq>#
      mset (map (system_name ''_trusted'') systems @ map (system_name ''_monitoring'') systems)"
    unfolding systemFirewallSections_def
  proof (induction systems)
    case (Cons s systems)
    then show ?case by (auto intro: subset_mset.order_trans mset_subset_eq_add_left)
  qed simp
  moreover have "mset (map sn_Name (systemHomePublicationSections site systems)) \<subseteq>#
      mset (map (system_name ''_home_publication'') systems)"
    by (simp add: systemHomePublicationSections_def comp_def image_mset_subseteq_mono)
  ultimately show ?thesis by (simp add: system_names_def subset_mset.add_mono add.assoc [symmetric])
qed

end
