(* ===== verification/Appliance_Unique.thy ===== *)
theory Appliance_Unique
  imports Appliance_Names
begin

text \<open>
  The composed packages are well formed: within a package no two sections have the same name, and
  no section writes an empty value or the same key twice.  This is what the reconciliation asks of
  its input, so a composition can be handed to it as it is.
\<close>

section \<open>Sections without empty values\<close>

lemma override_nonempty [simp]: "s \<noteq> [] \<Longrightarrow> override c s \<noteq> []"
  by (simp add: override_def)

lemma host32_nonempty [simp]: "host32 a \<noteq> []" "[] \<noteq> host32 a"
  by (simp_all add: host32_def)

lemma itoa_nonempty [simp]: "nat_digits n \<noteq> []" "[] \<noteq> nat_digits n" "itoa i \<noteq> []" "[] \<noteq> itoa i"
  by (simp_all add: itoa_def nat_digits.simps [of n] nat_digits.simps [of "nat i"] nat_digits.simps [of "nat (- i)"])

lemma wf_section_lists:
  "wf_section s \<longleftrightarrow> sn_Name s \<noteq> [] \<and> distinct (map fst (sn_Options s)) \<and> distinct (map fst (sn_Lists s)) \<and>
     list_all (\<lambda>(k, v). k \<noteq> [] \<and> v \<noteq> [] \<and> k \<notin> fst ` set (sn_Lists s)) (sn_Options s) \<and>
     list_all (\<lambda>(k, _). k \<noteq> []) (sn_Lists s)"
proof -
  have empty: "[] \<notin> f ` S \<longleftrightarrow> (\<forall>x \<in> S. f x \<noteq> [])" for f :: "'b \<Rightarrow> 'c list" and S by force
  have disjoint: "f ` S \<inter> C = {} \<longleftrightarrow> (\<forall>x \<in> S. f x \<notin> C)" for f :: "'b \<Rightarrow> 'c" and S C by blast
  show ?thesis
    unfolding wf_section_def list_all_iff case_prod_beta Un_iff de_Morgan_disj empty disjoint by blast
qed

lemmas section_defs = wf_section_lists mk_section_def rule_section_def

lemma reference_wf:
  assumes "home \<noteq> []" "controller \<noteq> []"
  shows "list_all wf_section (firewallSections reference_zones home controller)"
  using assms by (simp add: wf_section_lists zone_section_defs)

lemma policy_sections_wf:
  assumes "policy_sections m zones policy = Inr sections"
  shows "list_all wf_section sections"
    and "mset (map sn_Name sections) \<subseteq>#
      mset [''boetticher_allow_trusted_proxmox_https'', ''boetticher_allow_controller_lab_ssh'']"
  using assms by (auto simp: policy_sections_def controller_lab_rule_def section_defs split: option.split_asm if_split_asm)

lemma service_rule_wf:
  "name \<noteq> [] \<Longrightarrow> title \<noteq> [] \<Longrightarrow> zone \<noteq> [] \<Longrightarrow> port \<noteq> [] \<Longrightarrow> target \<noteq> [] \<Longrightarrow> distinct (map fst middle) \<Longrightarrow>
   list_all (\<lambda>(k, v). k \<noteq> [] \<and> v \<noteq> [] \<and> k \<notin> {''name'', ''src'', ''dest_port'', ''family'', ''target''}) middle \<Longrightarrow>
   wf_section (service_rule name title zone middle port target)"
  by (force simp: service_rule_def section_defs list_all_iff)

lemma service_sections_wf:
  assumes "\<forall>z \<in> set (nw_Zones (s_Network site)). z_Name z \<noteq> []"
  shows "list_all wf_section (serviceFirewallSections site d h v)"
  using assms
  by (simp add: serviceFirewallSections_def zone_service_sections_def dns_deny_sections_def service_rule_wf
      list_all_concat_map Let_def)

lemma service_names_below: "mset (service_names d h v z) \<subseteq># mset (service_names True True True z)"
  by (cases d; cases h; cases v) (simp_all add: service_names_def Let_def)

lemma media_sections_wf:
  "list_all wf_section (mediaMonitoringFirewallSections m)"
  "mset (map sn_Name (mediaMonitoringFirewallSections m)) \<subseteq># mset [''boetticher_media_monitoring'']"
  by (simp_all add: mediaMonitoringFirewallSections_def section_defs)

lemma tailnet_sections_wf:
  "home \<noteq> [] \<Longrightarrow> list_all wf_section (tailnetFirewallSections home)"
  "map sn_Name (tailnetFirewallSections home) = map sn_Name (tailnetFirewallSections [])"
  by (simp_all add: tailnetFirewallSections_def tailnet_rule_def override_options_def TrustedRoutedDestinations_def
      zone_names_lower section_defs)

lemma safety_sections_wf:
  assumes "SafetySections s = Inr sections"
  shows "list_all wf_section sections"
    and "map sn_Name sections =
      [SafetyProtectedSet, SafetyClientSet, SafetyHomeSet, SafetyLabSet, SafetyForwardTCPSet, SafetyForwardUDPSet]"
  using assms by (auto simp: SafetySections_def ipset_section_def wf_section_def)

lemma observability_rule_wf:
  "srcIP \<noteq> [] \<Longrightarrow> destIP \<noteq> [] \<Longrightarrow> src \<noteq> [] \<Longrightarrow> dest \<noteq> [] \<Longrightarrow> port \<noteq> [] \<Longrightarrow> extra = [] \<or> extra = [(''src_mac'', tailnet_GuestMAC)] \<Longrightarrow>
   wf_section (observability_rule name src srcIP dest destIP port extra)"
  by (auto simp: observability_rule_def section_defs)

lemma observability_sections_wf:
  assumes "observabilityFirewallSections site m = Inr sections" and "\<forall>z \<in> set (nw_Zones (s_Network site)). z_Network z \<noteq> []"
  shows "list_all wf_section sections"
    and "mset (map sn_Name sections) \<subseteq># mset (map (\<lambda>n. ''boetticher_observability_'' @ n)
      [''controller_exporter'', ''controller_portal'', ''host_exporter'', ''controller_ingress'', ''host_ingress'',
       ''runtime_ingress'', ''trusted_ingress'', ''tailnet_ingress''])"
proof -
  have "z_Network z \<noteq> []" if "serviceZoneByName site n = Some z" for n z
    using assms(2) that by (auto simp: serviceZoneByName_def find_Some_iff)
  then show "list_all wf_section sections"
    using assms(1) by (auto simp: observabilityFirewallSections_def observability_rule_wf Let_def
        split: option.split_asm if_split_asm)
  show "mset (map sn_Name sections) \<subseteq># mset (map (\<lambda>n. ''boetticher_observability_'' @ n)
      [''controller_exporter'', ''controller_portal'', ''host_exporter'', ''controller_ingress'', ''host_ingress'',
       ''runtime_ingress'', ''trusted_ingress'', ''tailnet_ingress''])"
    using assms(1) by (auto simp: observabilityFirewallSections_def observability_rule_def rule_section_def Let_def
        split: option.split_asm if_split_asm)
qed

lemma service_stages:
  assumes "ServiceStateFromModules p site m = Inr services"
  obtains observability records where
    "Validate p (Normalize m) site = Inr ()"
    "dns_service_sections site (effective m) = Inr (records, ss_Stubby services)"
    "observabilityFirewallSections site (effective m) = Inr observability"
    "ss_DHCP services = dnsmasqSections site (effective m) @ records @ observability_dns (effective m)"
    "ss_System services = (case time_settings (effective m) of (upstreams, serve) \<Rightarrow> ntpSections upstreams serve)"
    "ss_Firewall services =
       serviceFirewallSections site (dns_enabled m) (dhcp_enabled m) (vpn_enabled m) @
       systemFirewallSections (m_Systems m) @ systemHomePublicationSections site (m_Systems m) @
       mediaMonitoringFirewallSections (effective m) @ observability"
  using assms unfolding ServiceStateFromModules_def Let_def
  by (fastforce simp del: SystemsExpanded_simps(7))

text \<open>Registered systems have a valid reservation each, so no two share an identifier.\<close>

lemma valid_plan:
  assumes "Validate p (Normalize m) site = Inr ()" "m_DHCP (effective m) = Some h" "Enabled (dh_Enabled h)"
  shows "dhcp_plan h site" "dns_enabled m"
proof -
  have "expanded_checks p (effective m) site = Inr ()"
    using Validate_stages(2) [OF assms(1)] by (simp add: Normalize_twice)
  from expanded_stages(6) [OF this assms(2,3)] show "dhcp_plan h site" "dns_enabled m"
    using assms(3) by (simp_all add: validateDHCP_iff)
qed

lemma system_reservations:
  assumes "Validate p (Normalize m) site = Inr ()"
  obtains scopes where "\<And>s. s \<in> set (m_Systems m) \<Longrightarrow> reservation_ok (zoneMap site) scopes (system_reservation s)"
    "distinct (map (\<lambda>s. reservation_key (system_reservation s)) (m_Systems m))"
proof (cases "m_Systems m = []")
  case False
  have checks: "expanded_checks p (effective m) site = Inr ()"
    using Validate_stages(2) [OF assms] by (simp add: Normalize_twice)
  then have "dhcp_enabled (effective m)" using expanded_stages(1) [OF checks] False by simp
  then obtain h where h: "m_DHCP (effective m) = Some h" "Enabled (dh_Enabled h)"
    by (auto simp: dhcp_enabled_def simp del: SystemsExpanded_simps enabled_expanded split: option.split_asm)
  have plan: "dhcp_plan h site" by (rule valid_plan [OF assms h])
  have sub: "system_reservation ` set (m_Systems m) \<subseteq> set (dh_Reservations h)" using h(1) by auto
  show ?thesis
  proof (rule that)
    show "reservation_ok (zoneMap site) (dh_Scopes h) (system_reservation s)" if "s \<in> set (m_Systems m)" for s
      using plan sub that by (auto simp: dhcp_plan_def list_all_iff)
    show "distinct (map (\<lambda>s. reservation_key (system_reservation s)) (m_Systems m))"
      using plan h(1) by (auto simp: dhcp_plan_def comp_def)
  qed
qed (use that in simp)

lemma valid_systems:
  assumes "Validate p (Normalize m) site = Inr ()"
  shows "distinct (map system_id (m_Systems m))" "s \<in> set (m_Systems m) \<Longrightarrow> sy_Address s \<noteq> []"
    "distinct (map (\<lambda>s. TrimSpace (sy_Name s)) (m_Systems m))"
proof -
  obtain scopes where ok: "\<And>s. s \<in> set (m_Systems m) \<Longrightarrow> reservation_ok (zoneMap site) scopes (system_reservation s)"
    and keys: "distinct (map (\<lambda>s. reservation_key (system_reservation s)) (m_Systems m))"
    using system_reservations [OF assms] by blast
  show "distinct (map system_id (m_Systems m))"
    using keys
  proof (rule distinct_by_key)
    fix s t assume s: "s \<in> set (m_Systems m)" "t \<in> set (m_Systems m)" "system_id s = system_id t"
    then show "reservation_key (system_reservation s) = reservation_key (system_reservation t)"
      using ok [OF s(1)] ok [OF s(2)] host_identifier_inj [of "ToLower (sy_Name s)" "ToLower (sy_Name t)"]
      by (simp add: reservation_key_def system_reservation_def reservation_ok_def system_id_def)
  qed
  show "distinct (map (\<lambda>s. TrimSpace (sy_Name s)) (m_Systems m))"
    by (rule distinct_by_key [OF keys])
      (simp add: reservation_key_def lookup_key_def system_reservation_def TrimSpace_ToLower)
  have "canonical_addr4 [] = None" by code_simp
  then show "s \<in> set (m_Systems m) \<Longrightarrow> sy_Address s \<noteq> []"
    using ok [of s] by (auto simp: reservation_ok_def system_reservation_def split: option.split_asm)
qed

lemma system_section_wf:
  assumes "sy_Address s \<noteq> []"
  shows "wf_section (system_rule s ''trusted'' ''trusted'' [])"
    and "wf_section (system_rule s ''monitoring'' ''infra'' [(''src_ip'', ''10.10.10.20'')])"
    and "wf_section (publication_section site s)"
  using assms by (simp_all add: system_rule_def publication_section_def section_defs home_network_def)

lemma system_sections_wf:
  assumes "\<And>s. s \<in> set systems \<Longrightarrow> sy_Address s \<noteq> []"
  shows "list_all wf_section (systemFirewallSections systems @ systemHomePublicationSections site systems)"
  using assms
  by (auto simp: systemFirewallSections_def systemHomePublicationSections_def list_all_iff intro: system_section_wf)

section \<open>Zones of a valid site\<close>

lemma valid_zones:
  assumes "ValidateSite q site = Inr ()"
  shows "\<forall>z \<in> set (nw_Zones (s_Network site)). z_Name z \<noteq> [] \<and> z_Network z \<noteq> [] \<and> z_Gateway z \<noteq> []"
    and "mset (map z_Name (nw_Zones (s_Network site))) = mset (map fst expectedZones)"
proof -
  note zones = zones_of_valid_site [OF assms]
  show "\<forall>z \<in> set (nw_Zones (s_Network site)). z_Name z \<noteq> [] \<and> z_Network z \<noteq> [] \<and> z_Gateway z \<noteq> []"
    using zones(1) by (auto simp: zone_contract_def expectedZones_def split: if_split_asm)
  have "distinct (map fst expectedZones)" by code_simp
  with zones(2,4) show "mset (map z_Name (nw_Zones (s_Network site))) = mset (map fst expectedZones)"
    by (metis set_eq_iff_mset_eq_distinct list.set_map)
qed

lemma mset_concat_map: "mset xs = mset ys \<Longrightarrow> mset (concat (map f xs)) = mset (concat (map f ys))"
  by (simp add: mset_concat flip: sum_mset_sum_list)

lemma service_section_names:
  assumes "ValidateSite q site = Inr ()"
  shows "mset (map sn_Name (serviceFirewallSections site d h v)) \<subseteq>#
    mset (concat (map (service_names True True True) (map fst expectedZones)))"
proof -
  let ?zs = "nw_Zones (s_Network site)"
  have "mset (map sn_Name (serviceFirewallSections site d h v)) \<subseteq>#
      mset (concat (map (\<lambda>z. service_names d h v (z_Name z)) ?zs))"
    by (simp add: serviceFirewallSections_def map_concat zone_service_names comp_def del: mset_map)
  also have "\<dots> \<subseteq># mset (concat (map (\<lambda>z. service_names True True True (z_Name z)) ?zs))"
    by (rule subset_concat_map) (rule service_names_below)
  also have "\<dots> = mset (concat (map (service_names True True True) (map z_Name ?zs)))"
    by (simp add: comp_def)
  also have "\<dots> = mset (concat (map (service_names True True True) (map fst expectedZones)))"
    by (rule mset_concat_map) (rule valid_zones(2) [OF assms])
  finally show ?thesis .
qed

section \<open>The firewall package\<close>

lemma fixed_distinct: "distinct fixed_firewall_names"
  using fixed_firewall_names_distinct by (rule distinct_map [THEN iffD1, THEN conjunct1])

lemma all_firewall_names_distinct:
  assumes "distinct (map system_id systems)"
  shows "distinct (fixed_firewall_names @ concat (map (service_names True True True) (map fst expectedZones)) @
    system_names systems)"
proof -
  let ?service = "concat (map (service_names True True True) (map fst expectedZones))"
  have zones: "list_all (\<lambda>z. CHR ''_'' \<notin> set (ToLower z)) (map fst expectedZones)" by code_simp
  have service: "service_name n" if "n \<in> set ?service" for n
    using that service_names_zone(2) zones by (fastforce simp: list_all_iff)
  have system: "HasPrefix n ''boetticher_system_''" if "n \<in> set (system_names systems)" for n
    using that by (auto simp: system_names_def system_name_def HasPrefix_def)
  have "\<not> service_name n" if "HasPrefix n ''boetticher_system_''" for n
    using that common_prefix [of n "''boetticher_system_''" "''boetticher_allow_''"]
      common_prefix [of n "''boetticher_system_''" "''boetticher_deny_''"]
    by (auto simp: service_name_def HasPrefix_def)
  then show ?thesis
    using fixed_distinct all_service_names_distinct system_names_distinct [OF assms] fixed_firewall_names_apart service system
    by (auto simp: list_all_iff simp del: map_map)
qed

lemma firewall_package_wf:
  assumes site: "ValidateSite q site = Inr ()"
    and policy: "policy_sections m reference_zones policy = Inr policySections"
    and services: "ServiceStateFromModules p site m = Inr services"
    and safety: "SafetySections safe = Inr safetySections" and "controller \<noteq> []"
  shows "wf_desired (firewallSections reference_zones (home_network site) controller @ policySections @ ss_Firewall services @
    (if tailnet_enabled m then tailnetFirewallSections (home_network site) else []) @ safetySections)"
proof -
  let ?tail = "if tailnet_enabled m then tailnetFirewallSections (home_network site) else []"
  from services show ?thesis
  proof (cases rule: service_stages)
    case 1: (1 observability records)
    note systems = valid_systems [OF 1(1)] and zones = valid_zones [OF site]
    have home: "home_network site \<noteq> []" by (simp add: home_network_def)
    have "list_all wf_section (ss_Firewall services)"
      using 1(6) service_sections_wf system_sections_wf [OF systems(2)] media_sections_wf(1) zones(1)
        observability_sections_wf(1) [OF 1(3)] by simp
    then have wf: "list_all wf_section (firewallSections reference_zones (home_network site) controller @ policySections @
        ss_Firewall services @ ?tail @ safetySections)"
      using reference_wf home \<open>controller \<noteq> []\<close> policy_sections_wf(1) [OF policy] tailnet_sections_wf(1) [OF home]
        safety_sections_wf(1) [OF safety] by simp
    have names: "map sn_Name (firewallSections reference_zones (home_network site) controller) =
        map sn_Name (firewallSections reference_zones [] [])"
      by (simp add: zone_section_defs)
    have tail: "mset (map sn_Name ?tail) \<subseteq># mset (map sn_Name (tailnetFirewallSections []))"
      using tailnet_sections_wf(2) [of "home_network site"] by (simp del: mset_map)
    have "mset (map sn_Name (firewallSections reference_zones (home_network site) controller @ policySections @
        ss_Firewall services @ ?tail @ safetySections)) \<subseteq>#
      mset (fixed_firewall_names @ concat (map (service_names True True True) (map fst expectedZones)) @
        system_names (m_Systems m))"
      using policy_sections_wf(2) [OF policy] service_section_names [OF site, of "dns_enabled m" "dhcp_enabled m" "vpn_enabled m"]
        system_names_below [of "m_Systems m" site] media_sections_wf(2) [of "effective m"]
        observability_sections_wf(2) [OF 1(3)] zones(1) tail safety_sections_wf(2) [OF safety]
      unfolding fixed_firewall_names_def 1(6) mset_append map_append names
      by (simp add: mset_subset_eq_exists_conv del: map_map list.map mset.simps) (fastforce simp: ac_simps)
    from distinct_below [OF this all_firewall_names_distinct [OF systems(1)]] wf show ?thesis
      unfolding wf_desired_def by blast
  qed
qed

section \<open>The network, time and resolver packages\<close>

lemma network_package_wf:
  assumes "management \<noteq> []" "netmask \<noteq> []" "gateway \<noteq> []"
  shows "wf_desired (networkSections reference_zones management netmask gateway)"
  using assms
  by (simp add: wf_desired_def networkSections_def zone_network_sections_def section_defs reference_zones_def zone_names_lower Let_def)

lemma ntp_package_wf: "wf_desired (ntpSections upstreams serve)"
  by (simp add: wf_desired_def ntpSections_def section_defs)

lemma canonical_ip4_text:
  assumes "canonical_ip4 s \<noteq> None"
  shows "CHR ''_'' \<notin> set s" "s \<noteq> []"
proof -
  from assms obtain q where s: "s = IPString q" and q: "length q = 4"
    by (auto simp: canonical_ip4_def To4_def split: option.split_asm if_split_asm)
  have digit: "CHR ''_'' \<noteq> char_of (48 + k)" if "k < 10" for k :: nat
    using that by (auto dest!: arg_cong [where f = "of_char :: char \<Rightarrow> nat"] simp: of_char_of)
  have "CHR ''_'' \<notin> set (nat_digits n)" for n
    by (induction n rule: nat_digits.induct) (subst nat_digits.simps, use digit in auto)
  moreover have "s = ip4_string q" using s q by (simp add: IPString_def To4_def)
  moreover obtain a b c d where "q = [a, b, c, d]" using q by (rule length4_cases)
  ultimately show "CHR ''_'' \<notin> set s" "s \<noteq> []" by (auto simp: ip4_string_def joinWith_def)
qed

lemma stubby_package_wf:
  assumes "distinct (map du_Address us)" "\<And>u. u \<in> set us \<Longrightarrow> canonical_ip4 (du_Address u) \<noteq> None \<and> du_TLSName u \<noteq> []"
  shows "wf_desired (stubbySections us)"
proof -
  have name: "sn_Name (resolver_section u) = ''boetticher_resolver_'' @ ReplaceChar CHR ''.'' ''_'' (du_Address u)" for u
    by (simp only: resolver_section_def mk_section_def nativeResolverSectionName_def TrimPrefix_append Section.simps)
  have "distinct (map (\<lambda>u. sn_Name (resolver_section u)) us)"
    using assms(1)
  proof (rule distinct_by_key)
    fix u v assume "u \<in> set us" "v \<in> set us" "sn_Name (resolver_section u) = sn_Name (resolver_section v)"
    then show "du_Address u = du_Address v"
      using resolver_name_inj [of "du_Address u" "du_Address v"] canonical_ip4_text(1) assms(2)
      by (simp add: name)
  qed
  moreover have "''global'' \<noteq> sn_Name (resolver_section u)" for u
    by (simp add: resolver_section_def mk_section_def)
  moreover have "wf_section (resolver_section u)" if "u \<in> set us" for u
    using assms(2) [OF that] canonical_ip4_text(2) by (simp add: resolver_section_def section_defs)
  ultimately show ?thesis
    by (auto simp: wf_desired_def stubbySections_def stubby_global_def comp_def list_all_iff mk_section_def
        intro: wf_section_lists [THEN iffD2])
qed

section \<open>DNS records\<close>

definition dns_name :: "Section \<Rightarrow> string" where
  "dns_name s = (if sn_Type s = ''hostrecord'' then opt (sn_Options s) ''name'' else opt (sn_Options s) ''cname'')"

text \<open>A section that publishes a canonical name and is called after it.\<close>

definition record_section :: "string list \<Rightarrow> Section \<Rightarrow> bool" where
  "record_section ps s \<longleftrightarrow> wf_section s \<and> list_all name_char (dns_name s) \<and>
     list_ex (\<lambda>p. sn_Name s = p @ nativeRecordSuffix (dns_name s)) ps"

lemma HasPrefix_refl [simp]: "HasPrefix p p"
  by (simp add: HasPrefix_def)

lemma record_sections_family:
  assumes "list_all (record_section ps) ss" "distinct (map dns_name ss)"
    and "\<And>p q. p \<in> set ps \<Longrightarrow> q \<in> set ps \<Longrightarrow> HasPrefix p q \<Longrightarrow> p = q"
  shows "family (ps, map sn_Name ss)"
proof -
  have "distinct (map sn_Name ss)"
    using assms(2)
  proof (rule distinct_by_key)
    fix s t assume st: "s \<in> set ss" "t \<in> set ss" "sn_Name s = sn_Name t"
    from st(1,2) assms(1) obtain p q where p: "p \<in> set ps" "sn_Name s = p @ nativeRecordSuffix (dns_name s)"
      and q: "q \<in> set ps" "sn_Name t = q @ nativeRecordSuffix (dns_name t)"
      unfolding list_all_iff record_section_def list_ex_iff by blast
    have "HasPrefix p q \<or> HasPrefix q p"
      using common_prefix [of "sn_Name s" p q] p(2) q(2) st(3) by (metis HasPrefix_append)
    then have "p = q" using assms(3) p(1) q(1) by blast
    then show "dns_name s = dns_name t"
      using st p(2) q(2) assms(1) record_suffix_inj by (fastforce simp: list_all_iff record_section_def)
  qed
  moreover have "\<exists>p \<in> set ps. HasPrefix (sn_Name s) p" if "s \<in> set ss" for s
    using assms(1) that unfolding list_all_iff record_section_def list_ex_iff by (metis HasPrefix_append)
  ultimately show ?thesis by (simp add: family_def list_all_iff list_ex_iff)
qed

lemma canonicalName_nonempty: "canonicalName v d \<noteq> Inr []"
  using canonicalName_chars(3) by blast

lemma dns_name_mk [simp]:
  "dns_name (mk_section name ''hostrecord'' [(''name'', n), (''ip'', ip)] []) = n"
  "dns_name (mk_section name ''cname'' [(''cname'', n), (''target'', target)] []) = n"
  by (simp_all add: dns_name_def mk_section_def opt_def)

lemma hostrecord_section:
  assumes "canonicalName v d = Inr n" "p \<in> set ps" "ip \<noteq> []"
  shows "record_section ps (mk_section (p @ nativeRecordSuffix (TrimSuffix n ''.'')) ''hostrecord'' [(''name'', n), (''ip'', ip)] [])"
  using assms(2,3) canonicalName_chars [OF assms(1)]
  by (auto simp: record_section_def section_defs list_ex_iff nativeRecordSuffix_def)
     (auto simp: dns_name_def opt_def)

lemma cname_section:
  assumes "canonicalName v d = Inr n" "p \<in> set ps" "target \<noteq> []"
  shows "record_section ps (mk_section (p @ nativeRecordSuffix (TrimSuffix n ''.'')) ''cname'' [(''cname'', n), (''target'', target)] [])"
  using assms(2,3) canonicalName_chars [OF assms(1)]
  by (auto simp: record_section_def section_defs list_ex_iff nativeRecordSuffix_def)
     (auto simp: dns_name_def opt_def)

text \<open>The infrastructure bindings: each name is published once.\<close>

abbreviation "binding_prefixes \<equiv> [''boetticher_binding_record_'', ''boetticher_binding_cname_'']"

definition published :: "Section list \<Rightarrow> (string \<times> string) list \<Rightarrow> bool" where
  "published sections seenName \<longleftrightarrow> list_all (record_section binding_prefixes) sections \<and> distinct (map dns_name sections) \<and>
     dns_name ` set sections \<subseteq> fst ` set seenName"

lemma published_snoc:
  assumes "published sections seenName" "map_of seenName n = None" "record_section binding_prefixes s" "dns_name s = n"
  shows "published (sections @ [s]) ((n, ip) # seenName)"
  using assms by (auto simp: published_def map_of_eq_None_iff)

lemma alias_step_published:
  assumes "binding_alias_step d name ip a (sections, seenName) = Inr (sections', seenName')" "published sections seenName" "name \<noteq> []"
  shows "published sections' seenName'"
  using assms
  by (auto simp: binding_alias_step_def simp del: append_Cons split: sum.split_asm if_split_asm option.split_asm
      intro!: published_snoc cname_section)

lemma binding_target_nonempty:
  assumes "item \<in> set bindings" "canonicalName (db_name item) d = Inr n"
  shows "canonicalBindingTarget (db_ip item) bindings d \<noteq> []"
proof -
  define names where "names = concat (map (\<lambda>b. if db_ip b = db_ip item then ok_value (canonicalName (db_name b) d) else []) bindings)"
  have "n \<in> set names" using assms by (auto simp: names_def ok_value_def intro!: bexI [of _ item])
  moreover have "x \<noteq> []" if "x \<in> set (ok_value (canonicalName v d))" for v x
    by (cases "canonicalName v d") (use that canonicalName_chars(3) in \<open>auto simp: ok_value_def\<close>)
  then have "x \<noteq> []" if "x \<in> set names" for x using that by (auto simp: names_def split: if_split_asm)
  ultimately show ?thesis
    unfolding canonicalBindingTarget_def names_def [symmetric] by (cases names) auto
qed

lemma binding_step_published:
  assumes "binding_dns_step d bindings item (sections, seenName, seenAddress) = Inr (sections', seenName', seenAddress')"
    and "published sections seenName" "item \<in> set bindings" "db_ip item \<noteq> []"
  shows "published sections' seenName'"
proof (cases "canonicalName (db_name item) d")
  case (Inr n)
  show ?thesis
  proof (cases "map_of seenName n")
    case None
    note target = binding_target_nonempty [OF assms(3) Inr] and n = canonicalName_chars(3) [OF Inr]
    show ?thesis
    proof (cases "db_ip item \<in> set seenAddress")
      case True
      then show ?thesis
        using assms(1,2) None Inr target
        by (auto simp: binding_dns_step_def Let_def simp del: append_Cons intro!: published_snoc cname_section)
    next
      case False
      let ?s = "mk_section (''boetticher_binding_record_'' @ nativeRecordSuffix (TrimSuffix n ''.'')) ''hostrecord''
        [(''name'', n), (''ip'', db_ip item)] []"
      have start: "published (sections @ [?s]) ((n, db_ip item) # seenName)"
        using assms(2,4) None by (intro published_snoc hostrecord_section [OF Inr]) simp_all
      from assms(1) have "foldE (binding_alias_step d n (db_ip item)) (db_aliases item)
          (sections @ [?s], (n, db_ip item) # seenName) = Inr (sections', seenName')"
        using None Inr False unfolding binding_dns_step_def Let_def by (auto simp del: append_Cons)
      then have "case (sections', seenName') of (ss, names) \<Rightarrow> published ss names"
        by (rule foldE_invariant) (use start alias_step_published [OF _ _ n] in \<open>auto split: prod.splits\<close>)
      then show ?thesis by simp
    qed
  next
    case (Some previous)
    then show ?thesis using assms(1,2) Inr by (auto simp: binding_dns_step_def split: if_split_asm)
  qed
next
  case (Inl e)
  then show ?thesis using assms(1,2) by (simp add: binding_dns_step_def)
qed

lemma dns_bindings_addresses:
  assumes "dns_bindings site = Inr bindings" "b \<in> set bindings"
  shows "db_ip b \<noteq> []"
proof -
  have "db_ip b \<noteq> []" if "component_binding c = Inr bs" "b \<in> set bs" for c bs
    using that by (auto simp: component_binding_def TrimSpace_def split: if_split_asm)
  moreover have "db_ip b \<noteq> []" if "zone_binding z = Inr bs" "b \<in> set bs" for z bs
    using that by (auto simp: zone_binding_def TrimSpace_def split: if_split_asm)
  moreover have "canonical_ip4 [] = None" by code_simp
  moreover obtain cs zs where read: "mapE component_binding (s_Components site) = Inr cs"
    "mapE zone_binding (nw_Zones (s_Network site)) = Inr zs" and all: "bindings = sort_key (\<lambda>b. (db_role b, db_ip b, db_name b))
       (concat cs @ concat zs @ (if canonical_ip4 (gw_ManagementAddress (s_Gateway site)) = None then []
          else [\<lparr>db_name = ''home-gateway'', db_ip = gw_ManagementAddress (s_Gateway site), db_role = 2, db_aliases = []\<rparr>]))"
    using assms(1) unfolding dns_bindings_def Let_def bindE_Inr sum.inject by blast
  moreover from assms(2) all consider bs where "bs \<in> set cs" "b \<in> set bs" | bs where "bs \<in> set zs" "b \<in> set bs" |
      "db_ip b = gw_ManagementAddress (s_Gateway site)" "canonical_ip4 (gw_ManagementAddress (s_Gateway site)) \<noteq> None"
    by (auto split: if_split_asm)
  ultimately show ?thesis
    by cases (use mapE_image [OF read(1)] mapE_image [OF read(2)] in metis)+
qed

lemma binding_sections_published:
  assumes "bindingDNSSections site = Inr sections"
  shows "list_all (record_section binding_prefixes) sections" "distinct (map dns_name sections)"
proof -
  from assms obtain bindings seenName seenAddress where b: "dns_bindings site = Inr bindings"
    and fold: "foldE (binding_dns_step (nw_Domain (s_Network site)) bindings) bindings ([], [], []) = Inr (sections, seenName, seenAddress)"
    unfolding bindingDNSSections_def by auto
  from fold have "case (sections, seenName, seenAddress) of (ss, names, _) \<Rightarrow> published ss names"
  proof (rule foldE_invariant)
    show "case ([], [], []) of (ss, names, _) \<Rightarrow> published ss names" by (simp add: published_def)
    fix item u v assume step: "item \<in> set bindings" "case u of (ss, names, _) \<Rightarrow> published ss names"
      "binding_dns_step (nw_Domain (s_Network site)) bindings item u = Inr v"
    obtain ss names as ss' names' as' where "u = (ss, names, as)" "v = (ss', names', as')" by (metis prod_cases3)
    with step show "case v of (ss, names, _) \<Rightarrow> published ss names"
      using binding_step_published dns_bindings_addresses [OF b] by auto
  qed
  then show "list_all (record_section binding_prefixes) sections" "distinct (map dns_name sections)"
    by (simp_all add: published_def)
qed

abbreviation "user_prefixes \<equiv> [''boetticher_record_'', ''boetticher_cname_'']"

lemma user_record_one:
  assumes "user_record_section site names addresses r = Inr ss" "sr_Type r = ''A'' \<Longrightarrow> sr_Value r \<noteq> []"
  shows "list_all (record_section user_prefixes) ss \<and> (ss = [] \<or> (\<exists>s. ss = [s] \<and> dns_name s = record_name site r))"
proof (cases "canonicalName (sr_Name r) (nw_Domain (s_Network site))")
  case (Inr n)
  have safe: "''boetticher_record_'' @ TrimPrefix (nativeRecordSectionName n) ''boetticher_record_'' =
      ''boetticher_record_'' @ nativeRecordSuffix (TrimSuffix n ''.'')"
    by (simp only: nativeRecordSectionName_def TrimPrefix_append)
  show ?thesis
    using assms Inr unfolding user_record_section_def Let_def
    by (auto simp: record_name_def safe canonicalName_nonempty simp del: append_Cons split: if_split_asm option.split_asm sum.split_asm
        intro!: hostrecord_section [OF Inr] cname_section [OF Inr])
next
  case (Inl e)
  then show ?thesis using assms(1) by (simp add: user_record_section_def)
qed

lemma user_records_published:
  assumes "mapE (user_record_section site names addresses) rs = Inr gs" "distinct (map (record_name site) rs)"
    and "\<And>r. r \<in> set rs \<Longrightarrow> sr_Type r = ''A'' \<Longrightarrow> sr_Value r \<noteq> []"
  shows "list_all (record_section user_prefixes) (concat gs) \<and> distinct (map dns_name (concat gs)) \<and>
    dns_name ` set (concat gs) \<subseteq> record_name site ` set rs"
  using assms
proof (induction rs arbitrary: gs)
  case (Cons r rs)
  from Cons.prems(1) obtain g gs' where g: "user_record_section site names addresses r = Inr g"
    "mapE (user_record_section site names addresses) rs = Inr gs'" "gs = g # gs'"
    unfolding mapE_Cons_Inr by blast
  have "list_all (record_section user_prefixes) g \<and> (g = [] \<or> (\<exists>s. g = [s] \<and> dns_name s = record_name site r))"
    by (rule user_record_one [OF g(1)]) (use Cons.prems(3) in simp)
  moreover have "list_all (record_section user_prefixes) (concat gs') \<and> distinct (map dns_name (concat gs')) \<and>
      dns_name ` set (concat gs') \<subseteq> record_name site ` set rs"
    by (rule Cons.IH [OF g(2)]) (use Cons.prems in auto)
  moreover from this have "record_name site r \<notin> dns_name ` set (concat gs')" using Cons.prems(2) by auto
  ultimately show ?case using g(3) by auto
qed simp

end
