(* ===== verification/Appliance_Deploy.thy ===== *)
theory Appliance_Deploy
  imports Appliance_Unique
begin

text \<open>
  From a configuration to the device: the packages composed for a valid site can be reconciled as
  they are, and a successful reconciliation leaves the appliance with exactly the composed
  sections.
\<close>

section \<open>Scopes and hosts\<close>

lemma upper_lower_char: "upper_char (lower_char c) = upper_char c"
proof (cases "is_upper c")
  case True
  define n where "n = (of_char c :: nat)"
  have n: "65 \<le> n" "n \<le> 90" using True by (simp_all add: is_upper_code n_def)
  have low: "of_char (char_of (n + 32) :: char) = n + 32" using n by (simp add: of_char_of)
  have "upper_char (lower_char c) = char_of (n + 32 - 32)"
    using n True low by (simp add: lower_char_def upper_char_def is_lower_code flip: n_def)
  moreover have "upper_char c = c" using n by (simp add: upper_char_def is_lower_code flip: n_def)
  ultimately show ?thesis by (simp add: n_def)
qed (simp add: lower_char_def)

lemma ToUpper_ToLower: "ToUpper (ToLower s) = ToUpper s"
  by (simp add: ToLower_def ToUpper_def upper_lower_char)

definition scope_name :: "DHCPScope \<Rightarrow> string" where
  "scope_name scope = ''boetticher_dhcp_'' @ ToLower (sc_Zone scope)"

lemma scope_section_cases:
  obtains "scope_section site dhcp scope = []" |
    s where "scope_section site dhcp scope = [s]" "sn_Name s = scope_name scope"
proof (cases "serviceZoneByName site (sc_Zone scope)")
  case None
  then show ?thesis using that(1) by (simp add: scope_section_def)
next
  case (Some zone)
  then have "ToLower (z_Name zone) = ToLower (sc_Zone scope)"
    by (auto simp: serviceZoneByName_def find_Some_iff EqualFold_def)
  with Some that(2) show ?thesis by (simp add: scope_section_def mk_section_def scope_name_def)
qed

lemma scope_names_distinct:
  assumes "distinct (map (scope_zone zones) scopes)"
  shows "distinct (map sn_Name (concat (map (scope_section site dhcp) scopes))) \<and>
    sn_Name ` set (concat (map (scope_section site dhcp) scopes)) \<subseteq> scope_name ` set scopes"
  using assms
proof (induction scopes)
  case (Cons a scopes)
  have "scope_zone zones a = scope_zone zones b" if "scope_name a = scope_name b" for b
    using that unfolding scope_zone_def scope_name_def by (metis ToUpper_ToLower same_append_eq)
  with Cons.prems have "scope_name a \<notin> scope_name ` set scopes" by force
  moreover define rest where "rest = concat (map (scope_section site dhcp) scopes)"
  moreover from Cons have "distinct (map sn_Name rest)" "sn_Name ` set rest \<subseteq> scope_name ` set scopes"
    by (simp_all add: rest_def)
  ultimately show ?case
    by (cases rule: scope_section_cases [of site dhcp a]) (auto simp flip: rest_def)
qed simp

lemma pool_options_cases:
  obtains "pool_options scope = []" |
    a b where "pool_options scope = [(''start'', nat_digits a), (''limit'', nat_digits b), (''dynamicdhcp'', ''1'')]"
proof -
  have "pool_options scope = [] \<or>
      (\<exists>a b. pool_options scope = [(''start'', nat_digits a), (''limit'', nat_digits b), (''dynamicdhcp'', ''1'')])"
    by (auto simp: pool_options_def split: option.split)
  then show ?thesis using that by blast
qed

lemma scope_section_wf:
  assumes "dh_LeaseDuration dhcp \<noteq> []" "\<forall>z \<in> set (nw_Zones (s_Network site)). z_Name z \<noteq> []"
  shows "list_all wf_section (scope_section site dhcp scope)"
proof (cases "serviceZoneByName site (sc_Zone scope)")
  case (Some zone)
  then have "z_Name zone \<noteq> []" using assms(2) by (auto simp: serviceZoneByName_def find_Some_iff)
  then show ?thesis
    using assms(1) Some
    by (cases rule: pool_options_cases [of scope])
      (simp_all add: scope_section_def section_defs override_options_def iface_def)
qed (simp add: scope_section_def)

lemma host_name: "sn_Name (host_section r) = nativeHostSectionName (ToLower (rv_Name r))"
  by (simp add: host_section_def mk_section_def Let_def)

lemma host_sections:
  assumes "list_all (reservation_ok zones scopes) rs" "distinct (map reservation_key rs)"
  shows "distinct (map sn_Name (map host_section rs))" "list_all wf_section (map host_section rs)"
proof -
  have ok: "reservation_ok zones scopes r" if "r \<in> set rs" for r using assms(1) that by (simp add: list_all_iff)
  show "distinct (map sn_Name (map host_section rs))"
    unfolding map_map
    using assms(2)
  proof (rule distinct_by_key)
    fix r s assume "r \<in> set rs" "s \<in> set rs" "(sn_Name \<circ> host_section) r = (sn_Name \<circ> host_section) s"
    then show "reservation_key r = reservation_key s"
      using ok host_identifier_inj [of "rv_Name r" "rv_Name s"]
      by (simp add: host_name nativeHostSectionName_def reservation_key_def reservation_ok_def)
  qed
  have "canonical_addr4 [] = None" "canonicalMAC [] = Inl (Errorf ''%q is not an Ethernet MAC address'' [[]])" by code_simp+
  then have "rv_Name r \<noteq> [] \<and> rv_MAC r \<noteq> [] \<and> rv_Address r \<noteq> []" if "r \<in> set rs" for r
    using ok [OF that]
    by (auto simp: reservation_ok_def reservation_key_def lookup_key_def TrimSpace_def IsDNSLabel_def dnsLabelPattern_def
        split: option.split_asm)
  then show "list_all wf_section (map host_section rs)"
    by (auto simp: list_all_iff host_section_def section_defs nativeHostSectionName_def Let_def)
qed

lemma dnsmasq_section_wf:
  "nw_Domain (s_Network site) \<noteq> [] \<Longrightarrow> wf_section (dnsmasq_section site d h)"
  by (cases d; cases h) (simp_all add: dnsmasq_section_def section_defs override_options_def Let_def)

lemma home_dhcp_wf: "wf_section home_dhcp_section"
  by (simp add: home_dhcp_section_def section_defs)

section \<open>Aliases of systems, media and observability\<close>

lemma distinct_concat_inj:
  assumes "distinct (map key xs)" "\<And>x. x \<in> set xs \<Longrightarrow> distinct (f x)"
    and "\<And>x y n. x \<in> set xs \<Longrightarrow> y \<in> set xs \<Longrightarrow> n \<in> set (f x) \<Longrightarrow> n \<in> set (f y) \<Longrightarrow> key x = key y"
  shows "distinct (concat (map f xs))"
  using assms
proof (induction xs)
  case (Cons x xs)
  have "set (f x) \<inter> set (concat (map f xs)) = {}"
    using Cons.prems(1) Cons.prems(3) [of x] by force
  moreover have "distinct (concat (map f xs))" by (rule Cons.IH) (use Cons.prems in auto)
  ultimately show ?case using Cons.prems(2) by simp
qed simp

lemma TrimSpace_filter: "filter (\<lambda>c. \<not> is_space c) (TrimSpace s) = filter (\<lambda>c. \<not> is_space c) s"
proof -
  have "filter (\<lambda>c. \<not> is_space c) (dropWhile is_space u) = filter (\<lambda>c. \<not> is_space c) u" for u
    by (induction u) auto
  then show ?thesis by (simp add: TrimSpace_def rev_filter [symmetric])
qed

lemma ValidPublicDomain_chars:
  assumes "ValidPublicDomain d" "d = ToLower d" "c \<in> set d"
  shows "name_char c \<or> is_space c"
proof (rule ccontr)
  let ?v = "TrimSuffix (ToLower (TrimSpace d)) ''.''"
  assume c: "\<not> (name_char c \<or> is_space c)"
  have low: "lower_char c = c" using assms(2,3) by (metis ToLower_def in_set_conv_nth nth_map)
  have "filter (\<lambda>c. \<not> is_space c) (TrimSpace d) = filter (\<lambda>c. \<not> is_space c) d" by (rule TrimSpace_filter)
  then have "c \<in> set (TrimSpace d)" using assms(3) c by (metis (mono_tags, lifting) mem_Collect_eq set_filter)
  then have "c \<in> set (ToLower (TrimSpace d))" using low by (force simp: ToLower_def)
  then have "c \<in> set ?v" using c by (auto simp: TrimSuffix_def HasSuffix_iff name_char_def)
  from SplitChar_cover [OF this, of "CHR ''.''"] assms(1) c show False
    by (auto simp: ValidPublicDomain_def Let_def list_all_iff domain_part_def name_char_def)
qed

definition system_alias :: "Site \<Rightarrow> System \<Rightarrow> Section list" where
  "system_alias site s =
     (if sy_DNSName s = [] then []
      else case canonicalName (sy_Name s) (nw_Domain (s_Network site)) of
        Inl _ \<Rightarrow> []
      | Inr target \<Rightarrow>
          (let name = ToLower (TrimSuffix (sy_DNSName s) ''.'') in
           [mk_section (systemDNSSectionName name target) ''cname'' [(''cname'', name), (''target'', target)] []]))"

lemma systemDNSSections_aliases: "systemDNSSections site systems = concat (map (system_alias site) systems)"
  by (simp add: systemDNSSections_def system_alias_def [abs_def])

text \<open>The checks of one registered system that matter for its alias.\<close>

definition system_ok :: "System \<Rightarrow> bool" where
  "system_ok s \<longleftrightarrow> IsDNSLabel (TrimSpace (sy_Name s)) \<and> TrimSpace (sy_Name s) = ToLower (TrimSpace (sy_Name s)) \<and>
     (sy_DNSName s \<noteq> [] \<longrightarrow> sy_DNSName s = ToLower (sy_DNSName s) \<and> ValidPublicDomain (sy_DNSName s) \<and>
        \<not> HasSuffix (sy_DNSName s) ''.'')"

lemma systems_ok:
  assumes "validateSystems systems site m = Inr ()" "s \<in> set systems"
  shows "system_ok s"
proof -
  from assms(1) obtain st where fold: "foldE (system_step site m) systems ([], []) = Inr st"
    by (auto simp: validateSystems_def)
  have "\<forall>s \<in> set systems. system_ok s"
    by (rule foldE_each [OF fold, where I = "\<lambda>_. True"])
      (auto simp: system_step_def system_ok_def Let_def split: if_split_asm sum.split_asm)
  then show ?thesis using assms(2) by blast
qed

lemma system_alias_cases:
  assumes "system_ok s"
  obtains "system_alias site s = []" |
    a n target where "system_alias site s = [a]" "sn_Name a = ''boetticher_system_dns_'' @ nativeRecordSuffix n @ ''_to_'' @ nativeRecordSuffix target"
      "wf_section a" "\<And>c. c \<in> set n \<Longrightarrow> name_char c \<or> is_space c" "list_all name_char target"
      "target = TrimSpace (sy_Name s) @ ''.'' @ ToLower (TrimSuffix (TrimSpace (nw_Domain (s_Network site))) ''.'')"
proof (cases "sy_DNSName s = [] \<or> is_err (canonicalName (sy_Name s) (nw_Domain (s_Network site)))")
  case True
  then have "system_alias site s = []" by (auto simp: system_alias_def split: sum.split)
  then show ?thesis by (rule that(1))
next
  case False
  then obtain target where t: "canonicalName (sy_Name s) (nw_Domain (s_Network site)) = Inr target" and d: "sy_DNSName s \<noteq> []"
    by (cases "canonicalName (sy_Name s) (nw_Domain (s_Network site))") auto
  let ?n = "sy_DNSName s" and ?name = "TrimSpace (sy_Name s)"
  have ok: "ToLower ?n = ?n" "ValidPublicDomain ?n" "TrimSuffix ?n ''.'' = ?n" "IsDNSLabel ?name" "ToLower ?name = ?name"
    using assms d by (auto simp: system_ok_def TrimSuffix_not)
  note chars = canonicalName_chars [OF t]
  have dots: "CHR ''.'' \<notin> set ?name"
    using IsDNSLabel_chars [OF ok(4), of "CHR ''.''"] ok(5) label_not_special by auto
  have "?name \<noteq> []" using ok(4,5) by (auto simp: IsDNSLabel_def dnsLabelPattern_def)
  then have "\<not> HasSuffix ?name ''.''" using dots by (metis HasSuffix_last last_in_set)
  then have target: "target = ?name @ ''.'' @ ToLower (TrimSuffix (TrimSpace (nw_Domain (s_Network site))) ''.'')"
    using t dots ok(5) by (auto simp: canonicalName_def Let_def TrimSuffix_not split: if_split_asm option.split_asm)
  show ?thesis
  proof (rule that(2))
    show "system_alias site s = [mk_section (systemDNSSectionName ?n target) ''cname'' [(''cname'', ?n), (''target'', target)] []]"
      using t d ok by (simp add: system_alias_def Let_def)
    show "sn_Name (mk_section (systemDNSSectionName ?n target) ''cname'' [(''cname'', ?n), (''target'', target)] []) =
        ''boetticher_system_dns_'' @ nativeRecordSuffix ?n @ ''_to_'' @ nativeRecordSuffix target"
      using ok(3) chars(2) by (simp add: mk_section_def systemDNSSectionName_def)
    show "wf_section (mk_section (systemDNSSectionName ?n target) ''cname'' [(''cname'', ?n), (''target'', target)] [])"
      using d chars(3) by (simp add: section_defs systemDNSSectionName_def)
  qed (use chars target ValidPublicDomain_chars [OF ok(2) ok(1) [symmetric]] in auto)
qed

lemma system_alias_one:
  assumes "system_ok s"
  shows "list_all wf_section (system_alias site s) \<and>
    list_all (\<lambda>a. HasPrefix (sn_Name a) ''boetticher_system_dns_'') (system_alias site s)"
  by (cases rule: system_alias_cases [OF assms, of site]) (simp_all del: append_Cons)

lemma system_aliases:
  assumes "\<And>s. s \<in> set systems \<Longrightarrow> system_ok s" "distinct (map (\<lambda>s. TrimSpace (sy_Name s)) systems)"
  shows "distinct (map sn_Name (systemDNSSections site systems))" "list_all wf_section (systemDNSSections site systems)"
    "n \<in> set (map sn_Name (systemDNSSections site systems)) \<Longrightarrow> HasPrefix n ''boetticher_system_dns_''"
proof -
  have "distinct (map sn_Name (concat (map (system_alias site) systems)))"
    unfolding map_concat map_map comp_def
  proof (rule distinct_concat_inj)
    show "distinct (map (\<lambda>s. TrimSpace (sy_Name s)) systems)" by fact
    fix s assume "s \<in> set systems"
    then have s: "system_ok s" by (rule assms(1))
    show "distinct (map sn_Name (system_alias site s))"
      by (cases rule: system_alias_cases [OF s, of site]) auto
    fix t n assume t: "t \<in> set systems" "n \<in> set (map sn_Name (system_alias site s))" "n \<in> set (map sn_Name (system_alias site t))"
    show "TrimSpace (sy_Name s) = TrimSpace (sy_Name t)"
    proof (cases rule: system_alias_cases [OF s, of site])
      case x: (2 a m target)
      show ?thesis
      proof (cases rule: system_alias_cases [OF assms(1) [OF t(1)], of site])
        case y: (2 b k target')
        have "target = target'"
          by (rule system_dns_name_inj [of m k]) (use t x y in auto)
        then show ?thesis using x(6) y(6) by simp
      qed (use t in simp)
    qed (use t in simp)
  qed
  then show "distinct (map sn_Name (systemDNSSections site systems))" by (simp add: systemDNSSections_aliases)
  show "list_all wf_section (systemDNSSections site systems)"
    using system_alias_one assms(1) by (simp add: systemDNSSections_aliases list_all_concat_map)
  show "n \<in> set (map sn_Name (systemDNSSections site systems)) \<Longrightarrow> HasPrefix n ''boetticher_system_dns_''"
    using system_alias_one assms(1) by (fastforce simp: systemDNSSections_aliases list_all_iff)
qed

lemma media_sections:
  assumes "distinct (media_aliases c)" "set (media_aliases c) \<inter> {''qbittorrent'', ''jellyfin'', ''jellyseerr''} = {}"
  shows "family ([''boetticher_media_cname_''], map sn_Name (mediaDNSSections site c))"
    "list_all wf_section (mediaDNSSections site c)"
proof -
  let ?all = "media_aliases c @ [''qbittorrent'', ''jellyfin'', ''jellyseerr'']"
  have "distinct ?all" using assms by auto
  then have "distinct (map (\<lambda>a. ''boetticher_media_cname_'' @ a) ?all)" by (simp only: distinct_map) (simp add: inj_on_def)
  moreover have "map sn_Name (mediaDNSSections site c) = (if me_Enabled c then map (\<lambda>a. ''boetticher_media_cname_'' @ a) ?all else [])"
    by (simp add: mediaDNSSections_def mk_section_def)
  moreover have "HasPrefix (''boetticher_media_cname_'' @ a) ''boetticher_media_cname_''" for a by (rule HasPrefix_append)
  ultimately show "family ([''boetticher_media_cname_''], map sn_Name (mediaDNSSections site c))"
    by (auto simp: family_def list_all_iff simp del: append_Cons map_append)
  show "list_all wf_section (mediaDNSSections site c)"
    by (simp add: mediaDNSSections_def section_defs list_all_iff)
qed

lemma observability_sections:
  "family ([''boetticher_observability_record_''], map sn_Name (observability_dns m))"
  "list_all wf_section (observability_dns m)"
proof -
  have names: "map sn_Name (observabilityDNSSections d) =
      map (\<lambda>l. ''boetticher_observability_record_'' @ nativeRecordSuffix (l @ ''.'' @ d)) observability_labels" for d
    by (simp add: observabilityDNSSections_def mk_section_def Let_def)
  have suffix: "nativeRecordSuffix (l @ ''.'' @ d) = ''n'' @ l @ ''_d'' @ concat (map record_word d)"
    if "l \<in> set observability_labels" for l d
    using that by (auto simp: record_suffix_words observability_labels_def record_word_def is_lower_code is_digit_code)
  have "distinct (map (\<lambda>l. ''boetticher_observability_record_'' @ nativeRecordSuffix (l @ ''.'' @ d)) observability_labels)" for d
  proof (rule distinct_by_key [where key = "\<lambda>l. l"])
    show "distinct (map (\<lambda>l. l) observability_labels)" by (simp add: observability_labels_def)
    fix k l assume "k \<in> set observability_labels" "l \<in> set observability_labels"
      "''boetticher_observability_record_'' @ nativeRecordSuffix (k @ ''.'' @ d) = ''boetticher_observability_record_'' @ nativeRecordSuffix (l @ ''.'' @ d)"
    then have "''n'' @ k @ ''_d'' @ concat (map record_word d) = ''n'' @ l @ ''_d'' @ concat (map record_word d)"
      by (simp only: suffix same_append_eq)
    then show "k = l" by (simp only: same_append_eq append_same_eq)
  qed
  moreover have "HasPrefix (''boetticher_observability_record_'' @ a) ''boetticher_observability_record_''" for a by (rule HasPrefix_append)
  ultimately have "family ([''boetticher_observability_record_''], map sn_Name (observabilityDNSSections d))" for d
    unfolding names by (auto simp: family_def list_all_iff simp del: append_Cons)
  then show "family ([''boetticher_observability_record_''], map sn_Name (observability_dns m))"
    by (auto simp: observability_dns_def split: option.split)
  show "list_all wf_section (observability_dns m)"
    by (auto simp: observability_dns_def observabilityDNSSections_def section_defs Let_def list_all_iff split: option.split)
qed

section \<open>The DHCP package\<close>

text \<open>
  Two things that validation lets through would make two sections of one package share a name, and
  the one written last would win: a DNS block that is present but disabled is projected without having
  been checked, two resolvers may have the same address, and a media alias may be one of the fixed
  names.  A configuration without them is deployable.
\<close>

definition deployable :: "Modules \<Rightarrow> bool" where
  "deployable m \<longleftrightarrow>
     (case m_DNS m of None \<Rightarrow> True
      | Some d \<Rightarrow> Enabled (dns_Enabled d) \<and> distinct (map du_Address (dns_Upstreams d))) \<and>
     (case m_Media (Normalize m) of None \<Rightarrow> True
      | Some c \<Rightarrow> set (media_aliases c) \<inter> {''qbittorrent'', ''jellyfin'', ''jellyseerr''} = {})"

lemma valid_upstreams:
  assumes "validateDNS d site = Inr ()" "Enabled (dns_Enabled d)"
  shows "u \<in> set (dns_Upstreams d) \<Longrightarrow> canonical_ip4 (du_Address u) \<noteq> None \<and> du_TLSName u \<noteq> []"
    and "r \<in> set (dns_Records d) \<Longrightarrow> sr_Type r = ''A'' \<Longrightarrow> sr_Value r \<noteq> []" and "dns_Upstreams d \<noteq> []"
proof -
  from assms obtain seen where ups: "\<forall>u \<in> set (dns_Upstreams d). upstream_check u = Inr ()" and ne: "dns_Upstreams d \<noteq> []"
    and fold: "foldE (service_record_step site) (dns_Records d) [] = Inr seen"
    by (auto simp: validateDNS_def allE_Inr split: if_split_asm)
  show "dns_Upstreams d \<noteq> []" by fact
  show "u \<in> set (dns_Upstreams d) \<Longrightarrow> canonical_ip4 (du_Address u) \<noteq> None \<and> du_TLSName u \<noteq> []"
    using ups unfolding upstream_check_def checks_Inr by (auto simp: fails_def split: if_split_asm)
  have none: "canonical_ip4 [] = None" by code_simp
  have "\<forall>r \<in> set (dns_Records d). sr_Type r = ''A'' \<longrightarrow> sr_Value r \<noteq> []"
    by (rule foldE_each [OF fold, where I = "\<lambda>_. True"])
      (auto simp: service_record_step_def record_value_check_def none split: if_split_asm sum.split_asm option.split_asm)
  then show "r \<in> set (dns_Records d) \<Longrightarrow> sr_Type r = ''A'' \<Longrightarrow> sr_Value r \<noteq> []" by blast
qed

lemma foldE_alias_distinct: "foldE alias_step xs seen = Inr seen' \<Longrightarrow> distinct xs \<and> set xs \<inter> set seen = {}"
  by (induction xs arbitrary: seen) (fastforce simp: alias_step_def split: if_split_asm)+

lemma media_aliases_distinct: "media_check n c = Inr () \<Longrightarrow> distinct (media_aliases c)"
  using foldE_alias_distinct [of "media_aliases c" "[]"]
  by (auto simp: media_check_def split: option.split_asm if_split_asm)

lemma valid_domain:
  assumes "ValidateSite q site = Inr ()"
  shows "nw_Domain (s_Network site) \<noteq> []"
  by (rule ValidateSite_stages [OF assms]) (simp add: physical_checks_def checks_Inr fails_def Let_def split: if_split_asm)

lemma dhcp_sections:
  assumes "ValidateSite q site = Inr ()" "Validate p (Normalize m) site = Inr ()"
  obtains scopes hosts where
    "dnsmasqSections site (effective m) =
       [dnsmasq_section site (dns_enabled m) (dhcp_enabled m), home_dhcp_section] @ scopes @ hosts"
    "family ([''boetticher_dhcp_''], map sn_Name scopes)" "family ([''boetticher_host_''], map sn_Name hosts)"
    "list_all wf_section (scopes @ hosts)"
proof (cases "dhcp_enabled m")
  case False
  then show ?thesis using that [of "[]" "[]"] by (simp add: dnsmasqSections_def)
next
  case True
  have enabled: "dhcp_enabled (effective m) = dhcp_enabled m" "dns_enabled (effective m) = dns_enabled m" by simp_all
  with True obtain h where h: "m_DHCP (effective m) = Some h" "Enabled (dh_Enabled h)"
    by (auto simp: dhcp_enabled_def simp del: SystemsExpanded_simps enabled_expanded split: option.split_asm)
  have plan: "dhcp_plan h site" by (rule valid_plan [OF assms(2) h])
  define scopes where "scopes = concat (map (scope_section site h) (dh_Scopes h))"
  define hosts where "hosts = map host_section (dh_Reservations h)"
  have reservations: "list_all (reservation_ok (zoneMap site) (dh_Scopes h)) (dh_Reservations h)"
    "distinct (map reservation_key (dh_Reservations h))"
    using plan by (simp_all add: dhcp_plan_def)
  have names: "distinct (map sn_Name scopes)" "sn_Name ` set scopes \<subseteq> scope_name ` set (dh_Scopes h)"
    using scope_names_distinct [of "zoneMap site" "dh_Scopes h" site h] plan by (simp_all add: dhcp_plan_def scopes_def)
  have "HasPrefix n ''boetticher_dhcp_''" if "n \<in> set (map sn_Name scopes)" for n
    using that names(2) HasPrefix_append by (force simp: scope_name_def simp del: append_Cons)
  then have scopes: "family ([''boetticher_dhcp_''], map sn_Name scopes)"
    using names(1) by (simp add: family_def list_all_iff)
  have "HasPrefix (sn_Name (host_section r)) ''boetticher_host_''" for r
    by (simp add: host_name nativeHostSectionName_def del: append_Cons)
  then have hosts: "family ([''boetticher_host_''], map sn_Name hosts)"
    using host_sections(1) [OF reservations] by (auto simp: family_def list_all_iff hosts_def)
  have "list_all wf_section (scopes @ hosts)"
    using scope_section_wf [of h site] host_sections(2) [OF reservations] valid_zones(1) [OF assms(1)] plan
    by (auto simp: scopes_def hosts_def list_all_concat_map dhcp_plan_def)
  moreover have "dnsmasqSections site (effective m) =
      [dnsmasq_section site (dns_enabled m) (dhcp_enabled m), home_dhcp_section] @ scopes @ hosts"
    using True h(1) enabled
    by (simp add: dnsmasqSections_def scopes_def hosts_def del: SystemsExpanded_simps enabled_expanded)
  ultimately show ?thesis using that scopes hosts by blast
qed

lemma deployable_dns:
  assumes "Validate p (Normalize m) site = Inr ()" "deployable m" "m_DNS (effective m) = Some d"
  shows "validateDNS d site = Inr ()" "Enabled (dns_Enabled d)" "distinct (map du_Address (dns_Upstreams d))"
    "distinct (map (record_name site) (dns_Records d))"
proof -
  note checks = Validate_stages(2) [OF assms(1), unfolded Normalize_twice]
  show "validateDNS d site = Inr ()" by (rule expanded_stages(5) [OF checks assms(3)])
  from assms(3) obtain e where e: "m_DNS m = Some e" "d = normalize_dns e" by auto
  have "distinct (map du_Address DefaultDNSUpstreams)" by code_simp
  with assms(2) e show "Enabled (dns_Enabled d)" "distinct (map du_Address (dns_Upstreams d))"
    by (simp_all add: deployable_def normalize_dns_def)
  have "m_DNS (Normalize m) = Some d" using assms(3) by simp
  from shared_names_resolve(1) [OF valid_shared_names [OF assms(1) this]] show "distinct (map (record_name site) (dns_Records d))"
    by simp
qed

lemma record_families:
  assumes "dnsRecordSections site records = Inr sections" "distinct (map (record_name site) records)"
    and "\<And>r. r \<in> set records \<Longrightarrow> sr_Type r = ''A'' \<Longrightarrow> sr_Value r \<noteq> []"
  obtains bindings users where "sections = bindings @ users" "family (binding_prefixes, map sn_Name bindings)"
    "family (user_prefixes, map sn_Name users)" "list_all wf_section sections"
proof -
  from assms(1) obtain bindings gs where b: "bindingDNSSections site = Inr bindings" "sections = bindings @ concat gs"
    and g: "mapE (user_record_section site (owned_dns_names bindings) (owned_dns_addresses bindings)) records = Inr gs"
    by (auto simp: dnsRecordSections_def)
  note B = binding_sections_published [OF b(1)] and U = user_records_published [OF g assms(2,3)]
  have "family (binding_prefixes, map sn_Name bindings)"
    by (rule record_sections_family [OF B]) (auto simp: HasPrefix_def)
  moreover have "family (user_prefixes, map sn_Name (concat gs))"
    by (rule record_sections_family) (use U in \<open>auto simp: HasPrefix_def\<close>)
  moreover have "list_all wf_section sections"
    using B(1) U b(2) by (auto simp: list_all_iff record_section_def)
  ultimately show ?thesis using that b(2) by blast
qed

abbreviation "dhcp_families \<equiv> [[''boetticher_dnsmasq''], [''boetticher_home''], [''boetticher_dhcp_''], [''boetticher_host_''],
  binding_prefixes, user_prefixes, [''boetticher_system_dns_''], [''boetticher_media_cname_''], [''boetticher_observability_record_'']]"

lemma dhcp_families_apart: "sorted_wrt apart dhcp_families"
  by code_simp

lemma dns_families:
  assumes valid: "Validate p (Normalize m) site = Inr ()" and "deployable m"
    and "dns_service_sections site (effective m) = Inr (records, stubby)"
  obtains bindings users systems media where "records = bindings @ users @ systems @ media"
    "family (binding_prefixes, map sn_Name bindings)" "family (user_prefixes, map sn_Name users)"
    "family ([''boetticher_system_dns_''], map sn_Name systems)" "family ([''boetticher_media_cname_''], map sn_Name media)"
    "list_all wf_section records" "wf_desired stubby"
proof (cases "m_DNS (effective m)")
  case None
  then show ?thesis
    using assms(3) that [of "[]" "[]" "[]" "[]"] by (simp add: dns_service_sections_def wf_desired_def)
next
  case (Some d)
  note dns = deployable_dns [OF valid assms(2) Some] and checks = Validate_stages(2) [OF valid, unfolded Normalize_twice]
  note upstreams = valid_upstreams [OF dns(1,2)]
  define media where "media = (case m_Media (effective m) of None \<Rightarrow> [] | Some c \<Rightarrow> if me_Enabled c then mediaDNSSections site c else [])"
  from assms(3) Some upstreams(3) obtain generated where
    gen: "dnsRecordSections site (dns_Records d) = Inr generated"
    and records: "records = generated @ systemDNSSections site (m_Systems m) @ media" and stubby: "stubby = stubbySections (dns_Upstreams d)"
    unfolding dns_service_sections_def media_def by auto
  have m: "family ([''boetticher_media_cname_''], map sn_Name media) \<and> list_all wf_section media"
  proof (cases "m_Media (effective m)")
    case c: (Some c)
    then have "set (media_aliases c) \<inter> {''qbittorrent'', ''jellyfin'', ''jellyseerr''} = {}"
      using assms(2) by (simp add: deployable_def)
    then show ?thesis
      using media_sections [OF media_aliases_distinct [OF expanded_stages(3) [OF checks c]]] using c by (simp add: media_def)
  qed (simp add: media_def)
  have ok: "system_ok s" if "s \<in> set (m_Systems m)" for s
    using systems_ok [OF Validate_stages(1) [OF valid]] that by simp
  note systems = system_aliases [where site = site, OF ok valid_systems(3) [OF valid]]
  have "family ([''boetticher_system_dns_''], map sn_Name (systemDNSSections site (m_Systems m)))"
    using systems by (auto simp: family_def list_all_iff)
  moreover obtain bindings users where "generated = bindings @ users" "family (binding_prefixes, map sn_Name bindings)"
    "family (user_prefixes, map sn_Name users)" "list_all wf_section generated"
    using record_families [OF gen dns(4) upstreams(2)] by blast
  moreover have "wf_desired stubby" unfolding stubby by (rule stubby_package_wf [OF dns(3) upstreams(1)])
  ultimately show ?thesis using that m systems(2) records by simp
qed

lemma dhcp_package_wf:
  assumes site: "ValidateSite q site = Inr ()" and "deployable m" and "ServiceStateFromModules p site m = Inr services"
  shows "wf_desired (ss_DHCP services)" "wf_desired (ss_Stubby services)"
proof -
  from assms(3) have "wf_desired (ss_DHCP services) \<and> wf_desired (ss_Stubby services)"
  proof (cases rule: service_stages)
    case 1: (1 observability records)
    obtain scopes hosts where dhcp: "dnsmasqSections site (effective m) =
        [dnsmasq_section site (dns_enabled m) (dhcp_enabled m), home_dhcp_section] @ scopes @ hosts"
      "family ([''boetticher_dhcp_''], map sn_Name scopes)" "family ([''boetticher_host_''], map sn_Name hosts)"
      "list_all wf_section (scopes @ hosts)"
      by (rule dhcp_sections [OF site 1(1)])
    obtain bindings users systems media where dns: "records = bindings @ users @ systems @ media"
      "family (binding_prefixes, map sn_Name bindings)" "family (user_prefixes, map sn_Name users)"
      "family ([''boetticher_system_dns_''], map sn_Name systems)" "family ([''boetticher_media_cname_''], map sn_Name media)"
      "list_all wf_section records" "wf_desired (ss_Stubby services)"
      by (rule dns_families [OF 1(1) assms(2) 1(2)])
    let ?names = "[[''boetticher_dnsmasq''], [''boetticher_home'']] @ map (map sn_Name)
      [scopes, hosts, bindings, users, systems, media, observability_dns (effective m)]"
    have "distinct (concat (map snd (zip dhcp_families ?names)))"
    proof (rule families_distinct)
      show "list_all family (zip dhcp_families ?names)"
        using dhcp(2,3) dns(2-5) observability_sections(1) by simp
      show "sorted_wrt apart (map fst (zip dhcp_families ?names))" using dhcp_families_apart by simp
    qed
    moreover have "map sn_Name (ss_DHCP services) = concat (map snd (zip dhcp_families ?names))"
      using 1(4) dhcp(1) dns(1) by (simp add: dnsmasq_section_def home_dhcp_section_def mk_section_def Let_def)
    moreover have "list_all wf_section (ss_DHCP services)"
      using 1(4) dhcp(1,4) dns(1,6) observability_sections(2) dnsmasq_section_wf [OF valid_domain [OF site]] home_dhcp_wf by simp
    ultimately show ?thesis using dns(7) by (simp add: wf_desired_def)
  qed
  then show "wf_desired (ss_DHCP services)" "wf_desired (ss_Stubby services)" by simp_all
qed

section \<open>The composition\<close>

lemma early_exit_Inr: "(if b then Inl e else r) = Inr y \<longleftrightarrow> \<not> b \<and> r = Inr y"
  by simp

lemma required_Inr: "(case x of None \<Rightarrow> Inl e | Some v \<Rightarrow> f v) = Inr y \<longleftrightarrow> (\<exists>v. x = Some v \<and> f v = Inr y)"
  by (cases x) simp_all

lemma netmask_nonempty:
  assumes "management_check management network gateway controller = Inr netmask"
  shows "netmask \<noteq> []" "management \<noteq> []" "gateway \<noteq> []" "controller \<noteq> []"
proof -
  have none: "canonical_addr4 [] = None" "ParseAddr [] = None" by code_simp+
  have mask: "ip4_string (CIDRMask n 4) \<noteq> []" for n
  proof -
    have "length (CIDRMask n 4) = 4" by (simp add: CIDRMask_def)
    then obtain a b c d where "CIDRMask n 4 = [a, b, c, d]" by (rule length4_cases)
    then show ?thesis by (simp add: ip4_string_def joinWith_def)
  qed
  obtain prefix a g c where "prefixNetmask prefix = Inr netmask" "canonical_addr4 management = Some a"
    "ParseAddr gateway = Some g" "ParseAddr controller = Some c"
    using assms unfolding management_check_def early_exit_Inr required_Inr bindE_Inr sum.inject
    by (metis (no_types, lifting) option.case_eq_if option.collapse)
  with none mask show "netmask \<noteq> []" "management \<noteq> []" "gateway \<noteq> []" "controller \<noteq> []"
    by (auto simp: prefixNetmask_def split: if_split_asm)
qed

lemma composed_packages_wf:
  assumes site: "ValidateSite q site = Inr ()" and "deployable m" and c: "ComposeAppliance p site m policy = Inr c"
  shows "wf_composition (composition_packages c)"
  using c
proof (cases rule: ComposeAppliance_stages)
  case 1: (1 desired services clients tuples sections)
  from 1(1) show ?thesis
  proof (cases rule: Desired_stages)
    case 2: (1 netmask byType rest zones policySections services')
    have zones: "zones = reference_zones" by (rule zones_are_reference [OF site 2(2,3)])
    note given = netmask_nonempty [OF 2(1)]
    have "services' = services" using 1(2) 2(5) by simp
    then have "wf_desired (ds_Firewall desired @ sections)"
      using firewall_package_wf [OF site 2(4) [unfolded zones] 1(2) 1(6) given(4)] by (simp add: 2(9) zones)
    moreover have "wf_desired (ds_Network desired)"
      using network_package_wf [OF given(2,1,3)] by (simp add: 2(8) zones)
    moreover have "wf_desired (ss_System services)"
      using 1(2) by (cases rule: service_stages) (simp add: ntp_package_wf split: prod.split)
    ultimately show ?thesis
      using dhcp_package_wf [OF site assms(2) 1(2)] 1(7-10)
      by (simp add: wf_composition_def packages_def composition_packages_def)
  qed
qed

text \<open>C3: For a valid site and a deployable service configuration the composed appliance is ready for
  reconciliation: within each of its five packages no two sections have the same name and no section writes
  an empty value or one key twice.  Hence a reconciliation through the client that returns without error
  leaves the device with exactly the composed sections, no stale managed section, and everything else as it
  was.\<close>

theorem composed_appliance_deploys:
  assumes "ValidateSite q site = Inr ()" and "deployable m" and "ComposeAppliance p site m policy = Inr c"
  shows "wf_composition (composition_packages c) \<and>
    (\<forall>post verify view callbacks w n w'. ubus_device post verify view \<longrightarrow>
       ReconcileAppliance (Some (client_provider post verify)) (composition_packages c) callbacks w = (Inr n, w') \<longrightarrow>
       appliance_reconciled (composition_packages c) (view (fst w)) (view (fst w')))"
proof (intro conjI allI impI)
  show wf: "wf_composition (composition_packages c)" using assms by (rule composed_packages_wf)
  fix post verify view callbacks n and w w' :: "'a online"
  assume "ubus_device post verify view"
    and run: "ReconcileAppliance (Some (client_provider post verify)) (composition_packages c) callbacks w = (Inr n, w')"
  then show "appliance_reconciled (composition_packages c) (view (fst w)) (view (fst w'))"
    by (intro hoareW_success [OF ubus_device.appliance_through_client refl run] wf)
qed

theorem composed_appliance_deploys_witness:
  "\<exists>c. ComposeAppliance (\<lambda>_. None) demo_site demo_services None = Inr c \<and> wf_composition (composition_packages c)"
proof -
  have "deployable demo_services" by code_simp
  moreover obtain c where "ComposeAppliance (\<lambda>_. None) demo_site demo_services None = Inr c"
    using demo_composes by blast
  ultimately show ?thesis using composed_appliance_deploys [OF demo_site_valid] by blast
qed

end
