(* ===== verification/Bifrost_Router.thy ===== *)
theory Bifrost_Router
  imports Bifrost_Config Json
begin

unbundle bit_operations_syntax

text \<open>
  The Bifrost router, \<^verbatim>\<open>internal/bifrost/router.go\<close>: it reads its credentials once, answers the
  local clients, and forwards chat requests to the upstream that serves the requested alias.

  The credential files, \<open>url.Parse\<close> and the upstream providers behind the HTTPS client are
  parameters.  A body is what the JSON decoder makes of it: its length, the values it holds one after
  the other, and whether it ends there without a syntax error.  The headers of a request are an
  association list from canonical names to values.  Marshalling a decoded message or a string cannot
  fail, so the two branches for it do not appear.
\<close>

abbreviation "MaxRequestBytes \<equiv> (2 * 1024 * 1024 :: nat)"
abbreviation "MaxResponseBytes \<equiv> (4 * 1024 * 1024 :: nat)"
abbreviation "MaxCredentialBytes \<equiv> (4096 :: nat)"

section \<open>Credentials and routes\<close>

record route =
  ro_alias :: string
  ro_providerModel :: string
  ro_chatEndpoint :: string
  ro_modelsEndpoint :: string
  ro_apiKey :: string

record Router =
  rt_models :: "(string \<times> route) list"
  rt_clientToken :: string

text \<open>What \<open>os.Lstat\<close> and \<open>os.ReadFile\<close> report of a path.\<close>

record credential_file =
  cf_Regular :: bool
  cf_Perm :: "32 word"
  cf_Data :: "string option"

type_synonym credential_files = "string \<Rightarrow> credential_file option"

definition readCredential :: "credential_files \<Rightarrow> string \<Rightarrow> gerror + string" where
  "readCredential files path =
     (case files path of
        None \<Rightarrow> Inl (Errorf ''credential is unavailable'' [])
      | Some info \<Rightarrow>
        if \<not> cf_Regular info \<or> cf_Perm info AND 0x92 \<noteq> 0 then
          Inl (Errorf ''credential file is not a protected regular file'' [])
        else case cf_Data info of
          None \<Rightarrow> Inl (Errorf ''credential is unavailable'' [])
        | Some data \<Rightarrow>
          if data = [] \<or> length data > MaxCredentialBytes then Inl (Errorf ''credential is unavailable'' [])
          else let value = TrimSpace data in
            if value = [] \<or> ContainsAny value [CHR 0x0D, CHR 0x0A, CHR 0x09, CHR '' ''] then
              Inl (Errorf ''credential has invalid format'' [])
            else Inr value)"

text \<open>\<open>filepath.Join\<close> below an absolute directory, with the cleaning of \<open>filepath.Clean\<close>.\<close>

definition clean_step :: "string \<Rightarrow> string list \<Rightarrow> string list" where
  "clean_step part out = (if part = [] \<or> part = ''.'' then out else if part = ''..'' then drop 1 out else part # out)"

definition JoinPath :: "string \<Rightarrow> string \<Rightarrow> string" where
  "JoinPath dir name = CHR ''/'' # joinWith ''/'' (rev (fold clean_step (SplitChar CHR ''/'' (dir @ ''/'' @ name)) []))"

definition TrimRightChar :: "char \<Rightarrow> string \<Rightarrow> string" where
  "TrimRightChar c s = rev (dropWhile (\<lambda>x. x = c) (rev s))"

definition load_key :: "credential_files \<Rightarrow> string \<Rightarrow> BifrostUpstream \<Rightarrow> gerror + string \<times> string" where
  "load_key files dir u =
     (case readCredential files (JoinPath dir (bfu_Credential u)) of
        Inl e \<Rightarrow> Inl (Wrapf ''load Bifrost credential for upstream %s: %w'' [bfu_Name u] e)
      | Inr key \<Rightarrow> Inr (bfu_Name u, key))"

definition client_token :: "credential_files \<Rightarrow> string \<Rightarrow> BifrostConfig \<Rightarrow> gerror + string" where
  "client_token files dir c =
     (if bfc_ClientCredential c = [] then Inr []
      else if \<not> safeCredentialName (bfc_ClientCredential c) then Inl (Errorf ''Bifrost client credential name is invalid'' [])
      else case readCredential files (JoinPath dir (bfc_ClientCredential c)) of
        Inl e \<Rightarrow> Inl (Wrapf ''load Bifrost client credential: %w'' [] e)
      | Inr token \<Rightarrow> Inr token)"

definition base_url :: "BifrostUpstream list \<Rightarrow> string \<Rightarrow> string" where
  "base_url upstreams name =
     (case map_of (rev (map (\<lambda>u. (bfu_Name u, bfu_BaseURL u)) upstreams)) name of
        None \<Rightarrow> [] | Some url \<Rightarrow> TrimRightChar CHR ''/'' url)"

definition model_route :: "BifrostUpstream list \<Rightarrow> (string \<times> string) list \<Rightarrow> BifrostModel \<Rightarrow> route" where
  "model_route upstreams keys m =
     (let base = base_url upstreams (bfm_Upstream m) in
      \<lparr>ro_alias = bfm_Alias m, ro_providerModel = bfm_Model m, ro_chatEndpoint = base @ ''/chat/completions'',
       ro_modelsEndpoint = base @ ''/models'',
       ro_apiKey = (case map_of (rev keys) (bfm_Upstream m) of None \<Rightarrow> [] | Some key \<Rightarrow> key)\<rparr>)"

definition NewRouter :: "url_parser \<Rightarrow> credential_files \<Rightarrow> BifrostConfig \<Rightarrow> string \<Rightarrow> gerror + Router" where
  "NewRouter urlParse files config credentialDir =
     bindE (BifrostValidate urlParse config) (\<lambda>_.
     if credentialDir = [] \<or> \<not> HasPrefix credentialDir ''/'' then
       Inl (Errorf ''Bifrost requires an absolute systemd credential directory'' [])
     else bindE (mapE (load_key files credentialDir) (bfc_Upstreams config)) (\<lambda>keys.
       bindE (client_token files credentialDir config) (\<lambda>token. Inr
         \<lparr>rt_models = fold (\<lambda>m. assoc_set (bfm_Alias m) (model_route (bfc_Upstreams config) keys m)) (bfc_Models config) [],
          rt_clientToken = token\<rparr>)))"

section \<open>Messages\<close>

datatype body = Unreadable | Bytes nat "json list" bool

record HttpRequest =
  rq_Method :: string
  rq_Path :: string
  rq_RawQuery :: string
  rq_Fragment :: string
  rq_Header :: "(string \<times> string) list"
  rq_ContentLength :: int
  rq_Body :: body

datatype content = Document json | Relayed body

record HttpResponse =
  rs_Status :: int
  rs_ContentType :: string
  rs_Content :: content

record UpstreamRequest =
  ur_Method :: string
  ur_URL :: string
  ur_Header :: "(string \<times> string) list"
  ur_Body :: "json option"

text \<open>The reply of an upstream: none, or status, content type and body.\<close>

datatype upstream_reply = NoReply | Reply int string body

type_synonym 'w upstreams = "UpstreamRequest \<Rightarrow> 'w \<Rightarrow> upstream_reply \<times> 'w"

definition header :: "(string \<times> string) list \<Rightarrow> string \<Rightarrow> string" where
  "header hs name = (case map_of hs name of None \<Rightarrow> [] | Some v \<Rightarrow> v)"

definition writeJSON :: "int \<Rightarrow> json \<Rightarrow> HttpResponse" where
  "writeJSON status value = \<lparr>rs_Status = status, rs_ContentType = ''application/json'', rs_Content = Document value\<rparr>"

definition writeError :: "int \<Rightarrow> string \<Rightarrow> HttpResponse" where
  "writeError status message =
     writeJSON status (marshal_map [(''error'',
       marshal_map [(''message'', JStr message), (''type'', JStr ''bifrost_error''), (''code'', JNum status)])])"

section \<open>Listing the models\<close>

text \<open>The exchange sort of the handler: position \<open>i\<close> is compared with every later one.\<close>

definition exchange :: "nat \<Rightarrow> nat \<Rightarrow> 'a::linorder list \<Rightarrow> 'a list" where
  "exchange i j xs = (if xs ! j < xs ! i then xs[i := xs ! j, j := xs ! i] else xs)"

definition exchange_row :: "nat \<Rightarrow> 'a::linorder list \<Rightarrow> 'a list" where
  "exchange_row i xs = fold (exchange i) [i + 1..<length xs] xs"

definition exchange_sort :: "'a::linorder list \<Rightarrow> 'a list" where
  "exchange_sort xs = fold exchange_row [0..<length xs] xs"

definition modelSummary :: "string \<Rightarrow> json" where
  "modelSummary alias' = JObj [(''id'', JStr alias'), (''object'', JStr ''model''), (''owned_by'', JStr ''bifrost'')]"

definition handleModels :: "Router \<Rightarrow> HttpResponse" where
  "handleModels r =
     writeJSON 200 (JObj [(''object'', JStr ''list''),
       (''data'', JArr (map modelSummary (exchange_sort (map fst (rt_models r)))))])"

section \<open>Model capabilities\<close>

record ModelCapabilities =
  mc_Mode :: string
  mc_SupportsFunctionCalling :: bool
  mc_SupportsResponseSchema :: bool
  mc_MaxInputTokens :: int
  mc_MaxOutputTokens :: int

record catalog_item =
  ci_ID :: string
  ci_ContextLength :: int
  ci_MaxCompletionTokens :: int
  ci_SupportedParameters :: "string list"

text \<open>Decoding into the catalogue struct fails when any declared field has a value of the wrong kind.\<close>

definition decode_architecture :: "json \<Rightarrow> unit option" where
  "decode_architecture j =
     (if is_struct j \<and> decode_field (decode_list decode_string) ''input_modalities'' j \<noteq> None \<and>
         decode_field (decode_list decode_string) ''output_modalities'' j \<noteq> None
      then Some () else None)"

definition decode_top_provider :: "json \<Rightarrow> int option" where
  "decode_top_provider j = (if is_struct j then decode_field decode_int ''max_completion_tokens'' j else None)"

definition decode_item :: "json \<Rightarrow> catalog_item option" where
  "decode_item j =
     (if \<not> is_struct j then None
      else case (decode_field decode_string ''id'' j, decode_field decode_int ''context_length'' j,
          decode_field decode_architecture ''architecture'' j, decode_field decode_top_provider ''top_provider'' j,
          decode_field (decode_list decode_string) ''supported_parameters'' j) of
        (Some ident, Some len, Some (), Some tokens, Some parameters) \<Rightarrow>
          Some \<lparr>ci_ID = ident, ci_ContextLength = len, ci_MaxCompletionTokens = tokens, ci_SupportedParameters = parameters\<rparr>
      | _ \<Rightarrow> None)"

definition decode_catalog :: "json list \<Rightarrow> bool \<Rightarrow> catalog_item list option" where
  "decode_catalog values clean =
     (case values of
        [j] \<Rightarrow> if clean \<and> is_struct j then decode_field (decode_list decode_item) ''data'' j else None
      | _ \<Rightarrow> None)"

definition item_capabilities :: "catalog_item \<Rightarrow> gerror + ModelCapabilities" where
  "item_capabilities item =
     (let parameters = ci_SupportedParameters item;
          capabilities = \<lparr>mc_Mode = ''chat'',
            mc_SupportsFunctionCalling = (''tools'' \<in> set parameters \<and> ''tool_choice'' \<in> set parameters),
            mc_SupportsResponseSchema = (''response_format'' \<in> set parameters \<or> ''structured_outputs'' \<in> set parameters),
            mc_MaxInputTokens = ci_ContextLength item, mc_MaxOutputTokens = ci_MaxCompletionTokens item\<rparr>
      in if mc_MaxInputTokens capabilities < 1 \<or> mc_MaxOutputTokens capabilities < 1 then
           Inl (Errorf ''OpenRouter model capabilities are incomplete'' [])
         else Inr capabilities)"

definition catalog_capabilities :: "string \<Rightarrow> upstream_reply \<Rightarrow> gerror + ModelCapabilities" where
  "catalog_capabilities providerModel reply =
     (case reply of
        NoReply \<Rightarrow> Inl (Errorf ''OpenRouter models request failed'' [])
      | Reply _ _ Unreadable \<Rightarrow> Inl (Errorf ''OpenRouter models response is unavailable'' [])
      | Reply status _ (Bytes len values clean) \<Rightarrow>
          if len > MaxResponseBytes \<or> status < 200 \<or> status \<ge> 300 then
            Inl (Errorf ''OpenRouter models response is unavailable'' [])
          else case decode_catalog values clean of
            None \<Rightarrow> Inl (Errorf ''OpenRouter models response is invalid'' [])
          | Some items \<Rightarrow>
              (case find (\<lambda>item. ci_ID item = providerModel) items of
                 None \<Rightarrow> Inl (Errorf ''provider model is absent from OpenRouter catalog'' [])
               | Some item \<Rightarrow> item_capabilities item))"

definition bearer :: "string \<Rightarrow> string" where
  "bearer key = ''Bearer '' @ key"

definition models_request :: "route \<Rightarrow> UpstreamRequest" where
  "models_request ro = \<lparr>ur_Method = ''GET'', ur_URL = ro_modelsEndpoint ro,
     ur_Header = [(''Accept'', ''application/json''), (''Authorization'', bearer (ro_apiKey ro))], ur_Body = None\<rparr>"

definition capabilities_of ::
  "url_parser \<Rightarrow> 'w upstreams \<Rightarrow> Router \<Rightarrow> string \<Rightarrow> 'w \<Rightarrow> (gerror + ModelCapabilities) \<times> 'w" where
  "capabilities_of urlParse send r alias' w =
     (case map_of (rt_models r) alias' of
        None \<Rightarrow> (Inl (Errorf ''model alias is not declared'' []), w)
      | Some ro \<Rightarrow>
        if urlParse (ro_modelsEndpoint ro) = None then
          (Inl (Errorf ''OpenRouter models request could not be created'' []), w)
        else case send (models_request ro) w of
          (reply, w') \<Rightarrow> (catalog_capabilities (ro_providerModel ro) reply, w'))"

definition capabilities_json :: "ModelCapabilities \<Rightarrow> json" where
  "capabilities_json c = JObj [(''mode'', JStr (mc_Mode c)),
     (''supports_function_calling'', JBool (mc_SupportsFunctionCalling c)),
     (''supports_response_schema'', JBool (mc_SupportsResponseSchema c)),
     (''max_input_tokens'', JNum (mc_MaxInputTokens c)), (''max_output_tokens'', JNum (mc_MaxOutputTokens c))]"

definition handleCapabilities ::
  "url_parser \<Rightarrow> 'w upstreams \<Rightarrow> Router \<Rightarrow> string \<Rightarrow> 'w \<Rightarrow> HttpResponse \<times> 'w" where
  "handleCapabilities urlParse send r alias' w =
     (if \<not> safeToken alias' then (writeError 400 ''model alias is invalid'', w)
      else case capabilities_of urlParse send r alias' w of
        (Inl _, w') \<Rightarrow> (writeError 502 ''model capabilities are unavailable'', w')
      | (Inr c, w') \<Rightarrow> (writeJSON 200 (capabilities_json c), w'))"

section \<open>Chat\<close>

definition rewriteCompletionModel :: "body \<Rightarrow> string \<Rightarrow> content" where
  "rewriteCompletionModel data alias' =
     (case data of
        Bytes _ [JObj completion] True \<Rightarrow> Document (marshal_map (assoc_set ''model'' (JStr alias') completion))
      | _ \<Rightarrow> Relayed data)"

text \<open>Reading the client's request: the payload and the alias it names.\<close>

definition read_payload :: "HttpRequest \<Rightarrow> HttpResponse + (string \<times> json) list" where
  "read_payload request =
     (if rq_ContentLength request > int MaxRequestBytes then
        Inl (writeError 413 ''request exceeds the Bifrost request bound'')
      else case rq_Body request of
        Unreadable \<Rightarrow> Inl (writeError 413 ''request exceeds the Bifrost request bound'')
      | Bytes len values clean \<Rightarrow>
        if len > MaxRequestBytes then Inl (writeError 413 ''request exceeds the Bifrost request bound'')
        else case values of
          JObj payload # rest \<Rightarrow>
            if rest \<noteq> [] \<or> \<not> clean then Inl (writeError 400 ''request contains trailing data'') else Inr payload
        | _ \<Rightarrow> Inl (writeError 400 ''request must be a JSON object''))"

definition requested_alias :: "(string \<times> json) list \<Rightarrow> string option" where
  "requested_alias payload =
     (case map_of payload ''model'' of
        None \<Rightarrow> None
      | Some raw \<Rightarrow> (case decode_string raw of
          None \<Rightarrow> None | Some alias' \<Rightarrow> if safeToken alias' then Some alias' else None))"

definition passed_header :: "HttpRequest \<Rightarrow> string \<Rightarrow> (string \<times> string) list" where
  "passed_header request name =
     (let value = header (rq_Header request) name in
      if value \<noteq> [] \<and> length value \<le> 512 \<and> \<not> ContainsAny value [CHR 0x0D, CHR 0x0A] then [(name, value)] else [])"

definition chat_request :: "HttpRequest \<Rightarrow> route \<Rightarrow> (string \<times> json) list \<Rightarrow> UpstreamRequest" where
  "chat_request request ro payload =
     \<lparr>ur_Method = ''POST'', ur_URL = ro_chatEndpoint ro,
      ur_Header = [(''Content-Type'', ''application/json''), (''Accept'', ''application/json''),
        (''Authorization'', bearer (ro_apiKey ro))] @ passed_header request ''HTTP-Referer'' @ passed_header request ''X-Title'',
      ur_Body = Some (marshal_map (assoc_set ''model'' (JStr (ro_providerModel ro)) payload))\<rparr>"

definition streaming :: "(string \<times> json) list \<Rightarrow> bool" where
  "streaming payload \<longleftrightarrow> map_of payload ''stream'' = Some (JBool True)"

definition relay_reply :: "string \<Rightarrow> (string \<times> json) list \<Rightarrow> upstream_reply \<Rightarrow> HttpResponse" where
  "relay_reply alias' payload reply =
     (case reply of
        NoReply \<Rightarrow> writeError 502 ''upstream AI provider is unavailable''
      | Reply _ _ Unreadable \<Rightarrow> writeError 502 ''upstream response exceeded the Bifrost response bound''
      | Reply status contentType (Bytes len values clean) \<Rightarrow>
          if len > MaxResponseBytes then writeError 502 ''upstream response exceeded the Bifrost response bound''
          else if status < 200 \<or> status \<ge> 300 then
            writeError 502 (''upstream AI provider returned HTTP '' @ itoa status)
          else \<lparr>rs_Status = status,
            rs_ContentType = (if contentType \<noteq> [] \<and> \<not> ContainsAny contentType [CHR 0x0D, CHR 0x0A]
              then contentType else ''application/json''),
            rs_Content = (if streaming payload then Relayed (Bytes len values clean)
              else rewriteCompletionModel (Bytes len values clean) alias')\<rparr>)"

definition handleChat :: "url_parser \<Rightarrow> 'w upstreams \<Rightarrow> Router \<Rightarrow> HttpRequest \<Rightarrow> 'w \<Rightarrow> HttpResponse \<times> 'w" where
  "handleChat urlParse send r request w =
     (case read_payload request of
        Inl answer \<Rightarrow> (answer, w)
      | Inr payload \<Rightarrow>
        (case requested_alias payload of
           None \<Rightarrow> (writeError 400 ''request model must be a declared alias'', w)
         | Some alias' \<Rightarrow>
           (case map_of (rt_models r) alias' of
              None \<Rightarrow> (writeError 404 ''model alias is not declared'', w)
            | Some ro \<Rightarrow>
              if urlParse (ro_chatEndpoint ro) = None then
                (writeError 502 ''upstream request could not be created'', w)
              else case send (chat_request request ro payload) w of
                (reply, w') \<Rightarrow> (relay_reply alias' payload reply, w'))))"

section \<open>Dispatch\<close>

definition authorized :: "Router \<Rightarrow> HttpRequest \<Rightarrow> bool" where
  "authorized r request \<longleftrightarrow>
     rt_clientToken r = [] \<or> header (rq_Header request) ''Authorization'' = bearer (rt_clientToken r)"

abbreviation "unauthorized \<equiv> writeError 401 ''Bifrost client authorization is required''"

definition ServeHTTP :: "url_parser \<Rightarrow> 'w upstreams \<Rightarrow> Router \<Rightarrow> HttpRequest \<Rightarrow> 'w \<Rightarrow> HttpResponse \<times> 'w" where
  "ServeHTTP urlParse send r request w =
     (let path = rq_Path request; meth = rq_Method request in
      if rq_RawQuery request \<noteq> [] \<or> rq_Fragment request \<noteq> [] then
        (writeError 400 ''query parameters are not supported'', w)
      else if path = ''/health'' \<and> meth = ''GET'' then
        (\<lparr>rs_Status = 200, rs_ContentType = ''application/json'', rs_Content = Document (JObj [(''status'', JStr ''ok'')])\<rparr>, w)
      else if path = ''/v1/models'' \<and> meth = ''GET'' then
        (if \<not> authorized r request then (unauthorized, w) else (handleModels r, w))
      else if HasPrefix path ''/internal/model-capabilities/'' \<and> meth = ''GET'' then
        (if \<not> authorized r request then (unauthorized, w)
         else handleCapabilities urlParse send r (TrimPrefix path ''/internal/model-capabilities/'') w)
      else if path = ''/v1/chat/completions'' \<and> meth = ''POST'' then
        (if \<not> authorized r request then (unauthorized, w) else handleChat urlParse send r request w)
      else (writeError 404 ''route is not supported'', w))"

end
