(* ===== verification/Router_Correct.thy ===== *)
theory Router_Correct
  imports Bifrost_Router "HOL-Library.Multiset"
begin

text \<open>
  What the Bifrost router guarantees: without the client token nothing reaches an upstream, each
  upstream sees only its own key and its own model names, the listing of models is the sorted list of
  aliases, and a completion is relayed unchanged but for the model name.
\<close>

section \<open>The exchange sort\<close>

lemma exchange_props:
  assumes "i < length xs" "j < length xs"
  shows "mset (exchange i j xs) = mset xs" "length (exchange i j xs) = length xs"
  using assms mset_swap [of j xs i] by (simp_all add: exchange_def)

lemma exchange_row_upto:
  assumes "i < k" "k \<le> length xs"
  shows "mset (fold (exchange i) [i + 1..<k] xs) = mset xs \<and> length (fold (exchange i) [i + 1..<k] xs) = length xs \<and>
    take i (fold (exchange i) [i + 1..<k] xs) = take i xs \<and>
    (\<forall>j. i \<le> j \<longrightarrow> j < k \<longrightarrow> fold (exchange i) [i + 1..<k] xs ! i \<le> fold (exchange i) [i + 1..<k] xs ! j)"
  using assms
proof (induction k)
  case (Suc k)
  show ?case
  proof (cases "i = k")
    case False
    define ys where "ys = fold (exchange i) [i + 1..<k] xs"
    have IH: "mset ys = mset xs" "length ys = length xs" "take i ys = take i xs"
      "\<And>j. i \<le> j \<Longrightarrow> j < k \<Longrightarrow> ys ! i \<le> ys ! j"
      using Suc False by (simp_all add: ys_def)
    have step: "fold (exchange i) [i + 1..<Suc k] xs = exchange i k ys" using Suc False by (simp add: ys_def)
    have "i < length ys" "k < length ys" using Suc IH(2) by simp_all
    note props = exchange_props [OF this]
    have "exchange i k ys ! i \<le> exchange i k ys ! j" if "i \<le> j" "j < Suc k" for j
      using IH(2) IH(4) [of j] IH(4) [of i] that False Suc.prems
      by (auto simp: exchange_def nth_list_update less_Suc_eq le_less)
    moreover have "take i (exchange i k ys) = take i ys" using False Suc.prems by (simp add: exchange_def)
    ultimately show ?thesis unfolding step using props IH by simp
  qed (auto simp: less_Suc_eq)
qed simp

definition settled :: "'a::linorder list \<Rightarrow> nat \<Rightarrow> 'a list \<Rightarrow> bool" where
  "settled xs i ys \<longleftrightarrow> mset ys = mset xs \<and> sorted (take i ys) \<and> (\<forall>a \<in> set (take i ys). \<forall>b \<in> set (drop i ys). a \<le> b)"

lemma settled_row:
  assumes "settled xs i ys" "i < length ys"
  shows "settled xs (Suc i) (exchange_row i ys)"
proof -
  define zs where "zs = exchange_row i ys"
  have zs: "mset zs = mset ys" "length zs = length ys" "take i zs = take i ys" "\<And>j. i \<le> j \<Longrightarrow> j < length ys \<Longrightarrow> zs ! i \<le> zs ! j"
    using exchange_row_upto [of i "length ys" ys] assms(2) by (simp_all add: zs_def exchange_row_def)
  have "mset (take i zs) + mset (drop i zs) = mset (take i ys) + mset (drop i ys)"
    using zs(1) by (metis append_take_drop_id mset_append)
  then have rest: "set (drop i zs) = set (drop i ys)" using zs(3) by (metis add_left_cancel set_mset_mset)
  have least: "zs ! i \<le> b" if "b \<in> set (drop i zs)" for b
    using that zs(2,4) by (auto simp: in_set_conv_nth)
  have here: "zs ! i \<in> set (drop i zs)" using assms(2) zs(2) by (metis Cons_nth_drop_Suc list.set_intros(1))
  have "take (Suc i) zs = take i ys @ [zs ! i]" using assms(2) zs(2,3) by (simp add: take_Suc_conv_app_nth)
  moreover have "set (drop (Suc i) zs) \<subseteq> set (drop i zs)" by (metis drop_Suc_Cons set_drop_subset_set_drop lessI less_imp_le)
  ultimately show ?thesis
    using assms(1) zs(1) rest least here unfolding settled_def zs_def [symmetric] by (auto simp: sorted_append)
qed

lemma exchange_sort_upto:
  "k \<le> length xs \<Longrightarrow> settled xs k (fold exchange_row [0..<k] xs) \<and> length (fold exchange_row [0..<k] xs) = length xs"
proof (induction k)
  case (Suc k)
  then have "settled xs k (fold exchange_row [0..<k] xs)" "k < length (fold exchange_row [0..<k] xs)" by simp_all
  from settled_row [OF this] have "settled xs (Suc k) (fold exchange_row [0..<Suc k] xs)" by simp
  moreover from this have "mset (fold exchange_row [0..<Suc k] xs) = mset xs" by (simp add: settled_def)
  ultimately show ?case using mset_eq_length by blast
qed (simp add: settled_def)

lemma exchange_sort_is_sort: "exchange_sort xs = sort xs"
proof -
  have "settled xs (length xs) (exchange_sort xs)" "length (exchange_sort xs) = length xs"
    using exchange_sort_upto [of "length xs" xs] by (simp_all add: exchange_sort_def)
  then have "mset (exchange_sort xs) = mset xs" "sorted (exchange_sort xs)" by (simp_all add: settled_def)
  then show ?thesis by (metis properties_for_sort)
qed

section \<open>Routes\<close>

lemma map_of_filter: "map_of xs k = (case filter (\<lambda>y. fst y = k) xs of [] \<Rightarrow> None | y # _ \<Rightarrow> Some (snd y))"
  by (induction xs) auto

lemma map_of_sort_key: "map_of (sort_key fst kvs) = map_of kvs"
  by (rule ext) (simp add: map_of_filter sort_key_stable)

lemma fold_assoc_set_in:
  assumes "map_of (fold (\<lambda>m. assoc_set (f m) (g m)) ms acc) a = Some x"
  shows "map_of acc a = Some x \<or> (\<exists>m \<in> set ms. f m = a \<and> x = g m)"
  using assms by (induction ms arbitrary: acc) (fastforce split: if_split_asm)+

lemma fold_assoc_set_keys:
  "set (map fst (fold (\<lambda>m. assoc_set (f m) (g m)) ms acc)) = f ` set ms \<union> set (map fst acc)"
  by (induction ms arbitrary: acc) (auto simp: keys_assoc_set simp del: set_map)

lemma fold_assoc_set_distinct:
  "distinct (map fst acc) \<Longrightarrow> distinct (map fst (fold (\<lambda>m. assoc_set (f m) (g m)) ms acc))"
  by (induction ms arbitrary: acc) (auto simp: distinct_assoc_set)

lemma mapE_each: "mapE f xs = Inr ys \<Longrightarrow> x \<in> set xs \<Longrightarrow> \<exists>y \<in> set ys. f x = Inr y"
  by (induction xs arbitrary: ys) (auto split: sum.split_asm)

text \<open>A route of the configuration: the upstream a model names, with that upstream's own key.\<close>

definition configured_route :: "credential_files \<Rightarrow> BifrostConfig \<Rightarrow> string \<Rightarrow> BifrostModel \<Rightarrow> BifrostUpstream \<Rightarrow> string \<Rightarrow> route \<Rightarrow> bool" where
  "configured_route files c dir m u key ro \<longleftrightarrow>
     m \<in> set (bfc_Models c) \<and> u \<in> set (bfc_Upstreams c) \<and> bfu_Name u = bfm_Upstream m \<and>
     readCredential files (JoinPath dir (bfu_Credential u)) = Inr key \<and>
     ro = \<lparr>ro_alias = bfm_Alias m, ro_providerModel = bfm_Model m,
       ro_chatEndpoint = TrimRightChar CHR ''/'' (bfu_BaseURL u) @ ''/chat/completions'',
       ro_modelsEndpoint = TrimRightChar CHR ''/'' (bfu_BaseURL u) @ ''/models'', ro_apiKey = key\<rparr>"

lemma router_parts:
  assumes "NewRouter p files c dir = Inr r"
  obtains keys where "router_config_ok p c" "mapE (load_key files dir) (bfc_Upstreams c) = Inr keys"
    "rt_models r = fold (\<lambda>m. assoc_set (bfm_Alias m) (model_route (bfc_Upstreams c) keys m)) (bfc_Models c) []"
    "client_token files dir c = Inr (rt_clientToken r)"
proof -
  from assms have "BifrostValidate p c = Inr ()" by (auto simp: NewRouter_def)
  then have "router_config_ok p c" by (rule BifrostValidate_ok)
  then show ?thesis using assms that by (auto simp: NewRouter_def split: if_split_asm)
qed

lemma model_route_configured:
  assumes ok: "router_config_ok p c" and keys: "mapE (load_key files dir) (bfc_Upstreams c) = Inr keys" and m: "m \<in> set (bfc_Models c)"
  obtains u key where "configured_route files c dir m u key (model_route (bfc_Upstreams c) keys m)"
proof -
  from ok m obtain u where u: "u \<in> set (bfc_Upstreams c)" "bfu_Name u = bfm_Upstream m"
    by (auto simp: router_config_ok_def list_all_iff)
  have names: "distinct (map bfu_Name (bfc_Upstreams c))" using ok by (simp add: router_config_ok_def)
  obtain key where key: "readCredential files (JoinPath dir (bfu_Credential u)) = Inr key" "(bfu_Name u, key) \<in> set keys"
  proof -
    from mapE_each [OF keys u(1)] obtain y where "y \<in> set keys" "load_key files dir u = Inr y" by blast
    then show thesis using that by (auto simp: load_key_def split: sum.split_asm)
  qed
  have "fst y = bfu_Name x" if "load_key files dir x = Inr y" for x y
    using that by (auto simp: load_key_def split: sum.split_asm)
  then have "map fst keys = map bfu_Name (bfc_Upstreams c)" by (rule mapE_key [OF keys])
  then have "map_of (rev keys) (bfm_Upstream m) = Some key"
    using key(2) names u(2) by (intro map_of_is_SomeI) (simp_all add: rev_map [symmetric])
  moreover have "map_of (rev (map (\<lambda>u. (bfu_Name u, bfu_BaseURL u)) (bfc_Upstreams c))) (bfm_Upstream m) = Some (bfu_BaseURL u)"
    using u names by (intro map_of_is_SomeI) (auto simp: rev_map [symmetric] comp_def intro!: image_eqI [of _ _ u])
  ultimately show ?thesis
    using that u key m by (simp add: configured_route_def model_route_def base_url_def Let_def)
qed

lemma route_configured:
  assumes "NewRouter p files c dir = Inr r" "map_of (rt_models r) a = Some ro"
  obtains m u key where "configured_route files c dir m u key ro" "bfm_Alias m = a"
  using assms(1)
proof (cases rule: router_parts)
  case (1 keys)
  from fold_assoc_set_in [OF assms(2) [unfolded 1(3)]] obtain m where
    "m \<in> set (bfc_Models c)" "bfm_Alias m = a" "ro = model_route (bfc_Upstreams c) keys m" by auto
  then show ?thesis using model_route_configured [OF 1(1,2)] that by metis
qed

section \<open>What reaches an upstream\<close>

text \<open>The upstreams wrapped so that every request sent to one is recorded.\<close>

definition recorded :: "'w upstreams \<Rightarrow> (UpstreamRequest list \<times> 'w) upstreams" where
  "recorded send q s = (case send q (snd s) of (reply, w) \<Rightarrow> (reply, fst s @ [q], w))"

text \<open>A request a model's own upstream may see: its endpoint, its key and its name for the model.\<close>

definition own_request :: "credential_files \<Rightarrow> BifrostConfig \<Rightarrow> string \<Rightarrow> UpstreamRequest \<Rightarrow> bool" where
  "own_request files c dir q \<longleftrightarrow>
     (\<exists>m \<in> set (bfc_Models c). \<exists>u \<in> set (bfc_Upstreams c). \<exists>key. bfu_Name u = bfm_Upstream m \<and>
        readCredential files (JoinPath dir (bfu_Credential u)) = Inr key \<and>
        filter (\<lambda>h. fst h = ''Authorization'') (ur_Header q) = [(''Authorization'', ''Bearer '' @ key)] \<and>
        (case ur_Body q of
           None \<Rightarrow> ur_URL q = TrimRightChar CHR ''/'' (bfu_BaseURL u) @ ''/models''
         | Some j \<Rightarrow> ur_URL q = TrimRightChar CHR ''/'' (bfu_BaseURL u) @ ''/chat/completions'' \<and>
             (\<exists>kvs. j = JObj kvs \<and> map_of kvs ''model'' = Some (JStr (bfm_Model m)))))"

lemma passed_header_names: "filter (\<lambda>h. fst h = ''Authorization'') (passed_header request n) = []" if "n \<noteq> ''Authorization''"
  using that by (simp add: passed_header_def Let_def)

lemma requests_own:
  assumes "configured_route files c dir m u key ro"
  shows "own_request files c dir (models_request ro)" "own_request files c dir (chat_request request ro payload)"
  using assms
  by (auto simp: own_request_def configured_route_def models_request_def chat_request_def bearer_def marshal_map_def
      map_of_sort_key passed_header_names intro!: bexI [of _ m] bexI [of _ u])

lemma capabilities_requests:
  assumes "NewRouter p files c dir = Inr r"
    and "capabilities_of p (recorded send) r a ([], w) = (result, log, w')"
  shows "log = [] \<or> (\<exists>q. log = [q] \<and> own_request files c dir q)"
proof (cases "map_of (rt_models r) a")
  case (Some ro)
  obtain m u key where "configured_route files c dir m u key ro" by (rule route_configured [OF assms(1) Some])
  from requests_own(1) [OF this] show ?thesis
    using assms(2) Some by (auto simp: capabilities_of_def recorded_def split: if_split_asm prod.split_asm)
qed (use assms(2) in \<open>simp add: capabilities_of_def\<close>)

lemma chat_requests:
  assumes "NewRouter p files c dir = Inr r"
    and "handleChat p (recorded send) r request ([], w) = (answer, log, w')"
  shows "log = [] \<or> (\<exists>q. log = [q] \<and> own_request files c dir q)"
proof (cases "\<exists>payload a. read_payload request = Inr payload \<and> requested_alias payload = Some a \<and> map_of (rt_models r) a \<noteq> None")
  case True
  then obtain payload a ro where ro: "read_payload request = Inr payload" "requested_alias payload = Some a"
    "map_of (rt_models r) a = Some ro" by auto
  obtain m u key where "configured_route files c dir m u key ro" by (rule route_configured [OF assms(1) ro(3)])
  from requests_own(2) [OF this] show ?thesis
    using assms(2) ro by (auto simp: handleChat_def recorded_def split: if_split_asm prod.split_asm)
qed (use assms(2) in \<open>auto simp: handleChat_def split: sum.split_asm option.split_asm\<close>)

text \<open>C35: A router built from a configuration sends at most one upstream request per client request, and
  only the request of a declared model to that model's own upstream: the endpoint is that upstream's, the
  only authorization it carries is the key read for that upstream, and a chat body names the model by the
  provider's name.  A client's own authorization is never forwarded.\<close>

theorem upstream_keys_confined:
  assumes "NewRouter p files c dir = Inr r"
    and "ServeHTTP p (recorded send) r request ([], w) = (answer, log, w')"
  shows "log = [] \<or> (\<exists>q. log = [q] \<and> own_request files c dir q)"
  using assms(2)
  by (auto simp: ServeHTTP_def Let_def handleCapabilities_def split: if_split_asm prod.split_asm sum.split_asm
      dest: capabilities_requests [OF assms(1)] chat_requests [OF assms(1)])

text \<open>C36: A router with a client token serves a request without it only on the health path: every other
  request is answered with 400, 401 or 404, whatever its content, and nothing is sent to any upstream.\<close>

theorem token_required:
  assumes "rt_clientToken r \<noteq> []" and "map_of (rq_Header request) ''Authorization'' \<noteq> Some (''Bearer '' @ rt_clientToken r)"
    and "\<not> (rq_Path request = ''/health'' \<and> rq_Method request = ''GET'')"
  shows "\<exists>status message. status \<in> {400, 401, 404} \<and> ServeHTTP p send r request w = (writeError status message, w)"
proof -
  have "\<not> authorized r request"
    using assms(1,2) by (auto simp: authorized_def header_def bearer_def split: option.split_asm)
  then show ?thesis using assms(3) unfolding ServeHTTP_def Let_def by auto
qed

lemma sort_cong: "mset xs = mset ys \<Longrightarrow> sort xs = sort ys"
  by (rule properties_for_sort) simp_all

lemma router_aliases:
  assumes "NewRouter p files c dir = Inr r"
  shows "mset (map fst (rt_models r)) = mset (map bfm_Alias (bfc_Models c))"
  using assms
proof (cases rule: router_parts)
  case (1 keys)
  have "distinct (map fst (rt_models r))" unfolding 1(3) by (rule fold_assoc_set_distinct) simp
  moreover have "set (map fst (rt_models r)) = set (map bfm_Alias (bfc_Models c))"
    unfolding 1(3) fold_assoc_set_keys by simp
  moreover have "distinct (map bfm_Alias (bfc_Models c))" using 1(1) by (simp add: router_config_ok_def)
  ultimately show ?thesis by (metis set_eq_iff_mset_eq_distinct)
qed

text \<open>C37: The model listing of a router built from a configuration is the sorted list of all its aliases,
  each once, in whatever order Go iterates the map of routes: the handler's exchange sort is a sort.\<close>

theorem models_listed_sorted:
  assumes "NewRouter p files c dir = Inr r" and "mset routes = mset (rt_models r)"
  shows "handleModels (r\<lparr>rt_models := routes\<rparr>) = writeJSON 200 (JObj [(''object'', JStr ''list''),
    (''data'', JArr (map modelSummary (sort (map bfm_Alias (bfc_Models c)))))])"
proof -
  have "mset (map fst routes) = mset (map bfm_Alias (bfc_Models c))"
    using router_aliases [OF assms(1)] assms(2) by simp
  then have "sort (map fst routes) = sort (map bfm_Alias (bfc_Models c))" by (rule sort_cong)
  then show ?thesis by (simp add: handleModels_def exchange_sort_is_sort)
qed


section \<open>A concrete router\<close>

definition demo_router_config :: BifrostConfig where
  "demo_router_config = \<lparr>bfc_Listen = [], bfc_ClientCredential = ''client'',
     bfc_Upstreams = [\<lparr>bfu_Name = ''east'', bfu_BaseURL = ''https://east.example/v1/'', bfu_Credential = ''east-key''\<rparr>,
       \<lparr>bfu_Name = ''west'', bfu_BaseURL = ''https://west.example/v1'', bfu_Credential = ''west-key''\<rparr>],
     bfc_Models = [\<lparr>bfm_Alias = ''quick'', bfm_Upstream = ''west'', bfm_Model = ''w/small''\<rparr>,
       \<lparr>bfm_Alias = ''deep'', bfm_Upstream = ''east'', bfm_Model = ''e/large''\<rparr>]\<rparr>"

definition demo_files :: credential_files where
  "demo_files path = (if path = ''/run/c/east-key'' then Some \<lparr>cf_Regular = True, cf_Perm = 0x100, cf_Data = Some ''KE''\<rparr>
     else if path = ''/run/c/west-key'' then Some \<lparr>cf_Regular = True, cf_Perm = 0x120, cf_Data = Some ''KW''\<rparr>
     else if path = ''/run/c/client'' then Some \<lparr>cf_Regular = True, cf_Perm = 0x100, cf_Data = Some ''T''\<rparr> else None)"

definition demo_url :: url_parser where
  "demo_url s = Some \<lparr>u_Scheme = ''https'', u_Host = ''example'', u_HasUser = False, u_RawQuery = [], u_Fragment = [], u_Hostname = ''example''\<rparr>"

definition demo_router :: Router where
  "demo_router = \<lparr>rt_models =
     [(''quick'', \<lparr>ro_alias = ''quick'', ro_providerModel = ''w/small'', ro_chatEndpoint = ''https://west.example/v1/chat/completions'',
        ro_modelsEndpoint = ''https://west.example/v1/models'', ro_apiKey = ''KW''\<rparr>),
      (''deep'', \<lparr>ro_alias = ''deep'', ro_providerModel = ''e/large'', ro_chatEndpoint = ''https://east.example/v1/chat/completions'',
        ro_modelsEndpoint = ''https://east.example/v1/models'', ro_apiKey = ''KE''\<rparr>)],
     rt_clientToken = ''T''\<rparr>"

definition demo_chat :: HttpRequest where
  "demo_chat = \<lparr>rq_Method = ''POST'', rq_Path = ''/v1/chat/completions'', rq_RawQuery = [], rq_Fragment = [],
     rq_Header = [(''Authorization'', ''Bearer T''), (''X-Title'', ''lab'')], rq_ContentLength = 40,
     rq_Body = Bytes 40 [JObj [(''model'', JStr ''deep''), (''n'', JNum 1)]] True\<rparr>"

definition demo_upstreams :: "unit upstreams" where
  "demo_upstreams q w = (Reply 200 [] (Bytes 30 [JObj [(''model'', JStr ''e/large''), (''text'', JStr ''hi'')]] True), w)"

lemma demo_credentials:
  "readCredential demo_files ''/run/c/east-key'' = Inr ''KE''"
  "readCredential demo_files ''/run/c/west-key'' = Inr ''KW''"
  "readCredential demo_files ''/run/c/client'' = Inr ''T''"
  by (simp_all add: readCredential_def demo_files_def TrimSpace_def is_space_def ContainsAny_def)

lemma demo_paths:
  "JoinPath ''/run/c'' ''east-key'' = ''/run/c/east-key''" "JoinPath ''/run/c'' ''west-key'' = ''/run/c/west-key''"
  "JoinPath ''/run/c'' ''client'' = ''/run/c/client''"
  by code_simp+

lemma demo_config_valid: "BifrostValidate demo_url demo_router_config = Inr ()" "safeCredentialName ''client''"
  by code_simp+

lemma demo_bases:
  "TrimRightChar CHR ''/'' ''https://east.example/v1/'' = ''https://east.example/v1''"
  "TrimRightChar CHR ''/'' ''https://west.example/v1'' = ''https://west.example/v1''"
  by code_simp+

lemma demo_router_built: "NewRouter demo_url demo_files demo_router_config ''/run/c'' = Inr demo_router"
  unfolding NewRouter_def demo_config_valid
  by (simp add: demo_router_config_def load_key_def client_token_def demo_paths demo_credentials demo_config_valid
      model_route_def base_url_def demo_bases demo_router_def HasPrefix_def)

lemma demo_alias: "safeToken ''deep''"
  by code_simp

theorem upstream_keys_confined_witness:
  "\<exists>q. fst (snd (ServeHTTP demo_url (recorded demo_upstreams) demo_router demo_chat ([], ()))) = [q] \<and>
     own_request demo_files demo_router_config ''/run/c'' q"
proof -
  obtain answer log w' where run: "ServeHTTP demo_url (recorded demo_upstreams) demo_router demo_chat ([], ()) = (answer, log, w')"
    by (metis prod_cases3)
  have "length (fst (snd (ServeHTTP demo_url (recorded demo_upstreams) demo_router demo_chat ([], ())))) = 1"
    by (simp add: ServeHTTP_def demo_chat_def demo_router_def authorized_def header_def bearer_def HasPrefix_def handleChat_def
        read_payload_def requested_alias_def decode_string_def demo_alias demo_url_def recorded_def demo_upstreams_def)
  then have "log \<noteq> []" unfolding run by auto
  then show ?thesis using upstream_keys_confined [OF demo_router_built run] run by auto
qed

theorem token_required_witness:
  "\<exists>status message. status \<in> {400, 401, 404} \<and>
     ServeHTTP demo_url demo_upstreams demo_router (demo_chat\<lparr>rq_Header := [(''Authorization'', ''Bearer X'')]\<rparr>) () =
       (writeError status message, ())"
  by (rule token_required) (simp_all add: demo_router_def demo_chat_def)

theorem models_listed_sorted_witness:
  "handleModels (demo_router\<lparr>rt_models := rev (rt_models demo_router)\<rparr>) =
     writeJSON 200 (JObj [(''object'', JStr ''list''), (''data'', JArr (map modelSummary [''deep'', ''quick'']))])"
proof -
  have "sort (map bfm_Alias (bfc_Models demo_router_config)) = [''deep'', ''quick'']" by code_simp
  then show ?thesis using models_listed_sorted [OF demo_router_built, of "rev (rt_models demo_router)"] by simp
qed


end
