(* ===== verification/Companion.thy ===== *)
theory Companion
  imports Go_Text Complex_Main
begin

text \<open>
  The state of the companion console, \<^verbatim>\<open>internal/companion/state.go\<close>: six fixed items and two
  modules with their last observation, the resources of the lab, and what the display shows.

  A time is the number of nanoseconds since Go's zero time, so \<open>IsZero\<close> is being zero; \<open>Sub\<close> saturates
  at the range of a \<open>Duration\<close>.  Operations that read the clock take its value as an argument.  The
  mutex makes every operation atomic.  The buffered channel \<open>Refresh\<close> holds at most one signal and is
  a flag.  The value \<open>None\<close> of \<open>CompanionSnapshot\<close> is the panic of an index out of range.
\<close>

abbreviation "Healthy \<equiv> ''healthy''"
abbreviation "Warning \<equiv> ''warning''"
abbreviation "Failure \<equiv> ''failure''"
abbreviation "Waiting \<equiv> ''waiting''"
abbreviation "Disabled \<equiv> ''disabled''"

type_synonym time = int

definition Second :: int where
  "Second = 10 ^ 9"

definition Freshness :: int where
  "Freshness = 90 * Second"

definition TimeSub :: "time \<Rightarrow> time \<Rightarrow> int" where
  "TimeSub a b = max (- (2 ^ 63)) (min (2 ^ 63 - 1) (a - b))"

record CompanionConfig =
  cc_EthernetMAC :: string
  cc_Address :: string
  cc_Gateway :: string
  cc_DNS :: string
  cc_DNSName :: string
  cc_DNSAddress :: string
  cc_Display :: bool
  cc_StreamDeck :: bool
  cc_AirVPN :: bool
  cc_Tailnet :: bool

record ItemFields =
  it_ID :: string
  it_Label :: string
  it_Status :: string
  it_Value :: string
  it_Reason :: string
  it_ObservedAt :: time

datatype Item = Item (it_fields: ItemFields) (it_Checks: "Item list")

record Resource =
  re_ID :: string
  re_Name :: string
  re_Type :: string
  re_Status :: string
  re_CPU :: "rat option"
  re_Memory :: "rat option"
  re_ObservedAt :: time

record Snapshot =
  sp_Version :: int
  sp_UpdatedAt :: time
  sp_Items :: "Item list"
  sp_Modules :: "Item list"
  sp_LEDs :: "Item list"
  sp_Resources :: "Resource list"
  sp_View :: string
  sp_Page :: int
  sp_Brightness :: string
  sp_Display :: bool
  sp_StreamDeck :: bool
  sp_RenderedAt :: time
  sp_DeckAt :: time

record CompanionState =
  co_data :: Snapshot
  co_history :: "string list"
  co_Refresh :: bool

definition itemIDs :: "string list" where
  "itemIDs = [''pi'', ''link'', ''gateway'', ''dns'', ''proxmox'', ''peripherals'']"

definition itemLabels :: "string list" where
  "itemLabels = [''Pi health'', ''Lab link'', ''Gateway'', ''DNS'', ''Proxmox'', ''Local displays'']"

definition views :: "string list" where
  "views = [''overview'', ''core'', ''resources'', ''pi'']"

section \<open>Operations\<close>

definition new_item :: "string \<Rightarrow> string \<Rightarrow> string \<Rightarrow> string \<Rightarrow> Item" where
  "new_item ident label status reason =
     Item \<lparr>it_ID = ident, it_Label = label, it_Status = status, it_Value = [], it_Reason = reason, it_ObservedAt = 0\<rparr> []"

definition on_fields :: "(ItemFields \<Rightarrow> ItemFields) \<Rightarrow> Item \<Rightarrow> Item" where
  "on_fields f i = Item (f (it_fields i)) (it_Checks i)"

definition new_items :: "CompanionConfig \<Rightarrow> Item list" where
  "new_items c =
     (let items = map (\<lambda>(ident, label). new_item ident label Waiting ''Waiting for the first observation'') (zip itemIDs itemLabels)
      in if \<not> cc_Display c \<and> \<not> cc_StreamDeck c then
           items[5 := on_fields (\<lambda>f. f\<lparr>it_Status := Disabled, it_Reason := ''HDMI and StreamDeck disabled''\<rparr>) (items ! 5)]
         else items)"

definition new_modules :: "CompanionConfig \<Rightarrow> Item list" where
  "new_modules c =
     map (\<lambda>(ident, label, enabled). new_item ident label (if enabled then Waiting else Disabled) ''Module disabled'')
       [(''airvpn'', ''AirVPN'', cc_AirVPN c), (''tailnet-router'', ''Tailnet Router'', cc_Tailnet c)]"

definition NewState :: "CompanionConfig \<Rightarrow> CompanionState" where
  "NewState c =
     \<lparr>co_data = \<lparr>sp_Version = 1, sp_UpdatedAt = 0, sp_Items = new_items c, sp_Modules = new_modules c, sp_LEDs = [],
        sp_Resources = [], sp_View = ''overview'', sp_Page = 0, sp_Brightness = ''normal'', sp_Display = cc_Display c,
        sp_StreamDeck = cc_StreamDeck c, sp_RenderedAt = 0, sp_DeckAt = 0\<rparr>,
      co_history = [], co_Refresh = False\<rparr>"

definition fresh :: "time \<Rightarrow> time \<Rightarrow> bool" where
  "fresh seen now \<longleftrightarrow> seen \<noteq> 0 \<and> TimeSub now seen \<le> Freshness \<and> TimeSub seen now < 5 * Second"

text \<open>The first entry with the item's identifier is replaced and keeps its label.\<close>

fun replace_item :: "Item \<Rightarrow> Item list \<Rightarrow> Item list option" where
  "replace_item item [] = None"
| "replace_item item (old # rest) =
     (if it_ID (it_fields old) = it_ID (it_fields item)
      then Some (on_fields (\<lambda>f. f\<lparr>it_Label := it_Label (it_fields old)\<rparr>) item # rest)
      else map_option (Cons old) (replace_item item rest))"

definition UpdateItem :: "Item \<Rightarrow> CompanionState \<Rightarrow> CompanionState" where
  "UpdateItem item s =
     (let d = co_data s in
      case replace_item item (sp_Items d) of
        Some items \<Rightarrow> s\<lparr>co_data := d\<lparr>sp_Items := items\<rparr>\<rparr>
      | None \<Rightarrow> (case replace_item item (sp_Modules d) of
          Some modules \<Rightarrow> s\<lparr>co_data := d\<lparr>sp_Modules := modules\<rparr>\<rparr>
        | None \<Rightarrow> s))"

definition SetResources :: "Resource list \<Rightarrow> CompanionState \<Rightarrow> CompanionState" where
  "SetResources resources s = s\<lparr>co_data := (co_data s)\<lparr>sp_Resources := resources\<rparr>\<rparr>"

definition assertedStatus :: "string \<Rightarrow> string" where
  "assertedStatus status = (if status = Waiting then Failure else status)"

definition asserted :: "Item \<Rightarrow> Item" where
  "asserted = on_fields (\<lambda>f. f\<lparr>it_Status := assertedStatus (it_Status f)\<rparr>)"

definition show_check :: "time \<Rightarrow> Item \<Rightarrow> Item" where
  "show_check now check =
     asserted (if \<not> fresh (it_ObservedAt (it_fields check)) now
       then on_fields (\<lambda>f. f\<lparr>it_Status := Waiting, it_Value := ''No data''\<rparr>) check else check)"

definition expire :: "time \<Rightarrow> string \<Rightarrow> Item \<Rightarrow> Item" where
  "expire now reason item =
     (if it_Status (it_fields item) \<noteq> Disabled \<and> \<not> fresh (it_ObservedAt (it_fields item)) now
      then on_fields (\<lambda>f. f\<lparr>it_Status := Waiting, it_Value := ''No data'', it_Reason := reason\<rparr>) item else item)"

definition show_module :: "time \<Rightarrow> Item \<Rightarrow> Item" where
  "show_module now m =
     (case asserted (expire now ''No fresh module observation'' m) of
        Item f cs \<Rightarrow> Item f (map (show_check now) cs))"

definition show_item :: "time \<Rightarrow> Item \<Rightarrow> Item" where
  "show_item now item = asserted (expire now ''No fresh observation; check the source connection'' item)"

definition show_resource :: "time \<Rightarrow> Resource \<Rightarrow> Resource" where
  "show_resource now r =
     (let r' = (if \<not> fresh (re_ObservedAt r) now then r\<lparr>re_Status := Waiting, re_CPU := None, re_Memory := None\<rparr> else r)
      in r'\<lparr>re_Status := assertedStatus (re_Status r')\<rparr>)"

definition show_displays :: "time \<Rightarrow> Snapshot \<Rightarrow> Item \<Rightarrow> Item" where
  "show_displays now d item =
     (let ready = on_fields (\<lambda>f. f\<lparr>it_Status := Healthy, it_Value := ''Ready'', it_Reason := ''Enabled displays are updating'',
            it_ObservedAt := now\<rparr>) item;
          hdmi = (if sp_Display d \<and> TimeSub now (sp_RenderedAt d) > 10 * Second
            then on_fields (\<lambda>f. f\<lparr>it_Status := Failure, it_Value := ''Not ready'',
              it_Reason := ''HDMI page has not reported a render in 10 seconds''\<rparr>) ready else ready)
      in if sp_StreamDeck d \<and> TimeSub now (sp_DeckAt d) > 10 * Second
         then on_fields (\<lambda>f. f\<lparr>it_Status := Failure, it_Value := ''Not ready'',
           it_Reason := ''StreamDeck is disconnected or not rendering''\<rparr>) hdmi else hdmi)"

definition CompanionSnapshot :: "time \<Rightarrow> CompanionState \<Rightarrow> Snapshot option" where
  "CompanionSnapshot now s =
     (let d = co_data s;
          items = map (show_item now) (sp_Items d);
          modules = map (show_module now) (sp_Modules d);
          out = d\<lparr>sp_UpdatedAt := now, sp_Modules := modules, sp_Resources := map (show_resource now) (sp_Resources d)\<rparr>
      in if (sp_Display d \<or> sp_StreamDeck d) \<and> length items \<le> 5 then None
         else let items' = (if sp_Display d \<or> sp_StreamDeck d then items[5 := show_displays now d (items ! 5)] else items)
              in Some (out\<lparr>sp_Items := items', sp_LEDs := items' @ modules\<rparr>))"

text \<open>Go's remainder takes the sign of the dividend.\<close>

definition go_rem :: "int \<Rightarrow> int \<Rightarrow> int" where
  "go_rem a b = (if a \<ge> 0 then a mod b else - ((- a) mod b))"

definition valid_target :: "Snapshot \<Rightarrow> string \<Rightarrow> bool" where
  "valid_target d target \<longleftrightarrow>
     target = ''overview'' \<or> target = ''core'' \<or> target = ''resources'' \<or> target \<in> set itemIDs \<or>
     list_ex (\<lambda>m. target = it_ID (it_fields m)) (sp_Modules d) \<or>
     list_ex (\<lambda>r. target = ''resource:'' @ re_ID r) (sp_Resources d)"

definition action_check :: "Snapshot \<Rightarrow> string \<Rightarrow> string \<Rightarrow> gerror + unit" where
  "action_check d action target =
     (if action = ''select'' then
        (if \<not> valid_target d target then Inl (Errorf ''unknown view'' []) else Inr ())
      else if action \<in> {''home'', ''back'', ''previous'', ''next'', ''dim'', ''refresh''} then
        (if target \<noteq> [] then Inl (Errorf ''action does not take a target'' []) else Inr ())
      else Inl (Errorf ''unsupported local action'' []))"

definition resource_pages :: "Snapshot \<Rightarrow> int" where
  "resource_pages d = max 1 ((int (length (sp_Resources d)) + 7) div 8)"

text \<open>The last position of a view in the cycle, or the first when it is not part of it.\<close>

definition view_index :: "string \<Rightarrow> nat" where
  "view_index view = fold (\<lambda>i found. if views ! i = view then i else found) [0..<length views] 0"

definition turn :: "int \<Rightarrow> Snapshot \<Rightarrow> Snapshot" where
  "turn step d =
     (if sp_View d = ''resources'' then d\<lparr>sp_Page := go_rem (sp_Page d + step + resource_pages d) (resource_pages d)\<rparr>
      else d\<lparr>sp_View := views ! nat (go_rem (int (view_index (sp_View d)) + step + int (length views)) (int (length views))),
             sp_Page := 0\<rparr>)"

definition perform :: "string \<Rightarrow> string \<Rightarrow> CompanionState \<Rightarrow> CompanionState" where
  "perform action target s =
     (let d = co_data s in
      if action = ''select'' then s\<lparr>co_data := d\<lparr>sp_View := target, sp_Page := 0\<rparr>\<rparr>
      else if action = ''home'' then s\<lparr>co_data := d\<lparr>sp_View := ''overview'', sp_Page := 0\<rparr>, co_history := []\<rparr>
      else if action = ''back'' then
        (if co_history s \<noteq> [] then
           s\<lparr>co_data := d\<lparr>sp_View := last (co_history s), sp_Page := 0\<rparr>, co_history := butlast (co_history s)\<rparr>
         else s\<lparr>co_data := d\<lparr>sp_View := ''overview'', sp_Page := 0\<rparr>\<rparr>)
      else if action = ''next'' then s\<lparr>co_data := turn 1 d\<rparr>
      else if action = ''previous'' then s\<lparr>co_data := turn (-1) d\<rparr>
      else if action = ''dim'' then
        s\<lparr>co_data := d\<lparr>sp_Brightness := (if sp_Brightness d = ''normal'' then ''dim'' else ''blank'')\<rparr>\<rparr>
      else if action = ''refresh'' then s\<lparr>co_Refresh := True\<rparr>
      else s)"

definition remember :: "string \<Rightarrow> string \<Rightarrow> CompanionState \<Rightarrow> CompanionState" where
  "remember action old s =
     (if sp_View (co_data s) \<noteq> old \<and> action \<noteq> ''home'' \<and> action \<noteq> ''back'' then
        s\<lparr>co_history := (if length (co_history s) \<ge> 16 then drop 1 (co_history s) else co_history s) @ [old]\<rparr>
      else s)"

definition Action :: "string \<Rightarrow> string \<Rightarrow> CompanionState \<Rightarrow> gerror + CompanionState" where
  "Action action target s =
     bindE (action_check (co_data s) action target) (\<lambda>_.
       if sp_Brightness (co_data s) = ''blank'' then Inr (s\<lparr>co_data := (co_data s)\<lparr>sp_Brightness := ''normal''\<rparr>\<rparr>)
       else Inr (remember action (sp_View (co_data s)) (perform action target s)))"

definition Heartbeat :: "time \<Rightarrow> string \<Rightarrow> CompanionState \<Rightarrow> gerror + CompanionState" where
  "Heartbeat now device s =
     (if device = ''display'' then Inr (s\<lparr>co_data := (co_data s)\<lparr>sp_RenderedAt := now\<rparr>\<rparr>)
      else if device = ''streamdeck'' then Inr (s\<lparr>co_data := (co_data s)\<lparr>sp_DeckAt := now\<rparr>\<rparr>)
      else Inl (Errorf ''unknown display'' []))"

section \<open>Runs\<close>

text \<open>A run: any sequence of the operations, at any times; a refused one leaves the state as it is.\<close>

inductive companion_run :: "CompanionConfig \<Rightarrow> CompanionState \<Rightarrow> bool" for c where
  start: "companion_run c (NewState c)"
| update: "companion_run c s \<Longrightarrow> companion_run c (UpdateItem item s)"
| resources: "companion_run c s \<Longrightarrow> companion_run c (SetResources rs s)"
| action: "companion_run c s \<Longrightarrow> Action a target s = Inr s' \<Longrightarrow> companion_run c s'"
| heartbeat: "companion_run c s \<Longrightarrow> Heartbeat now device s = Inr s' \<Longrightarrow> companion_run c s'"

definition moduleIDs :: "string list" where
  "moduleIDs = [''airvpn'', ''tailnet-router'']"

definition item_id :: "Item \<Rightarrow> string" where
  "item_id i = it_ID (it_fields i)"

definition item_label :: "Item \<Rightarrow> string" where
  "item_label i = it_Label (it_fields i)"

text \<open>A view the display can show: a page of the cycle, an item, a module, or a resource.\<close>

definition known_view :: "string \<Rightarrow> bool" where
  "known_view v \<longleftrightarrow> v \<in> set (views @ itemIDs @ moduleIDs) \<or> HasPrefix v ''resource:''"

definition data_ok :: "CompanionConfig \<Rightarrow> Snapshot \<Rightarrow> bool" where
  "data_ok c d \<longleftrightarrow>
     map item_id (sp_Items d) = itemIDs \<and> map item_label (sp_Items d) = itemLabels \<and>
     map item_id (sp_Modules d) = moduleIDs \<and> map item_label (sp_Modules d) = [''AirVPN'', ''Tailnet Router''] \<and>
     sp_Display d = cc_Display c \<and> sp_StreamDeck d = cc_StreamDeck c \<and>
     sp_Brightness d \<in> {''normal'', ''dim'', ''blank''} \<and> 0 \<le> sp_Page d \<and> known_view (sp_View d)"

definition companion_ok :: "CompanionConfig \<Rightarrow> CompanionState \<Rightarrow> bool" where
  "companion_ok c s \<longleftrightarrow> data_ok c (co_data s) \<and> length (co_history s) \<le> 16 \<and> list_all known_view (co_history s)"

lemma on_fields_simps [simp]:
  "it_fields (on_fields f i) = f (it_fields i)" "it_Checks (on_fields f i) = it_Checks i"
  by (simp_all add: on_fields_def)

lemma replace_item_keeps:
  "replace_item item xs = Some ys \<Longrightarrow> map item_id ys = map item_id xs \<and> map item_label ys = map item_label xs"
  by (induction xs arbitrary: ys) (auto simp: item_id_def item_label_def split: if_split_asm)

lemma update_ok: "companion_ok c s \<Longrightarrow> companion_ok c (UpdateItem item s)"
  by (auto simp: companion_ok_def data_ok_def UpdateItem_def Let_def dest: replace_item_keeps split: option.split)

lemma start_ok: "companion_ok c (NewState c)"
  by (simp add: companion_ok_def data_ok_def NewState_def new_items_def new_modules_def new_item_def itemIDs_def itemLabels_def
      moduleIDs_def item_id_def item_label_def known_view_def views_def Let_def)

lemma valid_target_known: "data_ok c d \<Longrightarrow> valid_target d t \<Longrightarrow> known_view t"
proof -
  assume d: "data_ok c d" and t: "valid_target d t"
  have "item_id ` set (sp_Modules d) = set moduleIDs" using d unfolding data_ok_def by (metis list.set_map)
  moreover have "HasPrefix (''resource:'' @ x) ''resource:''" for x by (rule HasPrefix_append)
  ultimately show "known_view t"
    using t by (force simp: valid_target_def known_view_def views_def list_ex_iff item_id_def simp del: append_Cons)
qed

lemma go_rem_range: "0 \<le> a \<Longrightarrow> 0 < b \<Longrightarrow> 0 \<le> go_rem a b \<and> go_rem a b < b"
  by (simp add: go_rem_def)

lemma resource_pages_pos: "1 \<le> resource_pages d"
  by (simp add: resource_pages_def)

lemma data_ok_view:
  "data_ok c d \<Longrightarrow> known_view v \<Longrightarrow> 0 \<le> p \<Longrightarrow> data_ok c (d\<lparr>sp_View := v, sp_Page := p\<rparr>)"
  by (simp add: data_ok_def)

lemma companion_if: "(b \<Longrightarrow> companion_ok c x) \<Longrightarrow> (\<not> b \<Longrightarrow> companion_ok c y) \<Longrightarrow> companion_ok c (if b then x else y)"
  by simp

lemma turn_ok:
  assumes "data_ok c d" "step \<in> {1, -1}"
  shows "data_ok c (turn step d)"
proof (cases "sp_View d = ''resources''")
  case True
  have "0 \<le> sp_Page d + step + resource_pages d" using assms resource_pages_pos [of d] by (auto simp: data_ok_def)
  then show ?thesis
    using assms(1) go_rem_range [of _ "resource_pages d"] resource_pages_pos [of d]
    by (simp add: turn_def True data_ok_def)
next
  case False
  have "views ! nat (go_rem a (int (length views))) \<in> set views" if "0 \<le> a" for a
    using go_rem_range [OF that, of "int (length views)"] by (intro nth_mem) (auto simp: views_def)
  moreover have "0 \<le> int (view_index (sp_View d)) + step + int (length views)" using assms(2) by (auto simp: views_def)
  ultimately have "known_view (views ! nat (go_rem (int (view_index (sp_View d)) + step + int (length views)) (int (length views))))"
    by (simp add: known_view_def)
  then show ?thesis using assms(1) False by (simp add: turn_def data_ok_view)
qed

lemma known_views [simp]: "known_view ''overview''"
  by (simp add: known_view_def views_def)

lemma perform_ok:
  assumes "companion_ok c s" "action_check (co_data s) a target = Inr ()"
  shows "companion_ok c (perform a target s)"
proof -
  have d: "data_ok c (co_data s)" "list_all known_view (co_history s)" "length (co_history s) \<le> 16"
    using assms(1) by (simp_all add: companion_ok_def)
  have target: "known_view target" if "a = ''select''"
    using assms(2) that valid_target_known [OF d(1)] by (simp add: action_check_def split: if_split_asm)
  have hist: "known_view (last (co_history s)) \<and> list_all known_view (butlast (co_history s))" if "co_history s \<noteq> []"
    using d(2) that by (simp add: list_all_iff in_set_butlastD)
  have dim: "data_ok c (co_data s\<lparr>sp_Brightness := b\<rparr>)" if "b \<in> {''normal'', ''dim'', ''blank''}" for b
    using d(1) that by (simp add: data_ok_def)
  show ?thesis
    unfolding perform_def Let_def
    by (intro companion_if)
      (use d target hist in \<open>simp_all add: companion_ok_def data_ok_view turn_ok dim\<close>)
qed

lemma remember_ok:
  assumes "companion_ok c s" "known_view old"
  shows "companion_ok c (remember a old s)"
  using assms by (auto simp: companion_ok_def remember_def list_all_iff dest: in_set_dropD)

lemma action_ok:
  assumes "companion_ok c s" "Action a target s = Inr s'"
  shows "companion_ok c s'"
proof -
  from assms(2) have check: "action_check (co_data s) a target = Inr ()" by (auto simp: Action_def)
  have "known_view (sp_View (co_data s))" using assms(1) by (simp add: companion_ok_def data_ok_def)
  from remember_ok [OF perform_ok [OF assms(1) check] this] show ?thesis
    using assms by (auto simp: Action_def check companion_ok_def data_ok_def split: if_split_asm)
qed

lemma run_ok: "companion_run c s \<Longrightarrow> companion_ok c s"
proof (induction rule: companion_run.induct)
  case start
  show ?case by (rule start_ok)
next
  case (update s item)
  from update.IH show ?case by (rule update_ok)
next
  case (resources s rs)
  then show ?case by (simp add: SetResources_def companion_ok_def data_ok_def)
next
  case (action s a target s')
  show ?case by (rule action_ok [OF action.IH action.hyps(2)])
next
  case (heartbeat s now device s')
  then show ?case by (auto simp: Heartbeat_def companion_ok_def data_ok_def split: if_split_asm)
qed

section \<open>What a snapshot asserts\<close>

text \<open>A passing status is backed by an observation of the last ninety seconds.\<close>

definition backed :: "time \<Rightarrow> Item \<Rightarrow> bool" where
  "backed now i \<longleftrightarrow> it_Status (it_fields i) \<noteq> Waiting \<and>
     (fresh (it_ObservedAt (it_fields i)) now \<or> it_Status (it_fields i) \<in> {Failure, Disabled})"

lemma show_item_backed: "backed now (show_item now i)"
  by (simp add: backed_def show_item_def asserted_def expire_def assertedStatus_def)

lemma show_module_backed: "backed now (show_module now m) \<and> list_all (backed now) (it_Checks (show_module now m))"
  by (cases "asserted (expire now ''No fresh module observation'' m)")
    (auto simp: backed_def show_module_def asserted_def expire_def assertedStatus_def show_check_def list_all_iff on_fields_def
      split: if_split_asm)

definition displays_alive :: "time \<Rightarrow> Snapshot \<Rightarrow> bool" where
  "displays_alive now d \<longleftrightarrow>
     (sp_Display d \<longrightarrow> TimeSub now (sp_RenderedAt d) \<le> 10 * Second) \<and>
     (sp_StreamDeck d \<longrightarrow> TimeSub now (sp_DeckAt d) \<le> 10 * Second)"

lemma show_displays_status:
  "it_Status (it_fields (show_displays now d i)) = (if displays_alive now d then Healthy else Failure)"
  by (auto simp: show_displays_def displays_alive_def Let_def)


text \<open>C40: In every run of the companion console the items and modules keep their fixed identifiers, labels
  and order, the display shows a view that exists, at a page that is not negative and in a brightness of
  the cycle, and the history never holds more than sixteen views.  Turning pages stays inside the pages of
  the resources there are now, also after their number has shrunk.\<close>

theorem companion_state_invariant:
  assumes "companion_run c s"
  shows "companion_ok c s \<and>
    (case Action ''next'' [] s of
       Inl _ \<Rightarrow> False
     | Inr s' \<Rightarrow> if sp_Brightness (co_data s) \<noteq> ''blank'' \<and> sp_View (co_data s) = ''resources''
         then sp_Page (co_data s') < resource_pages (co_data s') else True)"
proof (rule conjI)
  show ok: "companion_ok c s" using assms by (rule run_ok)
  then have "0 \<le> sp_Page (co_data s) + 1 + resource_pages (co_data s)"
    using resource_pages_pos [of "co_data s"] by (simp add: companion_ok_def data_ok_def)
  then have "go_rem (sp_Page (co_data s) + 1 + resource_pages (co_data s)) (resource_pages (co_data s)) < resource_pages (co_data s)"
    using go_rem_range resource_pages_pos [of "co_data s"] by force
  then show "case Action ''next'' [] s of Inl _ \<Rightarrow> False
     | Inr s' \<Rightarrow> if sp_Brightness (co_data s) \<noteq> ''blank'' \<and> sp_View (co_data s) = ''resources''
         then sp_Page (co_data s') < resource_pages (co_data s') else True"
    by (simp add: Action_def action_check_def perform_def turn_def remember_def Let_def resource_pages_def)
qed

section \<open>A concrete run\<close>

definition demo_companion :: CompanionConfig where
  "demo_companion = \<lparr>cc_EthernetMAC = ''02:00:00:00:00:01'', cc_Address = ''10.0.0.2'', cc_Gateway = ''10.0.0.1'',
     cc_DNS = ''10.0.0.1'', cc_DNSName = ''lab'', cc_DNSAddress = ''10.0.0.1'', cc_Display = True, cc_StreamDeck = False, cc_AirVPN = True, cc_Tailnet = False\<rparr>"

definition demo_observation :: Item where
  "demo_observation = Item \<lparr>it_ID = ''dns'', it_Label = [], it_Status = Healthy, it_Value = ''ok'', it_Reason = [],
     it_ObservedAt = 5 * Second\<rparr> []"

lemma demo_companion_run: "companion_run demo_companion (UpdateItem demo_observation (NewState demo_companion))"
  by (intro companion_run.update companion_run.start)


theorem companion_state_invariant_witness:
  "companion_ok demo_companion (UpdateItem demo_observation (NewState demo_companion))"
  using companion_state_invariant [OF demo_companion_run] by blast

end
