(* ===== verification/Telemetry.thy ===== *)
theory Telemetry
  imports Effects Go_Text
begin

text \<open>
  The store of firewall counters, \<^verbatim>\<open>internal/firewalltelemetry/store.go\<close>: the SQLite tables of
  rules, samples, epochs, events and collector health, the transaction that records a snapshot of the
  counters, and the queries.

  A table is the list of its rows in the order of insertion.  The driver may fail any statement: an
  argument says of each statement, by its number, whether it fails and with which error; a query fails as
  a whole.  A transaction that fails leaves the tables as they were.  Where Go iterates a map to issue
  several statements, one order is taken; the statements do not interfere.  A time is the number of
  nanoseconds since Go's zero time.  Counters are unsigned 64-bit words and are stored as decimal text.
\<close>

section \<open>Texts and times\<close>

type_synonym instant = int

definition UnixNano :: "instant \<Rightarrow> int" where
  "UnixNano t = t - 62135596800 * 10 ^ 9"

definition FromUnixNano :: "int \<Rightarrow> instant" where
  "FromUnixNano n = n + 62135596800 * 10 ^ 9"

definition Hour :: int where
  "Hour = 3600 * 10 ^ 9"

abbreviation "DefaultRawRetention \<equiv> 7 * 24 * Hour"
abbreviation "EventRetention \<equiv> 30 * 24 * Hour"
abbreviation "SampleStaleAfter \<equiv> (45 * 10 ^ 9 :: int)"
abbreviation "MaxRuleResults \<equiv> (256 :: int)"
abbreviation "MaxActivityResults \<equiv> (256 :: int)"
abbreviation "MaxEventResults \<equiv> (200 :: int)"
abbreviation "MaxSecurityResults \<equiv> (32 :: nat)"

definition decimal :: "64 word \<Rightarrow> string" where
  "decimal value = nat_digits (unat value)"

definition parseDecimal :: "string \<Rightarrow> (64 word) option" where
  "parseDecimal value =
     (if value = [] then None
      else case dec_val value 0 of
        None \<Rightarrow> None
      | Some n \<Rightarrow> if n < 2 ^ 64 then Some (word_of_int n) else None)"

definition parseTimestamp :: "string \<Rightarrow> instant option" where
  "parseTimestamp value =
     (case Atoi value of None \<Rightarrow> None | Some nanos \<Rightarrow> if nanos = 0 then None else Some (FromUnixNano nanos))"

text \<open>The error of \<open>strconv.ParseUint\<close>.\<close>

definition parse_error :: "string \<Rightarrow> gerror" where
  "parse_error text = Errorf ''strconv.ParseUint: parsing %q'' [text]"

text \<open>\<open>strings.Fields\<close>.\<close>

fun split_space :: "string \<Rightarrow> string list" where
  "split_space [] = [[]]"
| "split_space (c # cs) =
     (if is_space c then [] # split_space cs
      else case split_space cs of w # ws \<Rightarrow> (c # w) # ws | [] \<Rightarrow> [[c]])"

definition Fields :: "string \<Rightarrow> string list" where
  "Fields s = filter (\<lambda>w. w \<noteq> []) (split_space s)"

section \<open>Tables\<close>

record Counter =
  cn_Rule :: string
  cn_ID :: string
  cn_Kind :: string
  cn_Family :: string
  cn_Table :: string
  cn_Chain :: string
  cn_Packets :: "64 word"
  cn_Bytes :: "64 word"

record NFTSnapshot =
  ns_Counters :: "Counter list"
  ns_Fingerprint :: string
  ns_OwnedObjectCount :: int

record RuleRow =
  rr_id :: string
  rr_kind :: string
  rr_comment :: string
  rr_family :: string
  rr_table :: string
  rr_chain :: string
  rr_first_seen_at :: int
  rr_last_seen_at :: int
  rr_last_packets :: string
  rr_last_bytes :: string
  rr_last_packet_delta :: string
  rr_last_byte_delta :: string
  rr_last_reset :: int
  rr_epoch :: int
  rr_last_sample_at :: int
  rr_active :: int

record SampleRow =
  sm_rule_id :: string
  sm_sampled_at :: int
  sm_packets :: string
  sm_bytes :: string
  sm_packet_delta :: string
  sm_byte_delta :: string
  sm_epoch :: int
  sm_reset :: int

record EpochRow =
  ep_rule_id :: string
  ep_epoch :: int
  ep_started_at :: int
  ep_reason :: string
  ep_previous_packets :: string
  ep_previous_bytes :: string

record EventRow =
  ev_id :: int
  ev_observed_at :: int
  ev_kind :: string
  ev_rule_id :: string
  ev_fingerprint :: string
  ev_previous_fingerprint :: string
  ev_detail :: string

record Tables =
  tb_rules :: "RuleRow list"
  tb_samples :: "SampleRow list"
  tb_epochs :: "EpochRow list"
  tb_events :: "EventRow list"
  tb_event_ids :: int
  tb_health :: "(string \<times> string) list"

definition empty_tables :: Tables where
  "empty_tables = \<lparr>tb_rules = [], tb_samples = [], tb_epochs = [], tb_events = [], tb_event_ids = 0, tb_health = []\<rparr>"

type_synonym driver = "nat \<Rightarrow> gerror option"

type_synonym 'a tx = "(gerror, 'a, Tables \<times> nat) effect"

text \<open>A statement fails when the driver says so or when it violates a constraint.\<close>

definition exec :: "driver \<Rightarrow> string \<Rightarrow> string list \<Rightarrow> (Tables \<Rightarrow> Tables option) \<Rightarrow> unit tx" where
  "exec driver fmt args f w =
     (case driver (snd w) of
        Some e \<Rightarrow> (Inl (Wrapf fmt args e), fst w, snd w + 1)
      | None \<Rightarrow>
        (case f (fst w) of
           None \<Rightarrow> (Inl (Wrapf fmt args (Errorf ''constraint failed'' [])), fst w, snd w + 1)
         | Some t \<Rightarrow> (Inr (), t, snd w + 1)))"

definition query :: "driver \<Rightarrow> string \<Rightarrow> string list \<Rightarrow> (Tables \<Rightarrow> 'a) \<Rightarrow> 'a tx" where
  "query driver fmt args f w =
     (case driver (snd w) of
        Some e \<Rightarrow> (Inl (Wrapf fmt args e), fst w, snd w + 1)
      | None \<Rightarrow> (Inr (f (fst w)), fst w, snd w + 1))"

definition transaction :: "driver \<Rightarrow> string \<Rightarrow> string \<Rightarrow> unit tx \<Rightarrow> unit tx" where
  "transaction driver begin_fmt commit_fmt body w =
     (case driver (snd w) of
        Some e \<Rightarrow> (Inl (Wrapf begin_fmt [] e), fst w, snd w + 1)
      | None \<Rightarrow>
        (case body (fst w, snd w + 1) of
           (Inl e, w') \<Rightarrow> (Inl e, fst w, snd w')
         | (Inr _, w') \<Rightarrow>
           (case driver (snd w') of
              Some e \<Rightarrow> (Inl (Wrapf commit_fmt [] e), fst w, snd w' + 1)
            | None \<Rightarrow> (Inr (), fst w', snd w' + 1))))"

definition rule_of :: "Tables \<Rightarrow> string \<Rightarrow> RuleRow option" where
  "rule_of t ident = find (\<lambda>r. rr_id r = ident) (tb_rules t)"

section \<open>Health\<close>

definition set_health :: "string \<Rightarrow> string \<Rightarrow> Tables \<Rightarrow> Tables" where
  "set_health key value t = t\<lparr>tb_health := assoc_set key value (tb_health t)\<rparr>"

definition setHealthTx :: "driver \<Rightarrow> string \<Rightarrow> string \<Rightarrow> unit tx" where
  "setHealthTx driver key value =
     exec driver ''update telemetry health %q: %w'' [key] (\<lambda>t. Some (set_health key value t))"

text \<open>A failed read of a health value counts as no value.\<close>

definition healthTx :: "driver \<Rightarrow> string \<Rightarrow> string tx" where
  "healthTx driver key w =
     (Inr (case driver (snd w) of Some _ \<Rightarrow> []
           | None \<Rightarrow> (case map_of (tb_health (fst w)) key of None \<Rightarrow> [] | Some v \<Rightarrow> v)), fst w, snd w + 1)"

section \<open>Recording a snapshot\<close>

record previousRule =
  pr_exists :: bool
  pr_active :: bool
  pr_comment :: string
  pr_packets :: "64 word"
  pr_bytes :: "64 word"
  pr_epoch :: int

abbreviation "no_previous \<equiv> \<lparr>pr_exists = False, pr_active = False, pr_comment = [], pr_packets = 0, pr_bytes = 0, pr_epoch = 0\<rparr>"

definition previous_of :: "string \<Rightarrow> RuleRow option \<Rightarrow> gerror + previousRule" where
  "previous_of ident row =
     (case row of
        None \<Rightarrow> Inr no_previous
      | Some r \<Rightarrow>
        (case parseDecimal (rr_last_packets r) of
           None \<Rightarrow> Inl (Wrapf ''read previous packet counter for %q: %w'' [ident] (parse_error (rr_last_packets r)))
         | Some packets \<Rightarrow>
           (case parseDecimal (rr_last_bytes r) of
              None \<Rightarrow> Inl (Wrapf ''read previous byte counter for %q: %w'' [ident] (parse_error (rr_last_bytes r)))
            | Some bytes \<Rightarrow> Inr \<lparr>pr_exists = True, pr_active = (rr_active r \<noteq> 0), pr_comment = rr_comment r,
                pr_packets = packets, pr_bytes = bytes, pr_epoch = rr_epoch r\<rparr>)))"

definition previousRuleTx :: "driver \<Rightarrow> string \<Rightarrow> previousRule tx" where
  "previousRuleTx driver ident =
     bindW (query driver ''read previous telemetry sample for %q: %w'' [ident] (\<lambda>t. rule_of t ident))
       (\<lambda>row. liftW (previous_of ident row))"

record change =
  ch_packetDelta :: "64 word"
  ch_byteDelta :: "64 word"
  ch_reset :: int
  ch_epoch :: int
  ch_reason :: string

definition counter_change :: "previousRule \<Rightarrow> Counter \<Rightarrow> change" where
  "counter_change previous counter =
     (if \<not> pr_exists previous then \<lparr>ch_packetDelta = 0, ch_byteDelta = 0, ch_reset = 0, ch_epoch = 0, ch_reason = []\<rparr>
      else if \<not> pr_active previous then
        \<lparr>ch_packetDelta = 0, ch_byteDelta = 0, ch_reset = 1, ch_epoch = pr_epoch previous + 1, ch_reason = ''rule_reappeared''\<rparr>
      else if cn_Packets counter < pr_packets previous \<or> cn_Bytes counter < pr_bytes previous then
        \<lparr>ch_packetDelta = 0, ch_byteDelta = 0, ch_reset = 1, ch_epoch = pr_epoch previous + 1, ch_reason = ''counter_reset''\<rparr>
      else \<lparr>ch_packetDelta = cn_Packets counter - pr_packets previous, ch_byteDelta = cn_Bytes counter - pr_bytes previous,
             ch_reset = 0, ch_epoch = pr_epoch previous, ch_reason = []\<rparr>)"

definition insert_epoch :: "EpochRow \<Rightarrow> Tables \<Rightarrow> Tables option" where
  "insert_epoch row t =
     (if (ep_rule_id row, ep_epoch row) \<in> (\<lambda>e. (ep_rule_id e, ep_epoch e)) ` set (tb_epochs t) then None
      else Some (t\<lparr>tb_epochs := tb_epochs t @ [row]\<rparr>))"

definition epoch_row :: "Counter \<Rightarrow> int \<Rightarrow> previousRule \<Rightarrow> change \<Rightarrow> EpochRow" where
  "epoch_row counter now previous ch =
     \<lparr>ep_rule_id = cn_ID counter, ep_epoch = ch_epoch ch, ep_started_at = now, ep_reason = ch_reason ch,
      ep_previous_packets = decimal (pr_packets previous), ep_previous_bytes = decimal (pr_bytes previous)\<rparr>"

definition epochTx :: "driver \<Rightarrow> Counter \<Rightarrow> int \<Rightarrow> previousRule \<Rightarrow> change \<Rightarrow> unit tx" where
  "epochTx driver counter now previous ch =
     (if ch_reset ch = 0 then pureW ()
      else exec driver
        (if ch_reason ch = ''rule_reappeared'' then ''record reappeared rule epoch for %q: %w'' else ''record counter epoch for %q: %w'')
        [cn_ID counter] (insert_epoch (epoch_row counter now previous ch)))"

text \<open>The columns of a rule that an observation sets.\<close>

definition observed_rule :: "Counter \<Rightarrow> int \<Rightarrow> change \<Rightarrow> RuleRow \<Rightarrow> RuleRow" where
  "observed_rule counter now ch r =
     r\<lparr>rr_kind := cn_Kind counter, rr_comment := cn_Rule counter, rr_family := cn_Family counter, rr_table := cn_Table counter,
       rr_chain := cn_Chain counter, rr_last_seen_at := now, rr_last_packets := decimal (cn_Packets counter),
       rr_last_bytes := decimal (cn_Bytes counter), rr_last_packet_delta := decimal (ch_packetDelta ch),
       rr_last_byte_delta := decimal (ch_byteDelta ch), rr_last_reset := ch_reset ch, rr_epoch := ch_epoch ch,
       rr_last_sample_at := now, rr_active := 1\<rparr>"

definition inserted_rule :: "Counter \<Rightarrow> int \<Rightarrow> change \<Rightarrow> RuleRow" where
  "inserted_rule counter now ch = observed_rule counter now ch
     \<lparr>rr_id = cn_ID counter, rr_kind = [], rr_comment = [], rr_family = [], rr_table = [], rr_chain = [], rr_first_seen_at = now,
      rr_last_seen_at = now, rr_last_packets = [], rr_last_bytes = [], rr_last_packet_delta = [], rr_last_byte_delta = [],
      rr_last_reset = 0, rr_epoch = 0, rr_last_sample_at = now, rr_active = 1\<rparr>"

definition update_rule :: "string \<Rightarrow> (RuleRow \<Rightarrow> RuleRow) \<Rightarrow> Tables \<Rightarrow> Tables" where
  "update_rule ident f t = t\<lparr>tb_rules := map (\<lambda>r. if rr_id r = ident then f r else r) (tb_rules t)\<rparr>"

definition comment_taken :: "string \<Rightarrow> string \<Rightarrow> Tables \<Rightarrow> bool" where
  "comment_taken ident comment t \<longleftrightarrow> list_ex (\<lambda>r. rr_id r \<noteq> ident \<and> rr_comment r = comment) (tb_rules t)"

definition insert_rule :: "RuleRow \<Rightarrow> Tables \<Rightarrow> Tables option" where
  "insert_rule r t =
     (if list_ex (\<lambda>o'. rr_id o' = rr_id r \<or> rr_comment o' = rr_comment r) (tb_rules t) then None
      else Some (t\<lparr>tb_rules := tb_rules t @ [r]\<rparr>))"

definition upsertRuleTx :: "driver \<Rightarrow> Counter \<Rightarrow> int \<Rightarrow> change \<Rightarrow> bool \<Rightarrow> unit tx" where
  "upsertRuleTx driver counter now ch exists =
     (if exists then
        exec driver ''update telemetry rule %q: %w'' [cn_ID counter]
          (\<lambda>t. if comment_taken (cn_ID counter) (cn_Rule counter) t then None
               else Some (update_rule (cn_ID counter) (observed_rule counter now ch) t))
      else exec driver ''insert telemetry rule %q: %w'' [cn_ID counter] (insert_rule (inserted_rule counter now ch)))"

definition sample_row :: "Counter \<Rightarrow> int \<Rightarrow> change \<Rightarrow> SampleRow" where
  "sample_row counter now ch =
     \<lparr>sm_rule_id = cn_ID counter, sm_sampled_at = now, sm_packets = decimal (cn_Packets counter), sm_bytes = decimal (cn_Bytes counter),
      sm_packet_delta = decimal (ch_packetDelta ch), sm_byte_delta = decimal (ch_byteDelta ch), sm_epoch = ch_epoch ch,
      sm_reset = ch_reset ch\<rparr>"

definition insert_sample :: "SampleRow \<Rightarrow> Tables \<Rightarrow> Tables option" where
  "insert_sample row t =
     (if rule_of t (sm_rule_id row) = None then None else Some (t\<lparr>tb_samples := tb_samples t @ [row]\<rparr>))"

definition counterTx :: "driver \<Rightarrow> int \<Rightarrow> Counter \<Rightarrow> unit tx" where
  "counterTx driver now counter =
     bindW (previousRuleTx driver (cn_ID counter)) (\<lambda>previous.
       if pr_exists previous \<and> pr_comment previous \<noteq> cn_Rule counter then
         failW (Errorf ''rule id %q changed comment from %q to %q'' [cn_ID counter, pr_comment previous, cn_Rule counter])
       else let ch = counter_change previous counter in
         bindW (epochTx driver counter now previous ch) (\<lambda>_.
         bindW (upsertRuleTx driver counter now ch (pr_exists previous)) (\<lambda>_.
         exec driver ''record counter sample for %q: %w'' [cn_ID counter] (insert_sample (sample_row counter now ch)))))"

definition retireMissingRulesTx :: "driver \<Rightarrow> string list \<Rightarrow> unit tx" where
  "retireMissingRulesTx driver seen =
     bindW (query driver ''list active telemetry rules: %w'' []
         (\<lambda>t. filter (\<lambda>ident. ident \<notin> set seen) (map rr_id (filter (\<lambda>r. rr_active r = 1) (tb_rules t)))))
       (\<lambda>missing. forW (\<lambda>ident. exec driver ''retire telemetry rule %q: %w'' [ident]
          (\<lambda>t. Some (update_rule ident (\<lambda>r. r\<lparr>rr_active := 0\<rparr>) t))) missing)"

definition pruneTx :: "driver \<Rightarrow> instant \<Rightarrow> unit tx" where
  "pruneTx driver moment =
     (let sampleCutoff = UnixNano (moment - DefaultRawRetention); eventCutoff = UnixNano (moment - EventRetention) in
      forW (exec driver ''prune telemetry retention: %w'' [])
        [\<lambda>t. Some (t\<lparr>tb_samples := filter (\<lambda>r. \<not> sm_sampled_at r < sampleCutoff) (tb_samples t)\<rparr>),
         \<lambda>t. Some (t\<lparr>tb_epochs := filter (\<lambda>r. \<not> ep_started_at r < sampleCutoff) (tb_epochs t)\<rparr>),
         \<lambda>t. Some (t\<lparr>tb_events := filter (\<lambda>r. \<not> ev_observed_at r < eventCutoff) (tb_events t)\<rparr>)])"

definition insert_event :: "int \<Rightarrow> string \<Rightarrow> string \<Rightarrow> string \<Rightarrow> Tables \<Rightarrow> Tables option" where
  "insert_event now fingerprint previous detail t =
     Some (t\<lparr>tb_event_ids := tb_event_ids t + 1,
       tb_events := tb_events t @ [\<lparr>ev_id = tb_event_ids t + 1, ev_observed_at = now, ev_kind = ''ruleset_change'', ev_rule_id = [],
         ev_fingerprint = fingerprint, ev_previous_fingerprint = previous, ev_detail = detail\<rparr>]\<rparr>)"

definition rulesetTx :: "driver \<Rightarrow> int \<Rightarrow> NFTSnapshot \<Rightarrow> unit tx" where
  "rulesetTx driver now snapshot =
     bindW (healthTx driver ''last_fingerprint'') (\<lambda>previous.
       if previous \<noteq> [] \<and> previous \<noteq> ns_Fingerprint snapshot then
         bindW (exec driver ''record ruleset change: %w'' []
             (insert_event now (ns_Fingerprint snapshot) previous (''owned objects changed: '' @ itoa (ns_OwnedObjectCount snapshot))))
           (\<lambda>_. setHealthTx driver ''last_structural_change_at'' (itoa now))
       else pureW ())"

definition recordTx :: "driver \<Rightarrow> instant \<Rightarrow> NFTSnapshot \<Rightarrow> unit tx" where
  "recordTx driver moment snapshot =
     (let now = UnixNano moment in
      bindW (rulesetTx driver now snapshot) (\<lambda>_.
      bindW (forW (counterTx driver now) (ns_Counters snapshot)) (\<lambda>_.
      bindW (retireMissingRulesTx driver (map cn_ID (ns_Counters snapshot))) (\<lambda>_.
      bindW (forW (\<lambda>(key, value). setHealthTx driver key value)
          [(''status'', ''healthy''), (''last_attempt_at'', itoa now), (''last_success_at'', itoa now), (''last_error'', []),
           (''last_fingerprint'', ns_Fingerprint snapshot)]) (\<lambda>_.
      pruneTx driver moment)))))"

definition duplicate_step :: "Counter \<Rightarrow> string list \<Rightarrow> gerror + string list" where
  "duplicate_step counter seen =
     (if cn_ID counter \<in> set seen then Inl (Errorf ''telemetry snapshot contains duplicate rule id %q'' [cn_ID counter])
      else Inr (cn_ID counter # seen))"

definition RecordSnapshot :: "driver \<Rightarrow> instant \<Rightarrow> NFTSnapshot \<Rightarrow> unit tx" where
  "RecordSnapshot driver moment snapshot =
     (if moment = 0 \<or> ns_Fingerprint snapshot = [] then
        failW (Errorf ''telemetry snapshot requires a timestamp and fingerprint'' [])
      else bindW (liftW (foldE duplicate_step (ns_Counters snapshot) [])) (\<lambda>_.
        transaction driver ''begin telemetry sample transaction: %w'' ''commit telemetry sample: %w''
          (recordTx driver moment snapshot)))"

definition RecordHealthError :: "driver \<Rightarrow> instant \<Rightarrow> string option \<Rightarrow> unit tx" where
  "RecordHealthError driver moment collectorErr =
     (case collectorErr of
        None \<Rightarrow> failW (Errorf ''collector error is required'' [])
      | Some text \<Rightarrow>
        transaction driver ''begin telemetry health transaction: %w'' ''commit telemetry health: %w''
          (forW (\<lambda>(key, value). setHealthTx driver key value)
            [(''status'', ''degraded''), (''last_attempt_at'', itoa (UnixNano moment)),
             (''last_error'', take 512 (joinWith '' '' (Fields text)))]))"

section \<open>Queries\<close>

definition boundLimit :: "int \<Rightarrow> int \<Rightarrow> nat" where
  "boundLimit value maximum = nat (if value \<le> 0 \<or> value > maximum then maximum else value)"

record RuleView =
  rv_id :: string
  rv_kind :: string
  rv_comment :: string
  rv_family :: string
  rv_table :: string
  rv_chain :: string
  rv_firstSeen :: instant
  rv_lastSeen :: instant
  rv_packets :: "64 word"
  rv_bytes :: "64 word"
  rv_packetDelta :: "64 word"
  rv_byteDelta :: "64 word"
  rv_reset :: bool
  rv_epoch :: int
  rv_active :: bool

definition parse_column :: "string \<Rightarrow> string \<Rightarrow> gerror + 64 word" where
  "parse_column fmt text = (case parseDecimal text of None \<Rightarrow> Inl (Wrapf fmt [] (parse_error text)) | Some w \<Rightarrow> Inr w)"

definition scanRule :: "RuleRow \<Rightarrow> gerror + RuleView" where
  "scanRule r =
     bindE (parse_column ''decode rule packet counter: %w'' (rr_last_packets r)) (\<lambda>packets.
     bindE (parse_column ''decode rule byte counter: %w'' (rr_last_bytes r)) (\<lambda>bytes.
     bindE (parse_column ''decode rule packet delta: %w'' (rr_last_packet_delta r)) (\<lambda>packetDelta.
     bindE (parse_column ''decode rule byte delta: %w'' (rr_last_byte_delta r)) (\<lambda>byteDelta. Inr
       \<lparr>rv_id = rr_id r, rv_kind = rr_kind r, rv_comment = rr_comment r, rv_family = rr_family r, rv_table = rr_table r,
        rv_chain = rr_chain r, rv_firstSeen = FromUnixNano (rr_first_seen_at r), rv_lastSeen = FromUnixNano (rr_last_seen_at r),
        rv_packets = packets, rv_bytes = bytes, rv_packetDelta = packetDelta, rv_byteDelta = byteDelta,
        rv_reset = (rr_last_reset r \<noteq> 0), rv_epoch = rr_epoch r, rv_active = (rr_active r \<noteq> 0)\<rparr>))))"

definition Rules :: "driver \<Rightarrow> int \<Rightarrow> RuleView list tx" where
  "Rules driver limit =
     bindW (query driver ''read telemetry rules: %w'' [] (\<lambda>t. take (boundLimit limit MaxRuleResults) (sort_key rr_id (tb_rules t))))
       (\<lambda>rows. liftW (mapE scanRule rows))"

record ActivitySample =
  as_At :: instant
  as_Packets :: "64 word"
  as_Bytes :: "64 word"
  as_PacketDelta :: "64 word"
  as_ByteDelta :: "64 word"
  as_Epoch :: int
  as_CounterReset :: bool

definition scan_sample :: "SampleRow \<Rightarrow> gerror + ActivitySample" where
  "scan_sample r =
     bindE (parse_column ''%w'' (sm_packets r)) (\<lambda>packets.
     bindE (parse_column ''%w'' (sm_bytes r)) (\<lambda>bytes.
     bindE (parse_column ''%w'' (sm_packet_delta r)) (\<lambda>packetDelta.
     bindE (parse_column ''%w'' (sm_byte_delta r)) (\<lambda>byteDelta. Inr
       \<lparr>as_At = FromUnixNano (sm_sampled_at r), as_Packets = packets, as_Bytes = bytes, as_PacketDelta = packetDelta,
        as_ByteDelta = byteDelta, as_Epoch = sm_epoch r, as_CounterReset = (sm_reset r \<noteq> 0)\<rparr>))))"

text \<open>Newest first from the database, then reversed in place; two samples of the same time may come in
  either order from SQLite, here in the order of insertion.\<close>

definition Activity :: "driver \<Rightarrow> string \<Rightarrow> instant \<Rightarrow> int \<Rightarrow> ActivitySample list tx" where
  "Activity driver ident since limit =
     bindW (query driver ''read telemetry activity: %w'' [] (\<lambda>t.
         take (boundLimit limit MaxActivityResults)
           (sort_key (\<lambda>r. - sm_sampled_at r) (filter (\<lambda>r. sm_rule_id r = ident \<and> sm_sampled_at r \<ge> UnixNano since) (tb_samples t)))))
       (\<lambda>rows. bindW (liftW (mapE scan_sample rows)) (\<lambda>samples. pureW (rev samples)))"

definition ErrNotExist :: gerror where
  "ErrNotExist = Errorf ''file does not exist'' []"

definition Rule :: "driver \<Rightarrow> string \<Rightarrow> RuleView tx" where
  "Rule driver ident =
     bindW (query driver ''%w'' [] (\<lambda>t. rule_of t ident))
       (\<lambda>row. liftW (case row of None \<Rightarrow> Inl ErrNotExist | Some r \<Rightarrow> scanRule r))"

definition Events :: "driver \<Rightarrow> instant \<Rightarrow> int \<Rightarrow> (EventRow \<times> instant) list tx" where
  "Events driver since limit =
     query driver ''read telemetry events: %w'' [] (\<lambda>t.
       map (\<lambda>r. (r, FromUnixNano (ev_observed_at r)))
         (take (boundLimit limit MaxEventResults)
           (sort_key ev_observed_at (sort_key ev_id (filter (\<lambda>r. ev_observed_at r \<ge> UnixNano since) (tb_events t))))))"

text \<open>SQLite's \<open>CAST(text AS INTEGER)\<close> of a decimal text stops at the largest 64-bit integer, and
  \<open>SUM\<close> fails when it leaves that range.\<close>

definition cast_integer :: "string \<Rightarrow> int" where
  "cast_integer text = (case dec_val text 0 of None \<Rightarrow> 0 | Some n \<Rightarrow> min n (2 ^ 63 - 1))"

definition sql_sum :: "int list \<Rightarrow> int option" where
  "sql_sum xs = (if sum_list xs < 2 ^ 63 then Some (sum_list xs) else None)"

definition overflow_error :: gerror where
  "overflow_error = Errorf ''integer overflow'' []"

definition sums_of :: "SampleRow list \<Rightarrow> gerror + int \<times> int" where
  "sums_of rows =
     (case (sql_sum (map (\<lambda>r. cast_integer (sm_packet_delta r)) rows), sql_sum (map (\<lambda>r. cast_integer (sm_byte_delta r)) rows)) of
        (Some packets, Some bytes) \<Rightarrow> Inr (packets, bytes)
      | _ \<Rightarrow> Inl overflow_error)"

record WindowTotals =
  ws_Window :: string
  ws_AcceptedPackets :: "64 word"
  ws_AcceptedBytes :: "64 word"
  ws_DroppedPackets :: "64 word"
  ws_DroppedBytes :: "64 word"

definition joined :: "Tables \<Rightarrow> instant \<Rightarrow> (SampleRow \<times> RuleRow) list" where
  "joined t since =
     concat (map (\<lambda>s. map (Pair s) (filter (\<lambda>r. rr_id r = sm_rule_id s) (tb_rules t)))
       (filter (\<lambda>s. sm_sampled_at s \<ge> UnixNano since) (tb_samples t)))"

definition add_group :: "string \<times> int \<times> int \<Rightarrow> WindowTotals \<Rightarrow> gerror + WindowTotals" where
  "add_group g totals =
     (case g of (kind, packets, bytes) \<Rightarrow>
        if packets < 0 \<or> bytes < 0 then Inl (Errorf ''telemetry window contains a negative delta'' [])
        else if kind = ''allow'' then
          Inr (totals\<lparr>ws_AcceptedPackets := ws_AcceptedPackets totals + word_of_int packets,
                      ws_AcceptedBytes := ws_AcceptedBytes totals + word_of_int bytes\<rparr>)
        else if kind = ''deny'' \<or> kind = ''drop'' then
          Inr (totals\<lparr>ws_DroppedPackets := ws_DroppedPackets totals + word_of_int packets,
                      ws_DroppedBytes := ws_DroppedBytes totals + word_of_int bytes\<rparr>)
        else Inr totals)"

definition kind_groups :: "(SampleRow \<times> RuleRow) list \<Rightarrow> gerror + (string \<times> int \<times> int) list" where
  "kind_groups rows =
     mapE (\<lambda>kind. bindE (sums_of (map fst (filter (\<lambda>(_, r). rr_kind r = kind) rows))) (\<lambda>sums. Inr (kind, sums)))
       (remdups (map (\<lambda>(_, r). rr_kind r) rows))"

definition WindowSummary :: "driver \<Rightarrow> string \<Rightarrow> instant \<Rightarrow> WindowTotals tx" where
  "WindowSummary driver window since =
     bindW (query driver ''read telemetry window: %w'' [] (\<lambda>t. kind_groups (joined t since))) (\<lambda>groups.
     bindW (liftW groups) (\<lambda>gs.
     liftW (foldE add_group gs
       \<lparr>ws_Window = window, ws_AcceptedPackets = 0, ws_AcceptedBytes = 0, ws_DroppedPackets = 0, ws_DroppedBytes = 0\<rparr>)))"

record SecurityRow =
  sa_ID :: string
  sa_Kind :: string
  sa_Comment :: string
  sa_PacketDelta :: "64 word"
  sa_ByteDelta :: "64 word"

definition rule_key :: "RuleRow \<Rightarrow> string \<times> string \<times> string" where
  "rule_key r = (rr_id r, rr_kind r, rr_comment r)"

definition rule_groups :: "(SampleRow \<times> RuleRow) list \<Rightarrow> gerror + ((string \<times> string \<times> string) \<times> int \<times> int) list" where
  "rule_groups rows =
     mapE (\<lambda>key. bindE (sums_of (map fst (filter (\<lambda>(_, r). rule_key r = key) rows))) (\<lambda>sums. Inr (key, sums)))
       (remdups (map (\<lambda>(_, r). rule_key r) rows))"

definition security_row :: "(string \<times> string \<times> string) \<times> int \<times> int \<Rightarrow> gerror + SecurityRow" where
  "security_row g =
     (case g of ((ident, kind, comment), packets, bytes) \<Rightarrow>
        if packets < 0 \<or> bytes < 0 then Inl (Errorf ''security telemetry contains a negative delta'' [])
        else Inr \<lparr>sa_ID = ident, sa_Kind = kind, sa_Comment = comment, sa_PacketDelta = word_of_int packets,
          sa_ByteDelta = word_of_int bytes\<rparr>)"

definition SecurityActivity :: "driver \<Rightarrow> instant \<Rightarrow> SecurityRow list tx" where
  "SecurityActivity driver since =
     bindW (query driver ''read security telemetry activity: %w'' []
         (\<lambda>t. rule_groups (filter (\<lambda>(_, r). rr_kind r \<in> {''deny'', ''drop''}) (joined t since)))) (\<lambda>groups.
     bindW (liftW groups) (\<lambda>gs.
     liftW (mapE security_row (take MaxSecurityResults
       (sort_key (\<lambda>(_, packets, _). - packets) (sort_key (\<lambda>(key, _). fst key)
         (filter (\<lambda>(_, packets, bytes). packets > 0 \<or> bytes > 0) gs)))))))"

record Health =
  he_Status :: string
  he_LastAttemptAt :: "instant option"
  he_LastSuccessAt :: "instant option"
  he_SampleAge :: "int option"
  he_LastStructuralChangeAt :: "instant option"
  he_LastFingerprint :: string
  he_LastError :: string

text \<open>The sample age is kept as a duration; the code reports its whole seconds.\<close>

definition CollectorHealth :: "driver \<Rightarrow> instant \<Rightarrow> Health tx" where
  "CollectorHealth driver moment =
     bindW (query driver ''read telemetry health: %w'' [] tb_health) (\<lambda>values.
       let value = (\<lambda>key. case map_of values key of None \<Rightarrow> [] | Some v \<Rightarrow> v);
           success = parseTimestamp (value ''last_success_at'');
           age = map_option (\<lambda>at'. max 0 (moment - at')) success;
           stale = (case age of None \<Rightarrow> False | Some a \<Rightarrow> a > SampleStaleAfter);
           status = (if value ''status'' = [] then ''starting'' else value ''status'')
       in pureW \<lparr>he_Status = (if stale then ''degraded'' else status),
            he_LastAttemptAt = parseTimestamp (value ''last_attempt_at''), he_LastSuccessAt = success, he_SampleAge = age,
            he_LastStructuralChangeAt = parseTimestamp (value ''last_structural_change_at''),
            he_LastFingerprint = value ''last_fingerprint'',
            he_LastError = (if stale \<and> value ''last_error'' = [] then ''last telemetry sample is stale'' else value ''last_error'')\<rparr>)"

end
