(* ===== verification/Telemetry_Correct.thy ===== *)
theory Telemetry_Correct
  imports Telemetry
begin

text \<open>
  What recording does to the store.  A recording is all or nothing; a successful one leaves each observed
  rule with the values of its counter and the differences to the previous sample, which never wrap, and
  retires the rules that were not seen.  In every run, under any failures of the database, the tables keep
  their invariant, and with it a recording fails only for a reason given by the snapshot or the driver.
\<close>

section \<open>Decimal texts\<close>

lemma dec_val_append: "dec_val (xs @ ys) n = (case dec_val xs n of None \<Rightarrow> None | Some m \<Rightarrow> dec_val ys m)"
  by (induction xs arbitrary: n) auto

lemma digit_char: "k < 10 \<Longrightarrow> is_digit (char_of (48 + k)) \<and> digit_val (char_of (48 + k)) = k"
  by (simp add: is_digit_code digit_val_def of_char_of)

lemma dec_val_digits: "dec_val (nat_digits n) 0 = Some (int n) \<and> nat_digits n \<noteq> []"
proof (induction n rule: nat_digits.induct)
  case (1 n)
  show ?case
  proof (cases "n < 10")
    case True
    then show ?thesis using digit_char [OF True] by (simp add: nat_digits.simps [of n])
  next
    case False
    have "int n = 10 * int (n div 10) + int (n mod 10)" by presburger
    then show ?thesis
      using 1 [OF False] digit_char [of "n mod 10"] False by (simp add: nat_digits.simps [of n] dec_val_append)
  qed
qed

lemma parseDecimal_decimal [simp]: "parseDecimal (decimal w) = Some w"
proof -
  have "unat w < 2 ^ 64" using unsigned_less [where ?'a = nat, of w] by simp
  then have "int (unat w) < int (2 ^ 64)" by (simp only: of_nat_less_iff)
  then have "int (unat w) < 2 ^ 64" by simp
  then show ?thesis using dec_val_digits [of "unat w"] by (simp add: parseDecimal_def decimal_def)
qed

lemma word_difference: "v \<le> w \<Longrightarrow> unat (w - v) + unat v = unat w" for v w :: "64 word"
  by (simp add: unat_sub word_le_nat_alt)

section \<open>Statements\<close>

lemma exec_Inr:
  "exec d fmt args f w = (Inr u, w') \<longleftrightarrow> d (snd w) = None \<and> Some (fst w') = f (fst w) \<and> snd w' = snd w + 1"
  by (cases w') (auto simp: exec_def split: option.split)

lemma query_Inr:
  "query d fmt args f w = (Inr x, w') \<longleftrightarrow> d (snd w) = None \<and> x = f (fst w) \<and> fst w' = fst w \<and> snd w' = snd w + 1"
  by (cases w') (auto simp: query_def split: option.split)

lemma liftW_Inr: "liftW r w = (Inr x, w') \<longleftrightarrow> r = Inr x \<and> w' = w"
  by (auto simp: liftW_def)

lemma pureW_Inr: "pureW y w = (Inr x, w') \<longleftrightarrow> x = y \<and> w' = w"
  by (auto simp: pureW_def)

lemma failW_Inr: "failW e w \<noteq> (Inr x, w')"
  by (simp add: failW_def)

lemmas tx_Inr = bindW_Inr exec_Inr query_Inr liftW_Inr pureW_Inr failW_Inr

lemma transaction_rollback:
  "transaction d b c body w = (result, w') \<Longrightarrow>
   (case result of Inl _ \<Rightarrow> fst w' = fst w | Inr _ \<Rightarrow> \<exists>u w1. body (fst w, snd w + 1) = (Inr u, w1) \<and> fst w' = fst w1)"
  by (fastforce simp: transaction_def split: option.split_asm prod.split_asm sum.split_asm)

lemma forW_fold:
  assumes "\<And>x t n u w'. x \<in> set xs \<Longrightarrow> f x (t, n) = (Inr u, w') \<Longrightarrow> fst w' = g x t"
  shows "forW f xs (t, n) = (Inr u, w') \<Longrightarrow> fst w' = fold g xs t"
  using assms
proof (induction xs arbitrary: t n)
  case (Cons x xs)
  from Cons.prems(1) obtain v w1 where step: "f x (t, n) = (Inr v, w1)" and rest: "forW f xs w1 = (Inr u, w')"
    by (auto simp: bindW_Inr)
  have "fst w1 = g x t" by (rule Cons.prems(2) [OF _ step]) simp
  moreover have "fst w' = fold g xs (fst w1)"
    by (rule Cons.IH [of "fst w1" "snd w1"]) (use rest Cons.prems(2) in auto)
  ultimately show ?case by simp
qed (auto simp: pureW_def)

section \<open>Rules by identifier\<close>

lemma rule_of_id: "rule_of t i = Some r \<Longrightarrow> rr_id r = i \<and> r \<in> set (tb_rules t)"
  by (auto simp: rule_of_def find_Some_iff)

lemma rule_of_None: "rule_of t i = None \<longleftrightarrow> i \<notin> rr_id ` set (tb_rules t)"
  by (auto simp: rule_of_def find_None_iff)

lemma rule_of_update:
  assumes "\<And>r. rr_id (f r) = rr_id r"
  shows "rule_of (update_rule i f t) j = (if j = i then map_option f (rule_of t j) else rule_of t j)"
proof -
  have "find (\<lambda>r. rr_id r = j) (map (\<lambda>r. if rr_id r = i then f r else r) rs) =
      (if j = i then map_option f (find (\<lambda>r. rr_id r = j) rs) else find (\<lambda>r. rr_id r = j) rs)" for rs
    by (induction rs) (auto simp: assms)
  then show ?thesis by (simp add: rule_of_def update_rule_def)
qed

lemma find_append: "find P (xs @ ys) = (case find P xs of None \<Rightarrow> find P ys | Some x \<Rightarrow> Some x)"
  by (induction xs) auto

lemma observed_rule_id [simp]: "rr_id (observed_rule c now ch r) = rr_id r"
  by (simp add: observed_rule_def)

lemma inserted_rule_id [simp]: "rr_id (inserted_rule c now ch) = cn_ID c"
  by (simp add: inserted_rule_def)

lemma rule_comments [simp]:
  "rr_comment (observed_rule c now ch r) = cn_Rule c" "rr_comment (inserted_rule c now ch) = cn_Rule c"
  by (simp_all add: observed_rule_def inserted_rule_def)

section \<open>One counter\<close>

definition previous :: "Tables \<Rightarrow> Counter \<Rightarrow> previousRule" where
  "previous t c = (case previous_of (cn_ID c) (rule_of t (cn_ID c)) of Inl _ \<Rightarrow> no_previous | Inr p \<Rightarrow> p)"

definition change_of :: "Tables \<Rightarrow> Counter \<Rightarrow> change" where
  "change_of t c = counter_change (previous t c) c"

definition next_rule :: "Tables \<Rightarrow> int \<Rightarrow> Counter \<Rightarrow> RuleRow" where
  "next_rule t now c =
     (case rule_of t (cn_ID c) of
        None \<Rightarrow> inserted_rule c now (change_of t c)
      | Some r \<Rightarrow> observed_rule c now (change_of t c) r)"

definition apply_counter :: "int \<Rightarrow> Counter \<Rightarrow> Tables \<Rightarrow> Tables" where
  "apply_counter now c t =
     t\<lparr>tb_epochs := tb_epochs t @ (if ch_reset (change_of t c) = 0 then [] else [epoch_row c now (previous t c) (change_of t c)]),
       tb_rules := (if rule_of t (cn_ID c) = None then tb_rules t @ [next_rule t now c]
         else map (\<lambda>r. if rr_id r = cn_ID c then observed_rule c now (change_of t c) r else r) (tb_rules t)),
       tb_samples := tb_samples t @ [sample_row c now (change_of t c)]\<rparr>"

lemma previous_exists: "previous_of i row = Inr p \<Longrightarrow> pr_exists p \<longleftrightarrow> row \<noteq> None"
  by (auto simp: previous_of_def split: option.split_asm)

lemma counter_success:
  assumes "counterTx d now c (t, n) = (Inr u, w')"
  shows "fst w' = apply_counter now c t"
    and "(\<exists>r. rule_of t (cn_ID c) = Some r \<and> rr_comment r = cn_Rule c \<and> \<not> comment_taken (cn_ID c) (cn_Rule c) t) \<or>
      rule_of t (cn_ID c) = None \<and> cn_Rule c \<notin> rr_comment ` set (tb_rules t)"
    and "ch_reset (change_of t c) \<noteq> 0 \<Longrightarrow>
      (cn_ID c, ch_epoch (change_of t c)) \<notin> (\<lambda>e. (ep_rule_id e, ep_epoch e)) ` set (tb_epochs t)"
proof -
  from assms obtain p where p: "previous_of (cn_ID c) (rule_of t (cn_ID c)) = Inr p"
    by (auto simp: counterTx_def previousRuleTx_def tx_Inr)
  then have prev: "previous t c = p" "change_of t c = counter_change p c" by (simp_all add: previous_def change_of_def)
  note exists = previous_exists [OF p]
  have row: "pr_comment p = rr_comment r" if "rule_of t (cn_ID c) = Some r" for r
    using p that by (auto simp: previous_of_def split: option.split_asm)
  note unfolded = assms [unfolded counterTx_def previousRuleTx_def epochTx_def upsertRuleTx_def Let_def] and parts = p exists row prev
  show "fst w' = apply_counter now c t"
    unfolding apply_counter_def next_rule_def prev
    using unfolded p exists row
    by (cases "rule_of t (cn_ID c)")
      (auto simp: tx_Inr insert_epoch_def insert_rule_def insert_sample_def update_rule_def split: if_split_asm)
  show "(\<exists>r. rule_of t (cn_ID c) = Some r \<and> rr_comment r = cn_Rule c \<and> \<not> comment_taken (cn_ID c) (cn_Rule c) t) \<or>
      rule_of t (cn_ID c) = None \<and> cn_Rule c \<notin> rr_comment ` set (tb_rules t)"
    using unfolded parts
    by (cases "rule_of t (cn_ID c)")
      (auto simp: tx_Inr insert_epoch_def insert_rule_def comment_taken_def list_ex_iff split: if_split_asm)
  show "ch_reset (change_of t c) \<noteq> 0 \<Longrightarrow>
      (cn_ID c, ch_epoch (change_of t c)) \<notin> (\<lambda>e. (ep_rule_id e, ep_epoch e)) ` set (tb_epochs t)"
    using unfolded parts by (auto simp: tx_Inr insert_epoch_def epoch_row_def split: if_split_asm)
qed

lemma rule_of_apply:
  "rule_of (apply_counter now c t) = (rule_of t)(cn_ID c \<mapsto> next_rule t now c)"
proof
  fix i
  show "rule_of (apply_counter now c t) i = ((rule_of t)(cn_ID c \<mapsto> next_rule t now c)) i"
  proof (cases "rule_of t (cn_ID c)")
    case None
    then have "rule_of (apply_counter now c t) i = (case rule_of t i of None \<Rightarrow> find (\<lambda>r. rr_id r = i) [next_rule t now c] | Some r \<Rightarrow> Some r)"
      by (simp add: apply_counter_def rule_of_def find_append)
    moreover have "rr_id (next_rule t now c) = cn_ID c" using None by (simp add: next_rule_def)
    ultimately show ?thesis using None by (auto split: option.split)
  next
    case (Some r)
    have "rule_of (apply_counter now c t) i = rule_of (update_rule (cn_ID c) (observed_rule c now (change_of t c)) t) i"
      using Some by (simp add: apply_counter_def rule_of_def update_rule_def)
    then show ?thesis using Some by (simp add: rule_of_update next_rule_def)
  qed
qed

section \<open>The invariant of the tables\<close>

definition rule_ok :: "RuleRow \<Rightarrow> bool" where
  "rule_ok r \<longleftrightarrow> (\<exists>p b. rr_last_packets r = decimal p \<and> rr_last_bytes r = decimal b) \<and> rr_active r \<in> {0, 1}"

definition sample_ok :: "SampleRow \<Rightarrow> bool" where
  "sample_ok s \<longleftrightarrow> (\<exists>p b pd bd. sm_packets s = decimal p \<and> sm_bytes s = decimal b \<and> sm_packet_delta s = decimal pd \<and>
     sm_byte_delta s = decimal bd \<and> pd \<le> p \<and> bd \<le> b \<and> (sm_reset s \<noteq> 0 \<longrightarrow> pd = 0 \<and> bd = 0))"

definition tables_ok :: "Tables \<Rightarrow> bool" where
  "tables_ok t \<longleftrightarrow>
     distinct (map rr_id (tb_rules t)) \<and> distinct (map rr_comment (tb_rules t)) \<and> list_all rule_ok (tb_rules t) \<and>
     list_all (\<lambda>s. sample_ok s \<and> rule_of t (sm_rule_id s) \<noteq> None) (tb_samples t) \<and>
     distinct (map (\<lambda>e. (ep_rule_id e, ep_epoch e)) (tb_epochs t)) \<and>
     list_all (\<lambda>e. \<exists>r. rule_of t (ep_rule_id e) = Some r \<and> ep_epoch e \<le> rr_epoch r) (tb_epochs t)"

lemma previous_ok:
  assumes "tables_ok t"
  shows "previous_of (cn_ID c) (rule_of t (cn_ID c)) = Inr (previous t c)"
    and "rule_of t (cn_ID c) = Some r \<Longrightarrow> pr_epoch (previous t c) = rr_epoch r \<and> pr_exists (previous t c) \<and>
      pr_comment (previous t c) = rr_comment r"
    and "rule_of t (cn_ID c) = None \<Longrightarrow> previous t c = no_previous"
proof -
  have "\<exists>p b. rr_last_packets r = decimal p \<and> rr_last_bytes r = decimal b" if "rule_of t (cn_ID c) = Some r" for r
    using assms rule_of_id [OF that] by (auto simp: tables_ok_def list_all_iff rule_ok_def)
  then show "previous_of (cn_ID c) (rule_of t (cn_ID c)) = Inr (previous t c)"
    and "rule_of t (cn_ID c) = Some r \<Longrightarrow> pr_epoch (previous t c) = rr_epoch r \<and> pr_exists (previous t c) \<and>
      pr_comment (previous t c) = rr_comment r"
    and "rule_of t (cn_ID c) = None \<Longrightarrow> previous t c = no_previous"
    by (cases "rule_of t (cn_ID c)"; fastforce simp: previous_def previous_of_def)+
qed

lemma change_deltas:
  shows "ch_packetDelta (counter_change p c) \<le> cn_Packets c" "ch_byteDelta (counter_change p c) \<le> cn_Bytes c"
    "ch_reset (counter_change p c) \<noteq> 0 \<Longrightarrow> ch_packetDelta (counter_change p c) = 0 \<and> ch_byteDelta (counter_change p c) = 0"
    "ch_reset (counter_change p c) \<noteq> 0 \<Longrightarrow> ch_epoch (counter_change p c) = pr_epoch p + 1"
    "pr_exists p \<Longrightarrow> pr_epoch p \<le> ch_epoch (counter_change p c)"
  by (auto simp: counter_change_def word_sub_le not_less split: if_split_asm)

lemma next_rule_ok [simp]:
  "rr_id (next_rule t now c) = cn_ID c" "rr_comment (next_rule t now c) = cn_Rule c" "rule_ok (next_rule t now c)"
  "rr_epoch (next_rule t now c) = ch_epoch (change_of t c)" "rr_active (next_rule t now c) = 1"
  by (auto simp: next_rule_def rule_ok_def inserted_rule_def observed_rule_def dest: rule_of_id split: option.split)

lemma sample_row_ok [simp]: "sample_ok (sample_row c now (change_of t c))" "sm_rule_id (sample_row c now ch) = cn_ID c"
  using change_deltas [of "previous t c" c] by (auto simp: sample_ok_def sample_row_def change_of_def)

lemma rules_apply_keys:
  assumes "tables_ok t"
    and "(\<exists>r. rule_of t (cn_ID c) = Some r \<and> rr_comment r = cn_Rule c \<and> \<not> comment_taken (cn_ID c) (cn_Rule c) t) \<or>
      rule_of t (cn_ID c) = None \<and> cn_Rule c \<notin> rr_comment ` set (tb_rules t)"
  shows "distinct (map rr_id (tb_rules (apply_counter now c t))) \<and> distinct (map rr_comment (tb_rules (apply_counter now c t))) \<and>
    list_all rule_ok (tb_rules (apply_counter now c t)) \<and>
    set (map (\<lambda>r. (rr_id r, rr_comment r)) (tb_rules (apply_counter now c t))) =
      insert (cn_ID c, cn_Rule c) (set (map (\<lambda>r. (rr_id r, rr_comment r)) (tb_rules t)))"
proof (cases "rule_of t (cn_ID c)")
  case None
  then have "cn_ID c \<notin> rr_id ` set (tb_rules t)" "cn_Rule c \<notin> rr_comment ` set (tb_rules t)"
    using assms(2) rule_of_None [of t "cn_ID c"] None by auto
  then show ?thesis using assms(1) None by (auto simp: apply_counter_def tables_ok_def)
next
  case (Some r)
  note r = rule_of_id [OF Some]
  let ?f = "\<lambda>r. if rr_id r = cn_ID c then observed_rule c now (change_of t c) r else r"
  have only: "x = r" if "x \<in> set (tb_rules t)" "rr_id x = cn_ID c" for x
    using assms(1) that r unfolding tables_ok_def distinct_map by (metis inj_onD)
  have comment: "rr_comment r = cn_Rule c" using assms(2) Some by auto
  have ids: "map rr_id (map ?f (tb_rules t)) = map rr_id (tb_rules t)" by auto
  have comments: "map rr_comment (map ?f (tb_rules t)) = map rr_comment (tb_rules t)" using only comment by auto
  have "rule_ok (?f x)" if "x \<in> set (tb_rules t)" for x
    using assms(1) that by (auto simp: tables_ok_def list_all_iff rule_ok_def observed_rule_def)
  then have ok: "list_all rule_ok (map ?f (tb_rules t))" unfolding list_all_iff list.set_map by blast
  have pairs: "map (\<lambda>r. (rr_id r, rr_comment r)) (map ?f (tb_rules t)) = map (\<lambda>r. (rr_id r, rr_comment r)) (tb_rules t)"
    using only comment by auto
  have "(cn_ID c, cn_Rule c) \<in> set (map (\<lambda>r. (rr_id r, rr_comment r)) (tb_rules t))"
    using r comment by force
  then have absorbed: "insert (cn_ID c, cn_Rule c) (set (map (\<lambda>r. (rr_id r, rr_comment r)) (tb_rules t))) =
      set (map (\<lambda>r. (rr_id r, rr_comment r)) (tb_rules t))" by (rule insert_absorb)
  have rules: "tb_rules (apply_counter now c t) = map ?f (tb_rules t)" using Some by (simp add: apply_counter_def)
  show ?thesis
    unfolding rules ids comments pairs absorbed using assms(1) ok by (simp only: tables_ok_def)
qed

lemma apply_counter_ok:
  assumes "tables_ok t"
    and "(\<exists>r. rule_of t (cn_ID c) = Some r \<and> rr_comment r = cn_Rule c \<and> \<not> comment_taken (cn_ID c) (cn_Rule c) t) \<or>
      rule_of t (cn_ID c) = None \<and> cn_Rule c \<notin> rr_comment ` set (tb_rules t)"
    and fresh: "ch_reset (change_of t c) \<noteq> 0 \<Longrightarrow>
      (cn_ID c, ch_epoch (change_of t c)) \<notin> (\<lambda>e. (ep_rule_id e, ep_epoch e)) ` set (tb_epochs t)"
  shows "tables_ok (apply_counter now c t)"
proof -
  note rules = rules_apply_keys [OF assms(1,2), of now] and lookup = rule_of_apply [of now c t]
  let ?new = "if ch_reset (change_of t c) = 0 then [] else [epoch_row c now (previous t c) (change_of t c)]"
  have samples: "list_all (\<lambda>s. sample_ok s \<and> rule_of (apply_counter now c t) (sm_rule_id s) \<noteq> None) (tb_samples (apply_counter now c t))"
    using assms(1) unfolding lookup by (auto simp: apply_counter_def tables_ok_def list_all_iff)
  have keys: "distinct (map (\<lambda>e. (ep_rule_id e, ep_epoch e)) (tb_epochs t @ ?new))"
    using assms(1) fresh by (auto simp: tables_ok_def epoch_row_def)
  have old: "\<exists>r. rule_of (apply_counter now c t) (ep_rule_id e) = Some r \<and> ep_epoch e \<le> rr_epoch r" if "e \<in> set (tb_epochs t)" for e
  proof -
    from assms(1) that obtain r where r: "rule_of t (ep_rule_id e) = Some r" "ep_epoch e \<le> rr_epoch r"
      by (auto simp: tables_ok_def list_all_iff)
    then have "ep_rule_id e = cn_ID c \<Longrightarrow> rr_epoch r \<le> ch_epoch (change_of t c)"
      using previous_ok(2) [OF assms(1), of c r] change_deltas(5) [of "previous t c" c] by (simp add: change_of_def)
    then show ?thesis using r unfolding lookup by auto
  qed
  have new: "\<exists>r. rule_of (apply_counter now c t) (ep_rule_id e) = Some r \<and> ep_epoch e \<le> rr_epoch r" if "e \<in> set ?new" for e
    using that unfolding lookup by (auto simp: epoch_row_def split: if_split_asm)
  have "tb_epochs (apply_counter now c t) = tb_epochs t @ ?new" by (simp add: apply_counter_def)
  then show ?thesis using rules samples keys old new unfolding tables_ok_def list_all_iff by auto
qed

section \<open>The stages of a recording\<close>

lemma counters_success:
  "forW (counterTx d now) cs (t, n) = (Inr u, w') \<Longrightarrow> tables_ok t \<Longrightarrow>
   fst w' = fold (apply_counter now) cs t \<and> tables_ok (fst w')"
proof (induction cs arbitrary: t n)
  case (Cons c cs)
  from Cons.prems(1) obtain v w1 where step: "counterTx d now c (t, n) = (Inr v, w1)" and rest: "forW (counterTx d now) cs w1 = (Inr u, w')"
    by (auto simp: bindW_Inr)
  note facts = counter_success [OF step]
  have "tables_ok (fst w1)" unfolding facts(1) by (rule apply_counter_ok [OF Cons.prems(2) facts(2,3)])
  moreover have "forW (counterTx d now) cs (fst w1, snd w1) = (Inr u, w')" using rest by simp
  ultimately have "fst w' = fold (apply_counter now) cs (fst w1) \<and> tables_ok (fst w')" by (intro Cons.IH)
  then show ?case by (elim conjE) (simp add: facts(1))
qed (auto simp: pureW_def)

lemma same_previous:
  "rule_of t (cn_ID c) = rule_of t' (cn_ID c) \<Longrightarrow> change_of t c = change_of t' c \<and> next_rule t now c = next_rule t' now c"
proof -
  assume same: "rule_of t (cn_ID c) = rule_of t' (cn_ID c)"
  then have "change_of t c = change_of t' c" by (simp add: change_of_def previous_def)
  with same show ?thesis by (simp add: next_rule_def cong: option.case_cong)
qed

lemma fold_counters:
  assumes "distinct (map cn_ID cs)"
  shows "rule_of (fold (apply_counter now) cs t) i =
      (case find (\<lambda>c. cn_ID c = i) cs of None \<Rightarrow> rule_of t i | Some c \<Rightarrow> Some (next_rule t now c)) \<and>
    tb_samples (fold (apply_counter now) cs t) = tb_samples t @ map (\<lambda>c. sample_row c now (change_of t c)) cs"
  using assms
proof (induction cs arbitrary: t)
  case (Cons c cs)
  let ?t = "apply_counter now c t"
  have "change_of ?t c' = change_of t c' \<and> next_rule ?t now c' = next_rule t now c'" if "c' \<in> set cs" for c'
  proof (rule same_previous)
    have "cn_ID c' \<in> set (map cn_ID cs)" using that by simp
    then have "cn_ID c' \<noteq> cn_ID c" using Cons.prems by (metis distinct.simps(2) list.simps(9))
    then show "rule_of ?t (cn_ID c') = rule_of t (cn_ID c')" by (simp add: rule_of_apply)
  qed
  then have same: "map (\<lambda>c. sample_row c now (change_of ?t c)) cs = map (\<lambda>c. sample_row c now (change_of t c)) cs"
    "\<And>c'. find (\<lambda>c. cn_ID c = i) cs = Some c' \<Longrightarrow> next_rule ?t now c' = next_rule t now c'"
    by (auto simp: find_Some_iff)
  have "tb_samples ?t = tb_samples t @ [sample_row c now (change_of t c)]" by (simp add: apply_counter_def)
  moreover have "find (\<lambda>c. cn_ID c = i) cs = None" if "cn_ID c = i" using Cons.prems that unfolding find_None_iff by (simp add: image_iff) metis
  ultimately show ?case
    using Cons.IH [of ?t] Cons.prems same by (auto simp: rule_of_apply split: option.split)
qed simp

text \<open>Statements that leave rules, samples and epochs alone.\<close>

definition untouched :: "Tables \<Rightarrow> Tables \<Rightarrow> bool" where
  "untouched t t' \<longleftrightarrow> tb_rules t' = tb_rules t \<and> tb_samples t' = tb_samples t \<and> tb_epochs t' = tb_epochs t"

lemma untouched_ok: "untouched t t' \<Longrightarrow> tables_ok t' = tables_ok t" "untouched t t' \<Longrightarrow> rule_of t' = rule_of t"
  by (simp_all add: untouched_def tables_ok_def rule_of_def fun_eq_iff)

lemma health_success:
  assumes "forW (\<lambda>(key, value). setHealthTx d key value) kvs (t, n) = (Inr u, w')"
  shows "untouched t (fst w')"
proof -
  have "fst w' = fold (\<lambda>(k, v). set_health k v) kvs t"
    by (rule forW_fold [OF _ assms]) (auto simp: setHealthTx_def exec_Inr)
  moreover have "untouched t (fold (\<lambda>(k, v). set_health k v) kvs t)" for kvs
    by (induction kvs arbitrary: t) (auto simp: untouched_def set_health_def)
  ultimately show ?thesis by simp
qed

lemma ruleset_success:
  assumes "rulesetTx d now snapshot (t, n) = (Inr u, w')"
  shows "untouched t (fst w')"
proof -
  obtain p m where "healthTx d ''last_fingerprint'' (t, n) = (Inr p, t, m)" by (simp add: healthTx_def)
  then show ?thesis
    using assms unfolding rulesetTx_def
    by (auto simp: tx_Inr setHealthTx_def insert_event_def set_health_def untouched_def split: if_split_asm)
qed

abbreviation "retired r \<equiv> r\<lparr>rr_active := 0\<rparr>"

lemma fold_retire:
  "rule_of (fold (\<lambda>i. update_rule i retired) is t) j = (if j \<in> set is then map_option retired (rule_of t j) else rule_of t j) \<and>
   tb_samples (fold (\<lambda>i. update_rule i retired) is t) = tb_samples t \<and> tb_epochs (fold (\<lambda>i. update_rule i retired) is t) = tb_epochs t \<and>
   map rr_id (tb_rules (fold (\<lambda>i. update_rule i retired) is t)) = map rr_id (tb_rules t) \<and>
   map rr_comment (tb_rules (fold (\<lambda>i. update_rule i retired) is t)) = map rr_comment (tb_rules t) \<and>
   (list_all rule_ok (tb_rules t) \<longrightarrow> list_all rule_ok (tb_rules (fold (\<lambda>i. update_rule i retired) is t)))"
proof (induction "is" arbitrary: t)
  case (Cons i "is")
  have keys: "map rr_id (tb_rules (update_rule i retired t)) = map rr_id (tb_rules t)"
    "map rr_comment (tb_rules (update_rule i retired t)) = map rr_comment (tb_rules t)"
    by (auto simp: update_rule_def)
  have ok: "list_all rule_ok (tb_rules t) \<longrightarrow> list_all rule_ok (tb_rules (update_rule i retired t))"
    by (auto simp: update_rule_def list_all_iff rule_ok_def)
  have "rule_of (update_rule i retired t) j = (if j = i then map_option retired (rule_of t j) else rule_of t j)"
    by (rule rule_of_update) simp
  moreover have "map_option retired (map_option retired x) = map_option retired x" for x by (cases x) simp_all
  ultimately show ?case
    using Cons.IH [of "update_rule i retired t"] keys ok by (auto simp: update_rule_def)
qed simp

lemma retire_success:
  assumes "retireMissingRulesTx d seen (t, n) = (Inr u, w')" "tables_ok t"
  shows "rule_of (fst w') i = (if i \<in> set seen then rule_of t i else map_option retired (rule_of t i))"
    "tb_samples (fst w') = tb_samples t" "tables_ok (fst w')"
proof -
  define missing where "missing = filter (\<lambda>i. i \<notin> set seen) (map rr_id (filter (\<lambda>r. rr_active r = 1) (tb_rules t)))"
  from assms(1) obtain v w1 where w1: "fst w1 = t" and loop: "forW (\<lambda>ident. exec d ''retire telemetry rule %q: %w'' [ident]
      (\<lambda>t. Some (update_rule ident retired t))) missing w1 = (Inr v, w')"
    by (auto simp: retireMissingRulesTx_def tx_Inr missing_def)
  have "fst w' = fold (\<lambda>i. update_rule i retired) missing (fst w1)"
    by (rule forW_fold [of _ _ _ _ "snd w1" v]) (use loop in \<open>auto simp: exec_Inr\<close>)
  then have w': "fst w' = fold (\<lambda>i. update_rule i retired) missing t" by (simp add: w1)
  note facts = fold_retire [of missing t, folded w']
  have inactive: "map_option retired (rule_of t i) = rule_of t i" if "i \<notin> set missing" "i \<notin> set seen" for i
  proof (cases "rule_of t i")
    case (Some r)
    then have "r \<in> set (tb_rules t)" "rr_id r = i" using rule_of_id by auto
    then have "rr_active r = 0"
      using assms(2) that by (auto simp: missing_def tables_ok_def list_all_iff rule_ok_def)
    then show ?thesis using Some by simp
  qed simp
  have seen: "i \<notin> set missing" if "i \<in> set seen" for i using that by (simp add: missing_def)
  show "rule_of (fst w') i = (if i \<in> set seen then rule_of t i else map_option retired (rule_of t i))"
    using facts inactive [of i] seen [of i] by auto
  show "tb_samples (fst w') = tb_samples t" using facts by blast
  have kept: "rule_of (fst w') j = Some (retired r) \<or> rule_of (fst w') j = Some r" if "rule_of t j = Some r" for j r
    using fold_retire [of missing t j, folded w'] that by (auto split: if_split_asm)
  have some: "rule_of (fst w') j \<noteq> None" if "rule_of t j \<noteq> None" for j
    using kept that by fastforce
  have epoch: "\<exists>r'. rule_of (fst w') j = Some r' \<and> e \<le> rr_epoch r'" if "\<exists>r. rule_of t j = Some r \<and> e \<le> rr_epoch r" for j e
    using kept that by fastforce
  show "tables_ok (fst w')"
    using assms(2) facts some epoch unfolding tables_ok_def list_all_iff by simp
qed

lemma prune_success:
  assumes "pruneTx d moment (t, n) = (Inr u, w')"
  shows "tb_rules (fst w') = tb_rules t"
    "tb_samples (fst w') = filter (\<lambda>s. UnixNano (moment - DefaultRawRetention) \<le> sm_sampled_at s) (tb_samples t)"
    "tb_epochs (fst w') = filter (\<lambda>e. UnixNano (moment - DefaultRawRetention) \<le> ep_started_at e) (tb_epochs t)"
  using assms by (auto simp: pruneTx_def Let_def tx_Inr not_less)

lemma prune_ok:
  assumes "pruneTx d moment (t, n) = (Inr u, w')" "tables_ok t"
  shows "tables_ok (fst w')" "rule_of (fst w') = rule_of t"
proof -
  show lookup: "rule_of (fst w') = rule_of t" using prune_success(1) [OF assms(1)] by (simp add: rule_of_def fun_eq_iff)
  show "tables_ok (fst w')"
    using assms(2) prune_success [OF assms(1)] unfolding tables_ok_def lookup
    by (auto simp: list_all_iff distinct_map intro: inj_on_subset)
qed

section \<open>Recording\<close>

lemma record_stages:
  assumes "recordTx d moment snapshot (t, n) = (Inr u, w')" "tables_ok t" "distinct (map cn_ID (ns_Counters snapshot))"
  shows "tables_ok (fst w')"
    "rule_of (fst w') i = (case find (\<lambda>c. cn_ID c = i) (ns_Counters snapshot) of
       None \<Rightarrow> map_option retired (rule_of t i) | Some c \<Rightarrow> Some (next_rule t (UnixNano moment) c))"
    "tb_samples (fst w') = filter (\<lambda>s. UnixNano (moment - DefaultRawRetention) \<le> sm_sampled_at s)
       (tb_samples t @ map (\<lambda>c. sample_row c (UnixNano moment) (change_of t c)) (ns_Counters snapshot))"
proof -
  let ?now = "UnixNano moment" and ?cs = "ns_Counters snapshot"
  from assms(1) obtain w1 w2 w3 w4 where
    1: "rulesetTx d ?now snapshot (t, n) = (Inr (), w1)" and 2: "forW (counterTx d ?now) ?cs w1 = (Inr (), w2)"
    and 3: "retireMissingRulesTx d (map cn_ID ?cs) w2 = (Inr (), w3)"
    and 4: "forW (\<lambda>(key, value). setHealthTx d key value)
        [(''status'', ''healthy''), (''last_attempt_at'', itoa ?now), (''last_success_at'', itoa ?now), (''last_error'', []),
         (''last_fingerprint'', ns_Fingerprint snapshot)] w3 = (Inr (), w4)"
    and 5: "pruneTx d moment w4 = (Inr (), w')"
    unfolding recordTx_def Let_def bindW_Inr by auto
  have u1: "untouched t (fst w1)" by (rule ruleset_success [OF 1])
  note same1 = untouched_ok [OF u1]
  have 2: "forW (counterTx d ?now) ?cs (fst w1, snd w1) = (Inr (), w2)" using 2 by simp
  have "tables_ok (fst w1)" using assms(2) same1(1) by simp
  note c = counters_success [OF 2 this, THEN conjunct1] counters_success [OF 2 this, THEN conjunct2]
  have 3: "retireMissingRulesTx d (map cn_ID ?cs) (fst w2, snd w2) = (Inr (), w3)" using 3 by simp
  note r = retire_success [OF 3 c(2)]
  have u4: "untouched (fst w3) (fst w4)" by (rule health_success [where n = "snd w3"], unfold prod.collapse, rule 4)
  note same4 = untouched_ok [OF u4]
  have 5: "pruneTx d moment (fst w4, snd w4) = (Inr (), w')" using 5 by simp
  have ok4: "tables_ok (fst w4)" using r(3) same4(1) by simp
  show "tables_ok (fst w')" by (rule prune_ok(1) [OF 5 ok4])
  have change: "change_of (fst w1) c = change_of t c" "next_rule (fst w1) ?now c = next_rule t ?now c" for c
    using same_previous [of "fst w1" c t ?now] same1(2) by simp_all
  note f = fold_counters [OF assms(3), of ?now "fst w1"]
  have "rule_of (fst w') i = rule_of (fst w3) i" using prune_ok(2) [OF 5 ok4] same4(2) by simp
  also have "\<dots> = (if i \<in> set (map cn_ID ?cs) then rule_of (fst w2) i else map_option retired (rule_of (fst w2) i))"
    by (rule r(1))
  also have "\<dots> = (case find (\<lambda>c. cn_ID c = i) ?cs of None \<Rightarrow> map_option retired (rule_of t i) | Some c \<Rightarrow> Some (next_rule t ?now c))"
  proof (cases "find (\<lambda>c. cn_ID c = i) ?cs")
    case None
    then have "i \<notin> set (map cn_ID ?cs)" by (auto simp: find_None_iff)
    then show ?thesis using f [of i] None same1(2) by (simp add: c(1))
  next
    case (Some a)
    then have "i \<in> set (map cn_ID ?cs)" by (auto simp: find_Some_iff)
    then show ?thesis using f [of i] Some change by (simp add: c(1))
  qed
  finally show "rule_of (fst w') i = (case find (\<lambda>c. cn_ID c = i) ?cs of
      None \<Rightarrow> map_option retired (rule_of t i) | Some c \<Rightarrow> Some (next_rule t ?now c))" .
  have "tb_samples (fst w4) = tb_samples t @ map (\<lambda>c. sample_row c ?now (change_of t c)) ?cs"
    using f u1 u4 r(2) change by (simp add: untouched_def c(1))
  then show "tb_samples (fst w') = filter (\<lambda>s. UnixNano (moment - DefaultRawRetention) \<le> sm_sampled_at s)
      (tb_samples t @ map (\<lambda>c. sample_row c ?now (change_of t c)) ?cs)"
    using prune_success(2) [OF 5] by simp
qed

lemma duplicate_fold: "foldE duplicate_step cs seen = Inr seen' \<Longrightarrow> distinct (map cn_ID cs) \<and> set (map cn_ID cs) \<inter> set seen = {}"
  by (induction cs arbitrary: seen) (fastforce simp: duplicate_step_def split: if_split_asm)+

lemma RecordSnapshot_success:
  assumes "RecordSnapshot d moment snapshot (t, n) = (Inr u, w')"
  obtains v m w1 where "distinct (map cn_ID (ns_Counters snapshot))"
    "recordTx d moment snapshot (t, m) = (Inr v, w1)" "fst w' = fst w1"
proof -
  from assms obtain seen where "foldE duplicate_step (ns_Counters snapshot) [] = Inr seen"
    and tx: "transaction d ''begin telemetry sample transaction: %w'' ''commit telemetry sample: %w'' (recordTx d moment snapshot) (t, n) = (Inr u, w')"
    by (auto simp: RecordSnapshot_def tx_Inr split: if_split_asm)
  then have "distinct (map cn_ID (ns_Counters snapshot))" using duplicate_fold by blast
  then show ?thesis using transaction_rollback [OF tx] that by auto
qed

lemma RecordSnapshot_failure:
  assumes "RecordSnapshot d moment snapshot (t, n) = (Inl e, w')"
  shows "fst w' = t"
proof (cases "foldE duplicate_step (ns_Counters snapshot) []")
  case (Inl x)
  then show ?thesis using assms by (auto simp: RecordSnapshot_def bindW_def liftW_def failW_def split: if_split_asm)
next
  case (Inr seen)
  show ?thesis
  proof (cases "moment = 0 \<or> ns_Fingerprint snapshot = []")
    case False
    then have "transaction d ''begin telemetry sample transaction: %w'' ''commit telemetry sample: %w'' (recordTx d moment snapshot) (t, n) = (Inl e, w')"
      using assms Inr by (auto simp: RecordSnapshot_def bindW_def liftW_def)
    from transaction_rollback [OF this] show ?thesis by simp
  qed (use assms in \<open>auto simp: RecordSnapshot_def failW_def\<close>)
qed

text \<open>C32: Recording a snapshot is all or nothing.  When it fails, for whatever reason, every table is as it
  was.  When it succeeds, each counter's rule holds the counter's values and is active, every rule without a
  counter is retired with its values kept, one sample per counter is appended, samples older than the
  retention are gone, and the tables keep their invariant.\<close>

theorem recording_is_atomic:
  assumes "tables_ok t" and "RecordSnapshot d moment snapshot (t, n) = (result, w')"
  shows "case result of
      Inl _ \<Rightarrow> fst w' = t
    | Inr _ \<Rightarrow> tables_ok (fst w') \<and>
        (\<forall>i. rule_of (fst w') i = (case find (\<lambda>c. cn_ID c = i) (ns_Counters snapshot) of
           None \<Rightarrow> map_option retired (rule_of t i) | Some c \<Rightarrow> Some (next_rule t (UnixNano moment) c))) \<and>
        tb_samples (fst w') = filter (\<lambda>s. UnixNano (moment - DefaultRawRetention) \<le> sm_sampled_at s)
          (tb_samples t @ map (\<lambda>c. sample_row c (UnixNano moment) (change_of t c)) (ns_Counters snapshot))"
proof (cases result)
  case (Inl e)
  then show ?thesis using RecordSnapshot_failure assms(2) by auto
next
  case (Inr u)
  obtain v m w1 where "distinct (map cn_ID (ns_Counters snapshot))" "recordTx d moment snapshot (t, m) = (Inr v, w1)" "fst w' = fst w1"
    using RecordSnapshot_success [OF assms(2) [unfolded Inr]] by blast
  then show ?thesis using record_stages [OF _ assms(1)] by (simp add: Inr)
qed

section \<open>Runs\<close>

text \<open>A run of the collector: snapshots and health errors at any times, with any failures of the
  driver.\<close>

inductive telemetry_run :: "Tables \<Rightarrow> bool" where
  start: "telemetry_run empty_tables"
| snapshot: "telemetry_run t \<Longrightarrow> RecordSnapshot d moment snap (t, n) = (result, t', n') \<Longrightarrow> telemetry_run t'"
| failure: "telemetry_run t \<Longrightarrow> RecordHealthError d moment message (t, n) = (result, t', n') \<Longrightarrow> telemetry_run t'"

lemma snapshot_ok:
  assumes "tables_ok t" "RecordSnapshot d moment snap (t, n) = (result, w')"
  shows "tables_ok (fst w')"
proof (cases result)
  case (Inl e)
  then show ?thesis using RecordSnapshot_failure assms by auto
next
  case (Inr u)
  obtain v m w1 where "distinct (map cn_ID (ns_Counters snap))" "recordTx d moment snap (t, m) = (Inr v, w1)" "fst w' = fst w1"
    using RecordSnapshot_success [OF assms(2) [unfolded Inr]] by blast
  then show ?thesis using record_stages(1) [OF _ assms(1)] by simp
qed

lemma health_error_untouched:
  assumes "RecordHealthError d moment message (t, n) = (result, w')"
  shows "untouched t (fst w')"
proof (cases message)
  case (Some msg)
  with assms have tx: "transaction d ''begin telemetry health transaction: %w'' ''commit telemetry health: %w''
      (forW (\<lambda>(key, value). setHealthTx d key value) [(''status'', ''degraded''), (''last_attempt_at'', itoa (UnixNano moment)),
        (''last_error'', take 512 (joinWith '' '' (Fields msg)))]) (t, n) = (result, w')"
    by (simp only: RecordHealthError_def option.case)
  show ?thesis
  proof (cases result)
    case (Inl e)
    then show ?thesis using transaction_rollback [OF tx] by (simp add: untouched_def)
  next
    case (Inr u)
    with transaction_rollback [OF tx] obtain v w1 where body: "forW (\<lambda>(key, value). setHealthTx d key value)
        [(''status'', ''degraded''), (''last_attempt_at'', itoa (UnixNano moment)),
         (''last_error'', take 512 (joinWith '' '' (Fields msg)))] (t, Suc n) = (Inr v, w1)" and "fst w' = fst w1"
      by (auto simp del: forW.simps)
    then show ?thesis using health_success [OF body] by simp
  qed
qed (use assms in \<open>auto simp: RecordHealthError_def failW_def untouched_def\<close>)

lemma run_tables_ok: "telemetry_run t \<Longrightarrow> tables_ok t"
proof (induction rule: telemetry_run.induct)
  case start
  show ?case by (simp add: tables_ok_def empty_tables_def)
next
  case (snapshot t d moment snap n result t' n')
  then show ?case using snapshot_ok by fastforce
next
  case (failure t d moment message n result t' n')
  from untouched_ok(1) [OF health_error_untouched [OF failure.hyps(2)]] failure.IH show ?case by simp
qed

section \<open>Progress\<close>

text \<open>A snapshot that fits the rules on record: an identifier and a comment always belong together.\<close>

definition fits :: "Tables \<Rightarrow> Counter \<Rightarrow> bool" where
  "fits t c \<longleftrightarrow> (\<forall>r \<in> set (tb_rules t). rr_id r = cn_ID c \<longleftrightarrow> rr_comment r = cn_Rule c)"

abbreviation "working \<equiv> (\<lambda>_. None) :: driver"

lemma exec_working: "f (fst w) = Some t' \<Longrightarrow> exec working fmt args f w = (Inr (), t', snd w + 1)"
  by (simp add: exec_def)

lemma epoch_fresh:
  assumes "tables_ok t" "ch_reset (change_of t c) \<noteq> 0"
  shows "(cn_ID c, ch_epoch (change_of t c)) \<notin> (\<lambda>e. (ep_rule_id e, ep_epoch e)) ` set (tb_epochs t)"
proof
  assume "(cn_ID c, ch_epoch (change_of t c)) \<in> (\<lambda>e. (ep_rule_id e, ep_epoch e)) ` set (tb_epochs t)"
  then obtain e where e: "e \<in> set (tb_epochs t)" "ep_rule_id e = cn_ID c" "ep_epoch e = ch_epoch (change_of t c)" by auto
  with assms(1) obtain r where r: "rule_of t (cn_ID c) = Some r" "ep_epoch e \<le> rr_epoch r"
    by (auto simp: tables_ok_def list_all_iff)
  have "ch_epoch (change_of t c) = rr_epoch r + 1"
    using change_deltas(4) [of "previous t c" c] assms(2) previous_ok(2) [OF assms(1) r(1)] by (simp add: change_of_def)
  then show False using e(3) r(2) by simp
qed

lemma counter_progress:
  assumes ok: "tables_ok t" and fit: "fits t c"
  shows "\<exists>m. counterTx working now c (t, n) = (Inr (), apply_counter now c t, m)"
proof -
  note p = previous_ok [OF ok, of c]
  have taken: "\<not> comment_taken (cn_ID c) (cn_Rule c) t'" if "tb_rules t' = tb_rules t" for t'
    using fit that by (auto simp: comment_taken_def fits_def list_ex_iff)
  have known: "pr_comment (previous t c) = cn_Rule c" if "pr_exists (previous t c)"
    using p(2,3) that fit rule_of_id by (cases "rule_of t (cn_ID c)") (auto simp: fits_def)
  have new: "\<not> list_ex (\<lambda>o'. rr_id o' = cn_ID c \<or> rr_comment o' = cn_Rule c) (tb_rules t)" if "rule_of t (cn_ID c) = None"
    using that fit rule_of_None [of t "cn_ID c"] by (force simp: list_ex_iff fits_def)
  note exists = previous_exists [OF p(1)]
  have read: "previousRuleTx working (cn_ID c) (t, n) = (Inr (previous t c), t, Suc n)"
    by (simp add: previousRuleTx_def bindW_def query_def liftW_def p(1))
  define t1 where "t1 = t\<lparr>tb_epochs := tb_epochs t @ (if ch_reset (change_of t c) = 0 then []
    else [epoch_row c now (previous t c) (change_of t c)])\<rparr>"
  have epoch: "\<exists>m. epochTx working c now (previous t c) (change_of t c) (t, Suc n) = (Inr (), t1, m)"
    using epoch_fresh [OF ok, of c]
    by (auto simp: epochTx_def pureW_def exec_def insert_epoch_def epoch_row_def t1_def)
  have "\<exists>t2. (if pr_exists (previous t c)
      then (if comment_taken (cn_ID c) (cn_Rule c) t1 then None else Some (update_rule (cn_ID c) (observed_rule c now (change_of t c)) t1))
      else insert_rule (inserted_rule c now (change_of t c)) t1) = Some t2 \<and> rule_of t2 (cn_ID c) \<noteq> None"
  proof (cases "rule_of t (cn_ID c)")
    case None
    then show ?thesis
      using new exists by (simp add: insert_rule_def t1_def rule_of_def find_append split: option.split)
  next
    case (Some r)
    then have "rule_of t1 (cn_ID c) = Some r" by (simp add: t1_def rule_of_def)
    then show ?thesis using taken [of t1] exists Some by (simp add: rule_of_update t1_def)
  qed
  then obtain t2 where t2: "(if pr_exists (previous t c)
      then (if comment_taken (cn_ID c) (cn_Rule c) t1 then None else Some (update_rule (cn_ID c) (observed_rule c now (change_of t c)) t1))
      else insert_rule (inserted_rule c now (change_of t c)) t1) = Some t2" "rule_of t2 (cn_ID c) \<noteq> None" by blast
  have upsert: "upsertRuleTx working c now (change_of t c) (pr_exists (previous t c)) (t1, m) = (Inr (), t2, Suc m)" for m
    using t2(1) by (auto simp: upsertRuleTx_def exec_def split: if_split_asm)
  have sample: "exec working fmt args (insert_sample (sample_row c now (change_of t c))) (t2, m) =
      (Inr (), t2\<lparr>tb_samples := tb_samples t2 @ [sample_row c now (change_of t c)]\<rparr>, Suc m)" for fmt args m
    using t2(2) by (simp add: exec_def insert_sample_def)
  have run: "\<exists>w'. counterTx working now c (t, n) = (Inr (), w')"
    using epoch known by (auto simp: counterTx_def bindW_def Let_def read upsert sample change_of_def [symmetric])
  then obtain w' where w': "counterTx working now c (t, n) = (Inr (), w')" by blast
  then show ?thesis using counter_success(1) [OF w'] by (metis prod.collapse)
qed

lemma fits_apply:
  assumes "tables_ok t" "fits t c" "fits t c'" "cn_ID c \<noteq> cn_ID c'" "cn_Rule c \<noteq> cn_Rule c'"
  shows "fits (apply_counter now c t) c'"
proof -
  have "\<not> comment_taken (cn_ID c) (cn_Rule c) t" using assms(2) by (auto simp: comment_taken_def fits_def list_ex_iff)
  moreover have "rr_comment r = cn_Rule c" if "rule_of t (cn_ID c) = Some r" for r
    using assms(2) rule_of_id [OF that] by (auto simp: fits_def)
  moreover have "cn_Rule c \<notin> rr_comment ` set (tb_rules t)" if "rule_of t (cn_ID c) = None"
    using assms(2) that rule_of_None [of t "cn_ID c"] by (force simp: fits_def)
  ultimately have keys: "set (map (\<lambda>r. (rr_id r, rr_comment r)) (tb_rules (apply_counter now c t))) =
      insert (cn_ID c, cn_Rule c) (set (map (\<lambda>r. (rr_id r, rr_comment r)) (tb_rules t)))"
    using rules_apply_keys [OF assms(1), of c now] by (cases "rule_of t (cn_ID c)") auto
  have pairs: "(rr_id r, rr_comment r) = (cn_ID c, cn_Rule c) \<or> (\<exists>r' \<in> set (tb_rules t). rr_id r = rr_id r' \<and> rr_comment r = rr_comment r')"
    if "r \<in> set (tb_rules (apply_counter now c t))" for r
  proof -
    have "(rr_id r, rr_comment r) \<in> set (map (\<lambda>r. (rr_id r, rr_comment r)) (tb_rules (apply_counter now c t)))" using that by simp
    then show ?thesis unfolding keys by auto
  qed
  show ?thesis unfolding fits_def
  proof
    fix r assume "r \<in> set (tb_rules (apply_counter now c t))"
    from pairs [OF this] show "rr_id r = cn_ID c' \<longleftrightarrow> rr_comment r = cn_Rule c'"
      using assms(3-5) by (auto simp: fits_def)
  qed
qed

lemma counters_progress:
  assumes "tables_ok t" "\<And>c. c \<in> set cs \<Longrightarrow> fits t c" "distinct (map cn_ID cs)" "distinct (map cn_Rule cs)"
  shows "\<exists>w'. forW (counterTx working now) cs (t, n) = (Inr (), w')"
  using assms
proof (induction cs arbitrary: t n)
  case (Cons c cs)
  have fit: "fits t c" using Cons.prems(2) by simp
  obtain m where step: "counterTx working now c (t, n) = (Inr (), apply_counter now c t, m)"
    using counter_progress [OF Cons.prems(1) fit] by blast
  note facts = counter_success [OF step]
  have "tables_ok (apply_counter now c t)" by (rule apply_counter_ok [OF Cons.prems(1) facts(2,3)])
  moreover have "fits (apply_counter now c t) c'" if "c' \<in> set cs" for c'
    by (rule fits_apply [OF Cons.prems(1) fit]) (use Cons.prems(2-4) that in \<open>force+\<close>)
  ultimately have "\<exists>w'. forW (counterTx working now) cs (apply_counter now c t, m) = (Inr (), w')"
    using Cons.prems(3,4) by (intro Cons.IH) simp_all
  then show ?case using step by (auto simp: bindW_def)
qed (simp add: pureW_def)

lemma forW_total:
  "(\<And>x w. x \<in> set xs \<Longrightarrow> \<exists>w'. f x w = (Inr (), w')) \<Longrightarrow> \<exists>w'. forW f xs w = (Inr (), w')"
proof (induction xs arbitrary: w)
  case (Cons x xs)
  obtain w1 where w1: "f x w = (Inr (), w1)" using Cons.prems by fastforce
  have "\<exists>w'. forW f xs w1 = (Inr (), w')" by (rule Cons.IH) (use Cons.prems in simp)
  then show ?case using w1 by (auto simp: bindW_def)
qed (simp add: pureW_def)

lemma health_total: "\<exists>w'. setHealthTx working k v w = (Inr (), w')"
  by (simp add: setHealthTx_def exec_def)

lemma ruleset_total: "\<exists>w'. rulesetTx working now snap w = (Inr (), w')"
  by (auto simp: rulesetTx_def bindW_def healthTx_def pureW_def exec_def insert_event_def setHealthTx_def)

lemma retire_total: "\<exists>w'. retireMissingRulesTx working seen w = (Inr (), w')"
proof -
  have "\<exists>w'. forW (\<lambda>ident. exec working ''retire telemetry rule %q: %w'' [ident]
      (\<lambda>t. Some (update_rule ident retired t))) missing w = (Inr (), w')" for missing w
    by (rule forW_total) (simp add: exec_def)
  then show ?thesis by (simp add: retireMissingRulesTx_def bindW_def query_def)
qed

lemma prune_total: "\<exists>w'. pruneTx working moment w = (Inr (), w')"
  unfolding pruneTx_def Let_def by (rule forW_total) (auto simp: exec_def)

lemma record_progress:
  assumes "tables_ok t" "\<And>c. c \<in> set (ns_Counters snap) \<Longrightarrow> fits t c"
    and "distinct (map cn_ID (ns_Counters snap))" "distinct (map cn_Rule (ns_Counters snap))"
  shows "\<exists>w'. recordTx working moment snap (t, n) = (Inr (), w')"
proof -
  obtain w1 where 1: "rulesetTx working (UnixNano moment) snap (t, n) = (Inr (), w1)" using ruleset_total by blast
  note same = ruleset_success [OF 1]
  have "fits (fst w1) c" if "c \<in> set (ns_Counters snap)" for c
    using assms(2) [OF that] same by (simp add: fits_def untouched_def)
  then obtain w2 where 2: "forW (counterTx working (UnixNano moment)) (ns_Counters snap) (fst w1, snd w1) = (Inr (), w2)"
    using counters_progress [of "fst w1" "ns_Counters snap"] assms untouched_ok(1) [OF same] by blast
  obtain w3 where 3: "retireMissingRulesTx working (map cn_ID (ns_Counters snap)) w2 = (Inr (), w3)" using retire_total by blast
  let ?kvs = "[(''status'', ''healthy''), (''last_attempt_at'', itoa (UnixNano moment)), (''last_success_at'', itoa (UnixNano moment)),
    (''last_error'', []), (''last_fingerprint'', ns_Fingerprint snap)]"
  have "\<exists>w4. forW (\<lambda>(key, value). setHealthTx working key value) ?kvs w3 = (Inr (), w4)"
    by (rule forW_total) (use health_total in \<open>auto split: prod.split\<close>)
  then obtain w4 where 4: "forW (\<lambda>(key, value). setHealthTx working key value) ?kvs w3 = (Inr (), w4)" by blast
  obtain w5 where 5: "pruneTx working moment w4 = (Inr (), w5)" using prune_total by blast
  from 1 2 3 4 5 have "recordTx working moment snap (t, n) = (Inr (), w5)"
    unfolding recordTx_def Let_def bindW_Inr by (metis prod.collapse)
  then show ?thesis by blast
qed

text \<open>C33: The recorder never blocks itself.  In every run, whatever failed before, recording a snapshot with
  a time and a fingerprint succeeds on a working database as soon as its rules have distinct identifiers and
  comments that agree with the rules on record: no stored text is unreadable and no table constraint is
  violated.\<close>

theorem recording_succeeds:
  assumes "telemetry_run t" and "moment \<noteq> 0" "ns_Fingerprint snap \<noteq> []"
    and "distinct (map cn_ID (ns_Counters snap))" "distinct (map cn_Rule (ns_Counters snap))"
    and "\<And>c r. c \<in> set (ns_Counters snap) \<Longrightarrow> r \<in> set (tb_rules t) \<Longrightarrow> rr_id r = cn_ID c \<longleftrightarrow> rr_comment r = cn_Rule c"
  shows "\<exists>w'. RecordSnapshot (\<lambda>_. None) moment snap (t, n) = (Inr (), w')"
proof -
  have "\<exists>seen'. foldE duplicate_step cs seen = Inr seen'" if "distinct (map cn_ID cs)" "set (map cn_ID cs) \<inter> set seen = {}" for cs seen
    using that
  proof (induction cs arbitrary: seen)
    case (Cons c cs)
    then have "\<exists>seen'. foldE duplicate_step cs (cn_ID c # seen) = Inr seen'" by (intro Cons.IH) auto
    moreover have "duplicate_step c seen = Inr (cn_ID c # seen)" using Cons.prems by (simp add: duplicate_step_def)
    ultimately show ?case by simp
  qed simp
  then obtain seen where "foldE duplicate_step (ns_Counters snap) [] = Inr seen" using assms(4) by fastforce
  moreover have "fits t c" if "c \<in> set (ns_Counters snap)" for c using assms(6) that by (auto simp: fits_def)
  then obtain w' where "recordTx working moment snap (t, Suc n) = (Inr (), w')"
    using record_progress [OF run_tables_ok [OF assms(1)] _ assms(4,5)] by blast
  ultimately show ?thesis
    using assms(2,3) by (simp add: RecordSnapshot_def bindW_def liftW_def transaction_def)
qed

text \<open>C34: Deltas are exact and never wrap.  In every run a successful recording leaves one sample at its time
  for each counter: for an active rule whose counters did not go back, the old value plus the delta is the
  new value, as numbers, in the same epoch; for a rule that came back or was reset the deltas are zero and a
  new epoch starts; for a new rule they are zero.\<close>

theorem counter_deltas_exact:
  assumes "telemetry_run t" and "RecordSnapshot d moment snap (t, n) = (Inr u, w')" and "c \<in> set (ns_Counters snap)"
  shows "\<exists>s pd bd. s \<in> set (tb_samples (fst w')) \<and> sm_rule_id s = cn_ID c \<and> sm_sampled_at s = UnixNano moment \<and>
    sm_packet_delta s = decimal pd \<and> sm_byte_delta s = decimal bd \<and>
    (case rule_of t (cn_ID c) of
       None \<Rightarrow> pd = 0 \<and> bd = 0 \<and> sm_epoch s = 0
     | Some r \<Rightarrow> \<exists>p b. rr_last_packets r = decimal p \<and> rr_last_bytes r = decimal b \<and>
         (if rr_active r = 1 \<and> p \<le> cn_Packets c \<and> b \<le> cn_Bytes c
          then unat p + unat pd = unat (cn_Packets c) \<and> unat b + unat bd = unat (cn_Bytes c) \<and> sm_epoch s = rr_epoch r
          else pd = 0 \<and> bd = 0 \<and> sm_epoch s = rr_epoch r + 1))"
proof -
  note ok = run_tables_ok [OF assms(1)]
  obtain v m w1 where "distinct (map cn_ID (ns_Counters snap))" "recordTx d moment snap (t, m) = (Inr v, w1)" "fst w' = fst w1"
    using RecordSnapshot_success [OF assms(2)] by blast
  then have samples: "tb_samples (fst w') = filter (\<lambda>s. UnixNano (moment - DefaultRawRetention) \<le> sm_sampled_at s)
      (tb_samples t @ map (\<lambda>c. sample_row c (UnixNano moment) (change_of t c)) (ns_Counters snap))"
    using record_stages(3) [OF _ ok] by simp
  let ?s = "sample_row c (UnixNano moment) (change_of t c)"
  have "UnixNano (moment - DefaultRawRetention) \<le> UnixNano moment" by (simp add: UnixNano_def Hour_def)
  then have s: "?s \<in> set (tb_samples (fst w'))" unfolding samples using assms(3) by (simp add: sample_row_def)
  show ?thesis
  proof (cases "rule_of t (cn_ID c)")
    case None
    then have "change_of t c = counter_change no_previous c" using previous_ok(3) [OF ok] by (simp add: change_of_def)
    with s None show ?thesis by (intro exI [of _ ?s]) (simp add: sample_row_def counter_change_def)
  next
    case (Some r)
    then obtain p b where texts: "rr_last_packets r = decimal p" "rr_last_bytes r = decimal b" and active: "rr_active r \<in> {0, 1}"
      using ok rule_of_id [OF Some] by (auto simp: tables_ok_def list_all_iff rule_ok_def)
    then have "previous t c = \<lparr>pr_exists = True, pr_active = (rr_active r \<noteq> 0), pr_comment = rr_comment r, pr_packets = p,
        pr_bytes = b, pr_epoch = rr_epoch r\<rparr>"
      using Some by (simp add: previous_def previous_of_def)
    then have change: "change_of t c = counter_change \<lparr>pr_exists = True, pr_active = (rr_active r \<noteq> 0), pr_comment = rr_comment r,
        pr_packets = p, pr_bytes = b, pr_epoch = rr_epoch r\<rparr> c"
      by (simp add: change_of_def)
    have exact: "if rr_active r = 1 \<and> p \<le> cn_Packets c \<and> b \<le> cn_Bytes c
        then unat p + unat (ch_packetDelta (change_of t c)) = unat (cn_Packets c) \<and>
          unat b + unat (ch_byteDelta (change_of t c)) = unat (cn_Bytes c) \<and> sm_epoch ?s = rr_epoch r
        else ch_packetDelta (change_of t c) = 0 \<and> ch_byteDelta (change_of t c) = 0 \<and> sm_epoch ?s = rr_epoch r + 1"
      using active word_difference [of p "cn_Packets c"] word_difference [of b "cn_Bytes c"]
      by (auto simp: sample_row_def change counter_change_def not_less not_le)
    have ex: "\<exists>p b. rr_last_packets r = decimal p \<and> rr_last_bytes r = decimal b \<and>
        (if rr_active r = 1 \<and> p \<le> cn_Packets c \<and> b \<le> cn_Bytes c
         then unat p + unat (ch_packetDelta (change_of t c)) = unat (cn_Packets c) \<and>
           unat b + unat (ch_byteDelta (change_of t c)) = unat (cn_Bytes c) \<and> sm_epoch ?s = rr_epoch r
         else ch_packetDelta (change_of t c) = 0 \<and> ch_byteDelta (change_of t c) = 0 \<and> sm_epoch ?s = rr_epoch r + 1)"
      using texts exact by blast
    from s have row: "?s \<in> set (tb_samples (fst w')) \<and> sm_rule_id ?s = cn_ID c \<and> sm_sampled_at ?s = UnixNano moment \<and>
        sm_packet_delta ?s = decimal (ch_packetDelta (change_of t c)) \<and> sm_byte_delta ?s = decimal (ch_byteDelta (change_of t c))"
      by (simp add: sample_row_def)
    show ?thesis
      by (rule exI [of _ ?s], rule exI [of _ "ch_packetDelta (change_of t c)"], rule exI [of _ "ch_byteDelta (change_of t c)"])
         (simp only: row Some ex option.case simp_thms)
  qed
qed

section \<open>A concrete run\<close>

definition demo_counter :: Counter where
  "demo_counter = \<lparr>cn_Rule = ''boetticher allow dns'', cn_ID = ''allow-dns'', cn_Kind = ''allow'', cn_Family = ''inet'',
     cn_Table = ''lab'', cn_Chain = ''forward'', cn_Packets = 5, cn_Bytes = 400\<rparr>"

definition demo_snapshot :: NFTSnapshot where
  "demo_snapshot = \<lparr>ns_Counters = [demo_counter], ns_Fingerprint = ''f'', ns_OwnedObjectCount = 3\<rparr>"

theorem recording_succeeds_witness:
  "\<exists>w'. RecordSnapshot (\<lambda>_. None) 1 demo_snapshot (empty_tables, 0) = (Inr (), w')"
  by (rule recording_succeeds [OF telemetry_run.start]) (simp_all add: demo_snapshot_def empty_tables_def)

lemma demo_recorded: "\<exists>w'. RecordSnapshot (\<lambda>_. None) 1 demo_snapshot (empty_tables, 0) = (Inr (), w')"
  by (simp add: RecordSnapshot_def demo_snapshot_def duplicate_step_def bindW_def liftW_def transaction_def)
     (use record_progress [of empty_tables demo_snapshot 1 1] in \<open>auto simp: demo_snapshot_def tables_ok_def empty_tables_def fits_def\<close>)

theorem recording_is_atomic_witness:
  "\<exists>w'. RecordSnapshot (\<lambda>_. None) 1 demo_snapshot (empty_tables, 0) = (Inr (), w') \<and> tables_ok (fst w') \<and>
     rule_of (fst w') ''allow-dns'' = Some (next_rule empty_tables (UnixNano 1) demo_counter)"
proof -
  obtain w' where run: "RecordSnapshot (\<lambda>_. None) 1 demo_snapshot (empty_tables, 0) = (Inr (), w')" using demo_recorded by blast
  have "tables_ok empty_tables" by (simp add: tables_ok_def empty_tables_def)
  from recording_is_atomic [OF this run] run show ?thesis
    by (auto simp: demo_snapshot_def demo_counter_def)
qed

theorem counter_deltas_exact_witness:
  "\<exists>w' s. RecordSnapshot (\<lambda>_. None) 1 demo_snapshot (empty_tables, 0) = (Inr (), w') \<and> s \<in> set (tb_samples (fst w')) \<and>
     sm_packet_delta s = decimal 0"
proof -
  obtain w' where run: "RecordSnapshot (\<lambda>_. None) 1 demo_snapshot (empty_tables, 0) = (Inr (), w')" using demo_recorded by blast
  have "rule_of empty_tables i = None" for i by (simp add: rule_of_def empty_tables_def)
  then show ?thesis
    using counter_deltas_exact [OF telemetry_run.start run, of demo_counter] run by (auto simp: demo_snapshot_def)
qed

end
