(* ===== verification/Spec2Isabelle.thy ===== *)
theory Spec2Isabelle
  imports Incidents Composition Uci_Fixpoint Openwrt_Correct Appliance_Deploy
    Router_Correct Companion Telemetry_Correct
begin

text \<open>
  Boetticher builds and maintains a single-node Proxmox lab from one site file and one service
  configuration.  This development models the part of it that decides \<^emph>\<open>what\<close> the lab shall be and
  brings the firewall appliance there, and the durable queue of incidents; it proves that what is
  accepted is safe to build and that what is reconciled is what was composed.

  \<^bold>\<open>The program's parts and how they interact.\<close>
  The operator's site file becomes a \<open>SiteConfig\<close> and, by \<open>BaseSite\<close>, a \<open>Site\<close>
  (\<^verbatim>\<open>src/internal/model\<close>).  \<open>Compose\<close> (\<^verbatim>\<open>src/internal/modules\<close>) resolves which
  compiled-in modules are enabled, adds their guests and declarations, and validates the result with
  \<open>Site.Validate\<close>; the declarations name the secrets a module needs and the image it is built
  from (\<^verbatim>\<open>src/internal/artifacts\<close>).  The service configuration (\<^verbatim>\<open>src/internal/clientservices\<close>)
  says which DNS, DHCP, VPN, media, tailnet and observability services run.  Site and services together
  give the desired state of the firewall appliance (\<^verbatim>\<open>src/internal/firewallmodule\<close>: \<open>desired.go\<close>,
  \<open>services.go\<close>, \<open>vpn.go\<close>, \<open>safety.go\<close>, \<open>composer.go\<close>), which \<open>ReconcileAppliance\<close>
  (\<open>appliance_reconcile.go\<close>, \<open>reconcile.go\<close>, \<open>tailnet.go\<close>) stages package by package through
  the ubus client of \<^verbatim>\<open>src/internal/openwrt\<close>.  Beside this line stand the Bifrost model router
  (\<^verbatim>\<open>src/internal/bifrost\<close>) and the incident store (\<^verbatim>\<open>src/internal/observability/incidents\<close>).

  \<^bold>\<open>Theories and sources.\<close>
  \<^item> \<^verbatim>\<open>Prelude\<close>, \<^verbatim>\<open>Go_Std\<close>, \<^verbatim>\<open>Go_Text\<close>, \<^verbatim>\<open>Netip\<close>: errors as sums,
    loops with early returns (\<open>foldE\<close>, \<open>mapE\<close>, \<open>allE\<close>, \<open>checks\<close>), the used parts of
    \<^verbatim>\<open>strings\<close>, \<^verbatim>\<open>strconv\<close>, \<^verbatim>\<open>sort\<close>, \<^verbatim>\<open>net\<close> and
    \<^verbatim>\<open>net/netip\<close>, and their laws.  \<^verbatim>\<open>Effects\<close>: operations on an outside world with a
    Hoare logic that speaks of both exits.
  \<^item> \<^verbatim>\<open>Site_Model\<close> (structs and constants of \<^verbatim>\<open>model.go\<close>, \<^verbatim>\<open>config.go\<close>),
    \<^verbatim>\<open>Site_Config\<close> (\<open>BaseSite\<close>, \<open>ConfigFromSite\<close>, the module settings, the Bifrost contract),
    \<^verbatim>\<open>Site_Validate\<close> (\<open>Site.Validate\<close> and all it calls), \<^verbatim>\<open>Site_Safety\<close> (what validation
    guarantees).
  \<^item> \<^verbatim>\<open>Registry\<close> (\<^verbatim>\<open>registry.go\<close>), \<^verbatim>\<open>Resolution\<close> and
    \<^verbatim>\<open>Registry_Checks\<close> (its correctness), \<^verbatim>\<open>Artifacts\<close> (\<^verbatim>\<open>catalog.go\<close>),
    \<^verbatim>\<open>Compose\<close> (\<^verbatim>\<open>compose.go\<close>, \<^verbatim>\<open>declarations.go\<close>, \<^verbatim>\<open>secrets.go\<close>),
    \<^verbatim>\<open>Composition\<close> (its correctness).
  \<^item> \<^verbatim>\<open>Bifrost_Config\<close> (\<open>Config.Validate\<close> of the router), \<^verbatim>\<open>Client_Services\<close> and
    \<^verbatim>\<open>Client_Validate\<close> (\<^verbatim>\<open>clientservices/config.go\<close>), \<^verbatim>\<open>Client_Correct\<close>.
  \<^item> \<^verbatim>\<open>Appliance_Safety\<close> (\<^verbatim>\<open>safety.go\<close>), \<^verbatim>\<open>Appliance_Services\<close>
    (\<^verbatim>\<open>services.go\<close>), \<^verbatim>\<open>Appliance_Compose\<close> (\<^verbatim>\<open>desired.go\<close>,
    \<^verbatim>\<open>vpn.go\<close>, \<^verbatim>\<open>composer.go\<close>), \<^verbatim>\<open>Appliance_Correct\<close>;
    \<^verbatim>\<open>Native_Names\<close>, \<^verbatim>\<open>Appliance_Names\<close>, \<^verbatim>\<open>Appliance_Unique\<close> and
    \<^verbatim>\<open>Appliance_Deploy\<close> (section names never clash, so a composition can be reconciled).
  \<^item> \<^verbatim>\<open>Uci_Model\<close>, \<^verbatim>\<open>Uci_Reconcile\<close> (\<^verbatim>\<open>reconcile.go\<close>,
    \<^verbatim>\<open>tailnet.go\<close>, \<^verbatim>\<open>appliance_reconcile.go\<close>), \<^verbatim>\<open>Uci_Correct\<close>,
    \<^verbatim>\<open>Uci_Trace\<close>, \<^verbatim>\<open>Uci_Fixpoint\<close>; \<^verbatim>\<open>Openwrt_Client\<close>
    (\<^verbatim>\<open>openwrt/client.go\<close>, \<^verbatim>\<open>services.go\<close>), \<^verbatim>\<open>Openwrt_Correct\<close>.
  \<^item> \<^verbatim>\<open>Incidents\<close> (\<^verbatim>\<open>incidents/store.go\<close>).

  A Go struct is a record whose fields carry the Go name after a short prefix, an operation keeps its Go
  name, and a helper that names a part of an operation is mapped to the lines of that part.

  \<^bold>\<open>Interfaces.\<close>
  \<open>accumulating_loop\<close> is the contract of a validation loop that collects keys; each loop of the site
  validator interprets it.  \<open>uci_provider\<close> is what the reconciler relies on: how a successful call
  changes a package and what a failed one may have changed; \<open>ubus_device\<close> is what the client relies
  on.  The client discharges \<open>uci_provider\<close> from \<open>ubus_device\<close>, and \<open>rpcd_post\<close>, a device with
  an association list per package, discharges \<open>ubus_device\<close>, so no theorem is vacuous.

  \<^bold>\<open>What the theorems show.\<close>
  Reconciliation refines one update per package, only ever behind the safety checks, and has a reconciled
  package as its fixed point; compositions are well formed, isolate the zones, and admit only validated
  VPN clients.  A valid service configuration has a collision-free address plan and only names that
  resolve.  A valid site has unique guests, reservations and names, an acyclic alias graph and firewall
  rules that spare the protected core; it survives being written back.  Resolution enables what it should,
  in an order that respects dependencies, and terminates.  The incident store keeps its invariant and its
  budget in every run, under every clock and every pattern of database failures.  A few theorems show where
  the code does not do what its comments say.

  \<^bold>\<open>Bounds and fuel.\<close>
  \<open>visit\<close> recurses with fuel one above the number of active names: every call marks a new name, so a
  validated registry never runs out (\<^verbatim>\<open>deployment_order_terminates\<close>).  \<open>closure_loop\<close> ends
  because the set of active names grows within the definitions, and \<open>alias_walk\<close> because the path does
  within the alias map.  \<open>reserve_loop\<close> retries for as long as the database refuses; it takes fuel, and
  the theorems say how much is enough and when none is.  All other loops follow a list.  Machine integers
  keep their width where it matters: octets and ports are words; Go's \<open>int\<close> is \<open>int\<close> because no
  modelled computation leaves 64 bits.

  \<^bold>\<open>Parameters.\<close>
  \<open>url.Parse\<close>, SHA-256, the embedded build bundle, the HTTPS transport with the appliance behind it, the
  verification callbacks, the clock and the failures of the database are arguments.  The order in which Go
  iterates a map that a loop extends is an argument (\<open>sched\<close>); where a map is only read, the list that
  stands for it has the order Go happens to take.  Texts are byte lists; case mapping is that of ASCII,
  which agrees with Go on every name the program accepts.  A \<open>float64\<close> is a rational number, an infinity or
  NaN.

  \<^bold>\<open>Not modelled.\<close>
  The commands of \<^verbatim>\<open>src/cmd\<close> and \<^verbatim>\<open>src/internal/cli\<close> parse flags, print and call the
  packages below them.  \<^verbatim>\<open>proxmox\<close>, \<^verbatim>\<open>ansible\<close>, \<^verbatim>\<open>controller\<close>,
  \<^verbatim>\<open>observability\<close> apart from the incident store, \<^verbatim>\<open>tailnet\<close>, \<^verbatim>\<open>arrstack\<close>,
  \<^verbatim>\<open>firewalltelemetry\<close> and the host half of \<^verbatim>\<open>firewallmodule\<close> drive external programs over
  SSH and HTTP and their behaviour is that of the programs they call.  \<^verbatim>\<open>pki\<close>, \<^verbatim>\<open>secrets\<close>,
  \<^verbatim>\<open>storage\<close>, \<^verbatim>\<open>pathguard\<close> and \<^verbatim>\<open>site\<close> are file system and cryptography calls.
  \<^verbatim>\<open>streamdeck\<close> and \<^verbatim>\<open>controllerstatus\<close> drive a device.  Reading YAML
  (\<^verbatim>\<open>model/yaml.go\<close>) belongs to a third-party decoder.
\<close>

end
